(* ===== verification/Prelude.thy ===== *)
theory Prelude
  imports Complex_Main "HOL-Library.AList" "HOL-Library.List_Lexorder" "HOL-Library.Char_ord"
begin

text \<open>
  Shared vocabulary of the development.

  \<^item> Results: a Python function that may raise is a function into \<open>'e + 'a\<close>, with
    \<open>Inl\<close> for the exception. \<open>andThen\<close> runs the next statement when the previous
    one did not raise; \<open>need\<close> is a guard (\<^verbatim>\<open>if not c: raise e\<close>); \<open>each\<close> and
    \<open>foldR\<close> are the bodies of \<^verbatim>\<open>for\<close> loops whose statements may raise.
  \<^item> Dictionaries: a Python \<^verbatim>\<open>dict\<close> keeps insertion order and an assignment to a
    present key keeps its position, which is what \<open>AList.update\<close> does.
  \<^item> Strings: a Python \<^verbatim>\<open>str\<close> is represented by the bytes of its UTF-8 encoding.
    Equality, concatenation, \<^verbatim>\<open>in\<close>, \<^verbatim>\<open>startswith\<close> and the order of \<^verbatim>\<open>sorted\<close>
    agree with those of the bytes, and \<^verbatim>\<open>encode\<close> is the identity; where the code
    counts characters the models use \<open>py_len\<close>, which does not count continuation
    bytes.
\<close>

named_theorems result_simps \<open>equations and equivalences for results that may be exceptions\<close>

section \<open>Results that may be exceptions\<close>

definition andThen :: "'e + 'a \<Rightarrow> ('a \<Rightarrow> 'e + 'b) \<Rightarrow> 'e + 'b" where
  "andThen r f = (case r of Inl e \<Rightarrow> Inl e | Inr x \<Rightarrow> f x)"

definition need :: "bool \<Rightarrow> 'e \<Rightarrow> 'e + unit" where
  "need c e = (if c then Inr () else Inl e)"

lemma andThen_Inl [simp, result_simps]: "andThen (Inl e) f = Inl e"
  by (simp add: andThen_def)

lemma andThen_Inr [simp, result_simps]: "andThen (Inr x) f = f x"
  by (simp add: andThen_def)

lemma andThen_eq_Inr [result_simps]:
  "andThen r f = Inr y \<longleftrightarrow> (\<exists>x. r = Inr x \<and> f x = Inr y)"
  by (cases r) simp_all

lemma andThen_eq_Inl [result_simps]:
  "andThen r f = Inl e \<longleftrightarrow> r = Inl e \<or> (\<exists>x. r = Inr x \<and> f x = Inl e)"
  by (cases r) auto

lemma andThen_cong [fundef_cong]:
  "r = r' \<Longrightarrow> (\<And>x. r' = Inr x \<Longrightarrow> f x = f' x) \<Longrightarrow> andThen r f = andThen r' f'"
  by (cases r') simp_all

lemma need_eq_Inr [simp, result_simps]: "need c e = Inr u \<longleftrightarrow> c"
  by (simp add: need_def)

lemma need_eq_Inl [simp, result_simps]: "need c e = Inl e' \<longleftrightarrow> \<not> c \<and> e' = e"
  by (auto simp: need_def)

fun each :: "('a \<Rightarrow> 'e + unit) \<Rightarrow> 'a list \<Rightarrow> 'e + unit" where
  "each f [] = Inr ()"
| "each f (x # xs) = andThen (f x) (\<lambda>_. each f xs)"

fun foldR :: "('s \<Rightarrow> 'a \<Rightarrow> 'e + 's) \<Rightarrow> 's \<Rightarrow> 'a list \<Rightarrow> 'e + 's" where
  "foldR f s [] = Inr s"
| "foldR f s (x # xs) = andThen (f s x) (\<lambda>s'. foldR f s' xs)"

lemma each_eq_Inr [simp, result_simps]:
  "each f xs = Inr u \<longleftrightarrow> (\<forall>x \<in> set xs. f x = Inr ())"
  by (induction xs) (auto simp: andThen_eq_Inr)

lemma each_eq_InlD: "each f xs = Inl e \<Longrightarrow> \<exists>x \<in> set xs. f x = Inl e"
  by (induction xs) (auto simp: andThen_eq_Inl)

lemma each_cong [fundef_cong]:
  "xs = ys \<Longrightarrow> (\<And>x. x \<in> set ys \<Longrightarrow> f x = g x) \<Longrightarrow> each f xs = each g ys"
  by (induction xs arbitrary: ys) (auto intro: andThen_cong)

lemma foldR_invariant:
  assumes "foldR f s xs = Inr t" and "P s"
    and "\<And>s x s'. x \<in> set xs \<Longrightarrow> P s \<Longrightarrow> f s x = Inr s' \<Longrightarrow> P s'"
  shows "P t"
  using assms by (induction xs arbitrary: s) (auto simp: andThen_eq_Inr)

lemma foldR_append:
  "foldR f s (xs @ ys) = andThen (foldR f s xs) (\<lambda>s'. foldR f s' ys)"
proof (induction xs arbitrary: s)
  case Nil
  then show ?case by simp
next
  case (Cons x xs)
  then show ?case by (cases "f s x") simp_all
qed

section \<open>Dictionaries\<close>

type_synonym ('k, 'v) dict = "('k \<times> 'v) list"

abbreviation dget :: "('k, 'v) dict \<Rightarrow> 'k \<Rightarrow> 'v option" where
  "dget d k \<equiv> map_of d k"

abbreviation dset :: "'k \<Rightarrow> 'v \<Rightarrow> ('k, 'v) dict \<Rightarrow> ('k, 'v) dict" where
  "dset \<equiv> AList.update"

abbreviation ddel :: "'k \<Rightarrow> ('k, 'v) dict \<Rightarrow> ('k, 'v) dict" where
  "ddel \<equiv> AList.delete"

abbreviation dkeys :: "('k, 'v) dict \<Rightarrow> 'k list" where
  "dkeys d \<equiv> map fst d"

definition dget_or :: "'v \<Rightarrow> ('k, 'v) dict \<Rightarrow> 'k \<Rightarrow> 'v" where
  "dget_or v d k = (case dget d k of None \<Rightarrow> v | Some w \<Rightarrow> w)"

text \<open>\<^verbatim>\<open>{**base, **over}\<close>\<close>
definition dmerge :: "('k, 'v) dict \<Rightarrow> ('k, 'v) dict \<Rightarrow> ('k, 'v) dict" where
  "dmerge base over = fold (\<lambda>(k, v). dset k v) over base"

text \<open>\<^verbatim>\<open>d.setdefault(k, v)\<close>, as a statement\<close>
definition dsetdefault :: "'k \<Rightarrow> 'v \<Rightarrow> ('k, 'v) dict \<Rightarrow> ('k, 'v) dict" where
  "dsetdefault k v d = (if dget d k = None then dset k v d else d)"

abbreviation dict_ok :: "('k, 'v) dict \<Rightarrow> bool" where
  "dict_ok d \<equiv> distinct (map fst d)"

text \<open>What the components rely on of a dictionary, as an interface.\<close>

locale dictionary =
  fixes lookup :: "'d \<Rightarrow> 'k \<Rightarrow> 'v option"
    and assign :: "'k \<Rightarrow> 'v \<Rightarrow> 'd \<Rightarrow> 'd"
    and remove :: "'k \<Rightarrow> 'd \<Rightarrow> 'd"
    and keys :: "'d \<Rightarrow> 'k list"
    and ok :: "'d \<Rightarrow> bool"
  assumes lookup_assign: "lookup (assign k v d) = (lookup d)(k \<mapsto> v)"
    and lookup_remove: "lookup (remove k d) = (lookup d)(k := None)"
    and keys_dom: "set (keys d) = dom (lookup d)"
    and ok_assign: "ok d \<Longrightarrow> ok (assign k v d)"
    and ok_remove: "ok d \<Longrightarrow> ok (remove k d)"
begin

lemma assign_other: "k \<noteq> k' \<Longrightarrow> lookup (assign k v d) k' = lookup d k'"
  by (simp add: lookup_assign)

lemma assign_all_lookup:
  "lookup (fold (\<lambda>(k, v). assign k v) kvs d) = lookup d ++ map_of (rev kvs)"
  by (induction kvs arbitrary: d) (auto simp: lookup_assign map_add_def fun_eq_iff split: option.splits)

lemma assign_all_ok: "ok d \<Longrightarrow> ok (fold (\<lambda>(k, v). assign k v) kvs d)"
  by (induction kvs arbitrary: d) (auto simp: ok_assign)

lemma keys_assign: "set (keys (assign k v d)) = insert k (set (keys d))"
  by (simp add: keys_dom lookup_assign)

lemma keys_remove: "set (keys (remove k d)) = set (keys d) - {k}"
  by (simp add: keys_dom lookup_remove)

end

interpretation py_dict: dictionary "map_of" "AList.update" "AList.delete" "map fst" "\<lambda>d. distinct (map fst d)"
proof unfold_locales
  show "map_of (AList.update k v d) = (map_of d)(k \<mapsto> v)" for k v and d :: "('k \<times> 'v) list"
    by (rule update_conv')
  show "map_of (AList.delete k d) = (map_of d)(k := None)" for k and d :: "('k \<times> 'v) list"
    by (rule delete_conv')
  show "set (map fst d) = dom (map_of d)" for d :: "('k \<times> 'v) list"
    by (simp add: dom_map_of_conv_image_fst)
  show "distinct (map fst d) \<Longrightarrow> distinct (map fst (AList.update k v d))" for k v and d :: "('k \<times> 'v) list"
    by (rule distinct_update)
  show "distinct (map fst d) \<Longrightarrow> distinct (map fst (AList.delete k d))" for k and d :: "('k \<times> 'v) list"
    by (rule distinct_delete)
qed

lemmas dict_simps = py_dict.lookup_assign py_dict.lookup_remove

lemma dget_dmerge: "dget (dmerge base over) = dget base ++ map_of (rev over)"
  unfolding dmerge_def by (rule py_dict.assign_all_lookup)

lemma dict_ok_dmerge: "dict_ok base \<Longrightarrow> dict_ok (dmerge base over)"
  unfolding dmerge_def by (rule py_dict.assign_all_ok)

lemma dget_dsetdefault:
  "dget (dsetdefault k v d) = (if dget d k = None then (dget d)(k \<mapsto> v) else dget d)"
  by (simp add: dsetdefault_def update_conv' fun_eq_iff)

end
