(* ===== verification/Py_Strings.thy ===== *)
theory Py_Strings
  imports Prelude
begin

text \<open>
  The string operations of Python the code uses, on the UTF-8 bytes of a \<^verbatim>\<open>str\<close>:
  \<^verbatim>\<open>startswith\<close>, \<^verbatim>\<open>in\<close>, \<^verbatim>\<open>replace\<close>, \<^verbatim>\<open>join\<close>, \<^verbatim>\<open>len\<close> and the decimal form of a number in an
  f-string. The lemmas are the ones the components share: what a replacement leaves of
  the replaced text, and that decimal forms are injective and free of separators.
\<close>

section \<open>Length, prefixes and substrings\<close>

definition cont_byte :: "char \<Rightarrow> bool" where
  "cont_byte c \<longleftrightarrow> 128 \<le> (of_char c :: nat) \<and> (of_char c :: nat) < 192"

definition py_len :: "string \<Rightarrow> nat" where
  "py_len s = length (filter (\<lambda>c. \<not> cont_byte c) s)"

definition starts_with :: "string \<Rightarrow> string \<Rightarrow> bool" where
  "starts_with p s \<longleftrightarrow> take (length p) s = p"

fun str_in :: "string \<Rightarrow> string \<Rightarrow> bool" where
  "str_in p [] = (p = [])"
| "str_in p (c # s) = (starts_with p (c # s) \<or> str_in p s)"

lemma starts_with_iff: "starts_with p s \<longleftrightarrow> (\<exists>t. s = p @ t)"
  by (metis append_eq_conv_conj append_take_drop_id starts_with_def)

lemma starts_with_Nil [simp]: "starts_with [] s"
  by (simp add: starts_with_def)

lemma starts_with_Cons [simp]:
  "starts_with (a # p) [] = False"
  "starts_with (a # p) (b # s) = (a = b \<and> starts_with p s)"
  by (auto simp: starts_with_def)

lemma starts_with_append [simp]: "starts_with p (p @ s)"
  by (simp add: starts_with_def)

lemma starts_with_trans: "starts_with p q \<Longrightarrow> starts_with q s \<Longrightarrow> starts_with p s"
  by (auto simp: starts_with_iff)

lemma str_in_iff: "str_in p s \<longleftrightarrow> (\<exists>u v. s = u @ p @ v)"
proof (induction s)
  case Nil
  then show ?case by auto
next
  case (Cons c s)
  show ?case
  proof
    assume "str_in p (c # s)"
    then consider "starts_with p (c # s)" | "str_in p s" by auto
    then show "\<exists>u v. c # s = u @ p @ v"
    proof cases
      case 1
      then show ?thesis by (metis append_Nil starts_with_iff)
    next
      case 2
      with Cons.IH obtain u v where "s = u @ p @ v" by blast
      then have "c # s = (c # u) @ p @ v" by simp
      then show ?thesis by blast
    qed
  next
    assume "\<exists>u v. c # s = u @ p @ v"
    then obtain u v where eq: "c # s = u @ p @ v" by blast
    show "str_in p (c # s)"
    proof (cases u)
      case Nil
      with eq have "starts_with p (c # s)" by (auto simp: starts_with_iff)
      then show ?thesis by simp
    next
      case (Cons d u')
      with eq have "s = u' @ p @ v" by simp
      with Cons.IH show ?thesis by auto
    qed
  qed
qed

section \<open>Replacement\<close>

text \<open>
  \<^verbatim>\<open>s.replace(old, new)\<close> for a non-empty \<^verbatim>\<open>old\<close>: leftmost occurrences first, scanning on
  behind each replaced one. (No caller passes an empty \<^verbatim>\<open>old\<close>.)
\<close>
function str_replace :: "string \<Rightarrow> string \<Rightarrow> string \<Rightarrow> string" where
  "str_replace [] new s = s"
| "str_replace (a # old) new [] = []"
| "str_replace (a # old) new (c # s) =
     (if starts_with (a # old) (c # s)
      then new @ str_replace (a # old) new (drop (length old) s)
      else c # str_replace (a # old) new s)"
  by pat_completeness auto
termination
  by (relation "measure (\<lambda>(old, new, s). length s)") auto

lemma str_replace_absent:
  assumes "\<not> str_in old s"
  shows "str_replace old new s = s"
  using assms by (induction old new s rule: str_replace.induct) auto

text \<open>
  The scan is unaffected by what it emitted: with \<open>old\<close> made of characters that do not
  occur in \<open>new\<close>, no occurrence of \<open>old\<close> is left behind, not even across the border
  of an inserted \<open>new\<close>.
\<close>

lemma occurrence_split:
  assumes "u @ p @ v = xs @ ys" and "p \<noteq> []" and "set p \<inter> set xs = {}"
  shows "\<exists>u'. ys = u' @ p @ v"
proof -
  have "length xs \<le> length u"
  proof (rule ccontr)
    assume "\<not> length xs \<le> length u"
    then have lt: "length u < length xs" by simp
    have "(u @ p @ v) ! length u = hd p"
      using assms(2) by (simp add: nth_append hd_conv_nth)
    moreover have "(xs @ ys) ! length u = xs ! length u"
      using lt by (simp add: nth_append)
    ultimately have "hd p = xs ! length u"
      using assms(1) by simp
    then have "hd p \<in> set xs" using lt by simp
    with assms(2,3) show False by (metis disjoint_iff hd_in_set)
  qed
  then have "drop (length xs) (u @ p @ v) = drop (length xs) u @ p @ v" by simp
  moreover have "drop (length xs) (xs @ ys) = ys" by simp
  ultimately show ?thesis using assms(1) by metis
qed

lemma starts_with_replace:
  assumes "starts_with q (str_replace old new s)" and "old \<noteq> []" and "set q \<inter> set new = {}"
    and "new \<noteq> []"
  shows "starts_with q s"
  using assms
proof (induction old new s arbitrary: q rule: str_replace.induct)
  case (3 a old new c s)
  show ?case
  proof (cases "q = []")
    case False
    then obtain d q' where q: "q = d # q'" by (cases q) auto
    show ?thesis
    proof (cases "starts_with (a # old) (c # s)")
      case True
      with "3.prems"(1) q have "starts_with (d # q') (new @ str_replace (a # old) new (drop (length old) s))"
        by simp
      with "3.prems"(4) have "d \<in> set new" by (cases new) auto
      with "3.prems"(3) q show ?thesis by simp
    next
      case nomatch: False
      with "3.prems"(1) q have "d = c" and "starts_with q' (str_replace (a # old) new s)"
        by (auto split: if_splits)
      moreover have "starts_with q' s"
        using "3.IH"(2) [OF nomatch calculation(2)] "3.prems" q by auto
      ultimately show ?thesis using q by simp
    qed
  qed simp
qed auto

lemma str_replace_removes:
  assumes "old \<noteq> []" and "new \<noteq> []" and "set old \<inter> set new = {}"
  shows "\<not> str_in old (str_replace old new s)"
  using assms
proof (induction old new s rule: str_replace.induct)
  case (3 a old new c s)
  let ?old = "a # old"
  show ?case
  proof (cases "starts_with ?old (c # s)")
    case True
    show ?thesis
    proof
      assume "str_in ?old (str_replace ?old new (c # s))"
      with True have "str_in ?old (new @ str_replace ?old new (drop (length old) s))" by simp
      then obtain u v where "u @ ?old @ v = new @ str_replace ?old new (drop (length old) s)"
        by (auto simp: str_in_iff)
      then have "str_in ?old (str_replace ?old new (drop (length old) s))"
        using occurrence_split [of u ?old v new] "3.prems" by (auto simp: str_in_iff)
      with "3.IH"(1) [OF True] "3.prems" show False by simp
    qed
  next
    case False
    then have rep: "str_replace ?old new (c # s) = c # str_replace ?old new s" by auto
    have "\<not> starts_with ?old (str_replace ?old new (c # s))"
      using starts_with_replace [of ?old ?old new "c # s"] "3.prems" False by blast
    moreover have "\<not> str_in ?old (str_replace ?old new s)"
      using "3.IH"(2) [OF False] "3.prems" by blast
    ultimately show ?thesis unfolding rep by simp
  qed
qed auto

section \<open>Joining and decimal forms\<close>

fun str_join :: "string \<Rightarrow> string list \<Rightarrow> string" where
  "str_join sep [] = []"
| "str_join sep [s] = s"
| "str_join sep (s # t # ss) = s @ sep @ str_join sep (t # ss)"

definition digit_char :: "nat \<Rightarrow> char" where
  "digit_char n = char_of (48 + n)"

fun show_nat :: "nat \<Rightarrow> string" where
  "show_nat n = (if n < 10 then [digit_char n] else show_nat (n div 10) @ [digit_char (n mod 10)])"

declare show_nat.simps [simp del]

definition show_int :: "int \<Rightarrow> string" where
  "show_int i = (if i < 0 then CHR ''-'' # show_nat (nat (- i)) else show_nat (nat i))"

definition is_digit :: "char \<Rightarrow> bool" where
  "is_digit c \<longleftrightarrow> 48 \<le> (of_char c :: nat) \<and> (of_char c :: nat) \<le> 57"

definition digit_value :: "char \<Rightarrow> nat" where
  "digit_value c = of_char c - 48"

definition read_nat :: "string \<Rightarrow> nat" where
  "read_nat s = foldl (\<lambda>n c. 10 * n + digit_value c) 0 s"

lemma of_digit_char: "n < 10 \<Longrightarrow> (of_char (digit_char n) :: nat) = 48 + n"
  by (simp add: digit_char_def)

lemma is_digit_char: "n < 10 \<Longrightarrow> is_digit (digit_char n)"
  by (simp add: is_digit_def of_digit_char)

lemma digit_value_char [simp]: "n < 10 \<Longrightarrow> digit_value (digit_char n) = n"
  by (simp add: digit_value_def of_digit_char)

lemma show_nat_digits: "\<forall>c \<in> set (show_nat n). is_digit c"
  by (induction n rule: show_nat.induct) (subst show_nat.simps, auto intro: is_digit_char)

lemma show_nat_nonempty [simp]: "show_nat n \<noteq> []"
  by (subst show_nat.simps) simp

lemma read_show_nat [simp]: "read_nat (show_nat n) = n"
proof (induction n rule: show_nat.induct)
  case (1 n)
  show ?case
  proof (cases "n < 10")
    case True
    then show ?thesis by (simp add: show_nat.simps [of n] read_nat_def)
  next
    case False
    with 1 have "read_nat (show_nat (n div 10)) = n div 10" by simp
    with False show ?thesis by (simp add: show_nat.simps [of n] read_nat_def)
  qed
qed

lemma show_nat_inject [simp]: "show_nat m = show_nat n \<longleftrightarrow> m = n"
  by (metis read_show_nat)

lemma not_digit_in_show_nat: "\<not> is_digit c \<Longrightarrow> c \<notin> set (show_nat n)"
  using show_nat_digits by blast

end
