(* ===== verification/Json.thy ===== *)
theory Json
  imports Py_Strings
begin

text \<open>
  JSON documents as Python holds them after \<^verbatim>\<open>json.loads\<close>, and what the code does with
  such values: equality, ordering, truth, membership and subscripting. A finite float
  is its exact value (a rational); negative zero is not told apart from zero. A failing
  operation (\<^verbatim>\<open>TypeError\<close>, \<^verbatim>\<open>KeyError\<close>, \<^verbatim>\<open>IndexError\<close>) is \<open>None\<close>.
\<close>

datatype json =
    JNull
  | JBool bool
  | JInt int
  | JFloat rat
  | JStr string
  | JList "json list"
  | JObj "(string \<times> json) list"

abbreviation JNat :: "nat \<Rightarrow> json" where
  "JNat n \<equiv> JInt (int n)"

section \<open>Type tests and conversions\<close>

fun num_of :: "json \<Rightarrow> rat option" where
  "num_of (JBool b) = Some (if b then 1 else 0)"
| "num_of (JInt i) = Some (of_int i)"
| "num_of (JFloat r) = Some r"
| "num_of _ = None"

fun is_mapping :: "json \<Rightarrow> bool" where
  "is_mapping (JObj _) = True"
| "is_mapping _ = False"

fun is_str :: "json \<Rightarrow> bool" where
  "is_str (JStr _) = True"
| "is_str _ = False"

text \<open>\<^verbatim>\<open>bool(value)\<close>\<close>
fun truthy :: "json \<Rightarrow> bool" where
  "truthy JNull = False"
| "truthy (JBool b) = b"
| "truthy (JInt i) = (i \<noteq> 0)"
| "truthy (JFloat r) = (r \<noteq> 0)"
| "truthy (JStr s) = (s \<noteq> [])"
| "truthy (JList xs) = (xs \<noteq> [])"
| "truthy (JObj ms) = (ms \<noteq> [])"

text \<open>\<^verbatim>\<open>value.get(key)\<close> on a mapping, with \<open>None\<close> for an absent key.\<close>
fun jget :: "json \<Rightarrow> string \<Rightarrow> json option" where
  "jget (JObj ms) k = dget ms k"
| "jget _ k = None"

fun members :: "json \<Rightarrow> (string \<times> json) list" where
  "members (JObj ms) = ms"
| "members _ = []"

fun elements :: "json \<Rightarrow> json list" where
  "elements (JList xs) = xs"
| "elements _ = []"

abbreviation jget_or :: "json \<Rightarrow> json \<Rightarrow> string \<Rightarrow> json" where
  "jget_or v s k \<equiv> (case jget s k of None \<Rightarrow> v | Some w \<Rightarrow> w)"

section \<open>Equality\<close>

text \<open>
  \<^verbatim>\<open>==\<close> compares numbers by value (so \<^verbatim>\<open>True == 1 == 1.0\<close>), lists element by element and
  dictionaries regardless of the order of their members.
\<close>
fun py_eq :: "json \<Rightarrow> json \<Rightarrow> bool"
  and py_eq_list :: "json list \<Rightarrow> json list \<Rightarrow> bool"
  and py_eq_members :: "(string \<times> json) list \<Rightarrow> (string \<times> json) list \<Rightarrow> bool" where
  "py_eq JNull w = (w = JNull)"
| "py_eq (JBool b) w = (num_of w = Some (if b then 1 else 0))"
| "py_eq (JInt i) w = (num_of w = Some (of_int i))"
| "py_eq (JFloat r) w = (num_of w = Some r)"
| "py_eq (JStr s) w = (w = JStr s)"
| "py_eq (JList xs) w = (case w of JList ys \<Rightarrow> py_eq_list xs ys | _ \<Rightarrow> False)"
| "py_eq (JObj ms) w =
     (case w of JObj ns \<Rightarrow> length ms = length ns \<and> py_eq_members ms ns | _ \<Rightarrow> False)"
| "py_eq_list [] ys = (ys = [])"
| "py_eq_list (x # xs) ys = (case ys of [] \<Rightarrow> False | y # ys' \<Rightarrow> py_eq x y \<and> py_eq_list xs ys')"
| "py_eq_members [] ns = True"
| "py_eq_members ((k, v) # ms) ns =
     ((case dget ns k of None \<Rightarrow> False | Some w \<Rightarrow> py_eq v w) \<and> py_eq_members ms ns)"

text \<open>A document that came from a dictionary or a parser has no repeated member names.\<close>
fun json_wf :: "json \<Rightarrow> bool"
  and json_wf_list :: "json list \<Rightarrow> bool"
  and json_wf_members :: "(string \<times> json) list \<Rightarrow> bool" where
  "json_wf (JList xs) = json_wf_list xs"
| "json_wf (JObj ms) = (dict_ok ms \<and> json_wf_members ms)"
| "json_wf _ = True"
| "json_wf_list [] = True"
| "json_wf_list (x # xs) = (json_wf x \<and> json_wf_list xs)"
| "json_wf_members [] = True"
| "json_wf_members ((k, v) # ms) = (json_wf v \<and> json_wf_members ms)"

lemma py_eq_membersI:
  "(\<And>k v. (k, v) \<in> set ms \<Longrightarrow> \<exists>w. dget ns k = Some w \<and> py_eq v w) \<Longrightarrow> py_eq_members ms ns"
  by (induction ms) fastforce+

lemma py_eq_members_iff:
  "py_eq_members ms ns \<longleftrightarrow> (\<forall>(k, v) \<in> set ms. \<exists>w. dget ns k = Some w \<and> py_eq v w)"
  by (induction ms) (auto split: option.splits)

lemma py_eq_list_iff: "py_eq_list xs ys \<longleftrightarrow> list_all2 py_eq xs ys"
  by (induction xs arbitrary: ys) (auto split: list.splits)

lemma json_wf_list_iff: "json_wf_list xs \<longleftrightarrow> (\<forall>x \<in> set xs. json_wf x)"
  by (induction xs) auto

lemma json_wf_members_iff: "json_wf_members ms \<longleftrightarrow> (\<forall>(k, v) \<in> set ms. json_wf v)"
  by (induction ms) auto

lemma py_eq_refl_mutual:
  "json_wf v \<Longrightarrow> py_eq v v"
  "json_wf_list xs \<Longrightarrow> py_eq_list xs xs"
  "json_wf_members ms \<Longrightarrow> \<forall>(k, w) \<in> set ms. py_eq w w"
proof (induction v and xs and ms rule: json_wf_json_wf_list_json_wf_members.induct)
  case (2 ms)
  then show ?case by (fastforce simp: py_eq_members_iff)
qed auto

lemma py_eq_refl: "json_wf v \<Longrightarrow> py_eq v v"
  by (rule py_eq_refl_mutual)

section \<open>Ordering\<close>

datatype order_op = OpLt | OpLe | OpGt | OpGe

fun order_on :: "order_op \<Rightarrow> 'a::linorder \<Rightarrow> 'a \<Rightarrow> bool" where
  "order_on OpLt x y = (x < y)"
| "order_on OpLe x y = (x \<le> y)"
| "order_on OpGt x y = (x > y)"
| "order_on OpGe x y = (x \<ge> y)"

text \<open>
  \<^verbatim>\<open><\<close>, \<^verbatim>\<open><=\<close>, \<^verbatim>\<open>>\<close>, \<^verbatim>\<open>>=\<close>: numbers by value, strings by code point, lists at the first
  position where they differ, then by length; anything else is a \<^verbatim>\<open>TypeError\<close>.
\<close>
fun py_compare :: "order_op \<Rightarrow> json \<Rightarrow> json \<Rightarrow> bool option"
  and py_compare_list :: "order_op \<Rightarrow> json list \<Rightarrow> json list \<Rightarrow> bool option" where
  "py_compare op (JStr s) w = (case w of JStr t \<Rightarrow> Some (order_on op s t) | _ \<Rightarrow> None)"
| "py_compare op (JList xs) w = (case w of JList ys \<Rightarrow> py_compare_list op xs ys | _ \<Rightarrow> None)"
| "py_compare op JNull w = None"
| "py_compare op (JObj ms) w = None"
| "py_compare op v w =
     (case (num_of v, num_of w) of (Some x, Some y) \<Rightarrow> Some (order_on op x y) | _ \<Rightarrow> None)"
| "py_compare_list op [] ys = Some (order_on op (0::nat) (length ys))"
| "py_compare_list op (x # xs) ys =
     (case ys of
        [] \<Rightarrow> Some (order_on op (Suc (length xs)) 0)
      | y # ys' \<Rightarrow> if py_eq x y then py_compare_list op xs ys' else py_compare op x y)"

section \<open>Membership and subscripts\<close>

text \<open>\<^verbatim>\<open>right in left\<close>\<close>
fun py_in :: "json \<Rightarrow> json \<Rightarrow> bool option" where
  "py_in (JStr s) (JStr t) = Some (str_in t s)"
| "py_in (JStr s) _ = None"
| "py_in (JList xs) w = Some (list_ex (\<lambda>x. py_eq w x) xs)"
| "py_in (JObj ms) (JStr k) = Some (dget ms k \<noteq> None)"
| "py_in (JObj ms) (JList _) = None"
| "py_in (JObj ms) (JObj _) = None"
| "py_in (JObj ms) _ = Some False"
| "py_in _ _ = None"

text \<open>The selectors of a reference path.\<close>
datatype selector = Member string | Index nat

text \<open>The \<open>i\<close>-th character of a string, as a string.\<close>
fun str_char :: "string \<Rightarrow> nat \<Rightarrow> string option" where
  "str_char [] i = None"
| "str_char (c # s) i =
     (case i of
        0 \<Rightarrow> Some (c # takeWhile cont_byte s)
      | Suc j \<Rightarrow> str_char (dropWhile cont_byte s) j)"

text \<open>\<^verbatim>\<open>value[selector]\<close>\<close>
fun py_item :: "json \<Rightarrow> selector \<Rightarrow> json option" where
  "py_item (JObj ms) (Member k) = dget ms k"
| "py_item (JList xs) (Index i) = (if i < length xs then Some (xs ! i) else None)"
| "py_item (JStr s) (Index i) = map_option JStr (str_char s i)"
| "py_item _ _ = None"

fun py_path :: "json \<Rightarrow> selector list \<Rightarrow> json option" where
  "py_path v [] = Some v"
| "py_path v (x # xs) = (case py_item v x of None \<Rightarrow> None | Some w \<Rightarrow> py_path w xs)"

lemma py_path_append:
  "py_path v (xs @ ys) = (case py_path v xs of None \<Rightarrow> None | Some w \<Rightarrow> py_path w ys)"
  by (induction xs arbitrary: v) (auto split: option.splits)

lemma py_compare_irrefl_num:
  "num_of v = Some x \<Longrightarrow> py_compare OpLt v v = Some False"
  by (cases v) auto

lemma py_compare_flip_num:
  assumes "num_of v \<noteq> None"
  shows "py_compare OpGt v w = py_compare OpLt w v"
  using assms by (cases v; cases w) (auto split: option.splits)

end
