(* ===== verification/Json_Text.thy ===== *)
theory Json_Text
  imports Json
begin

text \<open>
  The text form of JSON: \<^verbatim>\<open>json.dumps\<close> with the separators \<^verbatim>\<open>(",", ":")\<close>, with and without
  \<^verbatim>\<open>ensure_ascii\<close> and \<^verbatim>\<open>sort_keys\<close>, and \<^verbatim>\<open>json.loads\<close> with a hook for the members of an object.
  The conversion between a float and its shortest decimal form is the platform's: it is
  the parameter \<open>float_io\<close>. The main result is the round trip
  \<open>loads (dumps v) = v\<close>, from which \<open>dumps\<close> is injective.
\<close>

section \<open>UTF-8\<close>

definition utf8_enc :: "nat \<Rightarrow> string" where
  "utf8_enc n =
     (if n < 128 then [char_of n]
      else if n < 2048 then [char_of (192 + n div 64), char_of (128 + n mod 64)]
      else if n < 65536 then
        [char_of (224 + n div 4096), char_of (128 + n div 64 mod 64), char_of (128 + n mod 64)]
      else
        [char_of (240 + n div 262144), char_of (128 + n div 4096 mod 64),
         char_of (128 + n div 64 mod 64), char_of (128 + n mod 64)])"

abbreviation ord :: "char \<Rightarrow> nat" where
  "ord \<equiv> of_char"

fun utf8_dec :: "string \<Rightarrow> nat list" where
  "utf8_dec [] = []"
| "utf8_dec (a # s) =
     (if ord a < 128 then ord a # utf8_dec s
      else if ord a < 224 then
        (case s of b # s' \<Rightarrow> ((ord a - 192) * 64 + (ord b - 128)) # utf8_dec s' | _ \<Rightarrow> [ord a])
      else if ord a < 240 then
        (case s of b # c # s' \<Rightarrow>
           ((ord a - 224) * 4096 + (ord b - 128) * 64 + (ord c - 128)) # utf8_dec s'
         | _ \<Rightarrow> [ord a])
      else
        (case s of b # c # d # s' \<Rightarrow>
           ((ord a - 240) * 262144 + (ord b - 128) * 4096 + (ord c - 128) * 64 + (ord d - 128))
             # utf8_dec s'
         | _ \<Rightarrow> [ord a]))"

definition utf8_encode :: "nat list \<Rightarrow> string" where
  "utf8_encode cps = concat (map utf8_enc cps)"

text \<open>The Unicode scalar values: what strict UTF-8 can encode.\<close>
definition scalar :: "nat \<Rightarrow> bool" where
  "scalar n \<longleftrightarrow> n < 1114112 \<and> \<not> (55296 \<le> n \<and> n < 57344)"

text \<open>
  \<^verbatim>\<open>data.decode("utf-8")\<close> succeeds exactly on the encodings of scalar values; a string
  built from a lone surrogate escape is the one kind of \<^verbatim>\<open>str\<close> it excludes.
\<close>
definition utf8_ok :: "string \<Rightarrow> bool" where
  "utf8_ok s \<longleftrightarrow> list_all scalar (utf8_dec s) \<and> utf8_encode (utf8_dec s) = s"

lemma base64_digits:
  fixes n :: nat
  shows "n div 4096 * 4096 + n div 64 mod 64 * 64 + n mod 64 = n"
    and "n div 262144 * 262144 + n div 4096 mod 64 * 4096 + n div 64 mod 64 * 64 + n mod 64 = n"
proof -
  have "n div 4096 = n div 64 div 64" and "n div 262144 = n div 4096 div 64"
    by (simp_all add: div_mult2_eq [symmetric])
  moreover have "n = 64 * (n div 64) + n mod 64" by simp
  moreover have "n div 64 = 64 * (n div 64 div 64) + n div 64 mod 64" by simp
  moreover have "n div 4096 = 64 * (n div 4096 div 64) + n div 4096 mod 64" by simp
  ultimately show "n div 4096 * 4096 + n div 64 mod 64 * 64 + n mod 64 = n"
    and "n div 262144 * 262144 + n div 4096 mod 64 * 4096 + n div 64 mod 64 * 64 + n mod 64 = n"
    by linarith+
qed

lemma utf8_dec_enc_append:
  assumes "n < 1114112"
  shows "utf8_dec (utf8_enc n @ s) = n # utf8_dec s"
proof -
  consider "n < 128" | "128 \<le> n" "n < 2048" | "2048 \<le> n" "n < 65536" | "65536 \<le> n"
    by linarith
  then show ?thesis
  proof cases
    case 2
    then have "n div 64 < 32" by linarith
    then show ?thesis using 2 by (simp add: utf8_enc_def)
  next
    case 3
    then have "n div 4096 < 16" by linarith
    then show ?thesis using 3 base64_digits(1) [of n] by (simp add: utf8_enc_def)
  next
    case 4
    have "n div 262144 < 5" using assms by linarith
    then show ?thesis using 4 base64_digits(2) [of n] by (simp add: utf8_enc_def)
  qed (simp_all add: utf8_enc_def)
qed

lemma utf8_dec_encode: "\<forall>n \<in> set cps. n < 1114112 \<Longrightarrow> utf8_dec (utf8_encode cps) = cps"
  by (induction cps) (auto simp: utf8_encode_def utf8_dec_enc_append)

lemma utf8_ok_encode: "list_all scalar cps \<Longrightarrow> utf8_ok (utf8_encode cps)"
  using utf8_dec_encode [of cps] by (auto simp: utf8_ok_def list_all_iff scalar_def)

lemma utf8_ok_cases:
  assumes "utf8_ok s"
  obtains cps where "s = utf8_encode cps" and "list_all scalar cps"
  using assms by (metis utf8_ok_def)

section \<open>Printing\<close>

definition hex_digit :: "nat \<Rightarrow> char" where
  "hex_digit n = (if n < 10 then char_of (48 + n) else char_of (87 + n))"

definition hex4 :: "nat \<Rightarrow> string" where
  "hex4 n = [hex_digit (n div 4096 mod 16), hex_digit (n div 256 mod 16),
             hex_digit (n div 16 mod 16), hex_digit (n mod 16)]"

definition esc_u :: "nat \<Rightarrow> string" where
  "esc_u n = CHR 0x5C # CHR ''u'' # hex4 n"

text \<open>The escapes of \<^verbatim>\<open>ensure_ascii=False\<close>: quote, backslash and the control characters.\<close>
definition esc_raw :: "nat \<Rightarrow> string" where
  "esc_raw n =
     (if n = 34 then [CHR 0x5C, CHR 0x22]
      else if n = 92 then [CHR 0x5C, CHR 0x5C]
      else if n = 10 then [CHR 0x5C, CHR ''n'']
      else if n = 13 then [CHR 0x5C, CHR ''r'']
      else if n = 9 then [CHR 0x5C, CHR ''t'']
      else if n = 12 then [CHR 0x5C, CHR ''f'']
      else if n = 8 then [CHR 0x5C, CHR ''b'']
      else if n < 32 then esc_u n
      else utf8_enc n)"

text \<open>The escapes of \<^verbatim>\<open>ensure_ascii=True\<close>: everything outside printable ASCII as well.\<close>
definition esc_ascii :: "nat \<Rightarrow> string" where
  "esc_ascii n =
     (if n < 127 then esc_raw n
      else if n < 65536 then esc_u n
      else esc_u (55296 + (n - 65536) div 1024) @ esc_u (56320 + (n - 65536) mod 1024))"

definition json_string :: "(nat \<Rightarrow> string) \<Rightarrow> string \<Rightarrow> string" where
  "json_string esc s = CHR 0x22 # concat (map esc (utf8_dec s)) @ [CHR 0x22]"

record float_io =
  float_repr :: "rat \<Rightarrow> string"
  float_parse :: "string \<Rightarrow> rat option"

fun dumps :: "float_io \<Rightarrow> (nat \<Rightarrow> string) \<Rightarrow> json \<Rightarrow> string"
  and dumps_list :: "float_io \<Rightarrow> (nat \<Rightarrow> string) \<Rightarrow> json list \<Rightarrow> string"
  and dumps_members :: "float_io \<Rightarrow> (nat \<Rightarrow> string) \<Rightarrow> (string \<times> json) list \<Rightarrow> string" where
  "dumps io esc JNull = ''null''"
| "dumps io esc (JBool b) = (if b then ''true'' else ''false'')"
| "dumps io esc (JInt i) = show_int i"
| "dumps io esc (JFloat r) = float_repr io r"
| "dumps io esc (JStr s) = json_string esc s"
| "dumps io esc (JList xs) = CHR ''['' # dumps_list io esc xs @ '']''"
| "dumps io esc (JObj ms) = CHR ''{'' # dumps_members io esc ms @ ''}''"
| "dumps_list io esc [] = []"
| "dumps_list io esc (x # xs) =
     dumps io esc x @ (if xs = [] then [] else CHR '','' # dumps_list io esc xs)"
| "dumps_members io esc [] = []"
| "dumps_members io esc ((k, v) # ms) =
     json_string esc k @ '':'' @ dumps io esc v
       @ (if ms = [] then [] else CHR '','' # dumps_members io esc ms)"

text \<open>
  The default separators, which put a blank after each comma and colon, for an object whose
  values are numbers, strings, booleans or \<^verbatim>\<open>null\<close>.
\<close>
fun spaced_members :: "float_io \<Rightarrow> (nat \<Rightarrow> string) \<Rightarrow> (string \<times> json) list \<Rightarrow> string" where
  "spaced_members io esc [] = []"
| "spaced_members io esc ((k, v) # ms) =
     json_string esc k @ '': '' @ dumps io esc v @ (if ms = [] then [] else '', '' @ spaced_members io esc ms)"

definition dumps_flat :: "float_io \<Rightarrow> (nat \<Rightarrow> string) \<Rightarrow> (string \<times> json) list \<Rightarrow> string" where
  "dumps_flat io esc ms = CHR ''{'' # spaced_members io esc ms @ ''}''"

text \<open>\<^verbatim>\<open>sort_keys=True\<close>: the members of every object in the order of their names.\<close>
fun sort_json :: "json \<Rightarrow> json"
  and sort_json_list :: "json list \<Rightarrow> json list"
  and sort_json_members :: "(string \<times> json) list \<Rightarrow> (string \<times> json) list" where
  "sort_json (JList xs) = JList (sort_json_list xs)"
| "sort_json (JObj ms) = JObj (sort_key fst (sort_json_members ms))"
| "sort_json v = v"
| "sort_json_list [] = []"
| "sort_json_list (x # xs) = sort_json x # sort_json_list xs"
| "sort_json_members [] = []"
| "sort_json_members ((k, v) # ms) = (k, sort_json v) # sort_json_members ms"

section \<open>Parsing\<close>

fun skip_ws :: "string \<Rightarrow> string" where
  "skip_ws [] = []"
| "skip_ws (c # s) = (if c \<in> {CHR '' '', CHR 0x09, CHR 0x0A, CHR 0x0D} then skip_ws s else c # s)"

definition hex_value :: "char \<Rightarrow> nat option" where
  "hex_value c =
     (if 48 \<le> ord c \<and> ord c \<le> 57 then Some (ord c - 48)
      else if 97 \<le> ord c \<and> ord c \<le> 102 then Some (ord c - 87)
      else if 65 \<le> ord c \<and> ord c \<le> 70 then Some (ord c - 55)
      else None)"

fun read_hex4 :: "string \<Rightarrow> (nat \<times> string) option" where
  "read_hex4 (a # b # c # d # s) =
     (case (hex_value a, hex_value b, hex_value c, hex_value d) of
        (Some w, Some x, Some y, Some z) \<Rightarrow> Some (w * 4096 + x * 256 + y * 16 + z, s)
      | _ \<Rightarrow> None)"
| "read_hex4 _ = None"

fun simple_escape :: "char \<Rightarrow> string option" where
  "simple_escape c =
     (if c \<in> {CHR 0x22, CHR 0x5C, CHR ''/''} then Some [c]
      else if c = CHR ''b'' then Some [CHR 0x08]
      else if c = CHR ''f'' then Some [CHR 0x0C]
      else if c = CHR ''n'' then Some [CHR 0x0A]
      else if c = CHR ''r'' then Some [CHR 0x0D]
      else if c = CHR ''t'' then Some [CHR 0x09]
      else None)"

text \<open>A \<^verbatim>\<open>\uXXXX\<close> escape, joined with a following low surrogate escape when it is a high one.\<close>
fun unicode_escape :: "string \<Rightarrow> (nat \<times> string) option" where
  "unicode_escape s =
     (case read_hex4 s of
        None \<Rightarrow> None
      | Some (u, s') \<Rightarrow>
          if 55296 \<le> u \<and> u < 56320 then
            (case s' of
               a # b # s'' \<Rightarrow>
                 if a = CHR 0x5C \<and> b = CHR ''u'' then
                   (case read_hex4 s'' of
                      None \<Rightarrow> None
                    | Some (l, t) \<Rightarrow>
                        if 56320 \<le> l \<and> l < 57344
                        then Some (65536 + (u - 55296) * 1024 + (l - 56320), t)
                        else Some (u, s'))
                 else Some (u, s')
             | _ \<Rightarrow> Some (u, s'))
          else Some (u, s'))"

lemma read_hex4_length: "read_hex4 s = Some (n, t) \<Longrightarrow> length t < length s"
  by (cases s rule: read_hex4.cases) (auto split: option.splits)

lemma unicode_escape_length: "unicode_escape s = Some (n, t) \<Longrightarrow> length t < length s"
  by (auto split: option.splits list.splits if_splits prod.splits dest!: read_hex4_length)

text \<open>The characters of a string literal, after its opening quote.\<close>
function parse_chars :: "string \<Rightarrow> (string \<times> string) option" where
  "parse_chars [] = None"
| "parse_chars (c # s) =
     (if c = CHR 0x22 then Some ([], s)
      else if c = CHR 0x5C then
        (case s of
           [] \<Rightarrow> None
         | e # s' \<Rightarrow>
             if e = CHR ''u'' then
               (case unicode_escape s' of
                  None \<Rightarrow> None
                | Some (n, t) \<Rightarrow> map_option (\<lambda>(r, u). (utf8_enc n @ r, u)) (parse_chars t))
             else
               (case simple_escape e of
                  None \<Rightarrow> None
                | Some x \<Rightarrow> map_option (\<lambda>(r, u). (x @ r, u)) (parse_chars s')))
      else if ord c < 32 then None
      else map_option (\<lambda>(r, u). (c # r, u)) (parse_chars s))"
  by pat_completeness auto
termination
  by (relation "measure length") (auto dest!: unicode_escape_length simp del: unicode_escape.simps)

definition span_digits :: "string \<Rightarrow> string \<times> string" where
  "span_digits s = (takeWhile is_digit s, dropWhile is_digit s)"

text \<open>Python refuses to convert a decimal literal of more than 4300 digits.\<close>
definition int_literal :: "bool \<Rightarrow> string \<Rightarrow> json option" where
  "int_literal neg ds =
     (if 4300 < length ds then None
      else Some (JInt (if neg then - int (read_nat ds) else int (read_nat ds))))"

fun parse_exponent :: "string \<Rightarrow> (string \<times> string)" where
  "parse_exponent (e # s) =
     (if e = CHR ''e'' \<or> e = CHR ''E'' then
        (case s of
           [] \<Rightarrow> ([], e # s)
         | g # s' \<Rightarrow>
             if g = CHR ''+'' \<or> g = CHR ''-'' then
               (let (ds, r) = span_digits s' in if ds = [] then ([], e # s) else (e # g # ds, r))
             else
               (let (ds, r) = span_digits s in if ds = [] then ([], e # s) else (e # ds, r)))
      else ([], e # s))"
| "parse_exponent [] = ([], [])"

fun parse_fraction :: "string \<Rightarrow> (string \<times> string)" where
  "parse_fraction (p # s) =
     (if p = CHR ''.'' then
        (let (ds, r) = span_digits s in if ds = [] then ([], p # s) else (p # ds, r))
      else ([], p # s))"
| "parse_fraction [] = ([], [])"

definition parse_sign :: "string \<Rightarrow> bool \<times> string" where
  "parse_sign s = (case s of c # t \<Rightarrow> if c = CHR ''-'' then (True, t) else (False, s) | [] \<Rightarrow> (False, s))"

definition parse_int_digits :: "string \<Rightarrow> string \<times> string" where
  "parse_int_digits s =
     (case span_digits s of
        ([], r) \<Rightarrow> ([], s)
      | (d # ds, r) \<Rightarrow> if d = CHR ''0'' then ([d], ds @ r) else (d # ds, r))"

definition parse_number :: "float_io \<Rightarrow> string \<Rightarrow> (json \<times> string) option" where
  "parse_number io s =
     (case parse_sign s of (neg, s1) \<Rightarrow>
      case parse_int_digits s1 of (ds, r) \<Rightarrow>
      case parse_fraction r of (fr, r1) \<Rightarrow>
      case parse_exponent r1 of (ex, r2) \<Rightarrow>
        if ds = [] then None
        else if fr = [] \<and> ex = [] then map_option (\<lambda>v. (v, r)) (int_literal neg ds)
        else map_option (\<lambda>q. (JFloat q, r2))
               (float_parse io ((if neg then ''-'' else []) @ ds @ fr @ ex)))"

definition parse_word :: "string \<Rightarrow> json \<Rightarrow> string \<Rightarrow> (json \<times> string) option" where
  "parse_word w v s = (if starts_with w s then Some (v, drop (length w) s) else None)"

text \<open>
  \<^verbatim>\<open>json.loads\<close>: \<open>dup\<close> says whether a repeated member name is refused (the
  \<^verbatim>\<open>object_pairs_hook\<close> of the strict readers) or the last one wins. The constants
  \<^verbatim>\<open>NaN\<close> and \<^verbatim>\<open>Infinity\<close> are refused, as every reader modelled here does. The fuel bounds
  the number of nested calls; \<open>loads\<close> supplies one unit per input byte.
\<close>
fun parse_value :: "float_io \<Rightarrow> bool \<Rightarrow> nat \<Rightarrow> string \<Rightarrow> (json \<times> string) option"
  and parse_items :: "float_io \<Rightarrow> bool \<Rightarrow> nat \<Rightarrow> string \<Rightarrow> (json list \<times> string) option"
  and parse_members ::
    "float_io \<Rightarrow> bool \<Rightarrow> nat \<Rightarrow> (string \<times> json) list \<Rightarrow> string \<Rightarrow> ((string \<times> json) list \<times> string) option"
where
  "parse_value io dup 0 s = None"
| "parse_value io dup (Suc n) s =
     (case s of
        [] \<Rightarrow> None
      | c # t \<Rightarrow>
          if c = CHR 0x22 then map_option (\<lambda>(r, u). (JStr r, u)) (parse_chars t)
          else if c = CHR ''{'' then
            (case skip_ws t of
               d # u \<Rightarrow>
                 if d = CHR ''}'' then Some (JObj [], u)
                 else map_option (\<lambda>(ms, u'). (JObj ms, u')) (parse_members io dup n [] (d # u))
             | [] \<Rightarrow> None)
          else if c = CHR ''['' then
            (case skip_ws t of
               d # u \<Rightarrow>
                 if d = CHR '']'' then Some (JList [], u)
                 else map_option (\<lambda>(xs, u'). (JList xs, u')) (parse_items io dup n (d # u))
             | [] \<Rightarrow> None)
          else if c = CHR ''n'' then parse_word ''null'' JNull s
          else if c = CHR ''t'' then parse_word ''true'' (JBool True) s
          else if c = CHR ''f'' then parse_word ''false'' (JBool False) s
          else parse_number io s)"
| "parse_items io dup 0 s = None"
| "parse_items io dup (Suc n) s =
     (case parse_value io dup n s of
        None \<Rightarrow> None
      | Some (v, t) \<Rightarrow>
          (case skip_ws t of
             c # u \<Rightarrow>
               if c = CHR '']'' then Some ([v], u)
               else if c = CHR '','' then
                 map_option (\<lambda>(xs, u'). (v # xs, u')) (parse_items io dup n (skip_ws u))
               else None
           | [] \<Rightarrow> None))"
| "parse_members io dup 0 acc s = None"
| "parse_members io dup (Suc n) acc s =
     (case s of
        q # t \<Rightarrow>
          if q = CHR 0x22 then
            (case parse_chars t of
               None \<Rightarrow> None
             | Some (k, t1) \<Rightarrow>
                 if dup \<and> dget acc k \<noteq> None then None
                 else
                   (case skip_ws t1 of
                      c # t2 \<Rightarrow>
                        if c = CHR '':'' then
                          (case parse_value io dup n (skip_ws t2) of
                             None \<Rightarrow> None
                           | Some (v, t3) \<Rightarrow>
                               (case skip_ws t3 of
                                  d # t4 \<Rightarrow>
                                    if d = CHR ''}'' then Some (dset k v acc, t4)
                                    else if d = CHR '','' then
                                      parse_members io dup n (dset k v acc) (skip_ws t4)
                                    else None
                                | [] \<Rightarrow> None))
                        else None
                    | [] \<Rightarrow> None))
          else None
      | [] \<Rightarrow> None)"

definition loads :: "float_io \<Rightarrow> bool \<Rightarrow> string \<Rightarrow> json option" where
  "loads io dup s =
     (case parse_value io dup (Suc (2 * length s)) (skip_ws s) of
        None \<Rightarrow> None
      | Some (v, t) \<Rightarrow> if skip_ws t = [] then Some v else None)"

section \<open>Round trip\<close>

text \<open>What may follow a printed value: nothing, or a separator or closing bracket.\<close>
definition delim :: "string \<Rightarrow> bool" where
  "delim s \<longleftrightarrow> s = [] \<or> hd s \<in> {CHR '','', CHR '']'', CHR ''}''}"

text \<open>What may start a printed value.\<close>
definition opener :: "char \<Rightarrow> bool" where
  "opener c \<longleftrightarrow> c \<in> {CHR 0x22, CHR ''['', CHR ''{'', CHR ''n'', CHR ''t'', CHR ''f'', CHR ''-''} \<or> is_digit c"

definition float_ok :: "float_io \<Rightarrow> rat \<Rightarrow> bool" where
  "float_ok io r \<longleftrightarrow>
     (case float_repr io r of [] \<Rightarrow> False | c # _ \<Rightarrow> c = CHR ''-'' \<or> is_digit c) \<and>
     parse_number io (float_repr io r) = Some (JFloat r, [])"

text \<open>
  The documents that survive printing: unique member names, encodable strings, integers
  within the digit limit and floats whose decimal form reads back.
\<close>
fun printable :: "float_io \<Rightarrow> json \<Rightarrow> bool"
  and printable_list :: "float_io \<Rightarrow> json list \<Rightarrow> bool"
  and printable_members :: "float_io \<Rightarrow> (string \<times> json) list \<Rightarrow> bool" where
  "printable io JNull = True"
| "printable io (JBool b) = True"
| "printable io (JInt i) = (length (show_nat (nat \<bar>i\<bar>)) \<le> 4300)"
| "printable io (JFloat r) = float_ok io r"
| "printable io (JStr s) = utf8_ok s"
| "printable io (JList xs) = printable_list io xs"
| "printable io (JObj ms) = (dict_ok ms \<and> printable_members io ms)"
| "printable_list io [] = True"
| "printable_list io (x # xs) = (printable io x \<and> printable_list io xs)"
| "printable_members io [] = True"
| "printable_members io ((k, v) # ms) = (utf8_ok k \<and> printable io v \<and> printable_members io ms)"

text \<open>The contract of an escaping function: reading back what it wrote for one character.\<close>

locale json_escape =
  fixes esc :: "nat \<Rightarrow> string"
  assumes parse_esc: "scalar n \<Longrightarrow>
    parse_chars (esc n @ s) = map_option (\<lambda>(r, u). (utf8_enc n @ r, u)) (parse_chars s)"
begin

lemma parse_escaped_chars:
  "list_all scalar cps \<Longrightarrow>
    parse_chars (concat (map esc cps) @ CHR 0x22 # s) = Some (utf8_encode cps, s)"
  by (induction cps) (auto simp: utf8_encode_def parse_esc)

lemma parse_json_string:
  assumes "utf8_ok k"
  shows "\<exists>t. json_string esc k = CHR 0x22 # t \<and> parse_chars (t @ s) = Some (k, s)"
proof -
  from assms obtain cps where k: "k = utf8_encode cps" and cps: "list_all scalar cps"
    by (rule utf8_ok_cases)
  have "utf8_dec k = cps"
    using k cps by (simp add: utf8_dec_encode list_all_iff scalar_def)
  with k cps show ?thesis
    by (simp add: json_string_def parse_escaped_chars)
qed

end

lemma parse_chars_copy:
  assumes "\<forall>c \<in> set bs. 128 \<le> ord c"
  shows "parse_chars (bs @ s) = map_option (\<lambda>(r, u). (bs @ r, u)) (parse_chars s)"
  using assms
proof (induction bs)
  case Nil
  then show ?case by (simp add: option.map_ident_strong case_prod_beta)
next
  case (Cons c bs)
  then have "c \<noteq> CHR 0x22" and "c \<noteq> CHR 0x5C" and "\<not> ord c < 32" by auto
  with Cons show ?case by (simp add: option.map_comp o_def case_prod_beta)
qed

lemma hex_value_digit: "n < 16 \<Longrightarrow> hex_value (hex_digit n) = Some n"
  by (auto simp: hex_value_def hex_digit_def)

lemma read_hex4_hex4: "n < 65536 \<Longrightarrow> read_hex4 (hex4 n @ s) = Some (n, s)"
proof -
  assume n: "n < 65536"
  have "n div 4096 mod 16 * 4096 + n div 256 mod 16 * 256 + n div 16 mod 16 * 16 + n mod 16 = n"
  proof -
    have "n div 256 = n div 16 div 16" and "n div 4096 = n div 256 div 16"
      by (simp_all add: div_mult2_eq [symmetric])
    moreover have "n = 16 * (n div 16) + n mod 16" by simp
    moreover have "n div 16 = 16 * (n div 16 div 16) + n div 16 mod 16" by simp
    moreover have "n div 256 = 16 * (n div 256 div 16) + n div 256 mod 16" by simp
    moreover have "n div 4096 mod 16 = n div 4096" using n by simp
    ultimately show ?thesis by linarith
  qed
  then show ?thesis unfolding hex4_def append.simps read_hex4.simps
    by (simp only: hex_value_digit mod_less_divisor zero_less_numeral option.case prod.case)
qed

lemma char_of_eq_iff: "n < 256 \<Longrightarrow> char_of n = c \<longleftrightarrow> n = ord c"
  by auto

lemma parse_chars_plain:
  fixes n :: nat
  assumes "32 \<le> n" and "n < 128" and "n \<noteq> 34" and "n \<noteq> 92"
  shows "parse_chars (char_of n # s) = map_option (\<lambda>(r, u). (char_of n # r, u)) (parse_chars s)"
proof -
  have "char_of n \<noteq> CHR 0x22" and "char_of n \<noteq> CHR 0x5C" and "\<not> ord (char_of n) < 32"
    using assms by (auto simp: char_of_eq_iff)
  then show ?thesis by simp
qed

lemma parse_chars_esc_u:
  assumes "n < 65536" and "\<not> (55296 \<le> n \<and> n < 56320)"
  shows "parse_chars (esc_u n @ s) = map_option (\<lambda>(r, u). (utf8_enc n @ r, u)) (parse_chars s)"
proof -
  have "unicode_escape (hex4 n @ s) = Some (n, s)"
    using assms by (simp only: unicode_escape.simps read_hex4_hex4 option.case prod.case if_False)
  then show ?thesis by (simp add: esc_u_def del: unicode_escape.simps)
qed

lemma parse_chars_esc_u_pair:
  assumes "65536 \<le> n" and "n < 1114112"
  shows "parse_chars (esc_u (55296 + (n - 65536) div 1024) @ esc_u (56320 + (n - 65536) mod 1024) @ s)
    = map_option (\<lambda>(r, u). (utf8_enc n @ r, u)) (parse_chars s)"
proof -
  let ?h = "55296 + (n - 65536) div 1024" and ?l = "56320 + (n - 65536) mod 1024"
  have h: "?h < 56320" using assms by linarith
  have l: "?l < 57344" by (simp add: less_Suc_eq_le)
  have n: "65536 + (?h - 55296) * 1024 + (?l - 56320) = n" using assms by simp
  have "unicode_escape (hex4 ?h @ esc_u ?l @ s) = Some (n, s)"
    using h l n assms by (simp add: esc_u_def read_hex4_hex4 del: read_hex4.simps)
  then show ?thesis by (simp add: esc_u_def del: unicode_escape.simps)
qed

lemma utf8_enc_high: "128 \<le> n \<Longrightarrow> n < 1114112 \<Longrightarrow> \<forall>c \<in> set (utf8_enc n). 128 \<le> ord c"
proof -
  assume n: "128 \<le> n" "n < 1114112"
  have "n < 2048 \<Longrightarrow> n div 64 < 32" and "n < 65536 \<Longrightarrow> n div 4096 < 16" and "n div 262144 < 5"
    using n by linarith+
  then show ?thesis using n by (auto simp: utf8_enc_def)
qed

interpretation raw_escape: json_escape esc_raw
proof
  fix n s
  assume "scalar n"
  then have n: "n < 1114112" by (simp add: scalar_def)
  show "parse_chars (esc_raw n @ s) = map_option (\<lambda>(r, u). (utf8_enc n @ r, u)) (parse_chars s)"
  proof (cases "128 \<le> n")
    case True
    then show ?thesis using n by (simp add: esc_raw_def parse_chars_copy utf8_enc_high)
  next
    case False
    then have lt: "n < 128" by simp
    consider "n \<in> {34, 92, 10, 13, 9, 12, 8}" | "n \<notin> {34, 92, 10, 13, 9, 12, 8}" "n < 32"
      | "n \<notin> {34, 92}" "32 \<le> n" by force
    then show ?thesis
    proof cases
      case 1
      have "utf8_enc 34 = [CHR 0x22]" "utf8_enc 92 = [CHR 0x5C]" "utf8_enc 10 = [CHR 0x0A]"
        "utf8_enc 13 = [CHR 0x0D]" "utf8_enc 9 = [CHR 0x09]" "utf8_enc 12 = [CHR 0x0C]"
        "utf8_enc 8 = [CHR 0x08]"
        by (simp_all add: utf8_enc_def char_of_eq_iff)
      with 1 show ?thesis by (auto simp: esc_raw_def)
    next
      case 2
      then show ?thesis by (simp add: esc_raw_def parse_chars_esc_u)
    next
      case 3
      with lt have "esc_raw n = [char_of n]" by (simp add: esc_raw_def utf8_enc_def)
      with 3 lt show ?thesis by (simp add: parse_chars_plain utf8_enc_def del: parse_chars.simps)
    qed
  qed
qed

interpretation ascii_escape: json_escape esc_ascii
proof
  fix n s
  assume n: "scalar n"
  show "parse_chars (esc_ascii n @ s) = map_option (\<lambda>(r, u). (utf8_enc n @ r, u)) (parse_chars s)"
    using n raw_escape.parse_esc [OF n, of s] parse_chars_esc_u [of n s] parse_chars_esc_u_pair [of n s]
    by (auto simp: esc_ascii_def scalar_def)
qed

text \<open>Numbers.\<close>

lemma delim_not_digit: "delim (c # s) \<Longrightarrow> \<not> is_digit c"
  by (auto simp: delim_def is_digit_def)

lemma takeWhile_delim:
  assumes "delim rest"
  shows "takeWhile is_digit (s @ rest) = takeWhile is_digit s"
    and "dropWhile is_digit (s @ rest) = dropWhile is_digit s @ rest"
proof -
  have "rest = [] \<or> (\<exists>c t. rest = c # t \<and> \<not> is_digit c)"
    using assms delim_not_digit by (cases rest) auto
  then show "takeWhile is_digit (s @ rest) = takeWhile is_digit s"
    and "dropWhile is_digit (s @ rest) = dropWhile is_digit s @ rest"
    by (induction s) auto
qed

lemma span_digits_append:
  "delim rest \<Longrightarrow> span_digits (s @ rest) = (fst (span_digits s), snd (span_digits s) @ rest)"
  by (simp add: span_digits_def takeWhile_delim)

lemma parse_fraction_append:
  assumes "delim rest"
  shows "parse_fraction (s @ rest) = (fst (parse_fraction s), snd (parse_fraction s) @ rest)"
proof (cases s)
  case Nil
  then show ?thesis using assms by (cases rest) (auto simp: delim_def)
next
  case (Cons p t)
  then show ?thesis using assms by (simp add: span_digits_append split: prod.splits)
qed

lemma parse_exponent_append:
  assumes "delim rest"
  shows "parse_exponent (s @ rest) = (fst (parse_exponent s), snd (parse_exponent s) @ rest)"
proof (cases s rule: parse_exponent.cases)
  case 2
  then show ?thesis using assms by (cases rest) (auto simp: delim_def)
next
  case (1 e t)
  have "fst (span_digits rest) = []" and "snd (span_digits rest) = rest"
    using assms span_digits_append [of rest "[]"] by (simp_all add: span_digits_def)
  moreover have "\<not> (\<exists>c u. rest = c # u \<and> (c = CHR ''+'' \<or> c = CHR ''-''))"
    using assms by (auto simp: delim_def)
  moreover have "span_digits (a # l @ rest) = (fst (span_digits (a # l)), snd (span_digits (a # l)) @ rest)"
    for a l using span_digits_append [OF assms, of "a # l"] by simp
  ultimately show ?thesis
    using assms 1 by (cases t) (auto simp: span_digits_append Let_def split: prod.splits list.splits)
qed

lemma parse_sign_append:
  "s \<noteq> [] \<Longrightarrow> parse_sign (s @ rest) = (fst (parse_sign s), snd (parse_sign s) @ rest)"
  by (cases s) (auto simp: parse_sign_def)

lemma parse_int_digits_append:
  assumes "delim rest"
  shows "parse_int_digits (s @ rest) = (fst (parse_int_digits s), snd (parse_int_digits s) @ rest)"
  using span_digits_append [OF assms, of s]
  by (cases "span_digits s") (auto simp: parse_int_digits_def split: list.splits)

lemma parse_number_append:
  assumes "parse_number io s = Some (v, t)" and "delim rest"
  shows "parse_number io (s @ rest) = Some (v, t @ rest)"
proof -
  have s: "s \<noteq> []"
    using assms(1) by (auto simp: parse_number_def parse_sign_def parse_int_digits_def span_digits_def)
  obtain neg s1 where 1: "parse_sign s = (neg, s1)" by (cases "parse_sign s")
  obtain ds r where 2: "parse_int_digits s1 = (ds, r)" by (cases "parse_int_digits s1")
  obtain fr r1 where 3: "parse_fraction r = (fr, r1)" by (cases "parse_fraction r")
  obtain ex r2 where 4: "parse_exponent r1 = (ex, r2)" by (cases "parse_exponent r1")
  have "parse_sign (s @ rest) = (neg, s1 @ rest)" "parse_int_digits (s1 @ rest) = (ds, r @ rest)"
    "parse_fraction (r @ rest) = (fr, r1 @ rest)" "parse_exponent (r1 @ rest) = (ex, r2 @ rest)"
    using 1 2 3 4 parse_sign_append [OF s] parse_int_digits_append [OF assms(2)]
      parse_fraction_append [OF assms(2)] parse_exponent_append [OF assms(2)] by simp_all
  with assms(1) 1 2 3 4 show ?thesis
    by (auto simp: parse_number_def split: if_splits)
qed

lemma show_nat_head: "\<exists>c t. show_nat n = c # t \<and> is_digit c \<and> (c = CHR ''0'' \<longleftrightarrow> n = 0) \<and> (n = 0 \<longrightarrow> t = [])"
proof (induction n rule: show_nat.induct)
  case (1 n)
  show ?case
  proof (cases "n < 10")
    case True
    then show ?thesis
      using char_of_eq_iff [of "48 + n" "CHR ''0''"] is_digit_char [OF True]
      by (simp add: show_nat.simps [of n] digit_char_def)
  next
    case False
    with 1 obtain c t where "show_nat (n div 10) = c # t" "is_digit c" "c \<noteq> CHR ''0''"
      by fastforce
    with False show ?thesis by (simp add: show_nat.simps [of n])
  qed
qed

lemma parse_number_show_nat:
  assumes "length (show_nat n) \<le> 4300"
  shows "parse_number io (show_nat n) = Some (JInt (int n), [])"
    and "parse_number io (CHR ''-'' # show_nat n) = Some (JInt (- int n), [])"
proof -
  obtain c t where h: "show_nat n = c # t" "is_digit c" "c = CHR ''0'' \<longrightarrow> t = []"
    using show_nat_head [of n] by blast
  have sp: "span_digits (show_nat n) = (show_nat n, [])"
    using show_nat_digits [of n] by (simp add: span_digits_def takeWhile_eq_all_conv dropWhile_eq_Nil_conv)
  have c: "c \<noteq> CHR ''-''" using h(2) by (auto simp: is_digit_def)
  show "parse_number io (show_nat n) = Some (JInt (int n), [])"
    and "parse_number io (CHR ''-'' # show_nat n) = Some (JInt (- int n), [])"
    using sp h c assms read_show_nat [of n]
    by (auto simp: parse_number_def parse_sign_def parse_int_digits_def int_literal_def)
qed

lemma parse_number_show_int:
  assumes "length (show_nat (nat \<bar>i\<bar>)) \<le> 4300" and "delim rest"
  shows "parse_number io (show_int i @ rest) = Some (JInt i, rest)"
proof -
  have "parse_number io (show_int i) = Some (JInt i, [])"
    using parse_number_show_nat [of "nat \<bar>i\<bar>" io] assms(1) by (auto simp: show_int_def)
  from parse_number_append [OF this assms(2)] show ?thesis by simp
qed

lemma show_int_head: "\<exists>c t. show_int i = c # t \<and> (c = CHR ''-'' \<or> is_digit c)"
  using show_nat_head [of "nat (- i)"] show_nat_head [of "nat i"] by (auto simp: show_int_def)

text \<open>Values.\<close>

lemma skip_ws_opener:
  assumes "opener c"
  shows "skip_ws (c # s) = c # s"
proof -
  have "c \<notin> {CHR '' '', CHR 0x09, CHR 0x0A, CHR 0x0D}"
    using assms by (auto simp: opener_def is_digit_def)
  then show ?thesis by simp
qed

lemma opener_not_close: "opener c \<Longrightarrow> c \<noteq> CHR '']'' \<and> c \<noteq> CHR ''}'' \<and> c \<noteq> CHR '',''"
  by (intro conjI notI) (simp_all add: opener_def is_digit_def)

lemma dumps_head: "printable io v \<Longrightarrow> \<exists>c t. dumps io esc v = c # t \<and> opener c"
proof (cases v)
  case (JInt i)
  then show ?thesis using show_int_head [of i] by (auto simp: opener_def)
next
  case (JFloat r)
  then show "printable io v \<Longrightarrow> ?thesis"
    by (auto simp: float_ok_def opener_def split: list.splits)
qed (auto simp: json_string_def opener_def)

lemma parse_value_number:
  assumes "parse_number io (c # s) = r" and "c = CHR ''-'' \<or> is_digit c"
  shows "parse_value io dup (Suc n) (c # s) = r"
proof -
  have "c \<noteq> CHR 0x22" "c \<noteq> CHR ''{''" "c \<noteq> CHR ''[''" "c \<noteq> CHR ''n''" "c \<noteq> CHR ''t''" "c \<noteq> CHR ''f''"
    using assms(2) by (auto simp: is_digit_def)
  with assms(1) show ?thesis by simp
qed

lemma dset_fresh: "dget acc k = None \<Longrightarrow> dset k v acc = acc @ [(k, v)]"
  by (induction acc) (auto split: if_splits)

context json_escape
begin

lemma parse_dumps_mutual:
  "\<And>fuel rest. printable io v \<Longrightarrow> delim rest \<Longrightarrow> 2 * length (dumps io esc v) \<le> fuel \<Longrightarrow>
     parse_value io dup fuel (dumps io esc v @ rest) = Some (v, rest)"
  "\<And>fuel rest. printable_list io xs \<Longrightarrow> xs \<noteq> [] \<Longrightarrow> Suc (2 * length (dumps_list io esc xs)) \<le> fuel \<Longrightarrow>
     parse_items io dup fuel (dumps_list io esc xs @ CHR '']'' # rest) = Some (xs, rest)"
  "\<And>fuel rest acc. printable_members io ms \<Longrightarrow> ms \<noteq> [] \<Longrightarrow> dict_ok (acc @ ms) \<Longrightarrow>
     Suc (2 * length (dumps_members io esc ms)) \<le> fuel \<Longrightarrow>
     parse_members io dup fuel acc (dumps_members io esc ms @ CHR ''}'' # rest) = Some (acc @ ms, rest)"
proof (induction io v and io xs and io ms rule: printable_printable_list_printable_members.induct)
  case (1 io)
  then obtain n where "fuel = Suc n" by (cases fuel) auto
  then show ?case by (simp add: parse_word_def starts_with_def)
next
  case (2 io b)
  then obtain n where "fuel = Suc n" by (cases fuel) (auto split: if_splits)
  then show ?case by (simp add: parse_word_def starts_with_def)
next
  case (3 io i)
  obtain c t where h: "show_int i = c # t" "c = CHR ''-'' \<or> is_digit c" using show_int_head by blast
  with 3 obtain n where "fuel = Suc n" by (cases fuel) auto
  with 3 h parse_number_show_int [of i rest io] show ?case
    by (simp only: dumps.simps append_Cons printable.simps parse_value_number)
next
  case (4 io r)
  then obtain c t where h: "float_repr io r = c # t" "c = CHR ''-'' \<or> is_digit c"
    by (auto simp: float_ok_def split: list.splits)
  with 4 obtain n where "fuel = Suc n" by (cases fuel) auto
  moreover have "parse_number io (float_repr io r @ rest) = Some (JFloat r, rest)"
    using 4 parse_number_append [of io "float_repr io r" "JFloat r" "[]" rest] by (simp add: float_ok_def)
  ultimately show ?case using h
    by (simp only: dumps.simps append_Cons parse_value_number)
next
  case (5 io s)
  then obtain t where t: "json_string esc s = CHR 0x22 # t" "parse_chars (t @ rest) = Some (s, rest)"
    using parse_json_string by auto
  with 5 obtain n where "fuel = Suc n" by (cases fuel) auto
  with t show ?case by simp
next
  case (6 io xs)
  then obtain n where n: "fuel = Suc n" by (cases fuel) auto
  show ?case
  proof (cases xs)
    case Nil
    with n show ?thesis by simp
  next
    case (Cons x xs')
    with "6.prems" obtain c t where h: "dumps io esc x = c # t" "opener c"
      using dumps_head [of io x esc] by auto
    have "parse_items io dup n (dumps_list io esc xs @ CHR '']'' # rest) = Some (xs, rest)"
      using 6 n Cons by simp
    moreover obtain u where "dumps_list io esc xs @ CHR '']'' # rest = c # u"
      using Cons h by simp
    ultimately show ?thesis
      using n opener_not_close [OF h(2)] skip_ws_opener [OF h(2)] by simp
  qed
next
  case (7 io ms)
  then obtain n where n: "fuel = Suc n" by (cases fuel) auto
  show ?case
  proof (cases ms)
    case Nil
    with n show ?thesis by simp
  next
    case (Cons m ms')
    obtain k v where m: "m = (k, v)" by (cases m)
    have "parse_members io dup n [] (dumps_members io esc ms @ CHR ''}'' # rest) = Some (ms, rest)"
      using 7 n Cons by simp
    moreover obtain u where "dumps_members io esc ms @ CHR ''}'' # rest = CHR 0x22 # u"
      using Cons m by (simp add: json_string_def)
    ultimately show ?thesis using n by simp
  qed
next
  case (9 io x xs)
  then obtain n where n: "fuel = Suc n" by (cases fuel) auto
  show ?case
  proof (cases "xs = []")
    case True
    have "parse_value io dup n (dumps io esc x @ CHR '']'' # rest) = Some (x, CHR '']'' # rest)"
      by (rule "9.IH"(1)) (use 9 n True in \<open>auto simp: delim_def\<close>)
    with n True show ?thesis by simp
  next
    case False
    let ?r = "CHR '','' # dumps_list io esc xs @ CHR '']'' # rest"
    have v: "parse_value io dup n (dumps io esc x @ ?r) = Some (x, ?r)"
      by (rule "9.IH"(1)) (use 9 n False in \<open>auto simp: delim_def\<close>)
    have xs: "parse_items io dup n (dumps_list io esc xs @ CHR '']'' # rest) = Some (xs, rest)"
      by (rule "9.IH"(2)) (use 9 n False in auto)
    obtain y ys where "xs = y # ys" using False by (cases xs) auto
    with "9.prems" obtain c t where h: "dumps_list io esc xs = c # t" "opener c"
      using dumps_head [of io y esc] by auto
    from n False v xs show ?thesis
      using skip_ws_opener [OF h(2), of "t @ CHR '']'' # rest"] h(1) by simp
  qed
next
  case (11 io k v ms)
  then obtain n where n: "fuel = Suc n" by (cases fuel) auto
  obtain q where q: "json_string esc k = CHR 0x22 # q" "\<And>s. parse_chars (q @ s) = Some (k, s)"
    using "11.prems" by (metis list.inject parse_json_string printable_members.simps(2))
  obtain c t where h: "dumps io esc v = c # t" "opener c"
    using "11.prems" dumps_head [of io v esc] by auto
  have fresh: "dget acc k = None"
    using "11.prems" by (auto simp: map_of_eq_None_iff)
  show ?case
  proof (cases "ms = []")
    case True
    have "parse_value io dup n (dumps io esc v @ CHR ''}'' # rest) = Some (v, CHR ''}'' # rest)"
      by (rule "11.IH"(1)) (use 11 n True in \<open>auto simp: delim_def\<close>)
    with n True q h fresh show ?thesis
      using skip_ws_opener [OF h(2), of "t @ CHR ''}'' # rest"] by (simp add: dset_fresh)
  next
    case False
    let ?r = "CHR '','' # dumps_members io esc ms @ CHR ''}'' # rest"
    have v: "parse_value io dup n (dumps io esc v @ ?r) = Some (v, ?r)"
      by (rule "11.IH"(1)) (use 11 n False in \<open>auto simp: delim_def\<close>)
    have ms: "parse_members io dup n (acc @ [(k, v)]) (dumps_members io esc ms @ CHR ''}'' # rest)
        = Some ((acc @ [(k, v)]) @ ms, rest)"
      by (rule "11.IH"(2)) (use 11 n False in auto)
    obtain u where u: "dumps_members io esc ms = CHR 0x22 # u"
      using False by (cases ms) (auto simp: json_string_def)
    from n False q h fresh v ms u show ?thesis
      using skip_ws_opener [OF h(2), of "t @ ?r"] by (simp add: dset_fresh)
  qed
qed simp_all

lemma loads_dumps:
  assumes "printable io v"
  shows "loads io dup (dumps io esc v) = Some v"
proof -
  obtain c t where h: "dumps io esc v = c # t" "opener c" using dumps_head [OF assms] by blast
  have "parse_value io dup (Suc (2 * length (dumps io esc v))) (dumps io esc v @ []) = Some (v, [])"
    by (rule parse_dumps_mutual(1)) (use assms in \<open>simp_all add: delim_def\<close>)
  with h skip_ws_opener [OF h(2), of t] show ?thesis by (simp add: loads_def)
qed

lemma dumps_inject:
  assumes "printable io v" and "printable io w" and "dumps io esc v = dumps io esc w"
  shows "v = w"
  using loads_dumps [OF assms(1)] loads_dumps [OF assms(2)] assms(3) by (metis option.inject)

lemma parse_spaced_members:
  "printable_members io ms \<Longrightarrow> ms \<noteq> [] \<Longrightarrow> dict_ok (acc @ ms) \<Longrightarrow>
     Suc (2 * length (spaced_members io esc ms)) \<le> fuel \<Longrightarrow>
     parse_members io dup fuel acc (spaced_members io esc ms @ CHR ''}'' # rest) = Some (acc @ ms, rest)"
proof (induction ms arbitrary: acc fuel)
  case (Cons m ms)
  obtain k v where m: "m = (k, v)" by (cases m)
  obtain n where n: "fuel = Suc n" using Cons.prems by (cases fuel) auto
  obtain q where q: "json_string esc k = CHR 0x22 # q" "\<And>s. parse_chars (q @ s) = Some (k, s)"
    using Cons.prems m by (metis list.inject parse_json_string printable_members.simps(2))
  obtain c t where h: "dumps io esc v = c # t" "opener c"
    using Cons.prems m dumps_head [of io v esc] by auto
  have fresh: "dget acc k = None" using Cons.prems m by (auto simp: map_of_eq_None_iff)
  show ?case
  proof (cases "ms = []")
    case True
    have "parse_value io dup n (dumps io esc v @ CHR ''}'' # rest) = Some (v, CHR ''}'' # rest)"
      by (rule parse_dumps_mutual(1)) (use Cons.prems m n True in \<open>auto simp: delim_def\<close>)
    with n m True q h fresh show ?thesis
      using skip_ws_opener [OF h(2), of "t @ CHR ''}'' # rest"] by (simp add: dset_fresh)
  next
    case False
    let ?r = "CHR '','' # CHR '' '' # spaced_members io esc ms @ CHR ''}'' # rest"
    have v: "parse_value io dup n (dumps io esc v @ ?r) = Some (v, ?r)"
      by (rule parse_dumps_mutual(1)) (use Cons.prems m n False in \<open>auto simp: delim_def\<close>)
    have ms: "parse_members io dup n (acc @ [(k, v)]) (spaced_members io esc ms @ CHR ''}'' # rest)
        = Some ((acc @ [(k, v)]) @ ms, rest)"
      by (rule Cons.IH) (use Cons.prems m n False in auto)
    obtain u where u: "spaced_members io esc ms = CHR 0x22 # u"
      using False by (cases ms) (auto simp: json_string_def)
    from n m False q h fresh v ms u show ?thesis
      using skip_ws_opener [OF h(2), of "t @ ?r"] by (simp add: dset_fresh)
  qed
qed simp

lemma loads_flat:
  assumes "printable io (JObj ms)"
  shows "loads io dup (dumps_flat io esc ms) = Some (JObj ms)"
proof (cases "ms = []")
  case True
  then show ?thesis by (simp add: loads_def dumps_flat_def eval_nat_numeral)
next
  case False
  obtain u where u: "spaced_members io esc ms = CHR 0x22 # u"
    using False by (cases ms) (auto simp: json_string_def)
  have "parse_members io dup (2 * length (dumps_flat io esc ms)) [] (spaced_members io esc ms @ CHR ''}'' # [])
      = Some ([] @ ms, [])"
    by (rule parse_spaced_members) (use assms False in \<open>auto simp: dumps_flat_def\<close>)
  with u show ?thesis by (simp add: loads_def dumps_flat_def)
qed

end

end
