(* ===== verification/Contracts.thy ===== *)
theory Contracts
  imports Json_Text
begin

text \<open>
  \<^verbatim>\<open>rattish/contracts.py\<close>: the canonical text of a JSON document (RFC 8785 ordering and
  number spelling) whose SHA-256 identifies a node contract or a compiled workflow, and
  the registry of loaded node contracts. The hash function is a parameter.
\<close>

section \<open>Canonical JSON\<close>

datatype canonical_error = IntegerNotExact

text \<open>The order of \<^verbatim>\<open>key.encode("utf-16be")\<close>: code units, most significant byte first.\<close>
definition utf16 :: "string \<Rightarrow> nat list" where
  "utf16 s = concat (map (\<lambda>n. if n < 65536 then [n]
     else [55296 + (n - 65536) div 1024, 56320 + (n - 65536) mod 1024]) (utf8_dec s))"

text \<open>
  A \<^verbatim>\<open>Decimal\<close> read from the \<^verbatim>\<open>repr\<close> of a finite float: sign, digits without leading
  zeros, exponent of the last digit.
\<close>
record decimal =
  negative :: bool
  digits :: string
  exponent :: int

definition read_exponent :: "string \<Rightarrow> int" where
  "read_exponent s =
     (case s of
        [] \<Rightarrow> 0
      | c # t \<Rightarrow>
          if c = CHR ''-'' then - int (read_nat t)
          else if c = CHR ''+'' then int (read_nat t)
          else int (read_nat s))"

definition strip_zeros :: "string \<Rightarrow> string" where
  "strip_zeros ds = (case dropWhile (\<lambda>c. c = CHR ''0'') ds of [] \<Rightarrow> ''0'' | d # t \<Rightarrow> d # t)"

definition decimal_of :: "string \<Rightarrow> decimal" where
  "decimal_of s =
     (let (neg, s1) = parse_sign s;
          (whole, r) = span_digits s1;
          (fr, r1) = parse_fraction r;
          (ex, _) = parse_exponent r1
      in \<lparr>negative = neg,
          digits = strip_zeros (whole @ tl fr),
          exponent = read_exponent (tl ex) - int (length (tl fr))\<rparr>)"

definition decimal_abs :: "decimal \<Rightarrow> rat" where
  "decimal_abs d = of_nat (read_nat (digits d)) *
     (if 0 \<le> exponent d then 10 ^ nat (exponent d) else 1 / 10 ^ nat (- exponent d))"

definition rstrip_char :: "char \<Rightarrow> string \<Rightarrow> string" where
  "rstrip_char c s = rev (dropWhile (\<lambda>x. x = c) (rev s))"

text \<open>\<^verbatim>\<open>format(decimal, "f")\<close>\<close>
definition fixed_format :: "decimal \<Rightarrow> string" where
  "fixed_format d =
     (let ds = digits d; k = nat (- exponent d)
      in (if negative d then ''-'' else []) @
         (if 0 \<le> exponent d then ds @ replicate (nat (exponent d)) (CHR ''0'')
          else if k < length ds then take (length ds - k) ds @ ''.'' @ drop (length ds - k) ds
          else ''0.'' @ replicate (k - length ds) (CHR ''0'') @ ds))"

definition canonical_float :: "float_io \<Rightarrow> rat \<Rightarrow> string" where
  "canonical_float io r =
     (if r = 0 then ''0''
      else
        (let d = decimal_of (float_repr io r); absolute = decimal_abs d
         in if 1 / 10 ^ 6 \<le> absolute \<and> absolute < 10 ^ 21 then
              (let fixed = fixed_format d
               in if CHR ''.'' \<in> set fixed
                  then rstrip_char (CHR ''.'') (rstrip_char (CHR ''0'') fixed) else fixed)
            else
              (let ds = (case rstrip_char (CHR ''0'') (digits d) of [] \<Rightarrow> ''0'' | x # xs \<Rightarrow> x # xs);
                   e = int (length ds) + exponent d - 1
               in (if negative d then ''-'' else []) @
                  take 1 ds @ (if 1 < length ds then CHR ''.'' # drop 1 ds else []) @
                  ''e'' @ (if 0 \<le> e then ''+'' else []) @ show_int e)))"

definition max_exact :: int where
  "max_exact = 9007199254740991"

fun canonical_json :: "float_io \<Rightarrow> json \<Rightarrow> canonical_error + string"
  and canonical_items :: "float_io \<Rightarrow> json list \<Rightarrow> canonical_error + string list"
  and canonical_members ::
    "float_io \<Rightarrow> (string \<times> json) list \<Rightarrow> canonical_error + (string \<times> string) list" where
  "canonical_json io JNull = Inr ''null''"
| "canonical_json io (JBool b) = Inr (if b then ''true'' else ''false'')"
| "canonical_json io (JInt i) =
     (if \<bar>i\<bar> > max_exact then Inl IntegerNotExact else Inr (show_int i))"
| "canonical_json io (JFloat r) = Inr (canonical_float io r)"
| "canonical_json io (JStr s) = Inr (json_string esc_raw s)"
| "canonical_json io (JList xs) =
     andThen (canonical_items io xs) (\<lambda>ts. Inr (''['' @ str_join '','' ts @ '']''))"
| "canonical_json io (JObj ms) =
     andThen (canonical_members io ms) (\<lambda>kts.
       Inr (''{'' @ str_join '',''
              (map (\<lambda>(k, t). json_string esc_raw k @ '':'' @ t) (sort_key (utf16 \<circ> fst) kts)) @ ''}''))"
| "canonical_items io [] = Inr []"
| "canonical_items io (x # xs) =
     andThen (canonical_json io x) (\<lambda>t. andThen (canonical_items io xs) (\<lambda>ts. Inr (t # ts)))"
| "canonical_members io [] = Inr []"
| "canonical_members io ((k, v) # ms) =
     andThen (canonical_json io v) (\<lambda>t. andThen (canonical_members io ms) (\<lambda>ts. Inr ((k, t) # ts)))"

definition canonical_json_bytes :: "float_io \<Rightarrow> json \<Rightarrow> canonical_error + string" where
  "canonical_json_bytes io v = canonical_json io v"

definition json_fingerprint ::
  "float_io \<Rightarrow> (string \<Rightarrow> string) \<Rightarrow> json \<Rightarrow> canonical_error + string" where
  "json_fingerprint io sha256_hex v =
     andThen (canonical_json_bytes io v) (\<lambda>b. Inr (''sha256:'' @ sha256_hex b))"

section \<open>The registry of node contracts\<close>

record loaded_contract =
  loaded_node_type :: string
  loaded_version :: json
  loaded_document :: json
  loaded_fingerprint :: string

definition ascii_lower :: "char \<Rightarrow> char" where
  "ascii_lower c = (if 65 \<le> ord c \<and> ord c \<le> 90 then char_of (ord c + 32) else c)"

type_synonym contract_registry = "(string, loaded_contract) dict"

text \<open>
  \<^verbatim>\<open>get\<close> lowers the requested name; node types are ASCII identifiers, on which
  \<^verbatim>\<open>str.lower\<close> is the ASCII mapping.
\<close>
definition registry_get :: "contract_registry \<Rightarrow> string \<Rightarrow> loaded_contract option" where
  "registry_get reg n = dget reg (map ascii_lower n)"

definition registry_require :: "contract_registry \<Rightarrow> string \<Rightarrow> string + loaded_contract" where
  "registry_require reg n = (case registry_get reg n of None \<Rightarrow> Inl n | Some c \<Rightarrow> Inr c)"

section \<open>What the canonical text determines\<close>

text \<open>The documents of the contract profile: no floats, exactly representable integers.\<close>
fun exact :: "json \<Rightarrow> bool"
  and exact_list :: "json list \<Rightarrow> bool"
  and exact_members :: "(string \<times> json) list \<Rightarrow> bool" where
  "exact (JInt i) = (\<bar>i\<bar> \<le> max_exact)"
| "exact (JFloat r) = False"
| "exact (JList xs) = exact_list xs"
| "exact (JObj ms) = exact_members ms"
| "exact _ = True"
| "exact_list [] = True"
| "exact_list (x # xs) = (exact x \<and> exact_list xs)"
| "exact_members [] = True"
| "exact_members ((k, v) # ms) = (exact v \<and> exact_members ms)"

text \<open>The members of every object in canonical order.\<close>
fun canon :: "json \<Rightarrow> json"
  and canon_list :: "json list \<Rightarrow> json list"
  and canon_members :: "(string \<times> json) list \<Rightarrow> (string \<times> json) list" where
  "canon (JList xs) = JList (canon_list xs)"
| "canon (JObj ms) = JObj (sort_key (utf16 \<circ> fst) (canon_members ms))"
| "canon v = v"
| "canon_list [] = []"
| "canon_list (x # xs) = canon x # canon_list xs"
| "canon_members [] = []"
| "canon_members ((k, v) # ms) = (k, canon v) # canon_members ms"

end
