(* ===== verification/Ir.thy ===== *)
theory Ir
  imports Json_Text
begin

text \<open>
  The executable form of a compiled Rattish workflow (the IR document), as typed data.
  A document reaches the runtime only after it has been validated against
  \<^verbatim>\<open>rattish/schemas/ir.schema.json\<close>, so every field has the type that schema gives it:
  an \<^verbatim>\<open>enum\<close> is a datatype, a \<^verbatim>\<open>null\<close>able field an option, a count with a minimum of zero
  a natural number. A route carries its predicate in its mode, because the schema asks
  for a predicate exactly on conditional routes.
\<close>

section \<open>References and predicates\<close>

datatype ref_root = InputRoot | NodeRoot | SecretRoot | TriggerRoot

datatype channel = ErrorChannel | ItemChannel | OutputChannel | StatusChannel

record reference =
  root :: ref_root
  symbol :: "string option"
  channel :: "channel option"
  path :: "selector list"
  optional :: bool
  ref_schema :: json

datatype operand = OperandRef reference | OperandLit json json

datatype logical_op = AndOp | OrOp

datatype null_op = IsNull | IsNotNull

datatype comparison_op = CmpEq | CmpNe | CmpOrder order_op | CmpContains | CmpMatches

datatype status_value = Succeeded | Failed

datatype predicate =
    Logical logical_op predicate predicate
  | NotP predicate
  | Exists reference
  | NullTest null_op reference
  | Comparison comparison_op operand operand
  | Status status_value
  | RefPredicate reference

section \<open>Routes, bindings and nodes\<close>

datatype outcome = Success | AllowedFailure | Failure

datatype route_mode = Unconditional | Conditional predicate | Otherwise

record route =
  target :: string
  mode :: route_mode
  eligible_outcomes :: "outcome list"

text \<open>\<^verbatim>\<open>{"present": false}\<close> or \<^verbatim>\<open>{"present": true, "value": ...}\<close>\<close>
type_synonym explicit_value = "json option"

datatype binding_source = RefSource reference | ExprSource predicate | LitSource json

datatype delivery =
    DeliverLocal string
  | DeliverStdin
  | DeliverEnvironment string
  | DeliverWorkflowInput string

record binding =
  binding_name :: string
  source :: binding_source
  source_schema :: json
  destination_schema :: json
  default_value :: explicit_value
  delivery :: delivery

datatype finish = FinishPass | FinishFail

record node_execution =
  allow_fail :: bool
  timeout_ms :: "nat option"
  max_runs :: "nat option"
  max_concurrency :: nat
  retry_count :: nat
  retry_delay_ms :: nat
  start_declared :: bool
  initial_activation :: bool
  finish :: "finish option"

record readiness =
  needs :: "string list"
  incoming_route_sources :: "string list"

record resolved_contract =
  contract_node_type :: string
  contract_version :: nat
  contract_fingerprint :: string

record provider_resolution =
  provider_id :: string
  provider_version :: nat
  provider_fingerprint :: string

record workflow_resolution =
  child_workflow_id :: string
  source_kind :: string
  source_location :: string
  interface_version :: nat
  interface_fingerprint :: string
  child_fingerprint :: string
  input_schema :: json
  output_schema :: json

record node =
  node_id :: string
  node_type :: string
  runtime_handler :: string
  contract :: resolved_contract
  configuration :: json
  execution :: node_execution
  readiness :: readiness
  bindings :: "binding list"
  node_output_schema :: json
  routes :: "route list"
  provider :: "provider_resolution option"
  child_workflow :: "workflow_resolution option"
  break_of :: "string option"

datatype dependency_kind =
  NodeContractDep | ProviderContractDep | SchemaDep | WorkflowDep | WorkflowInterfaceDep

record dependency =
  dep_kind :: dependency_kind
  dep_id :: string
  dep_version :: json
  dep_fingerprint :: string

record workflow_input =
  input_name :: string
  required :: bool
  input_decl_schema :: json
  input_default :: explicit_value

record workflow_output =
  output_name :: string
  output_source :: reference
  output_decl_schema :: json

record workflow =
  workflow_id :: string
  workflow_name :: string
  workflow_max_runs :: "nat option"
  workflow_timeout_ms :: "nat option"
  inputs :: "workflow_input list"
  outputs :: "workflow_output list"

record ir =
  ir_version :: json
  rattish_version :: json
  source_workflow_id :: string
  dependencies :: "dependency list"
  workflow :: workflow
  nodes :: "node list"
  source_map_nodes :: "string list"

definition node_of :: "ir \<Rightarrow> string \<Rightarrow> node option" where
  "node_of d n = find (\<lambda>x. node_id x = n) (nodes d)"

abbreviation node_ids :: "ir \<Rightarrow> string list" where
  "node_ids d \<equiv> map node_id (nodes d)"

lemma node_of_Some: "node_of d n = Some x \<Longrightarrow> x \<in> set (nodes d) \<and> node_id x = n"
  by (auto simp: node_of_def find_Some_iff)

lemma node_of_None: "node_of d n = None \<longleftrightarrow> n \<notin> set (node_ids d)"
  by (auto simp: node_of_def find_None_iff)

lemma node_of_distinct:
  assumes "distinct (node_ids d)" and "x \<in> set (nodes d)"
  shows "node_of d (node_id x) = Some x"
proof -
  obtain y where "node_of d (node_id x) = Some y"
    using assms(2) node_of_None [of d "node_id x"] by (cases "node_of d (node_id x)") auto
  with assms node_of_Some [OF this] show ?thesis
    by (auto simp: distinct_map inj_on_def)
qed


section \<open>Small workflows\<close>

text \<open>Building blocks for concrete inputs: a node with the defaults of the compiler, and a
  workflow of given nodes.\<close>

definition plain_execution :: node_execution where
  "plain_execution = \<lparr>allow_fail = False, timeout_ms = None, max_runs = None, max_concurrency = 1,
     retry_count = 0, retry_delay_ms = 0, start_declared = False, initial_activation = False,
     finish = None\<rparr>"

definition plain_node :: "string \<Rightarrow> string \<Rightarrow> node" where
  "plain_node n t = \<lparr>node_id = n, node_type = t, runtime_handler = t,
     contract = \<lparr>contract_node_type = t, contract_version = 1, contract_fingerprint = []\<rparr>,
     configuration = JObj [], execution = plain_execution,
     readiness = \<lparr>needs = [], incoming_route_sources = []\<rparr>, bindings = [],
     node_output_schema = JObj [], routes = [], provider = None, child_workflow = None,
     break_of = None\<rparr>"

definition plain_ir :: "node list \<Rightarrow> ir" where
  "plain_ir ns = \<lparr>ir_version = JStr ''1'', rattish_version = JStr ''1'', source_workflow_id = ''w'',
     dependencies = [],
     workflow = \<lparr>workflow_id = ''w'', workflow_name = ''w'', workflow_max_runs = None,
       workflow_timeout_ms = None, inputs = [], outputs = []\<rparr>,
     nodes = ns, source_map_nodes = []\<rparr>"

lemmas plain_simps = plain_node_def plain_ir_def plain_execution_def

end
