(* ===== verification/Prompt_Templates.thy ===== *)
theory Prompt_Templates
  imports Contracts
begin

text \<open>
  \<^verbatim>\<open>rattish/prompt_templates.py\<close>: the placeholders \<^verbatim>\<open>{{ name.member[0] }}\<close> of prompts and
  configuration strings. The two regular expressions of the module are fixed, so their
  matching is written out: \<open>pieces\<close> is the leftmost-first scan of \<^verbatim>\<open>finditer\<close> and \<^verbatim>\<open>sub\<close>,
  \<open>exact_match\<close> is \<^verbatim>\<open>fullmatch\<close>. Digits in an index are ASCII digits.
\<close>

section \<open>White space\<close>

text \<open>The length in bytes of the white space character a string starts with, or 0.\<close>
definition space_len :: "string \<Rightarrow> nat" where
  "space_len s =
     (case map ord (take 3 s) of
        a # b # c # _ \<Rightarrow>
          if 9 \<le> a \<and> a \<le> 13 \<or> 28 \<le> a \<and> a \<le> 32 then 1
          else if a = 194 \<and> (b = 133 \<or> b = 160) then 2
          else if a = 225 \<and> b = 154 \<and> c = 128 then 3
          else if a = 226 \<and> b = 128 \<and> (128 \<le> c \<and> c \<le> 138 \<or> c = 168 \<or> c = 169 \<or> c = 175) then 3
          else if a = 226 \<and> b = 129 \<and> c = 159 then 3
          else if a = 227 \<and> b = 128 \<and> c = 128 then 3
          else 0
      | a # b # _ \<Rightarrow>
          if 9 \<le> a \<and> a \<le> 13 \<or> 28 \<le> a \<and> a \<le> 32 then 1
          else if a = 194 \<and> (b = 133 \<or> b = 160) then 2
          else 0
      | a # _ \<Rightarrow> if 9 \<le> a \<and> a \<le> 13 \<or> 28 \<le> a \<and> a \<le> 32 then 1 else 0
      | [] \<Rightarrow> 0)"

function lstrip :: "string \<Rightarrow> string" where
  "lstrip s = (if space_len s = 0 \<or> s = [] then s else lstrip (drop (space_len s) s))"
  by pat_completeness auto
termination
  by (relation "measure length") auto

declare lstrip.simps [simp del]

fun rstrip :: "string \<Rightarrow> string" where
  "rstrip [] = []"
| "rstrip (c # s) = (if lstrip (c # s) = [] then [] else c # rstrip s)"

definition py_strip :: "string \<Rightarrow> string" where
  "py_strip s = rstrip (lstrip s)"

lemma lstrip_length: "length (lstrip s) \<le> length s"
proof (induction s rule: lstrip.induct)
  case (1 s)
  then show ?case by (subst lstrip.simps) fastforce
qed

lemma space_len_visible:
  assumes "33 \<le> ord c" and "ord c < 128"
  shows "space_len (c # s) = 0"
  using assms by (auto simp: space_len_def split: list.splits)

lemma lstrip_visible: "33 \<le> ord c \<Longrightarrow> ord c < 128 \<Longrightarrow> lstrip (c # s) = c # s"
  by (subst lstrip.simps) (simp add: space_len_visible)

lemma rstrip_visible: "\<forall>c \<in> set s. 33 \<le> ord c \<and> ord c < 128 \<Longrightarrow> rstrip s = s"
  by (induction s) (auto simp: lstrip_visible)

section \<open>Matching\<close>

definition open_sentinel :: string where
  "open_sentinel = [CHR 0x00] @ ''RATTISH_OPEN'' @ [CHR 0x00]"

definition close_sentinel :: string where
  "close_sentinel = [CHR 0x00] @ ''RATTISH_CLOSE'' @ [CHR 0x00]"

definition protect :: "string \<Rightarrow> string" where
  "protect t = str_replace ''}}}}'' close_sentinel (str_replace ''{{{{'' open_sentinel t)"

definition unprotect :: "string \<Rightarrow> string" where
  "unprotect t = str_replace close_sentinel ''}}'' (str_replace open_sentinel ''{{'' t)"

text \<open>\<^verbatim>\<open>(.*?)\s*\}\}\<close> behind the opening braces: the shortest group without a newline.\<close>
fun scan_close :: "string \<Rightarrow> (string \<times> string) option" where
  "scan_close s =
     (if starts_with ''}}'' (lstrip s) then Some ([], drop 2 (lstrip s))
      else case s of
             [] \<Rightarrow> None
           | c # t \<Rightarrow>
               if c = CHR 0x0A then None
               else map_option (\<lambda>(g, r). (c # g, r)) (scan_close t))"

declare scan_close.simps [simp del]

definition match_at :: "string \<Rightarrow> (string \<times> string) option" where
  "match_at s = (if starts_with ''{{'' s then scan_close (lstrip (drop 2 s)) else None)"

lemma scan_close_length: "scan_close s = Some (g, r) \<Longrightarrow> length r < length s"
proof (induction s arbitrary: g rule: scan_close.induct)
  case (1 s)
  show ?case
  proof (cases "starts_with ''}}'' (lstrip s)")
    case True
    then have "2 \<le> length (lstrip s)" by (auto simp: starts_with_iff)
    with 1(2) True lstrip_length [of s] show ?thesis by (auto simp: scan_close.simps [of s])
  next
    case False
    with 1(2) obtain c t g' where "s = c # t" "c \<noteq> CHR 0x0A" "scan_close t = Some (g', r)"
      by (auto simp: scan_close.simps [of s] split: list.splits if_splits)
    with 1(1) [OF False] show ?thesis by fastforce
  qed
qed

lemma match_at_length: "match_at s = Some (g, r) \<Longrightarrow> length r < length s"
  using scan_close_length [of "lstrip (drop 2 s)" g r] lstrip_length [of "drop 2 s"]
  by (auto simp: match_at_def split: if_splits)

text \<open>The template as a sequence of literal characters and placeholder expressions.\<close>
function pieces :: "string \<Rightarrow> (char + string) list" where
  "pieces [] = []"
| "pieces (c # s) =
     (case match_at (c # s) of
        Some (g, r) \<Rightarrow> Inr (py_strip g) # pieces r
      | None \<Rightarrow> Inl c # pieces s)"
  by pat_completeness auto
termination
  by (relation "measure length") (auto dest: match_at_length)

text \<open>
  \<^verbatim>\<open>_PLACEHOLDER.fullmatch(protected)\<close>: the group may reach over inner braces, because the
  match has to end at the end of the text.
\<close>
definition exact_match :: "string \<Rightarrow> string option" where
  "exact_match s =
     (if 4 \<le> length s \<and> starts_with ''{{'' s \<and> drop (length s - 2) s = ''}}'' then
        (let core = py_strip (take (length s - 4) (drop 2 s))
         in if CHR 0x0A \<in> set core then None else Some core)
      else None)"

section \<open>Expressions\<close>

datatype template_error =
    InvalidPlaceholder string
  | UnmatchedDelimiter
  | Unresolved string
  | NotBound string

record placeholder =
  expression :: string
  name :: string
  selectors :: "selector list"

definition is_alpha :: "char \<Rightarrow> bool" where
  "is_alpha c \<longleftrightarrow> 65 \<le> ord c \<and> ord c \<le> 90 \<or> 97 \<le> ord c \<and> ord c \<le> 122"

definition is_alnum :: "char \<Rightarrow> bool" where
  "is_alnum c \<longleftrightarrow> is_alpha c \<or> is_digit c"

text \<open>\<^verbatim>\<open>[A-Za-z0-9]*(?:-[A-Za-z0-9]+)*\<close>\<close>
fun ident_tail :: "string \<Rightarrow> string \<times> string" where
  "ident_tail [] = ([], [])"
| "ident_tail (c # s) =
     (if is_alnum c \<or> c = CHR ''-'' \<and> s \<noteq> [] \<and> is_alnum (hd s)
      then (let (n, r) = ident_tail s in (c # n, r))
      else ([], c # s))"

definition ident_match :: "string \<Rightarrow> (string \<times> string) option" where
  "ident_match s =
     (case s of
        [] \<Rightarrow> None
      | c # t \<Rightarrow> if is_alpha c then (let (n, r) = ident_tail t in Some (c # n, r)) else None)"

lemma ident_tail_length: "length (snd (ident_tail s)) \<le> length s"
  by (induction s) (auto simp: Let_def split: prod.splits)

lemma ident_match_length:
  assumes "ident_match s = Some (n, r)"
  shows "length r < length s"
proof (cases s)
  case Nil
  with assms show ?thesis by (simp add: ident_match_def)
next
  case (Cons c t)
  with assms ident_tail_length [of t] show ?thesis
    by (auto simp: ident_match_def split: if_splits prod.splits)
qed

text \<open>The bracketed selector: an index, or a JSON string.\<close>
definition bracket_selector :: "float_io \<Rightarrow> string \<Rightarrow> selector option" where
  "bracket_selector io raw =
     (if raw \<noteq> [] \<and> list_all is_digit raw
      then (if 4300 < length raw then None else Some (Index (read_nat raw)))
      else case loads io False raw of Some (JStr m) \<Rightarrow> Some (Member m) | _ \<Rightarrow> None)"

function parse_selectors :: "float_io \<Rightarrow> string \<Rightarrow> selector list option" where
  "parse_selectors io [] = Some []"
| "parse_selectors io (c # s) =
     (if c = CHR ''.'' then
        (case ident_match s of
           None \<Rightarrow> None
         | Some (m, r) \<Rightarrow> map_option ((#) (Member m)) (parse_selectors io r))
      else if c = CHR ''['' then
        (if CHR '']'' \<in> set s then
           (case bracket_selector io (takeWhile (\<lambda>x. x \<noteq> CHR '']'') s) of
              None \<Rightarrow> None
            | Some sel \<Rightarrow>
                map_option ((#) sel) (parse_selectors io (drop 1 (dropWhile (\<lambda>x. x \<noteq> CHR '']'') s))))
         else None)
      else None)"
  by pat_completeness auto
termination
  by (relation "measure (\<lambda>(io, s). length s)")
    (auto dest: ident_match_length intro: le_trans [OF diff_le_self] simp: less_Suc_eq_le length_dropWhile_le)

definition parse_expression :: "float_io \<Rightarrow> string \<Rightarrow> template_error + placeholder" where
  "parse_expression io e =
     (case ident_match e of
        None \<Rightarrow> Inl (InvalidPlaceholder e)
      | Some (n, r) \<Rightarrow>
          (case parse_selectors io r of
             None \<Rightarrow> Inl (InvalidPlaceholder e)
           | Some sels \<Rightarrow> Inr \<lparr>expression = e, name = n, selectors = sels\<rparr>))"

section \<open>Parsing, validation and rendering\<close>

fun each_piece :: "('a \<Rightarrow> 'e + 'b) \<Rightarrow> 'a list \<Rightarrow> 'e + 'b list" where
  "each_piece f [] = Inr []"
| "each_piece f (x # xs) =
     andThen (f x) (\<lambda>y. andThen (each_piece f xs) (\<lambda>ys. Inr (y # ys)))"

fun literals :: "(char + string) list \<Rightarrow> string" where
  "literals [] = []"
| "literals (Inl c # ps) = c # literals ps"
| "literals (Inr _ # ps) = literals ps"

fun expressions :: "(char + string) list \<Rightarrow> string list" where
  "expressions [] = []"
| "expressions (Inl _ # ps) = expressions ps"
| "expressions (Inr e # ps) = e # expressions ps"

definition parse_prompt_template :: "float_io \<Rightarrow> string \<Rightarrow> template_error + placeholder list" where
  "parse_prompt_template io t =
     (let ps = pieces (protect t)
      in andThen (each_piece (parse_expression io) (expressions ps)) (\<lambda>holders.
         andThen (need (\<not> str_in ''{{'' (literals ps) \<and> \<not> str_in ''}}'' (literals ps)) UnmatchedDelimiter)
           (\<lambda>_. Inr holders)))"

abbreviation lower :: "string \<Rightarrow> string" where
  "lower s \<equiv> map ascii_lower s"

definition validate_prompt_template ::
  "float_io \<Rightarrow> string \<Rightarrow> string list \<Rightarrow> template_error + placeholder list" where
  "validate_prompt_template io t names =
     andThen (parse_prompt_template io t) (\<lambda>holders.
     andThen (each (\<lambda>h. need (lower (name h) \<in> set names) (NotBound (name h))) holders)
       (\<lambda>_. Inr holders))"

text \<open>A selector of a placeholder: an index selects from a list only, a member from an object.\<close>
fun select_value :: "json \<Rightarrow> selector list \<Rightarrow> json option" where
  "select_value v [] = Some v"
| "select_value v (Index i # sels) =
     (case v of
        JList xs \<Rightarrow> if i < length xs then select_value (xs ! i) sels else None
      | _ \<Rightarrow> None)"
| "select_value v (Member k # sels) =
     (case v of
        JObj ms \<Rightarrow> (case dget ms k of None \<Rightarrow> None | Some w \<Rightarrow> select_value w sels)
      | _ \<Rightarrow> None)"

definition placeholder_value :: "(string, json) dict \<Rightarrow> placeholder \<Rightarrow> template_error + json" where
  "placeholder_value values h =
     (case dget values (lower (name h)) of
        None \<Rightarrow> Inl (Unresolved (expression h))
      | Some v \<Rightarrow>
          (case select_value v (selectors h) of
             None \<Rightarrow> Inl (Unresolved (expression h))
           | Some w \<Rightarrow> Inr w))"

definition canonical_values :: "(string, json) dict \<Rightarrow> (string, json) dict" where
  "canonical_values values = fold (\<lambda>(n, v). dset (lower n) v) values []"

fun piece_text ::
  "float_io \<Rightarrow> (string, json) dict \<Rightarrow> (char + string) \<Rightarrow> template_error + string" where
  "piece_text io values (Inl c) = Inr [c]"
| "piece_text io values (Inr e) =
     andThen (parse_expression io e) (\<lambda>h.
     andThen (placeholder_value values h) (\<lambda>v.
       Inr (case v of JStr s \<Rightarrow> s | _ \<Rightarrow> dumps io esc_ascii (sort_json v))))"

definition render_template_value ::
  "float_io \<Rightarrow> string \<Rightarrow> (string, json) dict \<Rightarrow> template_error + json" where
  "render_template_value io t values =
     (let canonical = canonical_values values; protected = protect t
      in case exact_match protected of
           Some e \<Rightarrow> andThen (parse_expression io e) (placeholder_value canonical)
         | None \<Rightarrow>
             andThen (each_piece (piece_text io canonical) (pieces protected)) (\<lambda>texts.
             let rendered = concat texts
             in andThen (need (\<not> str_in ''{{'' rendered \<and> \<not> str_in ''}}'' rendered) UnmatchedDelimiter)
                  (\<lambda>_. Inr (JStr (unprotect rendered)))))"

definition render_prompt_template ::
  "float_io \<Rightarrow> string \<Rightarrow> (string, json) dict \<Rightarrow> template_error + string" where
  "render_prompt_template io t values =
     andThen (render_template_value io t values)
       (\<lambda>v. Inr (case v of JStr s \<Rightarrow> s | _ \<Rightarrow> dumps io esc_ascii (sort_json v)))"

section \<open>What rendering computes\<close>

definition is_ident :: "string \<Rightarrow> bool" where
  "is_ident n \<longleftrightarrow> ident_match n = Some (n, [])"

text \<open>Text that is copied as it stands: no braces and no sentinel character.\<close>
definition plain :: "string \<Rightarrow> bool" where
  "plain s \<longleftrightarrow> (\<forall>c \<in> set s. c \<noteq> CHR ''{'' \<and> c \<noteq> CHR ''}'' \<and> c \<noteq> CHR 0x00)"

lemma plain_append: "plain (s @ t) \<longleftrightarrow> plain s \<and> plain t"
  by (auto simp: plain_def)

lemma plain_concat: "plain (concat ss) \<longleftrightarrow> (\<forall>s \<in> set ss. plain s)"
  by (induction ss) (auto simp: plain_append, simp add: plain_def)

text \<open>A template written as texts, each followed by a placeholder, and a last text.\<close>
fun template_of :: "(string \<times> string) list \<Rightarrow> string \<Rightarrow> string" where
  "template_of [] post = post"
| "template_of ((pre, n) # segs) post = pre @ ''{{'' @ n @ ''}}'' @ template_of segs post"

definition segments_ok :: "(string \<times> string) list \<Rightarrow> bool" where
  "segments_ok segs \<longleftrightarrow> (\<forall>(pre, n) \<in> set segs. plain pre \<and> is_ident n)"

named_theorems template_simps \<open>facts about the scan of a template\<close>

lemma ident_tail_all: "ident_tail s = (n, r) \<Longrightarrow> \<forall>c \<in> set n. is_alnum c \<or> c = CHR ''-''"
  by (induction s arbitrary: n) (auto simp: Let_def split: if_splits prod.splits)

lemma is_ident_chars:
  assumes "is_ident n" and "c \<in> set n"
  shows "is_alnum c \<or> c = CHR ''-''"
proof -
  obtain d t m r where "n = d # t" "is_alpha d" "ident_tail t = (m, r)" "d # m = n"
    using assms(1) by (auto simp: is_ident_def ident_match_def split: list.splits if_splits prod.splits)
  with assms(2) ident_tail_all [of t m r] show ?thesis by (auto simp: is_alnum_def)
qed

lemma is_ident_visible:
  assumes "is_ident n" and "c \<in> set n"
  shows "33 \<le> ord c" and "ord c < 128" and "c \<notin> {CHR ''{'', CHR ''}'', CHR 0x00, CHR 0x0A}"
  using is_ident_chars [OF assms] by (auto simp: is_alnum_def is_alpha_def is_digit_def)

lemma is_ident_head: "is_ident n \<Longrightarrow> \<exists>d t. n = d # t"
  by (cases n) (auto simp: is_ident_def ident_match_def)

lemma is_ident_parse [template_simps]:
  "is_ident n \<Longrightarrow> parse_expression io n = Inr \<lparr>expression = n, name = n, selectors = []\<rparr>"
  by (simp add: is_ident_def parse_expression_def)

lemma is_ident_strip [template_simps]:
  assumes "is_ident n"
  shows "py_strip n = n"
proof -
  obtain d t where "n = d # t" using is_ident_head [OF assms] by blast
  then have "lstrip n = n" using is_ident_visible [OF assms, of d] by (simp add: lstrip_visible)
  then show ?thesis using is_ident_visible [OF assms] by (simp add: py_strip_def rstrip_visible)
qed

lemma scan_close_ident:
  assumes "\<forall>c \<in> set n. 33 \<le> ord c \<and> ord c < 128 \<and> c \<noteq> CHR ''}'' \<and> c \<noteq> CHR 0x0A"
  shows "scan_close (n @ ''}}'' @ s) = Some (n, s)"
  using assms
proof (induction n)
  case Nil
  then show ?case by (subst scan_close.simps) (simp add: lstrip_visible)
next
  case (Cons c n)
  then show ?case by (subst scan_close.simps) (auto simp: lstrip_visible)
qed

lemma match_at_ident [template_simps]:
  assumes "is_ident n"
  shows "match_at (CHR ''{'' # CHR ''{'' # n @ CHR ''}'' # CHR ''}'' # s) = Some (n, s)"
proof -
  obtain d t where n: "n = d # t" using is_ident_head [OF assms] by blast
  have "scan_close (n @ ''}}'' @ s) = Some (n, s)"
    by (rule scan_close_ident) (use is_ident_visible [OF assms] in auto)
  moreover have "lstrip (n @ ''}}'' @ s) = n @ ''}}'' @ s"
    using n is_ident_visible [OF assms, of d] by (simp add: lstrip_visible)
  ultimately show ?thesis by (simp add: match_at_def)
qed

lemma pieces_plain_append [template_simps]:
  "plain pre \<Longrightarrow> pieces (pre @ s) = map Inl pre @ pieces s"
  by (induction pre) (auto simp: match_at_def plain_def)

lemma pieces_template [template_simps]:
  "segments_ok segs \<Longrightarrow> plain post \<Longrightarrow>
    pieces (template_of segs post) =
      concat (map (\<lambda>(pre, n). map Inl pre @ [Inr n]) segs) @ map Inl post"
proof (induction segs)
  case Nil
  then show ?case using pieces_plain_append [of post "[]"] by simp
next
  case (Cons seg segs)
  then show ?case
    by (cases seg) (auto simp: segments_ok_def template_simps)
qed

lemma str_in_plain_append:
  assumes "p \<noteq> []" and "set p \<inter> set x = {}"
  shows "str_in p (x @ s) \<longleftrightarrow> str_in p s"
proof
  assume "str_in p (x @ s)"
  then obtain u v where "u @ p @ v = x @ s" by (auto simp: str_in_iff)
  from occurrence_split [OF this assms] show "str_in p s" by (auto simp: str_in_iff)
next
  assume "str_in p s"
  then show "str_in p (x @ s)" by (metis append_assoc str_in_iff)
qed

lemma str_in_not_chars: "p \<noteq> [] \<Longrightarrow> set p \<inter> set x = {} \<Longrightarrow> \<not> str_in p x"
  using str_in_plain_append [of p x "[]"] by auto

lemma brace_free:
  assumes "p \<noteq> []" and "set p \<subseteq> {CHR ''{'', CHR ''}''}" and "\<forall>c \<in> set x. c \<noteq> CHR ''{'' \<and> c \<noteq> CHR ''}''"
  shows "str_in p (x @ s) \<longleftrightarrow> str_in p s" and "\<not> str_in p x"
proof -
  have "set p \<inter> set x = {}" using assms(2,3) by blast
  with assms(1) show "str_in p (x @ s) \<longleftrightarrow> str_in p s" and "\<not> str_in p x"
    by (simp_all add: str_in_plain_append str_in_not_chars)
qed

lemma plain_brace_free: "plain s \<Longrightarrow> \<forall>c \<in> set s. c \<noteq> CHR ''{'' \<and> c \<noteq> CHR ''}''"
  by (simp add: plain_def)

lemma ident_brace_free: "is_ident n \<Longrightarrow> \<forall>c \<in> set n. c \<noteq> CHR ''{'' \<and> c \<noteq> CHR ''}''"
  using is_ident_visible(3) by blast

text \<open>The quadrupled braces of an escape do not occur in such a template.\<close>

lemma template_no_open: "segments_ok segs \<Longrightarrow> plain post \<Longrightarrow> \<not> str_in ''{{{{'' (template_of segs post)"
proof (induction segs)
  case Nil
  then show ?case by (simp add: brace_free(2) plain_brace_free)
next
  case (Cons seg segs)
  obtain pre n where seg: "seg = (pre, n)" by (cases seg)
  with Cons have n: "is_ident n" and pre: "plain pre" by (auto simp: segments_ok_def)
  obtain d t where dt: "n = d # t" "d \<noteq> CHR ''{''"
    using is_ident_head [OF n] is_ident_visible(3) [OF n] by fastforce
  have 1: "str_in ''{{{{'' (pre @ x) \<longleftrightarrow> str_in ''{{{{'' x" for x
    using plain_brace_free [OF pre] by (simp add: brace_free(1))
  have 2: "str_in ''{{{{'' (n @ x) \<longleftrightarrow> str_in ''{{{{'' x" for x
    using ident_brace_free [OF n] by (simp add: brace_free(1))
  have 3: "str_in ''{{{{'' (''}}'' @ x) \<longleftrightarrow> str_in ''{{{{'' x" for x
    by (intro str_in_plain_append) auto
  have "str_in ''{{{{'' (''{{'' @ n @ x) \<longleftrightarrow> str_in ''{{{{'' (n @ x)" for x
    using dt by simp
  then show ?case
    using Cons seg 1 2 3 by (simp only: template_of.simps segments_ok_def list.set) auto
qed

lemma template_no_close:
  assumes "segments_ok segs" and "plain post"
  shows "\<not> str_in ''}}}}'' (template_of segs post) \<and> \<not> starts_with ''}'' (template_of segs post)"
  using assms(1)
proof (induction segs)
  case Nil
  have "\<not> str_in ''}}}}'' post" using assms(2) by (simp add: brace_free(2) plain_brace_free)
  moreover have "\<not> starts_with ''}'' post" using assms(2) by (cases post) (auto simp: plain_def)
  ultimately show ?case by simp
next
  case (Cons seg segs)
  obtain pre n where seg: "seg = (pre, n)" by (cases seg)
  with Cons have n: "is_ident n" and pre: "plain pre" and segs: "segments_ok segs"
    by (auto simp: segments_ok_def)
  let ?rest = "template_of segs post"
  have 1: "str_in ''}}}}'' (pre @ x) \<longleftrightarrow> str_in ''}}}}'' x" for x
    using plain_brace_free [OF pre] by (simp add: brace_free(1))
  have 2: "str_in ''}}}}'' (n @ x) \<longleftrightarrow> str_in ''}}}}'' x" for x
    using ident_brace_free [OF n] by (simp add: brace_free(1))
  have 3: "str_in ''}}}}'' (''{{'' @ x) \<longleftrightarrow> str_in ''}}}}'' x" for x
    by (intro str_in_plain_append) auto
  have "str_in ''}}}}'' (''}}'' @ ?rest) \<longleftrightarrow> str_in ''}}}}'' ?rest"
    using Cons.IH [OF segs] by (cases ?rest) auto
  then have "\<not> str_in ''}}}}'' (template_of ((pre, n) # segs) post)"
    using Cons.IH [OF segs] by (simp only: template_of.simps 1 2 3) simp
  moreover have "\<not> starts_with ''}'' (template_of ((pre, n) # segs) post)"
    using pre by (cases pre) (auto simp: plain_def)
  ultimately show ?case using seg by simp
qed

lemma protect_template [template_simps]:
  "segments_ok segs \<Longrightarrow> plain post \<Longrightarrow> protect (template_of segs post) = template_of segs post"
  by (simp add: protect_def str_replace_absent template_no_open template_no_close)

lemma unprotect_plain [template_simps]: "plain s \<Longrightarrow> unprotect s = s"
proof -
  assume "plain s"
  then have "CHR 0x00 \<notin> set s" by (auto simp: plain_def)
  then have "\<not> str_in open_sentinel s" and "\<not> str_in close_sentinel s"
    by (auto simp: str_in_iff open_sentinel_def close_sentinel_def)
  then show ?thesis by (simp add: unprotect_def str_replace_absent)
qed

lemma plain_no_braces:
  assumes "plain s"
  shows "\<not> str_in ''{{'' s" and "\<not> str_in ''}}'' s"
  using plain_brace_free [OF assms] by (simp_all add: brace_free(2))

lemma concat_segment_texts:
  "each_piece f (map Inl pre @ ps) =
     andThen (each_piece f (map Inl pre)) (\<lambda>xs. andThen (each_piece f ps) (\<lambda>ys. Inr (xs @ ys)))"
proof (induction pre)
  case Nil
  then show ?case by (cases "each_piece f ps") simp_all
next
  case (Cons c pre)
  then show ?case
    by (cases "f (Inl c)"; cases "each_piece f (map Inl pre)"; cases "each_piece f ps") simp_all
qed

lemma each_piece_literals: "each_piece (piece_text io values) (map Inl pre) = Inr (map (\<lambda>c. [c]) pre)"
  by (induction pre) simp_all

lemma each_piece_segments:
  assumes "\<forall>(pre, n) \<in> set segs. is_ident n \<and> dget values (lower n) = Some (JStr (f n))"
  shows "\<exists>texts. each_piece (piece_text io values)
      (concat (map (\<lambda>(pre, n). map Inl pre @ [Inr n]) segs) @ map Inl post) = Inr texts \<and>
    concat texts = concat (map (\<lambda>(pre, n). pre @ f n) segs) @ post"
  using assms
proof (induction segs)
  case Nil
  then show ?case by (simp add: each_piece_literals)
next
  case (Cons seg segs)
  obtain pre n where seg: "seg = (pre, n)" by (cases seg)
  from Cons obtain texts where
    t: "each_piece (piece_text io values)
      (concat (map (\<lambda>(pre, n). map Inl pre @ [Inr n]) segs) @ map Inl post) = Inr texts"
    "concat texts = concat (map (\<lambda>(pre, n). pre @ f n) segs) @ post" by auto
  have "piece_text io values (Inr n) = Inr (f n)"
    using Cons.prems seg by (simp add: is_ident_parse placeholder_value_def)
  with t seg show ?case
    by (simp add: concat_segment_texts each_piece_literals)
qed

lemma exact_match_last:
  assumes "exact_match s = Some core"
  shows "starts_with ''{{'' s" and "s \<noteq> [] \<and> last s = CHR ''}''"
proof -
  have e: "4 \<le> length s" "starts_with ''{{'' s" "drop (length s - 2) s = ''}}''"
    using assms by (auto simp: exact_match_def split: if_splits)
  then show "starts_with ''{{'' s" by simp
  have "last (drop (length s - 2) s) = last s" using e(1) by (intro last_drop) auto
  with e show "s \<noteq> [] \<and> last s = CHR ''}''" by auto
qed

lemma template_last:
  assumes "post \<noteq> []"
  shows "template_of segs post \<noteq> [] \<and> last (template_of segs post) = last post"
proof (induction segs)
  case Nil
  with assms show ?case by simp
next
  case (Cons seg segs)
  then show ?case by (cases seg) simp
qed

lemma template_not_exact:
  assumes "segments_ok segs" and "plain post"
    and "segs = [] \<or> fst (hd segs) \<noteq> [] \<or> post \<noteq> []"
  shows "exact_match (template_of segs post) = None"
proof (rule ccontr)
  assume "exact_match (template_of segs post) \<noteq> None"
  then obtain core where c: "exact_match (template_of segs post) = Some core" by auto
  show False
  proof (cases "post = []")
    case False
    then have "last post \<in> set post" by simp
    with exact_match_last(2) [OF c] template_last [OF False, of segs] assms(2) show False
      by (auto simp: plain_def)
  next
    case True
    then obtain pre n rest where s: "segs = (pre, n) # rest" "pre \<noteq> []"
      using assms(3) exact_match_last(2) [OF c] by (cases segs) (auto simp: neq_Nil_conv)
    then obtain d t where "pre = d # t" "d \<noteq> CHR ''{''"
      using assms(1) by (cases pre) (auto simp: segments_ok_def plain_def)
    with exact_match_last(1) [OF c] s show False by simp
  qed
qed

text \<open>
  Rendering substitutes: a template of brace-free texts and placeholders, each bound to
  a brace-free string, renders to the texts with the bound strings in place, unless it is
  a template that both starts and ends with a placeholder.
\<close>
theorem render_template_segments:
  assumes "segments_ok segs" and "plain post"
    and "segs = [] \<or> fst (hd segs) \<noteq> [] \<or> post \<noteq> []"
    and "\<forall>(pre, n) \<in> set segs. dget (canonical_values values) (lower n) = Some (JStr (f n)) \<and> plain (f n)"
  shows "render_template_value io (template_of segs post) values =
    Inr (JStr (concat (map (\<lambda>(pre, n). pre @ f n) segs) @ post))"
proof -
  let ?out = "concat (map (\<lambda>(pre, n). pre @ f n) segs) @ post"
  have "\<forall>(pre, n) \<in> set segs. is_ident n \<and> dget (canonical_values values) (lower n) = Some (JStr (f n))"
    using assms(1,4) by (fastforce simp: segments_ok_def)
  from each_piece_segments [OF this, of io post] obtain texts where
    t: "each_piece (piece_text io (canonical_values values)) (pieces (template_of segs post)) = Inr texts"
      "concat texts = ?out"
    unfolding pieces_template [OF assms(1,2)] by blast
  have "plain ?out"
    using assms by (fastforce simp: plain_append plain_concat segments_ok_def)
  with t show ?thesis
    by (simp add: render_template_value_def protect_template [OF assms(1,2)]
        template_not_exact [OF assms(1-3)] plain_no_braces unprotect_plain Let_def need_def)
qed

theorem render_template_segments_witness:
  "render_template_value \<lparr>float_repr = \<lambda>_. [], float_parse = \<lambda>_. None\<rparr> ''Hi {{name}}, see {{doc-id}}!''
     [(''Name'', JStr ''Ada''), (''doc-id'', JStr ''7'')] = Inr (JStr ''Hi Ada, see 7!'')"
proof -
  have 1: "segments_ok [(''Hi '', ''name''), ('', see '', ''doc-id'')]" by code_simp
  have 2: "plain ''!''" by code_simp
  have 3: "[(''Hi '', ''name''), ('', see '', ''doc-id'')] = [] \<or>
    fst (hd [(''Hi '', ''name''), ('', see '', ''doc-id'')]) \<noteq> [] \<or> ''!'' \<noteq> []" by simp
  have 4: "\<forall>(pre, n) \<in> set [(''Hi '', ''name''), ('', see '', ''doc-id'')].
    dget (canonical_values [(''Name'', JStr ''Ada''), (''doc-id'', JStr ''7'')]) (lower n) =
      Some (JStr ((\<lambda>n. if n = ''name'' then ''Ada'' else ''7'') n)) \<and>
    plain ((\<lambda>n. if n = ''name'' then ''Ada'' else ''7'') n)" by code_simp
  show ?thesis using render_template_segments [OF 1 2 3 4] by simp
qed

text \<open>A visible last character survives stripping.\<close>

lemma space_len_snoc:
  assumes "33 \<le> ord c" and "ord c < 128"
  shows "space_len (s @ [c]) \<le> length s"
proof -
  consider "s = []" | a where "s = [a]" | a b where "s = [a, b]" | a b d t where "s = a # b # d # t"
    by (metis list.exhaust)
  then show ?thesis using assms by cases (auto simp: space_len_def)
qed

lemma lstrip_snoc:
  assumes "33 \<le> ord c" and "ord c < 128"
  shows "lstrip (s @ [c]) \<noteq> []"
proof (induction "length s" arbitrary: s rule: less_induct)
  case less
  show ?case
  proof (cases "space_len (s @ [c]) = 0")
    case True
    then show ?thesis by (subst lstrip.simps) simp
  next
    case False
    let ?k = "space_len (s @ [c])"
    have k: "?k \<le> length s" by (rule space_len_snoc [OF assms])
    then have "drop ?k (s @ [c]) = drop ?k s @ [c]" by simp
    moreover have "lstrip (drop ?k s @ [c]) \<noteq> []" using less [of "drop ?k s"] False k by simp
    ultimately show ?thesis using False by (subst lstrip.simps) simp
  qed
qed

lemma rstrip_snoc: "33 \<le> ord c \<Longrightarrow> ord c < 128 \<Longrightarrow> rstrip (s @ [c]) = s @ [c]"
proof (induction s)
  case Nil
  then show ?case by (simp add: lstrip_visible)
next
  case (Cons d s)
  then show ?case using lstrip_snoc [of c "d # s"] by simp
qed

lemma ident_tail_append: "ident_tail t = (t, []) \<Longrightarrow> \<not> is_alnum c \<Longrightarrow> c \<noteq> CHR ''-'' \<Longrightarrow>
  ident_tail (t @ c # r) = (t, c # r)"
proof (induction t)
  case (Cons d t)
  then have "ident_tail t = (t, [])" by (auto split: if_splits prod.splits)
  with Cons show ?case by (cases t) (auto split: if_splits)
qed simp

text \<open>
  A template that starts and ends with two different placeholders never renders: the
  anchored match takes everything between the outermost braces for one expression, which
  is then rejected, whatever the placeholders are bound to. (The compile-time check
  \<^verbatim>\<open>parse_prompt_template\<close> accepts the same template.)
\<close>
theorem render_outer_placeholders_rejected:
  assumes "is_ident m" and "is_ident n" and "plain mid" and "CHR 0x0A \<notin> set mid"
  shows "render_template_value io (''{{'' @ m @ ''}}'' @ mid @ ''{{'' @ n @ ''}}'') values =
      Inl (InvalidPlaceholder (m @ ''}}'' @ mid @ ''{{'' @ n)) \<and>
    parse_prompt_template io (''{{'' @ m @ ''}}'' @ mid @ ''{{'' @ n @ ''}}'') =
      Inr [\<lparr>expression = m, name = m, selectors = []\<rparr>, \<lparr>expression = n, name = n, selectors = []\<rparr>]"
proof -
  let ?t = "''{{'' @ m @ ''}}'' @ mid @ ''{{'' @ n @ ''}}''" and ?core = "m @ ''}}'' @ mid @ ''{{'' @ n"
  have t: "?t = template_of [([], m), (mid, n)] []" by simp
  have ok: "segments_ok [([], m), (mid, n)]" and nil: "plain []"
    using assms by (auto simp: segments_ok_def plain_def)
  have prot: "protect ?t = ?t" unfolding t by (rule protect_template [OF ok nil])
  obtain d u where m: "m = d # u" using is_ident_head [OF assms(1)] by blast
  obtain z e where n: "n = z @ [e]" using is_ident_head [OF assms(2)] by (metis list.distinct(1) rev_exhaust)
  have d: "33 \<le> ord d" "ord d < 128" using is_ident_visible [OF assms(1), of d] m by auto
  have e: "33 \<le> ord e" "ord e < 128" using is_ident_visible [OF assms(2), of e] n by auto
  have "py_strip ?core = ?core"
    using rstrip_snoc [OF e, of "m @ ''}}'' @ mid @ ''{{'' @ z"] m n d
    by (simp add: py_strip_def lstrip_visible)
  moreover have "take (length ?t - 4) (drop 2 ?t) = ?core"
  proof -
    have "drop 2 ?t = ?core @ ''}}''" and "length ?t - 4 = length ?core" by simp_all
    then show ?thesis by (metis append_eq_conv_conj)
  qed
  moreover have "drop (length ?t - 2) ?t = ''}}''"
  proof -
    have "?t = (''{{'' @ ?core) @ ''}}''" and "length ?t - 2 = length (''{{'' @ ?core)" by simp_all
    then show ?thesis by (metis append_eq_conv_conj)
  qed
  moreover have "CHR 0x0A \<notin> set ?core"
    using assms(4) is_ident_visible(3) [OF assms(1)] is_ident_visible(3) [OF assms(2)] by auto
  ultimately have "exact_match ?t = Some ?core"
    unfolding exact_match_def Let_def by simp
  moreover have "parse_expression io ?core = Inl (InvalidPlaceholder ?core)"
  proof -
    have "is_alpha d" "ident_tail u = (u, [])"
      using assms(1) m by (auto simp: is_ident_def ident_match_def split: if_splits prod.splits)
    then have "ident_match ?core = Some (m, ''}}'' @ mid @ ''{{'' @ n)"
      using m ident_tail_append [of u "CHR ''}''" "''}'' @ mid @ ''{{'' @ n"]
      by (simp add: ident_match_def is_alnum_def is_alpha_def is_digit_def)
    then show ?thesis by (simp add: parse_expression_def)
  qed
  ultimately have "render_template_value io ?t values = Inl (InvalidPlaceholder ?core)"
    unfolding render_template_value_def prot by simp
  moreover have "pieces ?t = Inr m # map Inl mid @ [Inr n]"
    unfolding t using pieces_template [OF ok nil] by simp
  moreover have "expressions (Inr m # map Inl mid @ [Inr n]) = [m, n]" and "literals (Inr m # map Inl mid @ [Inr n]) = mid"
    by (induction mid) auto
  ultimately show ?thesis
    unfolding parse_prompt_template_def prot Let_def
    by (simp add: is_ident_parse assms plain_no_braces need_def)
qed

theorem render_outer_placeholders_rejected_witness:
  "render_template_value \<lparr>float_repr = \<lambda>_. [], float_parse = \<lambda>_. None\<rparr> ''{{a}} and {{b}}''
     [(''a'', JStr ''x''), (''b'', JStr ''y'')] = Inl (InvalidPlaceholder ''a}} and {{b'')"
proof -
  have 1: "is_ident ''a''" and 2: "is_ident ''b''" and 3: "plain '' and ''" by code_simp+
  have 4: "CHR 0x0A \<notin> set '' and ''" by simp
  show ?thesis
    using render_outer_placeholders_rejected [OF 1 2 3 4, of _ "[(''a'', JStr ''x''), (''b'', JStr ''y'')]"]
    by simp
qed

text \<open>
  An exact placeholder keeps the native value it is bound to, of any JSON type.
\<close>
theorem render_exact_placeholder:
  assumes "is_ident n" and "dget (canonical_values values) (lower n) = Some v"
  shows "render_template_value io (''{{'' @ n @ ''}}'') values = Inr v"
proof -
  have t: "''{{'' @ n @ ''}}'' = template_of [([], n)] []" by simp
  have ok: "segments_ok [([], n)]" and nil: "plain []"
    using assms by (auto simp: segments_ok_def plain_def)
  have "exact_match (''{{'' @ n @ ''}}'') = Some n"
    using is_ident_strip [OF assms(1)] is_ident_visible(3) [OF assms(1)]
    by (auto simp: exact_match_def)
  with assms protect_template [OF ok nil] show ?thesis
    unfolding t [symmetric]
    by (simp add: render_template_value_def is_ident_parse placeholder_value_def)
qed

theorem render_exact_placeholder_witness:
  "render_template_value \<lparr>float_repr = \<lambda>_. [], float_parse = \<lambda>_. None\<rparr> ''{{rows}}''
     [(''Rows'', JList [JInt 1, JNull])] = Inr (JList [JInt 1, JNull])"
proof -
  have 1: "is_ident ''rows''" by code_simp
  have 2: "dget (canonical_values [(''Rows'', JList [JInt 1, JNull])]) (lower ''rows'') = Some (JList [JInt 1, JNull])"
    by code_simp
  show ?thesis using render_exact_placeholder [OF 1 2] by simp
qed

text \<open>
  A nested object in a template with other text is refused: its JSON text ends in two
  closing braces, which the check for unmatched delimiters takes for a template error.
\<close>
theorem render_nested_object_rejected:
  "render_template_value \<lparr>float_repr = \<lambda>_. [], float_parse = \<lambda>_. None\<rparr> ''data: {{x}}''
     [(''x'', JObj [(''a'', JObj [(''b'', JInt 1)])])] = Inl UnmatchedDelimiter"
  by code_simp

end
