(* ===== verification/Runtime.thy ===== *)
theory Runtime
  imports Ir Contracts Prompt_Templates
begin

text \<open>
  \<^verbatim>\<open>rattish/runtime.py\<close>: how a node reads its inputs. References, predicates, bindings,
  the preparation of workflow inputs, the redaction of secrets and the classification of
  a node's result. Parameters stand for what the process environment and third-party
  code supply: the environment variables, the regular expression engine, the text of a
  non-string value, and the JSON Schema validator.
\<close>

section \<open>Data\<close>

record py_lib =
  environ :: "string \<Rightarrow> string option"
  re_search :: "string \<Rightarrow> string \<Rightarrow> bool option"
  py_str :: "json \<Rightarrow> string"
  py_repr :: "string \<Rightarrow> string"

record scope =
  workflow_inputs :: "(string, json) dict"
  trigger_events :: "json list"
  node_outputs :: "(string, json) dict"
  node_statuses :: "(string, string) dict"
  node_errors :: "(string, json) dict"

record error_info =
  kind :: string
  code :: string
  message :: string
  details :: "(string \<times> json) list"

record node_result =
  result_node_id :: string
  result_outcome :: outcome
  result_output :: json
  result_error :: "error_info option"

definition error_document :: "error_info \<Rightarrow> json" where
  "error_document e =
     JObj [(''kind'', JStr (kind e)), (''code'', JStr (code e)),
           (''message'', JStr (message e)), (''details'', JObj (details e))]"

section \<open>References\<close>

text \<open>\<^verbatim>\<open>_reference_value\<close>; \<open>None\<close> is the marker \<^verbatim>\<open>_MISSING\<close>.\<close>
definition reference_value :: "py_lib \<Rightarrow> scope \<Rightarrow> reference \<Rightarrow> json option" where
  "reference_value lib sc r =
     (let start =
        (case (root r, symbol r, channel r) of
           (InputRoot, Some s, _) \<Rightarrow> dget (workflow_inputs sc) s
         | (InputRoot, None, _) \<Rightarrow> None
         | (TriggerRoot, s, _) \<Rightarrow>
             if s = Some ''events'' then Some (JList (trigger_events sc)) else None
         | (SecretRoot, s, _) \<Rightarrow>
             map_option JStr (environ lib (case s of None \<Rightarrow> ''None'' | Some n \<Rightarrow> n))
         | (NodeRoot, Some s, Some OutputChannel) \<Rightarrow> dget (node_outputs sc) s
         | (NodeRoot, Some s, Some StatusChannel) \<Rightarrow> map_option JStr (dget (node_statuses sc) s)
         | (NodeRoot, Some s, Some ErrorChannel) \<Rightarrow> dget (node_errors sc) s
         | (NodeRoot, _, _) \<Rightarrow> None)
      in case start of None \<Rightarrow> None | Some v \<Rightarrow> py_path v (path r))"

fun operand_value :: "py_lib \<Rightarrow> scope \<Rightarrow> operand \<Rightarrow> json option" where
  "operand_value lib sc (OperandLit v _) = Some v"
| "operand_value lib sc (OperandRef r) = reference_value lib sc r"

section \<open>Predicates\<close>

text \<open>
  One comparison of two present values; a \<^verbatim>\<open>TypeError\<close> or an invalid pattern is false.
\<close>
definition compare_values :: "py_lib \<Rightarrow> comparison_op \<Rightarrow> json \<Rightarrow> json \<Rightarrow> bool" where
  "compare_values lib op l r =
     (case op of
        CmpEq \<Rightarrow> py_eq l r
      | CmpNe \<Rightarrow> \<not> py_eq l r
      | CmpOrder oop \<Rightarrow> (case py_compare oop l r of None \<Rightarrow> False | Some b \<Rightarrow> b)
      | CmpContains \<Rightarrow> (case py_in l r of None \<Rightarrow> False | Some b \<Rightarrow> b)
      | CmpMatches \<Rightarrow> (case re_search lib (py_str lib r) (py_str lib l) of None \<Rightarrow> False | Some b \<Rightarrow> b))"

fun evaluate_predicate :: "py_lib \<Rightarrow> outcome \<Rightarrow> scope \<Rightarrow> predicate \<Rightarrow> bool" where
  "evaluate_predicate lib current sc (Logical op l r) =
     (let left = evaluate_predicate lib current sc l
      in if op = AndOp \<and> \<not> left then False
         else if op = OrOp \<and> left then True
         else evaluate_predicate lib current sc r)"
| "evaluate_predicate lib current sc (NotP p) = (\<not> evaluate_predicate lib current sc p)"
| "evaluate_predicate lib current sc (Status v) = ((v = Succeeded) = (current = Success))"
| "evaluate_predicate lib current sc (Exists r) = (reference_value lib sc r \<noteq> None)"
| "evaluate_predicate lib current sc (NullTest op r) =
     (let is_null = (reference_value lib sc r = Some JNull)
      in if op = IsNull then is_null else \<not> is_null)"
| "evaluate_predicate lib current sc (RefPredicate r) =
     (case reference_value lib sc r of None \<Rightarrow> False | Some v \<Rightarrow> truthy v)"
| "evaluate_predicate lib current sc (Comparison op l r) =
     (case (operand_value lib sc l, operand_value lib sc r) of
        (Some v, Some w) \<Rightarrow> compare_values lib op v w
      | _ \<Rightarrow> False)"

definition is_output_ref :: "reference \<Rightarrow> bool" where
  "is_output_ref r \<longleftrightarrow> root r = NodeRoot \<and> channel r = Some OutputChannel"

fun operand_uses :: "(reference \<Rightarrow> bool) \<Rightarrow> operand \<Rightarrow> bool" where
  "operand_uses f (OperandRef r) = f r"
| "operand_uses f (OperandLit _ _) = False"

fun predicate_uses_output :: "predicate \<Rightarrow> bool" where
  "predicate_uses_output (Logical _ l r) = (predicate_uses_output l \<or> predicate_uses_output r)"
| "predicate_uses_output (NotP p) = predicate_uses_output p"
| "predicate_uses_output (Exists r) = is_output_ref r"
| "predicate_uses_output (NullTest _ r) = is_output_ref r"
| "predicate_uses_output (RefPredicate r) = is_output_ref r"
| "predicate_uses_output (Comparison _ l r) =
     (operand_uses is_output_ref l \<or> operand_uses is_output_ref r)"
| "predicate_uses_output (Status _) = False"

section \<open>Bindings\<close>

datatype runtime_error =
    BindingUnresolved string
  | StdinNotText string
  | ChannelNotImplemented "channel option"
  | RootNotImplemented ref_root "channel option"
  | EnvironmentValueError canonical_error
  | TemplateFailed template_error
  | HandlerNotInstalled string

text \<open>
  \<^verbatim>\<open>_binding_value\<close>. \<open>Inl (Inl ())\<close> is the \<^verbatim>\<open>KeyError\<close>, \<^verbatim>\<open>IndexError\<close> or \<^verbatim>\<open>TypeError\<close> its caller
  catches, \<open>Inl (Inr e)\<close> an error that passes through.
\<close>
definition reference_start ::
  "py_lib \<Rightarrow> scope \<Rightarrow> reference \<Rightarrow> (unit + runtime_error) + json" where
  "reference_start lib sc r =
     (let found = (\<lambda>x. case x of None \<Rightarrow> Inl (Inl ()) | Some v \<Rightarrow> Inr v)
      in case root r of
           InputRoot \<Rightarrow> found (Option.bind (symbol r) (dget (workflow_inputs sc)))
         | TriggerRoot \<Rightarrow>
             if symbol r = Some ''events'' then Inr (JList (trigger_events sc))
             else Inl (Inr (RootNotImplemented (root r) (channel r)))
         | SecretRoot \<Rightarrow> found (map_option JStr (Option.bind (symbol r) (environ lib)))
         | NodeRoot \<Rightarrow>
             (case channel r of
                Some OutputChannel \<Rightarrow> found (Option.bind (symbol r) (dget (node_outputs sc)))
              | Some StatusChannel \<Rightarrow>
                  found (map_option JStr (Option.bind (symbol r) (dget (node_statuses sc))))
              | Some ErrorChannel \<Rightarrow> found (Option.bind (symbol r) (dget (node_errors sc)))
              | _ \<Rightarrow> Inl (Inr (ChannelNotImplemented (channel r)))))"

definition binding_value ::
  "py_lib \<Rightarrow> scope \<Rightarrow> binding \<Rightarrow> (unit + runtime_error) + json" where
  "binding_value lib sc b =
     (case source b of
        LitSource v \<Rightarrow> Inr v
      | ExprSource p \<Rightarrow> Inr (JBool (evaluate_predicate lib Success sc p))
      | RefSource r \<Rightarrow>
          (let value = andThen (reference_start lib sc r)
                         (\<lambda>v. case py_path v (path r) of None \<Rightarrow> Inl (Inl ()) | Some w \<Rightarrow> Inr w)
           in case value of
                Inl (Inl ()) \<Rightarrow>
                  (case default_value b of
                     Some v \<Rightarrow> Inr v
                   | None \<Rightarrow> if optional r then Inr JNull else Inl (Inl ()))
              | _ \<Rightarrow> value))"

fun visit_secret :: "predicate \<Rightarrow> bool" where
  "visit_secret (Logical _ l r) = (visit_secret l \<or> visit_secret r)"
| "visit_secret (NotP p) = visit_secret p"
| "visit_secret (Exists r) = (root r = SecretRoot)"
| "visit_secret (NullTest _ r) = (root r = SecretRoot)"
| "visit_secret (RefPredicate r) = (root r = SecretRoot)"
| "visit_secret (Comparison _ l r) =
     (operand_uses (\<lambda>x. root x = SecretRoot) l \<or> operand_uses (\<lambda>x. root x = SecretRoot) r)"
| "visit_secret (Status _) = False"

fun source_uses_secret :: "binding_source \<Rightarrow> bool" where
  "source_uses_secret (RefSource r) = (root r = SecretRoot)"
| "source_uses_secret (ExprSource p) = visit_secret p"
| "source_uses_secret (LitSource _) = False"


section \<open>Resolving the bindings of a node\<close>

record resolved_bindings =
  local :: "(string, json) dict"
  environment :: "(string, string) dict"
  stdin :: "string option"
  child_inputs :: "(string, json) dict"
  sensitive_values :: "string list"

text \<open>\<^verbatim>\<open>tuple(dict.fromkeys(xs))\<close>: the first occurrence of each element, in order.\<close>
definition from_keys :: "'a list \<Rightarrow> 'a list" where
  "from_keys xs = dkeys (fold (\<lambda>x. dset x ()) xs [])"

definition environment_value :: "float_io \<Rightarrow> json \<Rightarrow> runtime_error + string" where
  "environment_value io v =
     (case v of
        JStr s \<Rightarrow> Inr s
      | _ \<Rightarrow> (case canonical_json_bytes io v of
               Inl e \<Rightarrow> Inl (EnvironmentValueError e)
             | Inr t \<Rightarrow> Inr t))"

fun deliver ::
  "float_io \<Rightarrow> string \<Rightarrow> delivery \<Rightarrow> json \<Rightarrow> resolved_bindings \<Rightarrow> runtime_error + resolved_bindings" where
  "deliver io n (DeliverEnvironment e) v rb =
     andThen (environment_value io v) (\<lambda>t. Inr (rb\<lparr>environment := dset e t (environment rb)\<rparr>))"
| "deliver io n DeliverStdin v rb =
     (case v of JStr s \<Rightarrow> Inr (rb\<lparr>stdin := Some s\<rparr>) | _ \<Rightarrow> Inl (StdinNotText n))"
| "deliver io n (DeliverLocal l) v rb = Inr (rb\<lparr>local := dset l v (local rb)\<rparr>)"
| "deliver io n (DeliverWorkflowInput w) v rb =
     Inr (rb\<lparr>local := dset w v (local rb), child_inputs := dset w v (child_inputs rb)\<rparr>)"

fun text_of :: "json \<Rightarrow> string" where
  "text_of (JStr s) = s"
| "text_of _ = []"

text \<open>The body of the loop over the bindings.\<close>
definition resolve_binding ::
  "py_lib \<Rightarrow> float_io \<Rightarrow> scope \<Rightarrow> resolved_bindings \<Rightarrow> binding \<Rightarrow> runtime_error + resolved_bindings" where
  "resolve_binding lib io sc rb b =
     (case binding_value lib sc b of
        Inl (Inl ()) \<Rightarrow> Inl (BindingUnresolved (binding_name b))
      | Inl (Inr e) \<Rightarrow> Inl e
      | Inr v \<Rightarrow>
          (let rb1 = rb\<lparr>local := dset (binding_name b) v (local rb)\<rparr>;
               rb2 = (if source_uses_secret (source b) \<and> is_str v \<and> truthy v
                      then rb1\<lparr>sensitive_values := sensitive_values rb1 @ [text_of v]\<rparr> else rb1)
           in deliver io (binding_name b) (delivery b) v rb2))"

definition no_bindings :: resolved_bindings where
  "no_bindings = \<lparr>local = [], environment = [], stdin = None, child_inputs = [], sensitive_values = []\<rparr>"

definition resolve_bindings ::
  "py_lib \<Rightarrow> float_io \<Rightarrow> node \<Rightarrow> scope \<Rightarrow> runtime_error + resolved_bindings" where
  "resolve_bindings lib io n sc =
     andThen (foldR (resolve_binding lib io sc) no_bindings (bindings n))
       (\<lambda>rb. Inr (rb\<lparr>sensitive_values := from_keys (sensitive_values rb)\<rparr>))"

section \<open>Redaction\<close>

definition redacted_mark :: string where
  "redacted_mark = ''[REDACTED]''"

definition redact_text :: "string list \<Rightarrow> string \<Rightarrow> string" where
  "redact_text secrets s =
     fold (\<lambda>secret. str_replace secret redacted_mark)
       (sort_key (\<lambda>x. - int (py_len x)) (filter (\<lambda>x. x \<noteq> []) secrets)) s"

fun redact_sensitive :: "string list \<Rightarrow> json \<Rightarrow> json"
  and redact_items :: "string list \<Rightarrow> json list \<Rightarrow> json list"
  and redact_members ::
    "string list \<Rightarrow> (string, json) dict \<Rightarrow> (string \<times> json) list \<Rightarrow> (string, json) dict" where
  "redact_sensitive secrets (JStr s) = JStr (redact_text secrets s)"
| "redact_sensitive secrets (JList xs) = JList (redact_items secrets xs)"
| "redact_sensitive secrets (JObj ms) = JObj (redact_members secrets [] ms)"
| "redact_sensitive secrets v = v"
| "redact_items secrets [] = []"
| "redact_items secrets (x # xs) = redact_sensitive secrets x # redact_items secrets xs"
| "redact_members secrets acc [] = acc"
| "redact_members secrets acc ((k, v) # ms) =
     redact_members secrets (dset (redact_text secrets k) (redact_sensitive secrets v) acc) ms"

definition redact_runtime_error :: "string list \<Rightarrow> error_info option \<Rightarrow> error_info option" where
  "redact_runtime_error secrets e =
     map_option (\<lambda>x. x\<lparr>message := redact_text secrets (message x),
                       details := redact_members secrets [] (details x)\<rparr>) e"

section \<open>Configuration\<close>

fun render_configuration ::
  "float_io \<Rightarrow> (string, json) dict \<Rightarrow> string list \<Rightarrow> string \<Rightarrow> json \<Rightarrow> template_error + json"
  and render_items ::
  "float_io \<Rightarrow> (string, json) dict \<Rightarrow> string list \<Rightarrow> json list \<Rightarrow> template_error + json list"
  and render_members ::
  "float_io \<Rightarrow> (string, json) dict \<Rightarrow> string list \<Rightarrow> (string \<times> json) list \<Rightarrow>
     template_error + (string \<times> json) list" where
  "render_configuration io vs skip field (JStr s) =
     (if field \<noteq> [] \<and> field \<in> set skip then Inr (JStr s)
      else if \<not> str_in ''{{'' s \<and> \<not> str_in ''}}'' s then Inr (JStr s)
      else render_template_value io s vs)"
| "render_configuration io vs skip field (JList xs) =
     (if field \<noteq> [] \<and> field \<in> set skip then Inr (JList xs)
      else andThen (render_items io vs skip xs) (\<lambda>ys. Inr (JList ys)))"
| "render_configuration io vs skip field (JObj ms) =
     (if field \<noteq> [] \<and> field \<in> set skip then Inr (JObj ms)
      else andThen (render_members io vs skip ms) (\<lambda>ns. Inr (JObj ns)))"
| "render_configuration io vs skip field v = Inr v"
| "render_items io vs skip [] = Inr []"
| "render_items io vs skip (x # xs) =
     andThen (render_configuration io vs skip [] x) (\<lambda>y.
     andThen (render_items io vs skip xs) (\<lambda>ys. Inr (y # ys)))"
| "render_members io vs skip [] = Inr []"
| "render_members io vs skip ((k, v) # ms) =
     andThen (render_configuration io vs skip k v) (\<lambda>w.
     andThen (render_members io vs skip ms) (\<lambda>ns. Inr ((k, w) # ns)))"

text \<open>\<open>None\<close> is the \<^verbatim>\<open>KeyError\<close> of an absent configuration field.\<close>
definition binding_or_configuration ::
  "resolved_bindings \<Rightarrow> (string, json) dict \<Rightarrow> string \<Rightarrow> string option \<Rightarrow> json option" where
  "binding_or_configuration rb conf b c =
     (case dget (local rb) b of
        Some v \<Rightarrow> Some v
      | None \<Rightarrow>
          dget conf (case c of
             Some (x # xs) \<Rightarrow> x # xs
           | _ \<Rightarrow> str_replace ''-'' ''_'' b))"

section \<open>Workflow inputs\<close>

text \<open>
  The JSON Schema validator: \<open>Inl ()\<close> when the schema cannot be resolved, otherwise the
  first validation error, if there is one.
\<close>
record validation_error =
  verror_message :: string
  verror_path :: "json list"

type_synonym schema_validator = "json \<Rightarrow> json \<Rightarrow> unit + validation_error option"

datatype input_error =
    UnknownInputs "string list"
  | RequiredMissing string
  | SchemaUnresolvable string
  | InputInvalid string string

definition check_input :: "schema_validator \<Rightarrow> string \<Rightarrow> json \<Rightarrow> json \<Rightarrow> input_error + unit" where
  "check_input validator n sch v =
     (case validator sch v of
        Inl () \<Rightarrow> Inl (SchemaUnresolvable n)
      | Inr (Some e) \<Rightarrow> Inl (InputInvalid n (verror_message e))
      | Inr None \<Rightarrow> Inr ())"

definition prepare_input ::
  "schema_validator \<Rightarrow> (string, json) dict \<Rightarrow> string \<times> workflow_input \<Rightarrow> input_error + (string, json) dict" where
  "prepare_input validator prepared = (\<lambda>(n, decl).
     case dget prepared n of
       Some v \<Rightarrow> andThen (check_input validator n (input_decl_schema decl) v) (\<lambda>_. Inr prepared)
     | None \<Rightarrow>
         (case input_default decl of
            Some v \<Rightarrow> andThen (check_input validator n (input_decl_schema decl) v)
                        (\<lambda>_. Inr (dset n v prepared))
          | None \<Rightarrow> if required decl then Inl (RequiredMissing n) else Inr prepared))"

definition declarations :: "workflow_input list \<Rightarrow> (string, workflow_input) dict" where
  "declarations is = fold (\<lambda>i. dset (input_name i) i) is []"

definition prepare_workflow_inputs ::
  "schema_validator \<Rightarrow> workflow \<Rightarrow> (string, json) dict \<Rightarrow> input_error + (string, json) dict" where
  "prepare_workflow_inputs validator w supplied =
     (let decls = declarations (inputs w);
          unknown = sorted_list_of_set (set (dkeys supplied) - set (dkeys decls))
      in andThen (need (unknown = []) (UnknownInputs unknown)) (\<lambda>_.
         foldR (prepare_input validator) supplied decls))"

section \<open>Handlers\<close>

text \<open>
  An exception as \<^verbatim>\<open>execute_node\<close> sees it: which \<^verbatim>\<open>except\<close> clause takes it, the name of its
  class and its text.
\<close>
datatype exception_class = TimeoutClass | FileClass | LookupValueClass | OtherClass

record py_exception =
  exc_class :: exception_class
  exc_name :: string
  exc_text :: string

record handler_result =
  hr_success :: bool
  hr_output :: json
  hr_error :: "error_info option"

text \<open>
  A handler is code of its own (a process, a provider, the file system): an argument of
  the model. It returns a result or raises; with a time limit on the node the wait may
  also end in \<^verbatim>\<open>TimeoutError\<close>.
\<close>
type_synonym handler = "node \<Rightarrow> scope \<Rightarrow> resolved_bindings \<Rightarrow> py_exception + handler_result"

type_synonym handler_registry = "(string, handler) dict"

datatype register_error = AlreadyRegistered string

definition register_handler ::
  "string \<Rightarrow> 'h \<Rightarrow> (string, 'h) dict \<Rightarrow> register_error + (string, 'h) dict" where
  "register_handler h f reg =
     (if dget reg h \<noteq> None then Inl (AlreadyRegistered h) else Inr (dset h f reg))"

definition require_handler :: "(string, 'h) dict \<Rightarrow> string \<Rightarrow> runtime_error + 'h" where
  "require_handler reg h =
     (case dget reg h of None \<Rightarrow> Inl (HandlerNotInstalled h) | Some f \<Rightarrow> Inr f)"

definition supports_handler :: "(string, 'h) dict \<Rightarrow> string \<Rightarrow> bool" where
  "supports_handler reg h \<longleftrightarrow> dget reg h \<noteq> None"

section \<open>Executing one node\<close>

fun channel_repr :: "channel option \<Rightarrow> string" where
  "channel_repr None = ''None''"
| "channel_repr (Some ErrorChannel) = [CHR 0x27] @ ''error'' @ [CHR 0x27]"
| "channel_repr (Some ItemChannel) = [CHR 0x27] @ ''item'' @ [CHR 0x27]"
| "channel_repr (Some OutputChannel) = [CHR 0x27] @ ''output'' @ [CHR 0x27]"
| "channel_repr (Some StatusChannel) = [CHR 0x27] @ ''status'' @ [CHR 0x27]"

fun root_repr :: "ref_root \<Rightarrow> string" where
  "root_repr InputRoot = [CHR 0x27] @ ''input'' @ [CHR 0x27]"
| "root_repr NodeRoot = [CHR 0x27] @ ''node'' @ [CHR 0x27]"
| "root_repr SecretRoot = [CHR 0x27] @ ''secret'' @ [CHR 0x27]"
| "root_repr TriggerRoot = [CHR 0x27] @ ''trigger'' @ [CHR 0x27]"

fun template_message :: "py_lib \<Rightarrow> template_error \<Rightarrow> string" where
  "template_message lib (InvalidPlaceholder e) = ''Invalid prompt placeholder '' @ py_repr lib e @ ''.''"
| "template_message lib UnmatchedDelimiter = ''Prompt contains an unmatched placeholder delimiter.''"
| "template_message lib (Unresolved e) =
     ''Prompt placeholder '' @ py_repr lib e @ '' could not be resolved.''"
| "template_message lib (NotBound n) =
     ''Prompt placeholder '' @ py_repr lib n @ '' does not name a bound input.''"

abbreviation unsupported :: "string \<Rightarrow> py_exception" where
  "unsupported t \<equiv> \<lparr>exc_class = OtherClass, exc_name = ''UnsupportedRattishRuntimeError'', exc_text = t\<rparr>"

abbreviation value_error :: "string \<Rightarrow> py_exception" where
  "value_error t \<equiv> \<lparr>exc_class = LookupValueClass, exc_name = ''ValueError'', exc_text = t\<rparr>"

fun exception_of :: "py_lib \<Rightarrow> runtime_error \<Rightarrow> py_exception" where
  "exception_of lib (BindingUnresolved n) =
     value_error (''Binding '' @ py_repr lib n @
       '' could not resolve its source from the available runtime data.'')"
| "exception_of lib (StdinNotText n) =
     unsupported (''Binding '' @ py_repr lib n @ '' delivered to stdin is not text.'')"
| "exception_of lib (ChannelNotImplemented c) =
     unsupported (''Node reference channel '' @ channel_repr c @ '' is not implemented.'')"
| "exception_of lib (RootNotImplemented r c) =
     unsupported (''Reference root/channel '' @ root_repr r @ ''/'' @ channel_repr c @
       '' is not implemented.'')"
| "exception_of lib (EnvironmentValueError IntegerNotExact) =
     value_error ''RFC 8785 integers must be exactly representable as IEEE-754.''"
| "exception_of lib (TemplateFailed e) =
     \<lparr>exc_class = LookupValueClass, exc_name = ''PromptTemplateError'', exc_text = template_message lib e\<rparr>"
| "exception_of lib (HandlerNotInstalled h) =
     unsupported (''Runtime handler '' @ py_repr lib h @ '' is not installed.'')"

definition timeout_json :: "nat option \<Rightarrow> json" where
  "timeout_json t = (case t of None \<Rightarrow> JNull | Some ms \<Rightarrow> JNat ms)"

text \<open>The \<^verbatim>\<open>except\<close> clauses.\<close>
definition failed_result :: "node \<Rightarrow> py_exception \<Rightarrow> handler_result" where
  "failed_result n e =
     \<lparr>hr_success = False, hr_output = JObj [],
      hr_error = Some (case exc_class e of
         TimeoutClass \<Rightarrow>
           \<lparr>kind = ''timeout'', code = ''RATTISH_TIMEOUT'',
            message = (if exc_text e = [] then ''Node timed out.'' else exc_text e),
            details = [(''scope'', JStr ''node''), (''timeout_ms'', timeout_json (timeout_ms (execution n)))]\<rparr>
       | FileClass \<Rightarrow>
           \<lparr>kind = ''filesystem'', code = ''RATTISH_RUNTIME_FILESYSTEM_ERROR'', message = exc_text e,
            details = [(''exception'', JStr (exc_name e))]\<rparr>
       | LookupValueClass \<Rightarrow>
           \<lparr>kind = ''configuration'', code = ''RATTISH_RUNTIME_CONFIGURATION_ERROR'', message = exc_text e,
            details = [(''exception'', JStr (exc_name e))]\<rparr>
       | OtherClass \<Rightarrow>
           \<lparr>kind = ''internal'', code = ''RATTISH_RUNTIME_INTERNAL_ERROR'',
            message = (if exc_text e = [] then exc_name e @ '' raised without a message.'' else exc_text e),
            details = [(''exception'', JStr (exc_name e))]\<rparr>)\<rparr>"

definition render_skip :: "node \<Rightarrow> string list" where
  "render_skip n = [if node_type n = ''agent'' then ''prompt'' else [],
                    if node_type n = ''prompt-file'' then ''template'' else []]"

definition lift_template :: "template_error + 'a \<Rightarrow> runtime_error + 'a" where
  "lift_template r = (case r of Inl e \<Rightarrow> Inl (TemplateFailed e) | Inr v \<Rightarrow> Inr v)"

text \<open>The \<^verbatim>\<open>try\<close> block behind the resolution of the bindings.\<close>
definition dispatch ::
  "py_lib \<Rightarrow> float_io \<Rightarrow> handler_registry \<Rightarrow> node \<Rightarrow> scope \<Rightarrow> resolved_bindings \<Rightarrow> py_exception + handler_result" where
  "dispatch lib io reg n sc rb =
     (case andThen (lift_template (render_configuration io (local rb) (render_skip n) [] (configuration n)))
             (\<lambda>conf. andThen (require_handler reg (runtime_handler n)) (\<lambda>h. Inr (conf, h))) of
        Inl e \<Rightarrow> Inl (exception_of lib e)
      | Inr (conf, h) \<Rightarrow> h (n\<lparr>configuration := conf\<rparr>) sc rb)"

definition redact_result :: "string list \<Rightarrow> handler_result \<Rightarrow> handler_result" where
  "redact_result secrets h =
     (if secrets = [] then h
      else \<lparr>hr_success = hr_success h, hr_output = redact_sensitive secrets (hr_output h),
            hr_error = redact_runtime_error secrets (hr_error h)\<rparr>)"

definition unresolvable_schema :: validation_error where
  "unresolvable_schema =
     \<lparr>verror_message = ''Output schema cannot be resolved locally or is recursive'', verror_path = []\<rparr>"

definition output_error :: "schema_validator \<Rightarrow> json \<Rightarrow> json \<Rightarrow> validation_error option" where
  "output_error validator sch v =
     (case validator sch v of Inl () \<Rightarrow> Some unresolvable_schema | Inr e \<Rightarrow> e)"

definition validate_output :: "schema_validator \<Rightarrow> node \<Rightarrow> handler_result \<Rightarrow> handler_result" where
  "validate_output validator n h =
     (if hr_success h then
        (case output_error validator (node_output_schema n) (hr_output h) of
           None \<Rightarrow> h
         | Some e \<Rightarrow>
             \<lparr>hr_success = False, hr_output = JObj [],
              hr_error = Some \<lparr>kind = ''output_validation'', code = ''RATTISH_RUNTIME_OUTPUT_INVALID'',
                message = verror_message e, details = [(''path'', JList (verror_path e))]\<rparr>\<rparr>)
      else h)"

definition node_outcome :: "node \<Rightarrow> bool \<Rightarrow> outcome" where
  "node_outcome n success =
     (if success then Success else if allow_fail (execution n) then AllowedFailure else Failure)"

definition execute_found ::
  "py_lib \<Rightarrow> float_io \<Rightarrow> schema_validator \<Rightarrow> handler_registry \<Rightarrow> node \<Rightarrow> scope \<Rightarrow> handler_result" where
  "execute_found lib io validator reg n sc =
     (let (rb, attempt) =
        (case resolve_bindings lib io n sc of
           Inl e \<Rightarrow> (no_bindings, Inl (exception_of lib e))
         | Inr rb \<Rightarrow> (rb, dispatch lib io reg n sc rb));
          handled = (case attempt of Inl e \<Rightarrow> failed_result n e | Inr h \<Rightarrow> h)
      in validate_output validator n (redact_result (sensitive_values rb) handled))"

text \<open>\<open>Inl\<close> is the \<^verbatim>\<open>KeyError\<close> of an unknown node.\<close>
definition execute_node ::
  "py_lib \<Rightarrow> float_io \<Rightarrow> schema_validator \<Rightarrow> handler_registry \<Rightarrow> ir \<Rightarrow> string \<Rightarrow> scope \<Rightarrow>
     string + node_result" where
  "execute_node lib io validator reg d n sc =
     (case node_of d n of
        None \<Rightarrow> Inl n
      | Some nd \<Rightarrow>
          (let handled = execute_found lib io validator reg nd sc
           in Inr \<lparr>result_node_id = n, result_outcome = node_outcome nd (hr_success handled),
                   result_output = hr_output handled, result_error = hr_error handled\<rparr>))"

section \<open>Command lines\<close>

datatype platform = Win32 | Darwin | OtherPlatform

definition shell_command_args :: "platform \<Rightarrow> string \<Rightarrow> string list" where
  "shell_command_args p c =
     (if p = Win32 then
        [''powershell.exe'', ''-NoProfile'', ''-NonInteractive'', ''-ExecutionPolicy'', ''Bypass'',
         ''-Command'', c]
      else [''bash'', ''-c'', c])"

definition open_resource_command :: "platform \<Rightarrow> string \<Rightarrow> string \<Rightarrow> string list \<Rightarrow> string list" where
  "open_resource_command p target_path resource_type args =
     (if resource_type = ''app'' then target_path # args
      else if p = Win32 then [''cmd'', ''/c'', ''start'', [], target_path]
      else if p = Darwin then [''open'', target_path]
      else [''xdg-open'', target_path])"

section \<open>What redaction removes\<close>

fun mentions :: "string \<Rightarrow> json \<Rightarrow> bool"
  and mentions_list :: "string \<Rightarrow> json list \<Rightarrow> bool"
  and mentions_members :: "string \<Rightarrow> (string \<times> json) list \<Rightarrow> bool" where
  "mentions p (JStr s) = str_in p s"
| "mentions p (JList xs) = mentions_list p xs"
| "mentions p (JObj ms) = mentions_members p ms"
| "mentions p v = False"
| "mentions_list p [] = False"
| "mentions_list p (x # xs) = (mentions p x \<or> mentions_list p xs)"
| "mentions_members p [] = False"
| "mentions_members p ((k, v) # ms) = (str_in p k \<or> mentions p v \<or> mentions_members p ms)"

definition redactable :: "string \<Rightarrow> bool" where
  "redactable p \<longleftrightarrow> p \<noteq> [] \<and> set p \<inter> set redacted_mark = {}"

lemma str_in_replace:
  assumes "str_in p (str_replace old new s)" and "p \<noteq> []" and "new \<noteq> []" and "set p \<inter> set new = {}"
  shows "str_in p s"
  using assms
proof (induction old new s rule: str_replace.induct)
  case (3 a old new c s)
  show ?case
  proof (cases "starts_with (a # old) (c # s)")
    case True
    with "3.prems"(1) obtain u v where "u @ p @ v = new @ str_replace (a # old) new (drop (length old) s)"
      by (auto simp: str_in_iff)
    from occurrence_split [OF this "3.prems"(2,4)]
    have "str_in p (str_replace (a # old) new (drop (length old) s))" by (auto simp: str_in_iff)
    with "3.IH"(1) True "3.prems" have "str_in p (drop (length old) s)" by blast
    then obtain u v where "drop (length old) s = u @ p @ v" by (auto simp: str_in_iff)
    then have "c # s = (c # take (length old) s @ u) @ p @ v"
      by (metis append.assoc append_Cons append_take_drop_id)
    then show ?thesis unfolding str_in_iff by blast
  next
    case False
    then have eq: "str_replace (a # old) new (c # s) = c # str_replace (a # old) new s"
      by (auto simp del: starts_with_Cons)
    show ?thesis
    proof (cases "str_in p (str_replace (a # old) new s)")
      case True
      with "3.IH"(2) False "3.prems" show ?thesis by simp
    next
      case nested: False
      with "3.prems"(1) eq have "starts_with p (str_replace (a # old) new (c # s))" by simp
      with "3.prems" show ?thesis using starts_with_replace [of p "a # old" new "c # s"] by simp
    qed
  qed
qed auto

lemma redact_fold_keeps:
  "redactable p \<Longrightarrow> \<not> str_in p s \<Longrightarrow> \<not> str_in p (fold (\<lambda>x. str_replace x redacted_mark) xs s)"
proof (induction xs arbitrary: s)
  case (Cons x xs)
  have "redacted_mark \<noteq> []" by (simp add: redacted_mark_def)
  with Cons.prems have "\<not> str_in p (str_replace x redacted_mark s)"
    using str_in_replace unfolding redactable_def by blast
  with Cons show ?case by simp
qed simp

lemma redact_fold_removes:
  "redactable p \<Longrightarrow> p \<in> set xs \<Longrightarrow> \<not> str_in p (fold (\<lambda>x. str_replace x redacted_mark) xs s)"
proof (induction xs arbitrary: s)
  case (Cons x xs)
  show ?case
  proof (cases "x = p")
    case True
    have "\<not> str_in p (str_replace p redacted_mark s)"
      using Cons.prems(1) by (intro str_replace_removes) (auto simp: redactable_def redacted_mark_def)
    with True Cons.prems(1) show ?thesis by (simp add: redact_fold_keeps)
  next
    case False
    with Cons show ?thesis by simp
  qed
qed simp

lemma redact_text_removes: "redactable p \<Longrightarrow> p \<in> set secrets \<Longrightarrow> \<not> str_in p (redact_text secrets s)"
  unfolding redact_text_def by (rule redact_fold_removes) (auto simp: redactable_def)

lemma mentions_members_iff:
  "mentions_members p ms \<longleftrightarrow> (\<exists>(k, v) \<in> set ms. str_in p k \<or> mentions p v)"
  by (induction ms) auto

lemma mentions_members_dset:
  "\<not> mentions_members p ms \<Longrightarrow> \<not> str_in p k \<Longrightarrow> \<not> mentions p v \<Longrightarrow> \<not> mentions_members p (dset k v ms)"
  by (induction ms) auto

lemma redact_removes_mutual:
  assumes "redactable p" and "p \<in> set secrets"
  shows "\<not> mentions p (redact_sensitive secrets v)"
    and "\<not> mentions_list p (redact_items secrets xs)"
    and "\<not> mentions_members p acc \<Longrightarrow> \<not> mentions_members p (redact_members secrets acc ms)"
  using assms
  by (induction secrets v and secrets xs and secrets acc ms
      rule: redact_sensitive_redact_items_redact_members.induct)
    (auto simp: redact_text_removes mentions_members_dset)

lemmas redact_removes = redact_removes_mutual(1,3)

section \<open>Results of a node\<close>



definition token_binding :: binding where
  "token_binding = \<lparr>binding_name = ''token'',
     source = RefSource \<lparr>root = SecretRoot, symbol = Some ''KEY'', channel = None, path = [],
       optional = False, ref_schema = JNull\<rparr>,
     source_schema = JNull, destination_schema = JNull, default_value = None,
     delivery = DeliverLocal ''token''\<rparr>"

definition token_lib :: py_lib where
  "token_lib = \<lparr>environ = (\<lambda>k. if k = ''KEY'' then Some ''s3kr1t'' else None),
     re_search = (\<lambda>p s. Some (str_in p s)), py_str = text_of, py_repr = (\<lambda>s. s)\<rparr>"

definition echo_handler :: handler where
  "echo_handler nd sc rb =
     Inr \<lparr>hr_success = True, hr_output = JObj (map (\<lambda>(k, v). (''used '' @ text_of v, v)) (local rb)),
          hr_error = None\<rparr>"

lemmas sample_simps = token_binding_def token_lib_def echo_handler_def plain_simps


text \<open>
  Redaction is a single pass, so a secret that shares characters with the replacement
  text can survive it: the replacement itself may complete a new occurrence.
\<close>
theorem redaction_can_leave_secret:
  "str_in ''x['' (redact_text [''x[''] ''xx['') \<and> redact_text [''x[''] ''xx['' = ''x[REDACTED]''"
  by (simp add: redact_text_def redacted_mark_def)

lemma from_keys_set: "set (from_keys xs) = set xs"
proof -
  have "set (dkeys (fold (\<lambda>x. dset x ()) xs d)) = set (dkeys d) \<union> set xs" for d
    by (induction xs arbitrary: d) (auto simp: dom_update)
  then show ?thesis by (simp add: from_keys_def)
qed

lemma deliver_sensitive: "deliver io n dl v rb = Inr rb' \<Longrightarrow> sensitive_values rb' = sensitive_values rb"
  by (cases dl) (auto simp: result_simps split: json.splits)

lemma resolve_binding_sensitive:
  "resolve_binding lib io sc rb b = Inr rb' \<Longrightarrow>
     set (sensitive_values rb) \<subseteq> set (sensitive_values rb')"
  by (auto simp: resolve_binding_def Let_def split: sum.splits if_splits unit.splits dest: deliver_sensitive)

lemma resolve_all_sensitive:
  "foldR (resolve_binding lib io sc) rb bs = Inr rb' \<Longrightarrow>
     set (sensitive_values rb) \<subseteq> set (sensitive_values rb')"
  by (rule foldR_invariant) (auto dest: resolve_binding_sensitive)

lemma resolve_tracks:
  assumes "foldR (resolve_binding lib io sc) rb bs = Inr rb'" and "b \<in> set bs"
    and "source_uses_secret (source b)" and "binding_value lib sc b = Inr (JStr s)" and "s \<noteq> []"
  shows "s \<in> set (sensitive_values rb')"
  using assms(1,2)
proof (induction bs arbitrary: rb)
  case (Cons x xs)
  then obtain rb1 where step: "resolve_binding lib io sc rb x = Inr rb1"
    and rest: "foldR (resolve_binding lib io sc) rb1 xs = Inr rb'" by (auto simp: andThen_eq_Inr)
  show ?case
  proof (cases "x = b")
    case True
    with step assms(3-5) have "s \<in> set (sensitive_values rb1)"
      by (auto simp: resolve_binding_def Let_def dest: deliver_sensitive)
    with resolve_all_sensitive [OF rest] show ?thesis by blast
  next
    case False
    with Cons rest show ?thesis by auto
  qed
qed simp

text \<open>
  Every non-empty text a binding takes from a secret is recorded as sensitive, so the
  redaction of the node's result covers it.
\<close>
theorem resolve_bindings_tracks_secrets:
  assumes "resolve_bindings lib io n sc = Inr rb" and "b \<in> set (bindings n)"
    and "source_uses_secret (source b)" and "binding_value lib sc b = Inr (JStr s)" and "s \<noteq> []"
  shows "s \<in> set (sensitive_values rb)"
  using assms resolve_tracks [OF _ assms(2-5)]
  by (auto simp: resolve_bindings_def andThen_eq_Inr from_keys_set)

theorem resolve_bindings_tracks_secrets_witness:
  "\<exists>rb. resolve_bindings token_lib (undefined :: float_io)
       ((plain_node ''n'' ''t'')\<lparr>bindings := [token_binding]\<rparr>) (undefined :: scope) = Inr rb \<and>
     ''s3kr1t'' \<in> set (sensitive_values rb)"
proof -
  let ?nd = "(plain_node ''n'' ''t'')\<lparr>bindings := [token_binding]\<rparr>"
  obtain rb where rb: "resolve_bindings token_lib (undefined :: float_io) ?nd undefined = Inr rb"
    by (simp add: resolve_bindings_def resolve_binding_def binding_value_def reference_start_def
        sample_simps no_bindings_def from_keys_def)
  have "''s3kr1t'' \<in> set (sensitive_values rb)"
    by (rule resolve_bindings_tracks_secrets [OF rb, of token_binding])
      (simp_all add: binding_value_def reference_start_def sample_simps)
  with rb show ?thesis by blast
qed

text \<open>
  How a node's result is classified: success means that the reported output passed
  the node's output schema; a failure is allowed exactly when the node allows it; and a
  node never raises out of \<^verbatim>\<open>execute_node\<close>, whatever its handler does.
\<close>
theorem execute_node_outcome:
  assumes "node_of d n = Some nd"
  shows "\<exists>r. execute_node lib io validator reg d n sc = Inr r \<and>
     result_node_id r = n \<and>
     (result_outcome r = Success \<longrightarrow> validator (node_output_schema nd) (result_output r) = Inr None) \<and>
     (result_outcome r = AllowedFailure \<longrightarrow> allow_fail (execution nd)) \<and>
     (result_outcome r = Failure \<longrightarrow> \<not> allow_fail (execution nd))"
proof -
  define h where "h = execute_found lib io validator reg nd sc"
  obtain k where "h = validate_output validator nd k"
    by (cases "resolve_bindings lib io nd sc") (auto simp: h_def execute_found_def Let_def)
  then have "hr_success h \<Longrightarrow> validator (node_output_schema nd) (hr_output h) = Inr None"
    by (auto simp: validate_output_def output_error_def split: if_splits option.splits sum.splits unit.splits)
  with assms show ?thesis
    by (auto simp: execute_node_def Let_def h_def [symmetric] node_outcome_def)
qed

theorem execute_node_outcome_witness:
  "\<exists>r. execute_node token_lib (undefined :: float_io) (\<lambda>s v. Inr None) [] (plain_ir [plain_node ''n'' ''t''])
     ''n'' (undefined :: scope) = Inr r \<and> result_node_id r = ''n''"
proof -
  have "node_of (plain_ir [plain_node ''n'' ''t'']) ''n'' = Some (plain_node ''n'' ''t'')"
    by (simp add: node_of_def plain_simps)
  from execute_node_outcome [OF this] show ?thesis by blast
qed

text \<open>
  A predicate that does not read a node's output has the same value whatever the outputs are.
\<close>
lemma predicate_ignores_outputs:
  assumes "\<not> predicate_uses_output p"
  shows "evaluate_predicate lib current (sc\<lparr>node_outputs := outs\<rparr>) p = evaluate_predicate lib current sc p"
proof -
  have ref: "\<not> is_output_ref r \<Longrightarrow> reference_value lib (sc\<lparr>node_outputs := outs\<rparr>) r = reference_value lib sc r" for r
    by (auto simp: reference_value_def is_output_ref_def Let_def split: ref_root.splits option.splits channel.splits)
  have "\<not> operand_uses is_output_ref x \<Longrightarrow>
      operand_value lib (sc\<lparr>node_outputs := outs\<rparr>) x = operand_value lib sc x" for x
    by (cases x) (auto simp: ref)
  with ref assms show ?thesis
    by (induction p) (auto simp: Let_def)
qed

section \<open>Prepared inputs\<close>

text \<open>What the interface asks of the supplied values, and what the node then sees.\<close>

definition effective_input :: "(string, json) dict \<Rightarrow> workflow_input \<Rightarrow> json option" where
  "effective_input supplied i =
     (case dget supplied (input_name i) of Some v \<Rightarrow> Some v | None \<Rightarrow> input_default i)"

definition input_ok :: "schema_validator \<Rightarrow> (string, json) dict \<Rightarrow> workflow_input \<Rightarrow> bool" where
  "input_ok validator supplied i =
     (case effective_input supplied i of
        Some v \<Rightarrow> validator (input_decl_schema i) v = Inr None
      | None \<Rightarrow> \<not> required i)"

definition inputs_acceptable :: "schema_validator \<Rightarrow> workflow \<Rightarrow> (string, json) dict \<Rightarrow> bool" where
  "inputs_acceptable validator w supplied \<longleftrightarrow>
     set (dkeys supplied) \<subseteq> set (map input_name (inputs w)) \<and> list_all (input_ok validator supplied) (inputs w)"

lemma declarations_distinct:
  assumes "distinct (map input_name is)"
  shows "declarations is = map (\<lambda>i. (input_name i, i)) is"
proof -
  have "distinct (map input_name is) \<Longrightarrow> set (map input_name is) \<inter> set (dkeys acc) = {} \<Longrightarrow>
      fold (\<lambda>i. dset (input_name i) i) is acc = acc @ map (\<lambda>i. (input_name i, i)) is" for acc
  proof (induction "is" arbitrary: acc)
    case (Cons i js)
    then have "dset (input_name i) i acc = acc @ [(input_name i, i)]"
      by (intro dset_fresh) (auto simp: map_of_eq_None_iff)
    with Cons show ?case by (auto simp: image_iff)
  qed simp
  with assms show ?thesis by (simp add: declarations_def)
qed

lemma check_input_ok: "check_input validator n s v = Inr u \<longleftrightarrow> validator s v = Inr None"
  by (auto simp: check_input_def split: sum.splits option.splits unit.splits)

lemma prepare_input_step:
  "prepare_input validator p (input_name i, i) = Inr q \<longleftrightarrow>
     input_ok validator p i \<and>
     q = (case dget p (input_name i) of
            Some v \<Rightarrow> p
          | None \<Rightarrow> (case input_default i of None \<Rightarrow> p | Some v \<Rightarrow> dset (input_name i) v p))"
  by (auto simp: prepare_input_def input_ok_def effective_input_def andThen_eq_Inr check_input_ok
      split: option.splits)

lemma input_ok_cong:
  "dget p (input_name i) = dget q (input_name i) \<Longrightarrow> input_ok validator p i = input_ok validator q i"
  by (simp add: input_ok_def effective_input_def)

lemma prepare_fold:
  assumes "distinct (map input_name is)"
  shows "foldR (prepare_input validator) p (map (\<lambda>i. (input_name i, i)) is) = Inr q \<longleftrightarrow>
     list_all (input_ok validator p) is \<and>
     q = fold (\<lambda>i p. case dget p (input_name i) of
            Some v \<Rightarrow> p
          | None \<Rightarrow> (case input_default i of None \<Rightarrow> p | Some v \<Rightarrow> dset (input_name i) v p)) is p"
  using assms
proof (induction "is" arbitrary: p)
  case (Cons i js)
  let ?p = "case dget p (input_name i) of
            Some v \<Rightarrow> p
          | None \<Rightarrow> (case input_default i of None \<Rightarrow> p | Some v \<Rightarrow> dset (input_name i) v p)"
  have "input_ok validator ?p j = input_ok validator p j" if "j \<in> set js" for j
    using Cons.prems that by (intro input_ok_cong) (auto simp: dict_simps image_iff split: option.splits)
  then have "list_all (input_ok validator ?p) js = list_all (input_ok validator p) js"
    by (simp add: list_all_iff)
  with Cons show ?case by (auto simp: andThen_eq_Inr prepare_input_step)
qed auto

lemma prepared_lookup:
  assumes "distinct (map input_name is)"
  shows "dget (fold (\<lambda>i p. case dget p (input_name i) of
            Some v \<Rightarrow> p
          | None \<Rightarrow> (case input_default i of None \<Rightarrow> p | Some v \<Rightarrow> dset (input_name i) v p)) is p) k =
     (case dget p k of Some v \<Rightarrow> Some v
      | None \<Rightarrow> Option.bind (find (\<lambda>i. input_name i = k) is) input_default)"
  using assms
proof (induction "is" arbitrary: p)
  case Nil
  then show ?case by (auto split: option.splits)
next
  case (Cons i js)
  have "input_name i \<notin> input_name ` set js" using Cons.prems by simp
  then have "find (\<lambda>j. input_name j = input_name i) js = None"
    by (auto simp: find_None_iff image_iff)
  with Cons show ?case by (auto simp: dict_simps split: option.splits)
qed

lemma prepare_iff:
  assumes "distinct (map input_name (inputs w))"
  shows "prepare_workflow_inputs validator w supplied = Inr p \<longleftrightarrow>
     inputs_acceptable validator w supplied \<and>
     p = fold (\<lambda>i p. case dget p (input_name i) of
            Some v \<Rightarrow> p
          | None \<Rightarrow> (case input_default i of None \<Rightarrow> p | Some v \<Rightarrow> dset (input_name i) v p)) (inputs w) supplied"
proof -
  let ?ds = "map (\<lambda>i. (input_name i, i)) (inputs w)"
  have "set (dkeys ?ds) = set (map input_name (inputs w))" by force
  then have "sorted_list_of_set (set (dkeys supplied) - set (dkeys ?ds)) = [] \<longleftrightarrow>
      set (dkeys supplied) \<subseteq> set (map input_name (inputs w))"
    by simp
  with assms show ?thesis
    by (simp add: prepare_workflow_inputs_def Let_def declarations_distinct andThen_eq_Inr
        prepare_fold inputs_acceptable_def conj_assoc image_image)
qed

text \<open>
  Inputs are accepted exactly when every supplied name is declared, every present or
  defaulted value passes its schema and no required input is missing; the prepared
  inputs are the supplied ones, completed with the declared defaults and nothing else.
\<close>
theorem prepare_workflow_inputs_correct:
  assumes "distinct (map input_name (inputs w))"
  shows "((\<exists>p. prepare_workflow_inputs validator w supplied = Inr p) \<longleftrightarrow>
      inputs_acceptable validator w supplied) \<and>
    (\<forall>p k. prepare_workflow_inputs validator w supplied = Inr p \<longrightarrow>
      dget p k = (case dget supplied k of Some v \<Rightarrow> Some v
        | None \<Rightarrow> Option.bind (find (\<lambda>i. input_name i = k) (inputs w)) input_default))"
  using assms by (simp add: prepare_iff prepared_lookup)

theorem prepare_workflow_inputs_correct_witness:
  "\<exists>p. prepare_workflow_inputs (\<lambda>s v. Inr None)
     \<lparr>workflow_id = ''w'', workflow_name = ''w'', workflow_max_runs = None, workflow_timeout_ms = None,
      inputs = [\<lparr>input_name = ''a'', required = True, input_decl_schema = JNull, input_default = None\<rparr>,
                \<lparr>input_name = ''b'', required = False, input_decl_schema = JNull, input_default = Some (JInt 2)\<rparr>],
      outputs = []\<rparr> [(''a'', JInt 1)] = Inr p \<and> dget p ''b'' = Some (JInt 2)"
proof -
  let ?w = "\<lparr>workflow_id = ''w'', workflow_name = ''w'', workflow_max_runs = None, workflow_timeout_ms = None,
      inputs = [\<lparr>input_name = ''a'', required = True, input_decl_schema = JNull, input_default = None\<rparr>,
                \<lparr>input_name = ''b'', required = False, input_decl_schema = JNull, input_default = Some (JInt 2)\<rparr>],
      outputs = []\<rparr>"
  have d: "distinct (map input_name (inputs ?w))" by simp
  have "inputs_acceptable (\<lambda>s v. Inr None) ?w [(''a'', JInt 1)]"
    by (simp add: inputs_acceptable_def input_ok_def effective_input_def)
  with prepare_workflow_inputs_correct [OF d, of "\<lambda>s v. Inr None" "[(''a'', JInt 1)]"]
  obtain p where p: "prepare_workflow_inputs (\<lambda>s v. Inr None) ?w [(''a'', JInt 1)] = Inr p" by blast
  with prepare_workflow_inputs_correct [OF d] have "dget p ''b'' = Some (JInt 2)" by simp
  with p show ?thesis by blast
qed

end
