(* ===== verification/Schema_Compat.thy ===== *)
theory Schema_Compat
  imports Json_Text
begin

text \<open>
  \<^verbatim>\<open>rattish/schema_compat.py\<close>: whether every value of a source schema is accepted by a
  destination schema, for the schemas of the Rattish profile. The JSON Schema validator
  is an argument (\<open>matches\<close>). Schemas have passed \<^verbatim>\<open>validate_schema\<close>, so a keyword has a value
  of the type JSON Schema asks for. Numeric bounds are compared by their exact value:
  \<^verbatim>\<open>float\<close> is exact on the integers up to \<^verbatim>\<open>2 ** 53\<close>.
\<close>

section \<open>Keywords\<close>

definition profile_keywords :: "string list" where
  "profile_keywords =
     [''$schema'', ''additionalProperties'', ''anyOf'', ''const'', ''description'', ''enum'',
      ''exclusiveMaximum'', ''exclusiveMinimum'', ''format'', ''items'', ''maxItems'', ''maxLength'',
      ''maximum'', ''minItems'', ''minLength'', ''minimum'', ''pattern'', ''properties'', ''required'',
      ''title'', ''type'']"

definition has_constraints :: "json \<Rightarrow> bool" where
  "has_constraints s \<longleftrightarrow> list_ex (\<lambda>(k, v). k \<noteq> ''$schema'') (members s)"

lemma size_dget: "dget ms k = Some v \<Longrightarrow> size v < size (JObj ms)"
proof (induction ms)
  case (Cons m ms)
  then show ?case by (cases m) (auto split: if_splits simp: less_Suc_eq)
qed simp

lemma size_jget [termination_simp]: "jget s k = Some v \<Longrightarrow> size v < size s"
  by (cases s) (auto dest: size_dget)

lemma size_element [termination_simp]: "x \<in> set xs \<Longrightarrow> size x < size (JList xs)"
  by (induction xs) auto

lemma size_jget_element: "jget s k = Some (JList xs) \<Longrightarrow> x \<in> set xs \<Longrightarrow> size x < size s"
  using size_jget size_element less_trans by blast

lemma size_jget_nth: "jget s k = Some (JList xs) \<Longrightarrow> i < length xs \<Longrightarrow> size (xs ! i) < size s"
  by (auto intro: size_jget_element)

lemma size_jget_obj:
  "jget s k = Some (JObj ms) \<Longrightarrow> Suc (size_list (size_prod (\<lambda>x. 0) size) ms) < size s"
  using size_jget [of s k "JObj ms"] by simp

lemma size_jget_member: "jget s k = Some (JObj ms) \<Longrightarrow> dget ms n = Some v \<Longrightarrow> size v < size s"
  using size_jget size_dget less_trans by blast

lemma size_jget_pair:
  assumes "jget s k = Some (JObj ms)" and "(n, v) \<in> set ms"
  shows "size v < size s"
proof -
  have "size v < size (JObj ms)"
    using assms(2) by (induction ms) auto
  with size_jget [OF assms(1)] show ?thesis by simp
qed

text \<open>The value of a keyword that is a list.\<close>
definition jlist :: "json \<Rightarrow> string \<Rightarrow> json list option" where
  "jlist s k = (case jget s k of Some (JList xs) \<Rightarrow> Some xs | _ \<Rightarrow> None)"

lemma size_jlist: "jlist s k = Some xs \<Longrightarrow> x \<in> set xs \<Longrightarrow> size x < size s"
  by (auto simp: jlist_def split: option.splits json.splits intro: size_jget_element)

text \<open>\<^verbatim>\<open>_types\<close>, as the list of the set's elements\<close>
function schema_type_names :: "json \<Rightarrow> string list" where
  "schema_type_names s =
     (let branches = (case jget s ''anyOf'' of
           Some (JList bs) \<Rightarrow> concat (map (\<lambda>b. if is_mapping b then schema_type_names b else []) bs)
         | _ \<Rightarrow> [])
      in case jget s ''type'' of
           Some (JStr t) \<Rightarrow> [t]
         | Some (JList ts) \<Rightarrow>
             if list_all is_str ts then concat (map (\<lambda>t. case t of JStr x \<Rightarrow> [x] | _ \<Rightarrow> []) ts) else branches
         | _ \<Rightarrow> branches)"
  by pat_completeness auto
termination
  by (relation "measure size") (auto intro: size_jget_element)

section \<open>Bounds\<close>

text \<open>\<^verbatim>\<open>_numeric_bound\<close>: the binding bound and whether it is exclusive\<close>
definition numeric_bound :: "json \<Rightarrow> bool \<Rightarrow> (rat \<times> bool) option" where
  "numeric_bound s lower =
     (let bound = (\<lambda>k. Option.bind (jget s k) num_of);
          inclusive = bound (if lower then ''minimum'' else ''maximum'');
          exclusive = bound (if lower then ''exclusiveMinimum'' else ''exclusiveMaximum'')
      in case (inclusive, exclusive) of
           (None, None) \<Rightarrow> None
         | (Some a, None) \<Rightarrow> Some (a, False)
         | (None, Some b) \<Rightarrow> Some (b, True)
         | (Some a, Some b) \<Rightarrow>
             if (if lower then a \<le> b else b \<le> a) then Some (b, True) else Some (a, False))"

definition lower_ok :: "(rat \<times> bool) option \<Rightarrow> (rat \<times> bool) option \<Rightarrow> bool" where
  "lower_ok dst src =
     (case dst of
        None \<Rightarrow> True
      | Some (d, dx) \<Rightarrow>
          (case src of
             None \<Rightarrow> False
           | Some (s, sx) \<Rightarrow> \<not> s < d \<and> \<not> (s = d \<and> dx \<and> \<not> sx)))"

definition upper_ok :: "(rat \<times> bool) option \<Rightarrow> (rat \<times> bool) option \<Rightarrow> bool" where
  "upper_ok dst src =
     (case dst of
        None \<Rightarrow> True
      | Some (d, dx) \<Rightarrow>
          (case src of
             None \<Rightarrow> False
           | Some (s, sx) \<Rightarrow> \<not> s > d \<and> \<not> (s = d \<and> dx \<and> \<not> sx)))"

definition minimum_ok :: "json \<Rightarrow> json \<Rightarrow> string \<Rightarrow> bool" where
  "minimum_ok d s k =
     (case jget d k of
        None \<Rightarrow> True
      | Some w \<Rightarrow> py_compare OpLt (jget_or (JInt (-1)) s k) w = Some False)"

definition maximum_ok :: "json \<Rightarrow> json \<Rightarrow> string \<Rightarrow> bool" where
  "maximum_ok d s k =
     (case jget d k of
        None \<Rightarrow> True
      | Some w \<Rightarrow> (case jget s k of None \<Rightarrow> False | Some v \<Rightarrow> py_compare OpGt v w = Some False))"

definition same_keyword :: "json \<Rightarrow> json \<Rightarrow> string \<Rightarrow> bool" where
  "same_keyword d s k =
     (case jget d k of None \<Rightarrow> True | Some w \<Rightarrow> py_eq (jget_or JNull s k) w)"

definition bounds_compatible :: "json \<Rightarrow> json \<Rightarrow> bool" where
  "bounds_compatible d s \<longleftrightarrow>
     lower_ok (numeric_bound d True) (numeric_bound s True) \<and>
     upper_ok (numeric_bound d False) (numeric_bound s False) \<and>
     list_all (minimum_ok d s) [''minLength'', ''minItems''] \<and>
     list_all (maximum_ok d s) [''maxLength'', ''maxItems''] \<and>
     same_keyword d s ''pattern'' \<and> same_keyword d s ''format''"

section \<open>Compatibility\<close>

definition source_property_ok ::
  "(json \<Rightarrow> json \<Rightarrow> bool) \<Rightarrow> json \<Rightarrow> (string \<times> json) list \<Rightarrow> string \<times> json \<Rightarrow> bool" where
  "source_property_ok accepts d dst_properties = (\<lambda>(n, sp).
     case dget dst_properties n of
       Some dp \<Rightarrow> is_mapping sp \<and> is_mapping dp \<longrightarrow> accepts dp sp
     | None \<Rightarrow>
         (case jget d ''additionalProperties'' of
            Some (JBool False) \<Rightarrow> False
          | Some (JObj ad) \<Rightarrow> is_mapping sp \<longrightarrow> accepts (JObj ad) sp
          | _ \<Rightarrow> True))"

definition additional_ok ::
  "(json \<Rightarrow> json \<Rightarrow> bool) \<Rightarrow> json \<Rightarrow> json \<Rightarrow> (string \<times> json) list \<Rightarrow> (string \<times> json) list \<Rightarrow> bool" where
  "additional_ok accepts d s dst_properties src_properties =
     (let sa = jget_or (JBool True) s ''additionalProperties'';
          da = jget_or (JBool True) d ''additionalProperties''
      in sa = JBool False \<or>
         (da \<noteq> JBool False \<and>
          (is_mapping da \<longrightarrow> is_mapping sa \<and> accepts da sa) \<and>
          list_all (\<lambda>(n, dp). dget src_properties n \<noteq> None \<or> \<not> is_mapping dp \<or>
                      is_mapping sa \<and> accepts dp sa) dst_properties))"

definition object_compatible :: "(json \<Rightarrow> json \<Rightarrow> bool) \<Rightarrow> json \<Rightarrow> json \<Rightarrow> bool" where
  "object_compatible accepts d s =
     (case (jget_or (JObj []) d ''properties'', jget_or (JObj []) s ''properties'') of
        (JObj dps, JObj sps) \<Rightarrow>
          list_all (\<lambda>n. list_ex (py_eq n) (elements (jget_or (JList []) s ''required'')))
            (elements (jget_or (JList []) d ''required'')) \<and>
          list_all (source_property_ok accepts d dps) sps \<and>
          additional_ok accepts d s dps sps
      | _ \<Rightarrow> False)"

definition items_compatible :: "(json \<Rightarrow> json \<Rightarrow> bool) \<Rightarrow> json \<Rightarrow> json \<Rightarrow> bool" where
  "items_compatible accepts d s =
     (case jget d ''items'' of
        Some (JObj di) \<Rightarrow>
          (case jget s ''items'' of Some (JObj si) \<Rightarrow> accepts (JObj di) (JObj si) | _ \<Rightarrow> False)
      | _ \<Rightarrow> True)"

definition types_compatible :: "string list \<Rightarrow> string list \<Rightarrow> bool" where
  "types_compatible dts sts \<longleftrightarrow>
     dts = [] \<or> sts \<noteq> [] \<and>
       list_all (\<lambda>t. t = ''integer'' \<and> ''number'' \<in> set dts \<or> t \<in> set dts) sts"

lemma size_property:
  assumes "(n, v) \<in> set (members (jget_or (JObj []) s k))"
  shows "size v < size s"
proof (cases "jget s k")
  case (Some w)
  with assms obtain ms where "jget s k = Some (JObj ms)" "(n, v) \<in> set ms" by (cases w) auto
  then show ?thesis by (rule size_jget_pair)
qed (use assms in simp)

lemma size_dget_property:
  "jget_or (JObj []) s k = JObj ms \<Longrightarrow> dget ms n = Some v \<Longrightarrow> size v < size s"
  using size_property [of n v s k] by (metis map_of_SomeD members.simps(1))

lemma size_jget_or: "jget_or (JBool True) s k = v \<Longrightarrow> is_mapping v \<Longrightarrow> size v < size s"
  by (auto split: option.splits dest: size_jget)

lemma object_compatible_cong [fundef_cong]:
  assumes "d = d'" and "s = s'"
    and eq: "\<And>x y. size x < size d' \<Longrightarrow> size y < size s' \<Longrightarrow> acc x y = acc' x y"
  shows "object_compatible acc d s = object_compatible acc' d' s'"
proof (cases "\<exists>dps sps. jget_or (JObj []) d ''properties'' = JObj dps \<and>
    jget_or (JObj []) s ''properties'' = JObj sps")
  case True
  then obtain dps sps where dps: "jget_or (JObj []) d ''properties'' = JObj dps"
    and sps: "jget_or (JObj []) s ''properties'' = JObj sps" by blast
  have dp: "(n, v) \<in> set dps \<Longrightarrow> size v < size d" for n v
    using size_property [of n v d "''properties''"] dps by simp
  have sp: "(n, v) \<in> set sps \<Longrightarrow> size v < size s" for n v
    using size_property [of n v s "''properties''"] sps by simp
  have eqj: "jget d k = Some x \<Longrightarrow> size y < size s \<Longrightarrow> acc x y = acc' x y" for k x y
    using eq assms(1,2) size_jget by blast
  have "source_property_ok acc d dps (n, v) = source_property_ok acc' d dps (n, v)"
    if "(n, v) \<in> set sps" for n v
    using eqj eq assms(1,2) sp [OF that] dp
    by (auto simp: source_property_ok_def dest!: map_of_SomeD split: option.splits json.splits bool.splits)
  then have props: "list_all (source_property_ok acc d dps) sps = list_all (source_property_ok acc' d dps) sps"
    by (auto simp: list_all_iff)
  have "additional_ok acc d s dps sps = additional_ok acc' d s dps sps"
    unfolding additional_ok_def Let_def
    using eq assms(1,2) dp size_jget_or [OF refl, of s] size_jget_or [OF refl, of d]
    by (intro arg_cong2 [of _ _ _ _ "(\<or>)"] arg_cong2 [of _ _ _ _ "(\<and>)"] refl)
      (auto simp: list_all_iff)
  with props dps sps assms(1,2) show ?thesis by (simp add: object_compatible_def)
next
  case False
  with assms(1,2) show ?thesis by (auto simp: object_compatible_def split: json.splits)
qed

lemma items_compatible_cong [fundef_cong]:
  assumes "d = d'" and "s = s'"
    and "\<And>x y. size x < size d' \<Longrightarrow> size y < size s' \<Longrightarrow> acc x y = acc' x y"
  shows "items_compatible acc d s = items_compatible acc' d' s'"
proof -
  have "jget d k = Some x \<Longrightarrow> jget s k = Some y \<Longrightarrow> acc x y = acc' x y" for k x y
    using assms size_jget by blast
  with assms(1,2) show ?thesis
    by (auto simp: items_compatible_def split: option.splits json.splits)
qed

function schema_accepts_schema :: "(json \<Rightarrow> json \<Rightarrow> bool) \<Rightarrow> json \<Rightarrow> json \<Rightarrow> bool" where
  "schema_accepts_schema matches d s =
     (if \<not> has_constraints d then True
      else case jlist s ''anyOf'' of
        Some bs \<Rightarrow> bs \<noteq> [] \<and> list_all (\<lambda>b. is_mapping b \<and> schema_accepts_schema matches d b) bs
      | None \<Rightarrow>
      (case jlist d ''anyOf'' of
        Some bs \<Rightarrow> list_ex (\<lambda>b. is_mapping b \<and> schema_accepts_schema matches b s) bs
      | None \<Rightarrow>
      (case jget s ''const'' of
        Some c \<Rightarrow> matches d c
      | None \<Rightarrow>
      (case jlist s ''enum'' of
        Some vs \<Rightarrow> list_all (matches d) vs
      | None \<Rightarrow>
          (let dts = schema_type_names d; sts = schema_type_names s
           in types_compatible dts sts \<and>
              jget d ''enum'' = None \<and> jget d ''const'' = None \<and>
              (''object'' \<in> set sts \<and> ''object'' \<in> set dts \<longrightarrow>
                 object_compatible (schema_accepts_schema matches) d s) \<and>
              (''array'' \<in> set sts \<and> ''array'' \<in> set dts \<longrightarrow>
                 items_compatible (schema_accepts_schema matches) d s) \<and>
              bounds_compatible d s)))))"
  by pat_completeness auto
termination
  by (relation "measure (\<lambda>(m, d, s). size d + size s)")
    (auto intro: size_jlist add_less_mono)

section \<open>Keywords outside the profile\<close>

text \<open>The paths of \<^verbatim>\<open>unsupported_profile_paths\<close>; an element is a name or an index.\<close>
type_synonym schema_path = "(string + nat) list"

function unsupported_profile_paths :: "json \<Rightarrow> schema_path \<Rightarrow> schema_path list" where
  "unsupported_profile_paths s p =
     map (\<lambda>k. p @ [Inl k]) (filter (\<lambda>k. k \<notin> set profile_keywords) (dkeys (members s))) @
     (case jget s ''properties'' of
        Some (JObj ps) \<Rightarrow>
          concat (map (\<lambda>(n, c). if is_mapping c
            then unsupported_profile_paths c (p @ [Inl ''properties'', Inl n]) else []) ps)
      | _ \<Rightarrow> []) @
     (case jget s ''items'' of
        Some (JObj i) \<Rightarrow> unsupported_profile_paths (JObj i) (p @ [Inl ''items'']) | _ \<Rightarrow> []) @
     (case jget s ''additionalProperties'' of
        Some (JObj a) \<Rightarrow> unsupported_profile_paths (JObj a) (p @ [Inl ''additionalProperties'']) | _ \<Rightarrow> []) @
     (case jget s ''anyOf'' of
        Some (JList bs) \<Rightarrow>
          concat (map (\<lambda>(i, c). if is_mapping c
            then unsupported_profile_paths c (p @ [Inl ''anyOf'', Inr i]) else []) (List.enumerate 0 bs))
      | _ \<Rightarrow> [])"
  by pat_completeness auto
termination
  by (relation "measure (\<lambda>(s, p). size s)")
    (auto intro: size_jget_nth size_jget_pair size_jget_obj dest!: in_set_enumerate_eq [THEN iffD1])

declare schema_type_names.simps [simp del] schema_accepts_schema.simps [simp del]
  unsupported_profile_paths.simps [simp del]

text \<open>
  A destination that constrains objects without naming the type \<^verbatim>\<open>object\<close> is accepted for
  every object source: its \<^verbatim>\<open>required\<close> and \<^verbatim>\<open>properties\<close> keywords are not looked at. The
  compatibility test therefore answers yes where an object of the source type lacks a
  required member.
\<close>
theorem untyped_destination_accepts_objects:
  "schema_accepts_schema matches
     (JObj [(''required'', JList [JStr n]), (''properties'', JObj ps)])
     (JObj [(''type'', JStr ''object'')])"
  by (simp add: schema_accepts_schema.simps jlist_def has_constraints_def schema_type_names.simps types_compatible_def
      bounds_compatible_def lower_ok_def upper_ok_def numeric_bound_def minimum_ok_def maximum_ok_def
      same_keyword_def)

end
