(* ===== verification/Structured_Output.thy ===== *)
theory Structured_Output
  imports Schema_Compat
begin

text \<open>
  \<^verbatim>\<open>core/structured_output.py\<close>: the checks on declared schemas (every reference is local and
  resolves), the lookup of a field in a structured value, the operators of output
  conditions, and JSON type sets. \<^verbatim>\<open>check_schema\<close>, \<^verbatim>\<open>is_valid\<close> and the regular expression
  engine are third-party code, given by \<open>schema_lib\<close>.
\<close>

record schema_lib =
  check_schema :: "json \<Rightarrow> string option"
  is_valid :: "json \<Rightarrow> json \<Rightarrow> bool option"
  pattern_search :: "string \<Rightarrow> string \<Rightarrow> bool option"
  str_of :: "json \<Rightarrow> string"

datatype structured_error =
    InvalidSchema string
  | NonLocalReference string string
  | DanglingReference string string
  | UnknownSchema string

section \<open>Splitting a string\<close>

text \<open>\<^verbatim>\<open>s.split(c)\<close> for a single ASCII character\<close>
fun str_split :: "char \<Rightarrow> string \<Rightarrow> string list" where
  "str_split c [] = [[]]"
| "str_split c (x # s) =
     (if x = c then [] # str_split c s
      else case str_split c s of [] \<Rightarrow> [[x]] | p # ps \<Rightarrow> (x # p) # ps)"

lemma str_split_nonempty [simp]: "str_split c s \<noteq> []"
  by (induction s) (auto split: list.splits)

lemma str_split_free: "p \<in> set (str_split c s) \<Longrightarrow> c \<notin> set p"
proof (induction s arbitrary: p)
  case (Cons x s)
  then show ?case by (cases "str_split c s") (auto split: if_splits)
qed simp

lemma str_join_split: "str_join [c] (str_split c s) = s"
proof (induction s)
  case (Cons x s)
  obtain p ps where ps: "str_split c s = p # ps" by (cases "str_split c s") auto
  with Cons show ?case by (cases ps) auto
qed simp

section \<open>References within a schema\<close>

definition own_references :: "json \<Rightarrow> (string \<times> string) list" where
  "own_references item = concat (map (\<lambda>k. case jget item k of Some (JStr r) \<Rightarrow> [(k, r)] | _ \<Rightarrow> [])
     [''$ref'', ''$dynamicRef'', ''$recursiveRef''])"

text \<open>
  The loop over \<^verbatim>\<open>pending\<close>, a stack whose top is the head of the list here: the values an
  item pushes come off in reverse order.
\<close>
definition pushed :: "json \<Rightarrow> json list" where
  "pushed item = (case item of JObj ms \<Rightarrow> rev (map snd ms) | JList xs \<Rightarrow> rev xs | _ \<Rightarrow> [])"

abbreviation total_size :: "json list \<Rightarrow> nat" where
  "total_size xs \<equiv> sum_list (map size xs)"

lemma total_size_pushed: "Suc (total_size (pushed item)) \<le> size item + (if pushed item = [] then 1 else 0)"
proof (cases item)
  case (JList xs)
  have "total_size ys \<le> size_list size ys" for ys :: "json list" by (induction ys) auto
  with JList show ?thesis by (auto simp: pushed_def rev_map [symmetric] sum_list_rev)
next
  case (JObj ms)
  have "sum_list (map (size \<circ> snd) ns) \<le> size_list (size_prod (\<lambda>x. 0) size) ns" for ns :: "(string \<times> json) list"
    by (induction ns) auto
  with JObj show ?thesis by (auto simp: pushed_def rev_map [symmetric] sum_list_rev)
qed (auto simp: pushed_def)

function references_of :: "json list \<Rightarrow> (string \<times> string) list" where
  "references_of [] = []"
| "references_of (item # pending) = own_references item @ references_of (pushed item @ pending)"
  by pat_completeness auto
termination
proof (relation "measures [total_size, length]", goal_cases)
  case (2 item pending)
  have "pushed item = [] \<or> total_size (pushed item) < size item"
    using total_size_pushed [of item] by (auto split: if_splits)
  then show ?case by auto
qed simp

definition schema_references :: "json \<Rightarrow> (string \<times> string) list" where
  "schema_references v = references_of [v]"

definition pointer_key :: "string \<Rightarrow> string" where
  "pointer_key token = str_replace ''~0'' ''~'' (str_replace ''~1'' ''/'' token)"

definition resolve_local_json_pointer :: "json \<Rightarrow> string \<Rightarrow> json option" where
  "resolve_local_json_pointer r reference =
     (if reference = ''#'' then Some r
      else if \<not> starts_with ''#/'' reference then None
      else
        (let found = fold (\<lambda>token current. Option.bind current (\<lambda>v. jget v (pointer_key token)))
               (str_split (CHR ''/'') (drop 2 reference)) (Some r)
         in case found of Some v \<Rightarrow> if is_mapping v then Some v else None | None \<Rightarrow> None))"

definition validate_schema :: "schema_lib \<Rightarrow> json \<Rightarrow> structured_error + unit" where
  "validate_schema lib s =
     andThen (case check_schema lib s of Some m \<Rightarrow> Inl (InvalidSchema m) | None \<Rightarrow> Inr ()) (\<lambda>_.
     each (\<lambda>(k, r).
       andThen (need (starts_with ''#'' r) (NonLocalReference k r)) (\<lambda>_.
         need (resolve_local_json_pointer s r \<noteq> None) (DanglingReference k r)))
       (schema_references s))"

datatype schema_declaration = NoSchema | NamedSchema string | InlineSchema json

definition resolve_output_schema ::
  "schema_lib \<Rightarrow> (string, json) dict \<Rightarrow> schema_declaration \<Rightarrow>
     structured_error + (string option \<times> json option)" where
  "resolve_output_schema lib schemas decl =
     (case decl of
        NoSchema \<Rightarrow> Inr (None, None)
      | NamedSchema n \<Rightarrow>
          (case dget schemas n of
             None \<Rightarrow> Inl (UnknownSchema n)
           | Some s \<Rightarrow> andThen (validate_schema lib s) (\<lambda>_. Inr (Some n, Some s)))
      | InlineSchema s \<Rightarrow> andThen (validate_schema lib s) (\<lambda>_. Inr (None, Some s)))"

section \<open>Fields and their conditions\<close>

datatype output_operator =
    EqualsOp | NotEqualsOp | InOp | NotInOp
  | GreaterThanOp | GreaterThanOrEqualOp | LessThanOp | LessThanOrEqualOp
  | ExistsOp | MatchesOp

definition field_step :: "json \<Rightarrow> string \<Rightarrow> json option" where
  "field_step v p =
     (case v of
        JObj ms \<Rightarrow> dget ms p
      | JList xs \<Rightarrow>
          if p \<noteq> [] \<and> list_all is_digit p \<and> read_nat p < length xs then Some (xs ! read_nat p) else None
      | _ \<Rightarrow> None)"

text \<open>\<^verbatim>\<open>get_output_field\<close>; \<open>None\<close> is \<^verbatim>\<open>MISSING\<close>.\<close>
definition get_output_field :: "json \<Rightarrow> string \<Rightarrow> json option" where
  "get_output_field v p =
     (if p = [] then Some v
      else fold (\<lambda>part current. Option.bind current (\<lambda>w. field_step w part)) (str_split (CHR ''.'') p) (Some v))"

fun is_number :: "json \<Rightarrow> bool" where
  "is_number (JInt _) = True"
| "is_number (JFloat _) = True"
| "is_number _ = False"

definition compare_numbers :: "order_op \<Rightarrow> json \<Rightarrow> json \<Rightarrow> bool" where
  "compare_numbers op v w \<longleftrightarrow> is_number v \<and> is_number w \<and> py_compare op v w = Some True"

text \<open>\<open>None\<close> is the error of an invalid pattern.\<close>
definition evaluate_output_field ::
  "schema_lib \<Rightarrow> json \<Rightarrow> string \<Rightarrow> output_operator \<Rightarrow> json \<Rightarrow> bool option" where
  "evaluate_output_field lib value field operator operand =
     (case get_output_field value field of
        None \<Rightarrow> Some False
      | Some actual \<Rightarrow>
          (case operator of
             ExistsOp \<Rightarrow> Some True
           | EqualsOp \<Rightarrow> Some (py_eq actual operand)
           | NotEqualsOp \<Rightarrow> Some (\<not> py_eq actual operand)
           | InOp \<Rightarrow> Some (case operand of JList xs \<Rightarrow> list_ex (py_eq actual) xs | _ \<Rightarrow> False)
           | NotInOp \<Rightarrow> Some (case operand of JList xs \<Rightarrow> \<not> list_ex (py_eq actual) xs | _ \<Rightarrow> False)
           | MatchesOp \<Rightarrow>
               (case actual of
                  JStr s \<Rightarrow> pattern_search lib (str_of lib operand) s
                | _ \<Rightarrow> Some False)
           | GreaterThanOp \<Rightarrow> Some (compare_numbers OpGt actual operand)
           | GreaterThanOrEqualOp \<Rightarrow> Some (compare_numbers OpGe actual operand)
           | LessThanOp \<Rightarrow> Some (compare_numbers OpLt actual operand)
           | LessThanOrEqualOp \<Rightarrow> Some (compare_numbers OpLe actual operand)))"

section \<open>JSON types\<close>

fun json_type :: "json \<Rightarrow> string" where
  "json_type JNull = ''null''"
| "json_type (JBool _) = ''boolean''"
| "json_type (JInt _) = ''integer''"
| "json_type (JFloat _) = ''number''"
| "json_type (JStr _) = ''string''"
| "json_type (JList _) = ''array''"
| "json_type (JObj _) = ''object''"

definition intersect_json_types :: "string set \<Rightarrow> string set \<Rightarrow> string set" where
  "intersect_json_types left right =
     (left \<inter> right) \<union>
     (if ''number'' \<in> left \<and> ''integer'' \<in> right \<or> ''integer'' \<in> left \<and> ''number'' \<in> right
      then {''integer''} else {})"

definition value_matches_schema :: "schema_lib \<Rightarrow> json \<Rightarrow> json \<Rightarrow> bool" where
  "value_matches_schema lib v s = (is_valid lib s v = Some True)"

definition instance_matches_schema :: "schema_lib \<Rightarrow> json \<Rightarrow> json \<Rightarrow> bool" where
  "instance_matches_schema lib s v = (is_valid lib s v = Some True)"

fun value_matches_schema_type :: "json \<Rightarrow> json \<Rightarrow> bool" where
  "value_matches_schema_type v (JList ts) = list_ex (value_matches_schema_type v) ts"
| "value_matches_schema_type v t =
     (if t = JStr ''null'' then v = JNull
      else if t = JStr ''boolean'' then (case v of JBool _ \<Rightarrow> True | _ \<Rightarrow> False)
      else if t = JStr ''integer'' then (case v of JInt _ \<Rightarrow> True | _ \<Rightarrow> False)
      else if t = JStr ''number'' then is_number v
      else if t = JStr ''string'' then is_str v
      else if t = JStr ''array'' then (case v of JList _ \<Rightarrow> True | _ \<Rightarrow> False)
      else if t = JStr ''object'' then is_mapping v
      else True)"

end
