(* ===== verification/Scheduler.thy ===== *)
theory Scheduler
  imports Runtime Structured_Output "HOL-Library.Product_Lexorder"
begin

text \<open>
  \<^verbatim>\<open>rattish/workflow_runtime.py\<close>: the scheduler that runs a compiled workflow. Its object
  \<^verbatim>\<open>_WorkflowScheduler\<close> is the record \<open>sched\<close>; each method is a function on it.

  \<^item> The dictionaries that the constructor creates with one entry per node (\<^verbatim>\<open>pending\<close>,
    \<^verbatim>\<open>running_groups\<close>, \<^verbatim>\<open>run_counts\<close>) and the per-lineage dictionaries that are read with a
    default are total functions here.
  \<^item> The task group is \<open>in_flight\<close>: the activations whose \<^verbatim>\<open>_run_activation\<close> has been started and
    has not sent its completion. The memory object stream is \<open>stream\<close>; its buffer holds
    as many completions as can run at once, so sending never blocks.
  \<^item> \<open>events\<close> is the sequence of calls to \<^verbatim>\<open>on_node_event\<close>. Clock readings are left out.
  \<^item> A Python exception in the scheduler itself, and the loop that may run forever, are
    values of \<open>sched_fault\<close>.
\<close>

section \<open>Data\<close>

record activation =
  group_id :: string
  act_sequence :: nat
  lineage_id :: string
  scoped_outputs :: "(string, json) dict"
  loop_lineages :: "(string, string) dict"

record run_record =
  rec_node :: string
  rec_run :: nat
  rec_lineage :: string
  rec_group :: string
  rec_started :: string
  rec_finished :: string
  rec_duration :: int
  rec_result :: node_result
  reused_from :: "string option"

record completion =
  comp_activation :: activation
  comp_record :: run_record

record loop_state =
  loop_node :: string
  loop_lineage :: string
  loop_items :: "(string \<times> json) list list"
  loop_infinite :: bool
  loop_max_concurrency :: int
  loop_fail_fast :: bool
  loop_routes :: "route list"
  parent_outputs :: "(string, json) dict"
  parent_lineages :: "(string, string) dict"
  parent_lineage_id :: string
  next_index :: nat
  loop_closed :: bool
  active_groups :: "string set"

text \<open>A saved node record of an earlier run.\<close>
record prior_run =
  prior_node :: string
  prior_group :: string
  prior_lineage :: string
  prior_outcome :: outcome
  prior_output :: json
  prior_error :: "error_info option"
  prior_started :: string
  prior_finished :: string
  prior_duration :: int

text \<open>The arguments of \<^verbatim>\<open>_run_activation\<close>, with the progress of \<^verbatim>\<open>_run_attempts\<close>.\<close>
record task =
  task_node :: string
  task_activation :: activation
  task_run :: nat
  task_outputs :: "(string, json) dict"
  task_statuses :: "(string, string) dict"
  task_errors :: "(string, json) dict"
  task_attempt :: nat
  task_begun :: bool

record ready_replay =
  ready_index :: nat
  ready_node :: string
  ready_activation :: activation
  ready_run :: nat
  ready_prior :: prior_run

datatype event_detail =
    NodeStarted nat
  | NodeRetried nat string
  | NodeStopped
  | NodeCompleted outcome string bool run_record

record event =
  event_node :: string
  event_run :: nat
  event_lineage :: string
  event_group :: string
  event_detail :: event_detail

type_synonym replay_key = "string \<times> string \<times> string"

record sched =
  latest_outputs :: "(string, json) dict"
  latest_statuses :: "(string, string) dict"
  latest_errors :: "(string, json) dict"
  satisfied :: "string \<Rightarrow> string set"
  lineage_outputs :: "string \<Rightarrow> (string, json) dict"
  lineage_statuses :: "string \<Rightarrow> (string, string) dict"
  lineage_errors :: "string \<Rightarrow> (string, json) dict"
  pending :: "string \<Rightarrow> (string, activation) dict"
  running_groups :: "string \<Rightarrow> string set"
  run_counts :: "string \<Rightarrow> nat"
  total_runs :: nat
  seq :: nat
  records :: "run_record list"
  sched_error :: "error_info option"
  loops :: "(string, loop_state) dict"
  deferred_failures :: "error_info list"
  replay_source :: "string option"
  replaying :: bool
  dirty_lineages :: "string set"
  replay_records :: "(replay_key, (nat \<times> prior_run) list) dict"
  replay_starts :: "(replay_key, nat) dict"
  replay_ready :: "ready_replay list"
  replay_held :: "task list"
  reused :: nat
  reusable :: nat
  in_flight :: "task list"
  stream :: "completion list"
  events :: "event list"

datatype sched_fault = InvalidLoopOutput | LoopNeverFills

text \<open>What does not change during a run.\<close>
record sched_env =
  env_ir :: ir
  env_lib :: py_lib
  env_schemas :: schema_lib
  env_inputs :: "(string, json) dict"
  env_events :: "json list"

abbreviation root_lineage :: string where
  "root_lineage \<equiv> ''root''"

text \<open>
  \<^verbatim>\<open>self.nodes[n]\<close>. Every identifier the scheduler looks up is one of the validated
  document, so the fallback is never used.
\<close>
definition node_at :: "ir \<Rightarrow> string \<Rightarrow> node" where
  "node_at d n = (case node_of d n of Some x \<Rightarrow> x | None \<Rightarrow> plain_node n [])"

abbreviation exec_of :: "sched_env \<Rightarrow> string \<Rightarrow> node_execution" where
  "exec_of env n \<equiv> execution (node_at (env_ir env) n)"

definition needs_of :: "sched_env \<Rightarrow> string \<Rightarrow> string set" where
  "needs_of env n = set (needs (readiness (node_at (env_ir env) n)))"

section \<open>Queueing\<close>

definition enqueue ::
  "string \<Rightarrow> string \<Rightarrow> string \<Rightarrow> (string, json) dict \<Rightarrow> (string, string) dict \<Rightarrow> sched \<Rightarrow> sched" where
  "enqueue n g l scoped lineages s =
     (if g \<in> running_groups s n \<or> dget (pending s n) g \<noteq> None then s
      else s\<lparr>seq := seq s + 1,
             pending := (pending s)(n := dset g
               \<lparr>group_id = g, act_sequence = seq s + 1, lineage_id = (if l = [] then root_lineage else l),
                scoped_outputs = scoped, loop_lineages = lineages\<rparr> (pending s n))\<rparr>)"

definition lineage_is_unlocked :: "sched_env \<Rightarrow> sched \<Rightarrow> string \<Rightarrow> string \<Rightarrow> bool" where
  "lineage_is_unlocked env s n l \<longleftrightarrow> needs_of env n \<subseteq> satisfied s l"

definition is_unlocked :: "sched_env \<Rightarrow> sched \<Rightarrow> string \<Rightarrow> activation \<Rightarrow> bool" where
  "is_unlocked env s n a = lineage_is_unlocked env s n (lineage_id a)"

definition running_count :: "sched_env \<Rightarrow> sched \<Rightarrow> nat" where
  "running_count env s = sum_list (map (\<lambda>n. card (running_groups s n)) (node_ids (env_ir env)))"

definition has_runnable_pending :: "sched_env \<Rightarrow> sched \<Rightarrow> bool" where
  "has_runnable_pending env s \<longleftrightarrow>
     list_ex (\<lambda>n. list_ex (\<lambda>(g, a). is_unlocked env s n a) (pending s n)) (node_ids (env_ir env))"

text \<open>The two limits, in the order they are tested; the flag is the result.\<close>
definition reserve_run :: "sched_env \<Rightarrow> string \<Rightarrow> sched \<Rightarrow> bool \<times> sched" where
  "reserve_run env n s =
     (let workflow_limit = workflow_max_runs (workflow (env_ir env)); node_limit = max_runs (exec_of env n);
          over = (\<lambda>limit used. case limit of None \<Rightarrow> False | Some m \<Rightarrow> m \<le> used);
          limit_json = (\<lambda>limit. case limit of None \<Rightarrow> JNull | Some m \<Rightarrow> JNat m)
      in if over workflow_limit (total_runs s) then
           (False, s\<lparr>sched_error := Some \<lparr>kind = ''budget'', code = ''RATTISH_RUN_LIMIT_EXCEEDED'',
              message = ''The workflow max-runs limit was reached.'',
              details = [(''scope'', JStr ''workflow''), (''max_runs'', limit_json workflow_limit),
                         (''next_node'', JStr n)]\<rparr>\<rparr>)
         else if over node_limit (run_counts s n) then
           (False, s\<lparr>sched_error := Some \<lparr>kind = ''budget'', code = ''RATTISH_RUN_LIMIT_EXCEEDED'',
              message = ''Node '' @ py_repr (env_lib env) n @ '' reached its max-runs limit.'',
              details = [(''scope'', JStr ''node''), (''max_runs'', limit_json node_limit),
                         (''node_id'', JStr n)]\<rparr>\<rparr>)
         else (True, s\<lparr>total_runs := total_runs s + 1,
                       run_counts := (run_counts s)(n := run_counts s n + 1)\<rparr>))"

section \<open>Starting activations\<close>

definition is_reusable :: "outcome \<Rightarrow> bool" where
  "is_reusable out \<longleftrightarrow> out = Success \<or> out = AllowedFailure"

definition replay_key_of :: "string \<Rightarrow> activation \<Rightarrow> replay_key" where
  "replay_key_of n a = (n, group_id a, lineage_id a)"

text \<open>\<^verbatim>\<open>heapq.heappush\<close> on a list kept in order; the indices of its entries are distinct.\<close>
definition push_ready :: "ready_replay \<Rightarrow> ready_replay list \<Rightarrow> ready_replay list" where
  "push_ready r rs = insort_key (\<lambda>x. (ready_index x, ready_node x)) r rs"

definition replayed :: "string \<Rightarrow> activation \<Rightarrow> nat \<Rightarrow> sched \<Rightarrow> bool \<times> sched" where
  "replayed n a run s =
     (if replay_source s = None \<or> reusable s \<le> reused s then (False, s)
      else
        (let key = replay_key_of n a;
             occurrence = dget_or 0 (replay_starts s) key;
             s1 = s\<lparr>replay_starts := dset key (occurrence + 1) (replay_starts s)\<rparr>;
             prior = dget_or [] (replay_records s) key
         in if lineage_id a \<in> dirty_lineages s \<or> length prior \<le> occurrence \<or>
               \<not> is_reusable (prior_outcome (snd (prior ! occurrence)))
            then (False, s1)
            else (True, s1\<lparr>replay_ready := push_ready
                   \<lparr>ready_index = fst (prior ! occurrence), ready_node = n, ready_activation = a,
                    ready_run = run, ready_prior = snd (prior ! occurrence)\<rparr> (replay_ready s1)\<rparr>)))"

definition task_of :: "string \<Rightarrow> activation \<Rightarrow> sched \<Rightarrow> task" where
  "task_of n a s =
     \<lparr>task_node = n, task_activation = a, task_run = run_counts s n,
      task_outputs = dmerge (lineage_outputs s (lineage_id a)) (scoped_outputs a),
      task_statuses = lineage_statuses s (lineage_id a),
      task_errors = lineage_errors s (lineage_id a),
      task_attempt = 0, task_begun = False\<rparr>"

text \<open>One start, after its run has been reserved.\<close>
definition start_one :: "string \<Rightarrow> activation \<Rightarrow> sched \<Rightarrow> sched" where
  "start_one n a s =
     (let s1 = s\<lparr>pending := (pending s)(n := ddel (group_id a) (pending s n)),
                 running_groups := (running_groups s)(n := insert (group_id a) (running_groups s n))\<rparr>;
          arguments = task_of n a s1;
          hit = fst (replayed n a (run_counts s1 n) s1);
          s2 = snd (replayed n a (run_counts s1 n) s1)
      in if hit then s2
         else if replaying s2 then s2\<lparr>replay_held := replay_held s2 @ [arguments]\<rparr>
         else s2\<lparr>in_flight := in_flight s2 @ [arguments]\<rparr>)"

text \<open>\<^verbatim>\<open>xs[:n]\<close>, where a negative bound counts from the end\<close>
definition slice_to :: "int \<Rightarrow> 'a list \<Rightarrow> 'a list" where
  "slice_to c xs = (if 0 \<le> c then take (nat c) xs else take (length xs - nat (- c)) xs)"

type_synonym candidate = "nat \<times> string \<times> activation"

definition node_candidates :: "sched_env \<Rightarrow> sched \<Rightarrow> string \<Rightarrow> candidate list" where
  "node_candidates env s n =
     (let capacity = int (max_concurrency (exec_of env n)) - int (card (running_groups s n));
          runnable = filter (is_unlocked env s n) (map snd (pending s n))
      in map (\<lambda>a. (act_sequence a, n, a)) (slice_to capacity runnable))"

definition candidates :: "sched_env \<Rightarrow> sched \<Rightarrow> candidate list" where
  "candidates env s = concat (map (node_candidates env s) (node_ids (env_ir env)))"

fun start_all :: "sched_env \<Rightarrow> candidate list \<Rightarrow> sched \<Rightarrow> bool \<Rightarrow> bool \<times> sched" where
  "start_all env [] s progress = (progress, s)"
| "start_all env ((q, n, a) # cs) s progress =
     (if dget (pending s n) (group_id a) = None then start_all env cs s progress
      else if fst (reserve_run env n s)
      then start_all env cs (start_one n a (snd (reserve_run env n s))) True
      else (progress, snd (reserve_run env n s)))"

text \<open>One round of the \<^verbatim>\<open>while made_progress\<close> loop.\<close>
definition start_pass :: "sched_env \<Rightarrow> sched \<Rightarrow> bool \<times> sched" where
  "start_pass env s =
     start_all env (sort_key (\<lambda>(q, n, a). (q, n)) (candidates env s)) s False"

definition pending_total :: "sched_env \<Rightarrow> sched \<Rightarrow> nat" where
  "pending_total env s = sum_list (map (\<lambda>n. length (pending s n)) (remdups (node_ids (env_ir env))))"

lemma replayed_frame [simp]:
  "pending (snd (replayed n a k s)) = pending s"
  "running_groups (snd (replayed n a k s)) = running_groups s"
  "run_counts (snd (replayed n a k s)) = run_counts s"
  "total_runs (snd (replayed n a k s)) = total_runs s"
  "seq (snd (replayed n a k s)) = seq s"
  "records (snd (replayed n a k s)) = records s"
  "sched_error (snd (replayed n a k s)) = sched_error s"
  "loops (snd (replayed n a k s)) = loops s"
  "satisfied (snd (replayed n a k s)) = satisfied s"
  "in_flight (snd (replayed n a k s)) = in_flight s"
  "stream (snd (replayed n a k s)) = stream s"
  "replay_held (snd (replayed n a k s)) = replay_held s"
  "replaying (snd (replayed n a k s)) = replaying s"
  "events (snd (replayed n a k s)) = events s"
  "dirty_lineages (snd (replayed n a k s)) = dirty_lineages s"
  "lineage_outputs (snd (replayed n a k s)) = lineage_outputs s"
  "lineage_statuses (snd (replayed n a k s)) = lineage_statuses s"
  "lineage_errors (snd (replayed n a k s)) = lineage_errors s"
  "deferred_failures (snd (replayed n a k s)) = deferred_failures s"
  "replay_source (snd (replayed n a k s)) = replay_source s"
  "replay_records (snd (replayed n a k s)) = replay_records s"
  "reused (snd (replayed n a k s)) = reused s"
  "reusable (snd (replayed n a k s)) = reusable s"
  "latest_outputs (snd (replayed n a k s)) = latest_outputs s"
  "latest_statuses (snd (replayed n a k s)) = latest_statuses s"
  "latest_errors (snd (replayed n a k s)) = latest_errors s"
  by (auto simp: replayed_def Let_def)

lemma start_one_frame [simp]:
  "pending (start_one n a s) = (pending s)(n := ddel (group_id a) (pending s n))"
  "running_groups (start_one n a s) = (running_groups s)(n := insert (group_id a) (running_groups s n))"
  "run_counts (start_one n a s) = run_counts s"
  "total_runs (start_one n a s) = total_runs s"
  "seq (start_one n a s) = seq s"
  "records (start_one n a s) = records s"
  "sched_error (start_one n a s) = sched_error s"
  "loops (start_one n a s) = loops s"
  "satisfied (start_one n a s) = satisfied s"
  "stream (start_one n a s) = stream s"
  "replaying (start_one n a s) = replaying s"
  "events (start_one n a s) = events s"
  "dirty_lineages (start_one n a s) = dirty_lineages s"
  "lineage_outputs (start_one n a s) = lineage_outputs s"
  "lineage_statuses (start_one n a s) = lineage_statuses s"
  "lineage_errors (start_one n a s) = lineage_errors s"
  "deferred_failures (start_one n a s) = deferred_failures s"
  "replay_source (start_one n a s) = replay_source s"
  "replay_records (start_one n a s) = replay_records s"
  "reused (start_one n a s) = reused s"
  "reusable (start_one n a s) = reusable s"
  "latest_outputs (start_one n a s) = latest_outputs s"
  "latest_statuses (start_one n a s) = latest_statuses s"
  "latest_errors (start_one n a s) = latest_errors s"
  by (auto simp: start_one_def Let_def)

lemma reserve_run_frame [simp]:
  "pending (snd (reserve_run env n s)) = pending s"
  "running_groups (snd (reserve_run env n s)) = running_groups s"
  "seq (snd (reserve_run env n s)) = seq s"
  "records (snd (reserve_run env n s)) = records s"
  "loops (snd (reserve_run env n s)) = loops s"
  "satisfied (snd (reserve_run env n s)) = satisfied s"
  "in_flight (snd (reserve_run env n s)) = in_flight s"
  "stream (snd (reserve_run env n s)) = stream s"
  "replay_held (snd (reserve_run env n s)) = replay_held s"
  "replaying (snd (reserve_run env n s)) = replaying s"
  "events (snd (reserve_run env n s)) = events s"
  "dirty_lineages (snd (reserve_run env n s)) = dirty_lineages s"
  "lineage_outputs (snd (reserve_run env n s)) = lineage_outputs s"
  "lineage_statuses (snd (reserve_run env n s)) = lineage_statuses s"
  "lineage_errors (snd (reserve_run env n s)) = lineage_errors s"
  "deferred_failures (snd (reserve_run env n s)) = deferred_failures s"
  "replay_source (snd (reserve_run env n s)) = replay_source s"
  "replay_records (snd (reserve_run env n s)) = replay_records s"
  "reused (snd (reserve_run env n s)) = reused s"
  "reusable (snd (reserve_run env n s)) = reusable s"
  "latest_outputs (snd (reserve_run env n s)) = latest_outputs s"
  "latest_statuses (snd (reserve_run env n s)) = latest_statuses s"
  "latest_errors (snd (reserve_run env n s)) = latest_errors s"
  "replay_ready (snd (reserve_run env n s)) = replay_ready s"
  "replay_starts (snd (reserve_run env n s)) = replay_starts s"
  by (auto simp: reserve_run_def Let_def)

lemma reserve_run_error:
  "fst (reserve_run env n s) \<Longrightarrow> sched_error (snd (reserve_run env n s)) = sched_error s"
  "\<not> fst (reserve_run env n s) \<Longrightarrow> sched_error (snd (reserve_run env n s)) \<noteq> None"
  by (auto simp: reserve_run_def Let_def split: if_splits)

lemma length_ddel: "dget d k \<noteq> None \<Longrightarrow> length (ddel k d) < length d"
  by (induction d) (auto simp: less_Suc_eq_le length_delete_le)

lemma sum_list_map_less:
  assumes "distinct xs" and "x \<in> set xs" and "f x < g x" and "\<And>y. y \<noteq> x \<Longrightarrow> f y = (g y :: nat)"
  shows "sum_list (map f xs) < sum_list (map g xs)"
proof -
  have "sum_list (map f xs) = sum f (set xs)" "sum_list (map g xs) = sum g (set xs)"
    using assms(1) by (simp_all add: sum_list_distinct_conv_sum_set)
  moreover have "sum f (set xs) < sum g (set xs)"
    using assms(2-4) by (intro sum_strict_mono_ex1) (auto, metis le_eq_less_or_eq)
  ultimately show ?thesis by simp
qed

lemma pending_total_start:
  assumes "n \<in> set (node_ids (env_ir env))" and "dget (pending s n) (group_id a) \<noteq> None"
  shows "pending_total env (start_one n a s) < pending_total env s"
  unfolding pending_total_def
  using assms(1) length_ddel [OF assms(2)] by (intro sum_list_map_less [of _ n]) auto

lemma pending_total_cong: "pending s = pending t \<Longrightarrow> pending_total env s = pending_total env t"
  by (simp add: pending_total_def)

lemma start_all_total:
  assumes "\<forall>(q, n, a) \<in> set cs. n \<in> set (node_ids (env_ir env))"
  shows "pending_total env (snd (start_all env cs s p)) \<le> pending_total env s \<and>
    (fst (start_all env cs s p) \<and> \<not> p \<longrightarrow> pending_total env (snd (start_all env cs s p)) < pending_total env s)"
  using assms
proof (induction env cs s p rule: start_all.induct)
  case (2 env q n a cs s p)
  let ?s = "snd (reserve_run env n s)"
  have same: "pending_total env ?s = pending_total env s" by (rule pending_total_cong) simp
  show ?case
  proof (cases "dget (pending s n) (group_id a) \<noteq> None \<and> fst (reserve_run env n s)")
    case True
    then have "pending_total env (start_one n a ?s) < pending_total env s"
      using pending_total_start [of n env ?s a] "2.prems" same by simp
    with 2 True show ?thesis by (auto intro: le_less_trans less_imp_le)
  next
    case False
    with 2 same show ?thesis by auto
  qed
qed simp

lemma candidates_known: "(q, n, a) \<in> set (candidates env s) \<Longrightarrow> n \<in> set (node_ids (env_ir env))"
  by (auto simp: candidates_def node_candidates_def Let_def)

lemma start_pass_total:
  "fst (start_pass env s) \<Longrightarrow> pending_total env (snd (start_pass env s)) < pending_total env s"
proof -
  let ?cs = "sort_key (\<lambda>(q, n, a). (q, n)) (candidates env s)"
  have "\<forall>(q, n, a) \<in> set ?cs. n \<in> set (node_ids (env_ir env))"
    using candidates_known by (simp only: set_sort) blast
  from start_all_total [OF this, of s False] show "fst (start_pass env s) \<Longrightarrow> ?thesis"
    unfolding start_pass_def by blast
qed

function start_runnable :: "sched_env \<Rightarrow> sched \<Rightarrow> sched" where
  "start_runnable env s =
     (if sched_error s \<noteq> None then s
      else if fst (start_pass env s) then start_runnable env (snd (start_pass env s))
      else snd (start_pass env s))"
  by pat_completeness auto
termination
  by (relation "measure (\<lambda>(env, s). pending_total env s)") (auto intro: start_pass_total)

declare start_runnable.simps [simp del]

section \<open>Loops\<close>

definition iteration_group :: "loop_state \<Rightarrow> string" where
  "iteration_group st = loop_lineage st @ '':iteration:'' @ show_nat (next_index st)"

definition iteration_item :: "loop_state \<Rightarrow> (string \<times> json) list" where
  "iteration_item st =
     dsetdefault ''index'' (JNat (next_index st))
       (if loop_infinite st then [(''index'', JNat (next_index st))] else loop_items st ! next_index st)"

text \<open>The body of the loop of \<^verbatim>\<open>_fill_loop_capacity\<close>: one more iteration of the workflow's loop.\<close>
definition fill_one :: "loop_state \<Rightarrow> sched \<Rightarrow> sched" where
  "fill_one st s =
     (let g = iteration_group st; item = JObj (iteration_item st); parent = parent_lineage_id st;
          scoped = dset (loop_node st) item (parent_outputs st);
          lineages = dset (loop_node st) (loop_lineage st) (parent_lineages st);
          s1 = s\<lparr>dirty_lineages :=
                   (if parent \<in> dirty_lineages s then insert g (dirty_lineages s) else dirty_lineages s),
                 satisfied := (satisfied s)(g := insert (loop_node st) (satisfied s parent)),
                 lineage_outputs := (lineage_outputs s)(g := dset (loop_node st) item (lineage_outputs s parent)),
                 lineage_statuses := (lineage_statuses s)(g := lineage_statuses s parent),
                 lineage_errors := (lineage_errors s)(g := lineage_errors s parent)\<rparr>;
          s2 = fold (\<lambda>r. enqueue (target r) g g scoped lineages) (loop_routes st) s1;
          st' = st\<lparr>next_index := next_index st + 1,
                   active_groups := (if loop_routes st = [] then insert g (active_groups st) - {g}
                                     else insert g (active_groups st))\<rparr>
      in s2\<lparr>loops := dset (loop_lineage st) st' (loops s2)\<rparr>)"

definition may_fill :: "loop_state \<Rightarrow> bool" where
  "may_fill st \<longleftrightarrow> \<not> loop_closed st \<and> int (card (active_groups st)) < loop_max_concurrency st \<and>
     (loop_infinite st \<or> next_index st < length (loop_items st))"

text \<open>\<open>None\<close> is a loop that never ends.\<close>
partial_function (option) fill_loop_capacity :: "string \<Rightarrow> sched \<Rightarrow> sched option" where
  "fill_loop_capacity l s =
     (case dget (loops s) l of
        None \<Rightarrow> Some s
      | Some st \<Rightarrow> if may_fill st then fill_loop_capacity l (fill_one st s) else Some s)"

declare fill_loop_capacity.simps [code]

definition fill :: "string \<Rightarrow> sched \<Rightarrow> sched_fault + sched" where
  "fill l s = (case fill_loop_capacity l s of None \<Rightarrow> Inl LoopNeverFills | Some s' \<Rightarrow> Inr s')"

definition live_groups :: "sched_env \<Rightarrow> sched \<Rightarrow> string set" where
  "live_groups env s =
     (\<Union>n \<in> set (node_ids (env_ir env)). (group_id \<circ> snd) ` set (pending s n) \<union> running_groups s n)"

definition group_alive :: "string set \<Rightarrow> string \<Rightarrow> bool" where
  "group_alive live g \<longleftrightarrow> (\<exists>x \<in> live. x = g \<or> starts_with (g @ '':'') x)"

definition settle_one :: "string set \<Rightarrow> sched \<Rightarrow> string \<Rightarrow> sched_fault + sched" where
  "settle_one live s l =
     (case dget (loops s) l of
        None \<Rightarrow> Inr s
      | Some st \<Rightarrow>
          fill l (s\<lparr>loops := dset l (st\<lparr>active_groups := {g \<in> active_groups st. group_alive live g}\<rparr>) (loops s)\<rparr>))"

definition settle_loop_groups :: "sched_env \<Rightarrow> sched \<Rightarrow> sched_fault + sched" where
  "settle_loop_groups env s = foldR (settle_one (live_groups env s)) s (dkeys (loops s))"

definition close_loop :: "sched_env \<Rightarrow> activation \<Rightarrow> string \<Rightarrow> sched \<Rightarrow> sched" where
  "close_loop env a n s =
     (let loop = (case break_of (node_at (env_ir env) n) of Some l \<Rightarrow> l | None \<Rightarrow> [])
      in case dget (loop_lineages a) loop of
           None \<Rightarrow> s\<lparr>sched_error := Some \<lparr>kind = ''workflow_control'', code = ''RATTISH_BREAK_OUTSIDE_LOOP'',
             message = ''Break node '' @ py_repr (env_lib env) n @ '' ran outside loop '' @
               py_repr (env_lib env) loop @ ''.'', details = []\<rparr>\<rparr>
         | Some l \<Rightarrow>
             (case dget (loops s) l of
                None \<Rightarrow> s
              | Some st \<Rightarrow>
                  if loop_closed st then s
                  else s\<lparr>loops := dset l (st\<lparr>loop_closed := True\<rparr>) (loops s),
                         pending := (\<lambda>m. filter (\<lambda>(g, q). dget (loop_lineages q) loop \<noteq> Some l) (pending s m))\<rparr>))"

definition defer_loop_failure :: "activation \<Rightarrow> error_info option \<Rightarrow> sched \<Rightarrow> bool \<times> sched" where
  "defer_loop_failure a e s =
     (case find (\<lambda>l. case dget (loops s) l of None \<Rightarrow> False | Some st \<Rightarrow> \<not> loop_fail_fast st)
             (map snd (loop_lineages a)) of
        None \<Rightarrow> (False, s)
      | Some l \<Rightarrow>
          (True, s\<lparr>deferred_failures := deferred_failures s @
             [case e of
                Some x \<Rightarrow> x
              | None \<Rightarrow> \<lparr>kind = ''internal'', code = ''RATTISH_NODE_FAILED'',
                  message = ''A loop iteration branch failed.'',
                  details = [(''loop'', JStr (case dget (loops s) l of Some st \<Rightarrow> loop_node st | None \<Rightarrow> [])),
                             (''lineage'', JStr l)]\<rparr>]\<rparr>))"

section \<open>Routing\<close>

definition lineage_scope :: "sched_env \<Rightarrow> sched \<Rightarrow> string \<Rightarrow> scope" where
  "lineage_scope env s l =
     \<lparr>workflow_inputs = env_inputs env, trigger_events = env_events env, node_outputs = lineage_outputs s l,
      node_statuses = lineage_statuses s l, node_errors = lineage_errors s l\<rparr>"

definition conditional_matches :: "sched_env \<Rightarrow> scope \<Rightarrow> outcome \<Rightarrow> route \<Rightarrow> bool" where
  "conditional_matches env sc out r =
     (case mode r of
        Conditional p \<Rightarrow>
          out \<in> set (eligible_outcomes r) \<and> \<not> (out = AllowedFailure \<and> predicate_uses_output p) \<and>
          evaluate_predicate (env_lib env) out sc p
      | _ \<Rightarrow> False)"

definition matching_routes :: "sched_env \<Rightarrow> sched \<Rightarrow> string \<Rightarrow> outcome \<Rightarrow> string \<Rightarrow> route list" where
  "matching_routes env s n out l =
     (let rs = routes (node_at (env_ir env) n);
          matched_conditionals = filter (conditional_matches env (lineage_scope env s l) out) rs;
          matched = filter (\<lambda>r. mode r = Unconditional \<and> out \<in> set (eligible_outcomes r)) rs
      in matched @ matched_conditionals @
         (if matched_conditionals = []
          then filter (\<lambda>r. mode r = Otherwise \<and> out \<in> set (eligible_outcomes r)) rs else []))"

definition merge_locked_signals :: "string \<Rightarrow> string \<Rightarrow> sched \<Rightarrow> sched" where
  "merge_locked_signals n l s =
     (let activations = filter (\<lambda>a. lineage_id a = l) (map snd (pending s n))
      in if length activations \<le> 1 then s
         else
           (let g = ''merged:'' @ str_join ''+'' (sort (map group_id activations));
                rest = fold (\<lambda>a. ddel (group_id a)) activations (pending s n)
            in s\<lparr>pending := (pending s)(n := dset g
                   \<lparr>group_id = g, act_sequence = Min (set (map act_sequence activations)), lineage_id = l,
                    scoped_outputs = scoped_outputs (hd activations),
                    loop_lineages = loop_lineages (hd activations)\<rparr> rest)\<rparr>))"

section \<open>Processing a completion\<close>

definition iterable_items :: "json \<Rightarrow> (string \<times> json) list list option" where
  "iterable_items v =
     (case v of
        JList xs \<Rightarrow> Some (map members (filter is_mapping xs))
      | JStr _ \<Rightarrow> Some []
      | JObj _ \<Rightarrow> Some []
      | _ \<Rightarrow> None)"

text \<open>\<^verbatim>\<open>int(value)\<close> of a JSON number or Boolean; the loop contract admits nothing else.\<close>
fun py_int :: "json \<Rightarrow> int option" where
  "py_int (JBool b) = Some (if b then 1 else 0)"
| "py_int (JInt i) = Some i"
| "py_int (JFloat r) = Some (if 0 \<le> r then floor r else ceiling r)"
| "py_int _ = None"

definition open_loop :: "sched_env \<Rightarrow> completion \<Rightarrow> sched \<Rightarrow> sched_fault + sched" where
  "open_loop env c s =
     (let a = comp_activation c; r = comp_record c; out = result_output (rec_result r);
          l = group_id a @ '':loop:'' @ rec_node r @ '':'' @ show_nat (rec_run r)
      in if \<not> is_mapping out then Inl InvalidLoopOutput
         else case (iterable_items (jget_or (JList []) out ''items''), py_int (jget_or (JInt 1) out ''max_concurrency'')) of
           (Some items, Some m) \<Rightarrow>
             fill l (s\<lparr>loops := dset l
               \<lparr>loop_node = rec_node r, loop_lineage = l, loop_items = items,
                loop_infinite = truthy (jget_or (JBool False) out ''infinite''), loop_max_concurrency = m,
                loop_fail_fast = truthy (jget_or (JBool False) out ''fail_fast''),
                loop_routes = matching_routes env s (rec_node r) (result_outcome (rec_result r)) (lineage_id a),
                parent_outputs = scoped_outputs a, parent_lineages = loop_lineages a,
                parent_lineage_id = lineage_id a, next_index = 0, loop_closed = False, active_groups = {}\<rparr>
               (loops s)\<rparr>)
         | _ \<Rightarrow> Inl InvalidLoopOutput)"

definition error_text :: "node_result \<Rightarrow> string" where
  "error_text r = (case result_error r of Some e \<Rightarrow> message e | None \<Rightarrow> [])"

text \<open>The bookkeeping at the start of \<^verbatim>\<open>_process_completion\<close>.\<close>
definition record_completion :: "completion \<Rightarrow> sched \<Rightarrow> sched" where
  "record_completion c s =
     (let a = comp_activation c; r = comp_record c; n = rec_node r
      in s\<lparr>running_groups := (running_groups s)(n := running_groups s n - {group_id a}),
           records := records s @ [r],
           dirty_lineages :=
             (if replay_source s \<noteq> None \<and> reused_from r = None
              then insert (lineage_id a) (dirty_lineages s) else dirty_lineages s),
           events := events s @ [\<lparr>event_node = n, event_run = rec_run r, event_lineage = lineage_id a,
             event_group = group_id a,
             event_detail = NodeCompleted (result_outcome (rec_result r)) (error_text (rec_result r))
               (case reused_from r of Some (x # xs) \<Rightarrow> True | _ \<Rightarrow> False) r\<rparr>]\<rparr>)"

definition record_result :: "completion \<Rightarrow> sched \<Rightarrow> sched" where
  "record_result c s =
     (let n = rec_node (comp_record c); r = rec_result (comp_record c); l = lineage_id (comp_activation c)
      in if result_outcome r = Success then
           s\<lparr>latest_outputs := dset n (result_output r) (latest_outputs s),
             latest_statuses := dset n ''success'' (latest_statuses s),
             latest_errors := ddel n (latest_errors s),
             lineage_outputs := (lineage_outputs s)(l := dset n (result_output r) (lineage_outputs s l)),
             lineage_statuses := (lineage_statuses s)(l := dset n ''success'' (lineage_statuses s l)),
             lineage_errors := (lineage_errors s)(l := ddel n (lineage_errors s l))\<rparr>
         else
           (let s1 = s\<lparr>latest_statuses := dset n ''failure'' (latest_statuses s),
                lineage_statuses := (lineage_statuses s)(l := dset n ''failure'' (lineage_statuses s l))\<rparr>
            in case result_error r of
                 None \<Rightarrow> s1
               | Some e \<Rightarrow>
                   s1\<lparr>latest_errors := dset n (error_document e) (latest_errors s1),
                      lineage_errors := (lineage_errors s1)(l := dset n (error_document e) (lineage_errors s1 l))\<rparr>))"

definition satisfy :: "string \<Rightarrow> string \<Rightarrow> sched \<Rightarrow> sched" where
  "satisfy l n s = s\<lparr>satisfied := (satisfied s)(l := insert n (satisfied s l))\<rparr>"

text \<open>The end of \<^verbatim>\<open>_process_completion\<close>: routes, joins that became complete, loops.\<close>
definition follow_routes :: "sched_env \<Rightarrow> completion \<Rightarrow> sched \<Rightarrow> sched_fault + sched" where
  "follow_routes env c s =
     (let a = comp_activation c; n = rec_node (comp_record c); l = lineage_id a;
          out = result_outcome (rec_result (comp_record c));
          locked = filter (\<lambda>m. \<not> lineage_is_unlocked env s m l) (sort (remdups (node_ids (env_ir env))));
          s1 = satisfy l n s;
          s2 = fold (\<lambda>r. enqueue (target r) (group_id a) l (scoped_outputs a) (loop_lineages a))
                 (matching_routes env s1 n out l) s1;
          s3 = fold (\<lambda>m. merge_locked_signals m l) (filter (\<lambda>m. lineage_is_unlocked env s2 m l) locked) s2
      in settle_loop_groups env s3)"

definition fail_run :: "sched_env \<Rightarrow> completion \<Rightarrow> sched \<Rightarrow> sched_fault + sched" where
  "fail_run env c s =
     (let e = result_error (rec_result (comp_record c));
          deferred = defer_loop_failure (comp_activation c) e s
      in if fst deferred then settle_loop_groups env (snd deferred)
         else Inr (s\<lparr>sched_error := Some (case e of
                Some x \<Rightarrow> x
              | None \<Rightarrow> \<lparr>kind = ''internal'', code = ''RATTISH_NODE_FAILED'',
                  message = ''Node '' @ py_repr (env_lib env) (rec_node (comp_record c)) @ '' failed.'',
                  details = []\<rparr>)\<rparr>))"

text \<open>What a completed loop node opens, and what a completed break node closes.\<close>
definition loop_stages :: "sched_env \<Rightarrow> completion \<Rightarrow> sched \<Rightarrow> sched_fault + sched" where
  "loop_stages env c s =
     (let a = comp_activation c; n = rec_node (comp_record c); nd = node_at (env_ir env) n
      in andThen (if node_type nd = ''loop''
                  then andThen (open_loop env c (satisfy (lineage_id a) n s)) (settle_loop_groups env)
                  else Inr s) (\<lambda>s1.
         if node_type nd = ''break'' then settle_loop_groups env (close_loop env a n s1) else Inr s1))"

definition process_completion :: "sched_env \<Rightarrow> completion \<Rightarrow> sched \<Rightarrow> sched_fault + sched" where
  "process_completion env c s =
     (let n = rec_node (comp_record c); nd = node_at (env_ir env) n; ends = finish (execution nd);
          s1 = record_result c (record_completion c s)
      in if result_outcome (rec_result (comp_record c)) = Failure then fail_run env c s1
         else
           andThen (loop_stages env c s1) (\<lambda>s2.
             if ends = Some FinishFail then
               Inr (s2\<lparr>sched_error := Some \<lparr>kind = ''workflow_control'', code = ''RATTISH_FINISH_FAIL'',
                 message = ''Failure terminal '' @ py_repr (env_lib env) n @ '' completed.'',
                 details = [(''node_id'', JStr n)]\<rparr>\<rparr>)
             else if node_type nd = ''loop'' \<and> ends = None then Inr s2
             else follow_routes env c s2))"

section \<open>Replay\<close>

definition replay_completion :: "string option \<Rightarrow> ready_replay \<Rightarrow> completion" where
  "replay_completion src r =
     (let p = ready_prior r; a = ready_activation r
      in \<lparr>comp_activation = a,
          comp_record = \<lparr>rec_node = ready_node r, rec_run = ready_run r, rec_lineage = lineage_id a,
            rec_group = group_id a, rec_started = prior_started p, rec_finished = prior_finished p,
            rec_duration = prior_duration p,
            rec_result = \<lparr>result_node_id = ready_node r, result_outcome = prior_outcome p,
              result_output = prior_output p, result_error = prior_error p\<rparr>,
            reused_from = src\<rparr>\<rparr>)"

definition replay_next :: "sched_env \<Rightarrow> sched \<Rightarrow> sched_fault + sched" where
  "replay_next env s =
     (case replay_ready s of
        [] \<Rightarrow> Inr s
      | r # rs \<Rightarrow>
          process_completion env (replay_completion (replay_source s) r)
            (s\<lparr>replay_ready := rs, reused := reused s + 1\<rparr>))"

definition finish_replay :: "sched \<Rightarrow> sched" where
  "finish_replay s =
     s\<lparr>replaying := False, in_flight := in_flight s @ replay_held s, replay_held := []\<rparr>"

section \<open>Running an activation\<close>

definition task_event :: "task \<Rightarrow> event_detail \<Rightarrow> event" where
  "task_event t e =
     \<lparr>event_node = task_node t, event_run = task_run t, event_lineage = lineage_id (task_activation t),
      event_group = group_id (task_activation t), event_detail = e\<rparr>"

definition task_completion :: "task \<Rightarrow> string \<Rightarrow> string \<Rightarrow> int \<Rightarrow> node_result \<Rightarrow> completion" where
  "task_completion t started finished duration r =
     \<lparr>comp_activation = task_activation t,
      comp_record = \<lparr>rec_node = task_node t, rec_run = task_run t,
        rec_lineage = lineage_id (task_activation t), rec_group = group_id (task_activation t),
        rec_started = started, rec_finished = finished, rec_duration = duration, rec_result = r,
        reused_from = None\<rparr>\<rparr>"

text \<open>
  \<^verbatim>\<open>_run_attempts\<close> as the steps between its waits: the first attempt begins; an attempt
  ends with a result of \<^verbatim>\<open>execute_node\<close> and is either the last one, or is followed by the
  next. The flag of \<open>end_attempt\<close> tells whether the activation has finished.
\<close>
definition begin_task :: "task \<Rightarrow> task \<times> event list" where
  "begin_task t = (t\<lparr>task_begun := True\<rparr>, [task_event t (NodeStarted (task_attempt t + 1))])"

definition last_attempt :: "sched_env \<Rightarrow> task \<Rightarrow> node_result \<Rightarrow> bool" where
  "last_attempt env t r \<longleftrightarrow>
     result_outcome r = Success \<or> task_attempt t = retry_count (exec_of env (task_node t))"

definition retry_task :: "task \<Rightarrow> node_result \<Rightarrow> task \<times> event list" where
  "retry_task t r =
     (t\<lparr>task_attempt := task_attempt t + 1\<rparr>,
      [task_event t (NodeRetried (task_attempt t + 1)
         (case result_error r of Some e \<Rightarrow> message e | None \<Rightarrow> ''Node failed; retrying.'')),
       task_event t (NodeStarted (task_attempt t + 2))])"

section \<open>The end of a run\<close>

definition unresolved_of :: "sched_env \<Rightarrow> sched \<Rightarrow> string \<Rightarrow> activation \<Rightarrow> json" where
  "unresolved_of env s n a =
     (let got = satisfied s (lineage_id a); missing = sorted_list_of_set (needs_of env n - got)
      in JObj [(''node_id'', JStr n), (''activation_lineage_id'', JStr (lineage_id a)),
           (''received_predecessors'', JList (map JStr (sorted_list_of_set (needs_of env n \<inter> got)))),
           (''missing_predecessors'', JList (map JStr missing)),
           (''missing_states'', JObj (map (\<lambda>m. (m, JStr (dget_or ''not_completed''
              (lineage_statuses s (lineage_id a)) m))) missing))])"

definition unresolved_joins :: "sched_env \<Rightarrow> sched \<Rightarrow> json list" where
  "unresolved_joins env s =
     concat (map (\<lambda>n. map (unresolved_of env s n)
                        (filter (\<lambda>a. \<not> is_unlocked env s n a) (map snd (pending s n))))
       (sort (remdups (node_ids (env_ir env)))))"

definition unresolved_join_error :: "sched_env \<Rightarrow> sched \<Rightarrow> error_info option" where
  "unresolved_join_error env s =
     (if unresolved_joins env s = [] then None
      else Some \<lparr>kind = ''workflow_control'', code = ''RATTISH_JOIN_UNRESOLVED'',
        message = ''The workflow reached quiescence with an unresolved join.'',
        details = [(''joins'', JList (unresolved_joins env s))]\<rparr>)"

definition latest_scope :: "sched_env \<Rightarrow> sched \<Rightarrow> scope" where
  "latest_scope env s =
     \<lparr>workflow_inputs = env_inputs env, trigger_events = env_events env, node_outputs = latest_outputs s,
      node_statuses = latest_statuses s, node_errors = latest_errors s\<rparr>"

fun root_name :: "ref_root \<Rightarrow> string" where
  "root_name InputRoot = ''input''"
| "root_name NodeRoot = ''node''"
| "root_name SecretRoot = ''secret''"
| "root_name TriggerRoot = ''trigger''"

fun channel_name :: "channel \<Rightarrow> string" where
  "channel_name ErrorChannel = ''error''"
| "channel_name ItemChannel = ''item''"
| "channel_name OutputChannel = ''output''"
| "channel_name StatusChannel = ''status''"

definition add_output ::
  "sched_env \<Rightarrow> sched \<Rightarrow> (string, json) dict \<Rightarrow> workflow_output \<Rightarrow> error_info + (string, json) dict" where
  "add_output env s acc out =
     (let n = output_name out; src = output_source out
      in case reference_value (env_lib env) (latest_scope env s) src of
           None \<Rightarrow> Inl \<lparr>kind = ''output_validation'', code = ''RATTISH_WORKFLOW_OUTPUT_MISSING'',
             message = ''Public workflow output '' @ py_repr (env_lib env) n @ '' has no value.'',
             details = [(''output'', JStr n), (''root'', JStr (root_name (root src))),
               (''symbol'', case symbol src of None \<Rightarrow> JNull | Some x \<Rightarrow> JStr x),
               (''channel'', case channel src of None \<Rightarrow> JNull | Some x \<Rightarrow> JStr (channel_name x))]\<rparr>
         | Some v \<Rightarrow>
             if instance_matches_schema (env_schemas env) (output_decl_schema out) v then Inr (dset n v acc)
             else Inl \<lparr>kind = ''output_validation'', code = ''RATTISH_WORKFLOW_OUTPUT_INVALID'',
               message = ''Public workflow output '' @ py_repr (env_lib env) n @ '' violates its schema.'',
               details = [(''output'', JStr n)]\<rparr>)"

definition workflow_outputs :: "sched_env \<Rightarrow> sched \<Rightarrow> error_info + (string, json) dict" where
  "workflow_outputs env s = foldR (add_output env s) [] (outputs (workflow (env_ir env)))"

datatype run_outcome = Passed | FailedRun

record workflow_result =
  wr_outcome :: run_outcome
  wr_runs :: "run_record list"
  wr_outputs :: "(string, json) dict"
  wr_latest :: "(string, json) dict"
  wr_error :: "error_info option"

text \<open>The error of a run whose loop has ended: its own, a deferred one, an unresolved join.\<close>
definition final_error :: "sched_env \<Rightarrow> sched \<Rightarrow> error_info option" where
  "final_error env s =
     (case sched_error s of
        Some e \<Rightarrow> Some e
      | None \<Rightarrow>
          (case deferred_failures s of
             e # es \<Rightarrow> Some e
           | [] \<Rightarrow> unresolved_join_error env s))"

definition run_result :: "sched_env \<Rightarrow> sched \<Rightarrow> workflow_result" where
  "run_result env s =
     (let outs = (case final_error env s of Some e \<Rightarrow> Inl e | None \<Rightarrow> workflow_outputs env s)
      in case outs of
           Inl e \<Rightarrow> \<lparr>wr_outcome = FailedRun, wr_runs = records s, wr_outputs = [], wr_latest = latest_outputs s,
                     wr_error = Some e\<rparr>
         | Inr xs \<Rightarrow> \<lparr>wr_outcome = Passed, wr_runs = records s, wr_outputs = xs, wr_latest = latest_outputs s,
                     wr_error = None\<rparr>)"

definition timeout_result :: "sched_env \<Rightarrow> sched \<Rightarrow> workflow_result" where
  "timeout_result env s =
     \<lparr>wr_outcome = FailedRun, wr_runs = records s, wr_outputs = [], wr_latest = latest_outputs s,
      wr_error = Some \<lparr>kind = ''timeout'', code = ''RATTISH_TIMEOUT'',
        message = ''The workflow active-processing timeout was reached.'',
        details = [(''scope'', JStr ''workflow''),
                   (''timeout_ms'', timeout_json (workflow_timeout_ms (workflow (env_ir env))))]\<rparr>\<rparr>"

definition empty_result :: "ir \<Rightarrow> workflow_result" where
  "empty_result d =
     \<lparr>wr_outcome = FailedRun, wr_runs = [], wr_outputs = [], wr_latest = [],
      wr_error = Some \<lparr>kind = ''workflow_control'', code = ''RATTISH_WORKFLOW_EMPTY'',
        message = ''The workflow has no nodes to execute.'',
        details = [(''workflow_id'', JStr (workflow_id (workflow d)))]\<rparr>\<rparr>"

section \<open>The main loop\<close>

definition prior_key :: "prior_run \<Rightarrow> replay_key" where
  "prior_key p = (prior_node p, prior_group p, prior_lineage p)"

definition index_priors :: "prior_run list \<Rightarrow> (replay_key, (nat \<times> prior_run) list) dict" where
  "index_priors ps =
     fold (\<lambda>(i, p) d. dset (prior_key p) (dget_or [] d (prior_key p) @ [(i, p)]) d) (List.enumerate 0 ps) []"

text \<open>\<^verbatim>\<open>__init__\<close>\<close>
definition new_sched :: "prior_run list \<Rightarrow> string option \<Rightarrow> sched" where
  "new_sched replay src =
     \<lparr>latest_outputs = [], latest_statuses = [], latest_errors = [], satisfied = (\<lambda>l. {}),
      lineage_outputs = (\<lambda>l. []), lineage_statuses = (\<lambda>l. []), lineage_errors = (\<lambda>l. []),
      pending = (\<lambda>n. []), running_groups = (\<lambda>n. {}), run_counts = (\<lambda>n. 0), total_runs = 0, seq = 0,
      records = [], sched_error = None, loops = [], deferred_failures = [],
      replay_source = src, replaying = (replay \<noteq> []), dirty_lineages = {},
      replay_records = index_priors replay, replay_starts = [], replay_ready = [], replay_held = [],
      reused = 0, reusable = length (filter (\<lambda>p. is_reusable (prior_outcome p)) replay),
      in_flight = [], stream = [], events = []\<rparr>"

definition enqueue_initial :: "sched_env \<Rightarrow> sched \<Rightarrow> sched" where
  "enqueue_initial env s =
     fold (\<lambda>n. enqueue n (''initial:'' @ n) root_lineage [] [])
       (filter (\<lambda>n. initial_activation (exec_of env n)) (sort (remdups (node_ids (env_ir env))))) s"

definition initial_sched :: "sched_env \<Rightarrow> prior_run list \<Rightarrow> string option \<Rightarrow> sched" where
  "initial_sched env replay src = start_runnable env (enqueue_initial env (new_sched replay src))"

text \<open>
  Where the main loop is: at its head, waiting for a completion, or past its end.
\<close>
datatype phase = AtHead | Waiting | Ended

text \<open>The loop body from its head to the next wait, or to the end.\<close>
definition advance :: "sched_env \<Rightarrow> sched \<Rightarrow> sched_fault + (phase \<times> sched)" where
  "advance env s =
     (if running_count env s = 0 \<and> \<not> has_runnable_pending env s then Inr (Ended, s)
      else if sched_error s \<noteq> None then Inr (Ended, s)
      else if replay_ready s \<noteq> [] then
        andThen (replay_next env s) (\<lambda>s1.
          Inr (AtHead, if sched_error s1 = None then start_runnable env s1 else s1))
      else
        (let s1 = (if replaying s then finish_replay s else s)
         in if running_count env s1 = 0 then
              (let s2 = start_runnable env s1
               in Inr (if sched_error s2 \<noteq> None \<or> running_count env s2 = 0 then Ended else Waiting, s2))
            else Inr (Waiting, s1)))"

text \<open>The rest of the body, once \<^verbatim>\<open>receive\<close> has returned a completion.\<close>
definition receive_completion :: "sched_env \<Rightarrow> sched \<Rightarrow> sched_fault + (phase \<times> sched)" where
  "receive_completion env s =
     (case stream s of
        [] \<Rightarrow> Inr (Waiting, s)
      | c # cs \<Rightarrow>
          andThen (process_completion env c (s\<lparr>stream := cs\<rparr>)) (\<lambda>s1.
            Inr (if sched_error s1 \<noteq> None then (Ended, s1) else (AtHead, start_runnable env s1))))"

text \<open>
  The interleavings of a run. The result of an attempt and the clock readings are
  arbitrary: they come from the handler and the clock.
\<close>
inductive run_step :: "sched_env \<Rightarrow> phase \<times> sched \<Rightarrow> phase \<times> sched \<Rightarrow> bool" for env where
  advance: "advance env s = Inr (p, s') \<Longrightarrow> run_step env (AtHead, s) (p, s')"
| receive: "stream s \<noteq> [] \<Longrightarrow> receive_completion env s = Inr (p, s') \<Longrightarrow> run_step env (Waiting, s) (p, s')"
| begin_attempt: "p \<noteq> Ended \<Longrightarrow> i < length (in_flight s) \<Longrightarrow> \<not> task_begun (in_flight s ! i) \<Longrightarrow>
    begin_task (in_flight s ! i) = (t, es) \<Longrightarrow>
    run_step env (p, s) (p, s\<lparr>in_flight := (in_flight s)[i := t], events := events s @ es\<rparr>)"
| retry_attempt: "p \<noteq> Ended \<Longrightarrow> i < length (in_flight s) \<Longrightarrow> task_begun (in_flight s ! i) \<Longrightarrow>
    \<not> last_attempt env (in_flight s ! i) r \<Longrightarrow> retry_task (in_flight s ! i) r = (t, es) \<Longrightarrow>
    run_step env (p, s) (p, s\<lparr>in_flight := (in_flight s)[i := t], events := events s @ es\<rparr>)"
| complete_task: "p \<noteq> Ended \<Longrightarrow> i < length (in_flight s) \<Longrightarrow> task_begun (in_flight s ! i) \<Longrightarrow>
    last_attempt env (in_flight s ! i) r \<Longrightarrow>
    run_step env (p, s)
      (p, s\<lparr>in_flight := take i (in_flight s) @ drop (Suc i) (in_flight s),
            stream := stream s @ [task_completion (in_flight s ! i) started finished duration r]\<rparr>)"
| cancel_task: "sched_error s \<noteq> None \<Longrightarrow> i < length (in_flight s) \<Longrightarrow> task_begun (in_flight s ! i) \<Longrightarrow>
    run_step env (Ended, s)
      (Ended, s\<lparr>in_flight := take i (in_flight s) @ drop (Suc i) (in_flight s),
                events := events s @ [task_event (in_flight s ! i) NodeStopped]\<rparr>)"

inductive reachable :: "sched_env \<Rightarrow> prior_run list \<Rightarrow> string option \<Rightarrow> phase \<times> sched \<Rightarrow> bool"
  for env replay src where
  start: "reachable env replay src (AtHead, initial_sched env replay src)"
| step: "reachable env replay src x \<Longrightarrow> run_step env x y \<Longrightarrow> reachable env replay src y"

end
