(* ===== verification/Scheduler_Invariants.thy ===== *)
theory Scheduler_Invariants
  imports Scheduler "HOL-Library.Multiset"
begin

text \<open>
  The invariant of the scheduler of \<open>Scheduler\<close>, split by the fields it speaks about, and its
  preservation by every operation. \<open>X\<close> is the multiset of started activations that have
  not been processed: the tasks in flight, held or ready for replay, and the completions
  in the stream.
\<close>

section \<open>Activation groups\<close>

text \<open>The text behind the last colon.\<close>
definition last_segment :: "string \<Rightarrow> string" where
  "last_segment g = rev (takeWhile (\<lambda>c. c \<noteq> CHR '':'') (rev g))"

definition root_group :: "string \<Rightarrow> bool" where
  "root_group g \<longleftrightarrow> CHR '':'' \<in> set g \<and> last_segment g \<noteq> [] \<and> \<not> is_digit (hd (last_segment g))"

definition iteration_like :: "string \<Rightarrow> bool" where
  "iteration_like g \<longleftrightarrow> last_segment g \<noteq> [] \<and> is_digit (hd (last_segment g))"

text \<open>
  In the root lineage an activation belongs to an initial or merged group; in the lineage
  of a loop iteration the group is the lineage itself.
\<close>
definition group_fits :: "string \<Rightarrow> string \<Rightarrow> bool" where
  "group_fits g l \<longleftrightarrow> l = root_lineage \<and> root_group g \<or> l = g \<and> iteration_like g"

definition act_ok :: "activation \<Rightarrow> bool" where
  "act_ok a \<longleftrightarrow> group_fits (group_id a) (lineage_id a)"

lemma last_segment_append: "CHR '':'' \<in> set y \<Longrightarrow> last_segment (x @ y) = last_segment y"
  by (simp add: last_segment_def takeWhile_append1)

lemma last_segment_colon: "CHR '':'' \<notin> set seg \<Longrightarrow> last_segment (x @ CHR '':'' # seg) = seg"
  by (simp add: last_segment_def takeWhile_append)

lemma iteration_like_group: "iteration_like (x @ CHR '':'' # show_nat k)"
proof -
  have seg: "CHR '':'' \<notin> set (show_nat k)" by (rule not_digit_in_show_nat) (simp add: is_digit_def)
  have "is_digit (hd (show_nat k))" using show_nat_digits [of k] by simp
  then show ?thesis by (simp add: iteration_like_def last_segment_colon [OF seg])
qed

lemma root_not_iteration: "\<not> iteration_like root_lineage"
  by (simp add: iteration_like_def last_segment_def is_digit_def)

lemma root_group_not_iteration: "root_group g \<Longrightarrow> \<not> iteration_like g"
  by (simp add: root_group_def iteration_like_def)

definition ident_ok :: "string \<Rightarrow> bool" where
  "ident_ok n \<longleftrightarrow> n \<noteq> [] \<and> CHR '':'' \<notin> set n \<and> \<not> is_digit (hd n)"

lemma root_group_initial: "ident_ok n \<Longrightarrow> root_group (''initial:'' @ n)"
  using last_segment_colon [of n "''initial''"] by (simp add: root_group_def ident_ok_def)

lemma str_join_last: "gs \<noteq> [] \<Longrightarrow> \<exists>x. str_join sep gs = x @ last gs"
proof (induction gs)
  case (Cons g gs)
  show ?case
  proof (cases gs)
    case (Cons h hs)
    with Cons.IH obtain x where "str_join sep gs = x @ last gs" by auto
    with Cons have "str_join sep (g # gs) = (g @ sep @ x) @ last (g # gs)" by simp
    then show ?thesis by blast
  qed (auto intro: exI [of _ "[]"])
qed simp

lemma root_group_merged:
  assumes "gs \<noteq> []" and "\<forall>g \<in> set gs. root_group g"
  shows "root_group (''merged:'' @ str_join ''+'' gs)"
proof -
  obtain x where x: "str_join ''+'' gs = x @ last gs" using str_join_last [OF assms(1)] by blast
  have r: "root_group (last gs)" using assms by simp
  then have "last_segment ((''merged:'' @ x) @ last gs) = last_segment (last gs)"
    by (intro last_segment_append) (simp add: root_group_def)
  with r x show ?thesis by (simp add: root_group_def)
qed

lemma group_fits_nonempty: "group_fits g l \<Longrightarrow> l \<noteq> []"
  by (auto simp: group_fits_def iteration_like_def last_segment_def)

section \<open>The invariant\<close>

abbreviation task_key :: "string \<times> activation \<Rightarrow> string \<times> string" where
  "task_key x \<equiv> (fst x, group_id (snd x))"

type_synonym outstanding = "(string \<times> activation) multiset"

definition run_inv :: "outstanding \<Rightarrow> (string \<Rightarrow> string set) \<Rightarrow> bool" where
  "run_inv X R \<longleftrightarrow> (\<forall>n. R n = {g. (n, g) \<in># image_mset task_key X}) \<and>
     (\<forall>k. count (image_mset task_key X) k \<le> 1)"

definition cap_inv :: "sched_env \<Rightarrow> (string \<Rightarrow> string set) \<Rightarrow> bool" where
  "cap_inv env R \<longleftrightarrow> (\<forall>n. card (R n) \<le> max_concurrency (exec_of env n))"

definition queued :: "(string \<Rightarrow> (string, activation) dict) \<Rightarrow> (string \<times> string \<times> activation) set" where
  "queued P = {(n, g, a). (g, a) \<in> set (P n)}"

abbreviation seq_of :: "string \<times> string \<times> activation \<Rightarrow> nat" where
  "seq_of x \<equiv> act_sequence (snd (snd x))"

definition pend_inv :: "(string \<Rightarrow> (string, activation) dict) \<Rightarrow> nat \<Rightarrow> bool" where
  "pend_inv P q \<longleftrightarrow> (\<forall>n. dict_ok (P n)) \<and>
     (\<forall>(n, g, a) \<in> queued P. group_id a = g \<and> act_ok a \<and> act_sequence a \<le> q) \<and>
     inj_on seq_of (queued P)"

definition apart_inv :: "(string \<Rightarrow> (string, activation) dict) \<Rightarrow> (string \<Rightarrow> string set) \<Rightarrow> bool" where
  "apart_inv P R \<longleftrightarrow> (\<forall>n g. g \<in> R n \<longrightarrow> dget (P n) g = None)"

definition done_nodes :: "run_record list \<Rightarrow> string set" where
  "done_nodes rs = rec_node ` {r \<in> set rs. result_outcome (rec_result r) \<noteq> Failure}"

definition join_inv :: "sched_env \<Rightarrow> outstanding \<Rightarrow> (string \<Rightarrow> string set) \<Rightarrow> string set \<Rightarrow> bool" where
  "join_inv env X S D \<longleftrightarrow> (\<forall>l. S l \<subseteq> D) \<and>
     (\<forall>(n, a) \<in># X. n \<in> set (node_ids (env_ir env)) \<and> act_ok a \<and> needs_of env n \<subseteq> D \<and>
        (lineage_id a = root_lineage \<longrightarrow> needs_of env n \<subseteq> S root_lineage))"

definition budget_inv ::
  "sched_env \<Rightarrow> outstanding \<Rightarrow> (string \<Rightarrow> nat) \<Rightarrow> nat \<Rightarrow> run_record list \<Rightarrow> bool" where
  "budget_inv env X C T rs \<longleftrightarrow>
     T = sum C (set (node_ids (env_ir env))) \<and> T = length rs + size X \<and>
     (\<forall>m. workflow_max_runs (workflow (env_ir env)) = Some m \<longrightarrow> T \<le> m) \<and>
     (\<forall>n m. max_runs (exec_of env n) = Some m \<longrightarrow> C n \<le> m)"

definition iterations :: "loop_state \<Rightarrow> string set" where
  "iterations st = (\<lambda>k. loop_lineage st @ '':iteration:'' @ show_nat k) ` {..< next_index st}"

definition loop_ok :: "string set \<Rightarrow> string \<Rightarrow> loop_state \<Rightarrow> bool" where
  "loop_ok D l st \<longleftrightarrow> loop_lineage st = l \<and> loop_node st \<in> D \<and> active_groups st \<subseteq> iterations st \<and>
     int (card (active_groups st)) \<le> max 0 (loop_max_concurrency st) \<and>
     (\<not> loop_infinite st \<longrightarrow> next_index st \<le> length (loop_items st))"

definition loop_inv :: "(string, loop_state) dict \<Rightarrow> string set \<Rightarrow> bool" where
  "loop_inv L D \<longleftrightarrow> (\<forall>l st. dget L l = Some st \<longrightarrow> loop_ok D l st)"

definition sched_inv :: "sched_env \<Rightarrow> outstanding \<Rightarrow> sched \<Rightarrow> bool" where
  "sched_inv env X s \<longleftrightarrow> run_inv X (running_groups s) \<and> cap_inv env (running_groups s) \<and>
     pend_inv (pending s) (seq s) \<and> apart_inv (pending s) (running_groups s) \<and>
     join_inv env X (satisfied s) (done_nodes (records s)) \<and>
     budget_inv env X (run_counts s) (total_runs s) (records s) \<and>
     loop_inv (loops s) (done_nodes (records s))"

text \<open>What the JSON Schema of the document promises of its nodes.\<close>
definition env_ok :: "sched_env \<Rightarrow> bool" where
  "env_ok env \<longleftrightarrow> distinct (node_ids (env_ir env)) \<and>
     (\<forall>n \<in> set (nodes (env_ir env)). ident_ok (node_id n) \<and> 1 \<le> max_concurrency (execution n))"

section \<open>Queueing\<close>

lemma pend_inv_insert:
  assumes "pend_inv P q" and "q \<le> q'" and "\<And>n. dict_ok (P' n)"
    and "queued P' \<subseteq> insert (n, group_id a, a) Q" and "Q \<subseteq> queued P"
    and "act_ok a" and "act_sequence a \<le> q'" and "act_sequence a \<notin> seq_of ` Q"
  shows "pend_inv P' q'"
proof -
  have "inj_on seq_of Q" using assms(1,5) unfolding pend_inv_def by (blast intro: inj_on_subset)
  then have "inj_on seq_of (insert (n, group_id a, a) Q)"
    using assms(8) by (auto simp: inj_on_insert image_iff)
  then have "inj_on seq_of (queued P')" using assms(4) by (rule inj_on_subset)
  moreover have "group_id b = g \<and> act_ok b \<and> act_sequence b \<le> q'" if "(m, g, b) \<in> queued P'" for m g b
  proof (cases "(m, g, b) \<in> Q")
    case True
    then have "group_id b = g \<and> act_ok b \<and> act_sequence b \<le> q"
      using assms(1,5) unfolding pend_inv_def by blast
    with assms(2) show ?thesis by simp
  next
    case False
    with that assms(4,6,7) show ?thesis by auto
  qed
  ultimately show ?thesis using assms(3) unfolding pend_inv_def by blast
qed

lemma pend_invD:
  assumes "pend_inv P q" and "(n, g, a) \<in> queued P"
  shows "group_id a = g \<and> act_ok a \<and> act_sequence a \<le> q"
proof -
  have "\<forall>(n, g, a) \<in> queued P. group_id a = g \<and> act_ok a \<and> act_sequence a \<le> q"
    using assms(1) unfolding pend_inv_def by simp
  from bspec [OF this assms(2)] show ?thesis by simp
qed

lemma pend_inv_subset:
  assumes "pend_inv P q" and "\<And>n. dict_ok (P' n)" and "queued P' \<subseteq> queued P"
  shows "pend_inv P' q"
  using assms unfolding pend_inv_def by (blast intro: inj_on_subset)

lemma pend_inv_fresh: "pend_inv P q \<Longrightarrow> q + 1 \<notin> seq_of ` queued P"
  unfolding pend_inv_def by fastforce

lemma pend_inv_add:
  assumes "pend_inv P q" and "act_ok a" and "act_sequence a = q + 1" and "dget (P n) (group_id a) = None"
  shows "pend_inv (P(n := dset (group_id a) a (P n))) (q + 1)"
proof (rule pend_inv_insert [OF assms(1), of _ _ n a "queued P"])
  show "dict_ok ((P(n := dset (group_id a) a (P n))) m)" for m
    using assms(1) by (auto simp: pend_inv_def distinct_update)
  show "queued (P(n := dset (group_id a) a (P n))) \<subseteq> insert (n, group_id a, a) (queued P)"
    using dset_fresh [OF assms(4)] by (auto simp: queued_def split: if_splits)
  show "act_sequence a \<notin> seq_of ` queued P" using pend_inv_fresh [OF assms(1)] assms(3) by simp
qed (use assms in simp_all)

lemma inv_enqueue:
  assumes "sched_inv env X s" and "group_fits g l"
  shows "sched_inv env X (enqueue n g l sc ll s)"
proof (cases "g \<in> running_groups s n \<or> dget (pending s n) g \<noteq> None")
  case False
  then have "pend_inv ((pending s)(n := dset g \<lparr>group_id = g, act_sequence = seq s + 1, lineage_id = l,
      scoped_outputs = sc, loop_lineages = ll\<rparr> (pending s n))) (seq s + 1)"
    using False assms pend_inv_add [of "pending s" "seq s" "\<lparr>group_id = g, act_sequence = seq s + 1,
      lineage_id = l, scoped_outputs = sc, loop_lineages = ll\<rparr>" n]
    by (simp add: sched_inv_def act_ok_def)
  with False assms group_fits_nonempty [OF assms(2)] show ?thesis
    by (auto simp: enqueue_def sched_inv_def apart_inv_def dict_simps)
qed (use assms in \<open>simp add: enqueue_def\<close>)

lemma inv_enqueue_all:
  assumes "sched_inv env X s" and "group_fits g l"
  shows "sched_inv env X (fold (\<lambda>r. enqueue (f r) g l sc ll) rs s)"
  using assms by (induction rs arbitrary: s) (auto intro: inv_enqueue)

section \<open>Loops\<close>

lemma enqueue_frame [simp]:
  "loops (enqueue n g l sc ll s) = loops s" "records (enqueue n g l sc ll s) = records s"
  "satisfied (enqueue n g l sc ll s) = satisfied s" "running_groups (enqueue n g l sc ll s) = running_groups s"
  "sched_error (enqueue n g l sc ll s) = sched_error s" "in_flight (enqueue n g l sc ll s) = in_flight s"
  "stream (enqueue n g l sc ll s) = stream s" "replay_held (enqueue n g l sc ll s) = replay_held s"
  "replay_ready (enqueue n g l sc ll s) = replay_ready s" "replaying (enqueue n g l sc ll s) = replaying s"
  by (simp_all add: enqueue_def)

lemma enqueue_all_frame [simp]:
  "loops (fold (\<lambda>r. enqueue (f r) g l sc ll) rs s) = loops s"
  "records (fold (\<lambda>r. enqueue (f r) g l sc ll) rs s) = records s"
  "satisfied (fold (\<lambda>r. enqueue (f r) g l sc ll) rs s) = satisfied s"
  "running_groups (fold (\<lambda>r. enqueue (f r) g l sc ll) rs s) = running_groups s"
  "sched_error (fold (\<lambda>r. enqueue (f r) g l sc ll) rs s) = sched_error s"
  "in_flight (fold (\<lambda>r. enqueue (f r) g l sc ll) rs s) = in_flight s"
  "stream (fold (\<lambda>r. enqueue (f r) g l sc ll) rs s) = stream s"
  "replay_held (fold (\<lambda>r. enqueue (f r) g l sc ll) rs s) = replay_held s"
  "replay_ready (fold (\<lambda>r. enqueue (f r) g l sc ll) rs s) = replay_ready s"
  "replaying (fold (\<lambda>r. enqueue (f r) g l sc ll) rs s) = replaying s"
  by (induction rs arbitrary: s) simp_all

lemma loop_inv_update: "loop_inv L D \<Longrightarrow> loop_ok D l st \<Longrightarrow> loop_inv (dset l st L) D"
  by (auto simp: loop_inv_def dict_simps)

lemma inv_loops:
  "sched_inv env X s \<Longrightarrow> loop_ok (done_nodes (records s)) l st \<Longrightarrow> sched_inv env X (s\<lparr>loops := dset l st (loops s)\<rparr>)"
  by (simp add: sched_inv_def loop_inv_update)

lemma inv_loop_ok: "sched_inv env X s \<Longrightarrow> dget (loops s) l = Some st \<Longrightarrow> loop_ok (done_nodes (records s)) l st"
  by (simp add: sched_inv_def loop_inv_def)

lemma iteration_group_fits: "group_fits (iteration_group st) (iteration_group st)"
  using iteration_like_group [of "loop_lineage st @ '':iteration''" "next_index st"]
  by (simp add: group_fits_def iteration_group_def)

lemma iteration_group_not_root: "iteration_group st \<noteq> root_lineage"
  using iteration_group_fits [of st] root_not_iteration by (auto simp: group_fits_def root_group_def)

lemma loop_ok_finite: "loop_ok D l st \<Longrightarrow> finite (active_groups st)"
  by (auto simp: loop_ok_def iterations_def intro: finite_subset)

lemma iteration_group_fresh: "active_groups st \<subseteq> iterations st \<Longrightarrow> iteration_group st \<notin> active_groups st"
  by (auto simp: iterations_def iteration_group_def)

lemma iterations_grow: "insert (iteration_group st) (iterations st) \<subseteq> iterations (st\<lparr>next_index := next_index st + 1, active_groups := A\<rparr>)"
  by (auto simp: iterations_def iteration_group_def less_Suc_eq)

lemma loop_ok_fill:
  assumes "loop_ok D l st" and "may_fill st"
    and "g = iteration_group st"
  shows "loop_ok D l (st\<lparr>next_index := next_index st + 1,
    active_groups := (if loop_routes st = [] then insert g (active_groups st) - {g} else insert g (active_groups st))\<rparr>)"
proof -
  have fin: "finite (active_groups st)" using assms(1) by (rule loop_ok_finite)
  have sub: "insert g (active_groups st) \<subseteq> iterations (st\<lparr>next_index := next_index st + 1, active_groups := A\<rparr>)" for A
    using iterations_grow [of st A] assms(1,3) by (auto simp: loop_ok_def)
  have "card (insert g (active_groups st)) \<le> card (active_groups st) + 1"
    using fin by (simp add: card_insert_if)
  moreover have "card (insert g (active_groups st) - {g}) \<le> card (insert g (active_groups st))"
    using fin by (intro card_mono) auto
  ultimately show ?thesis using assms(1,2) sub by (auto simp: loop_ok_def may_fill_def)
qed

lemma inv_fill_one:
  assumes "sched_inv env X s" and "dget (loops s) l = Some st" and "may_fill st"
  shows "sched_inv env X (fill_one st s)"
proof -
  let ?g = "iteration_group st"
  have ok: "loop_ok (done_nodes (records s)) l st" using assms by (simp add: inv_loop_ok)
  then have l: "loop_lineage st = l" and node: "loop_node st \<in> done_nodes (records s)"
    by (auto simp: loop_ok_def)
  have join: "join_inv env X (satisfied s) (done_nodes (records s))" using assms(1) by (simp add: sched_inv_def)
  have "join_inv env X ((satisfied s)(?g := insert (loop_node st) (satisfied s (parent_lineage_id st))))
      (done_nodes (records s))"
    using join node iteration_group_not_root [of st] unfolding join_inv_def by auto
  then have step: "sched_inv env X (s\<lparr>dirty_lineages := dl, satisfied := (satisfied s)(?g := insert (loop_node st)
      (satisfied s (parent_lineage_id st))), lineage_outputs := lo, lineage_statuses := ls,
      lineage_errors := le\<rparr>)" for dl lo ls le
    using assms(1) by (simp add: sched_inv_def)
  show ?thesis
    unfolding fill_one_def Let_def l
    by (intro inv_loops inv_enqueue_all step iteration_group_fits)
      (use loop_ok_fill [OF ok assms(3) refl] in simp)
qed

lemma fill_loop_capacity_preserves:
  assumes "fill_loop_capacity l s = Some s'" and "P s"
    and "\<And>s st. P s \<Longrightarrow> dget (loops s) l = Some st \<Longrightarrow> may_fill st \<Longrightarrow> P (fill_one st s)"
  shows "P s'"
proof -
  have "l = l \<longrightarrow> P s \<longrightarrow> P s'"
  proof (rule fill_loop_capacity.raw_induct [where P = "\<lambda>l' s s'. l' = l \<longrightarrow> P s \<longrightarrow> P s'", OF _ assms(1)])
    fix f :: "string \<Rightarrow> sched \<Rightarrow> sched option" and l' t t'
    assume ih: "\<And>l' s s'. f l' s = Some s' \<Longrightarrow> l' = l \<longrightarrow> P s \<longrightarrow> P s'"
      and eq: "(case dget (loops t) l' of
          None \<Rightarrow> Some t | Some st \<Rightarrow> if may_fill st then f l' (fill_one st t) else Some t) = Some t'"
    show "l' = l \<longrightarrow> P t \<longrightarrow> P t'"
    proof (intro impI)
      assume "l' = l" and "P t"
      with eq ih assms(3) show "P t'" by (auto split: option.splits if_splits)
    qed
  qed
  with assms(2) show ?thesis by simp
qed

lemma inv_fill: "fill l s = Inr s' \<Longrightarrow> sched_inv env X s \<Longrightarrow> sched_inv env X s'"
  by (auto simp: fill_def split: option.splits intro: inv_fill_one elim!: fill_loop_capacity_preserves)

lemma loop_ok_shrink:
  assumes "loop_ok D l st"
  shows "loop_ok D l (st\<lparr>active_groups := {g \<in> active_groups st. Q g}\<rparr>)"
proof -
  have "card {g \<in> active_groups st. Q g} \<le> card (active_groups st)"
    using loop_ok_finite [OF assms] by (intro card_mono) auto
  with assms show ?thesis by (auto simp: loop_ok_def iterations_def)
qed

lemma inv_settle:
  assumes "settle_loop_groups env' s = Inr s'" and "sched_inv env X s"
  shows "sched_inv env X s'"
  using assms(1) unfolding settle_loop_groups_def
proof (rule foldR_invariant [where P = "sched_inv env X"])
  show "sched_inv env X s" by fact
  fix t l t' assume "sched_inv env X t" and "settle_one (live_groups env' s) t l = Inr t'"
  then show "sched_inv env X t'"
    by (auto simp: settle_one_def split: option.splits
        elim!: inv_fill intro!: inv_loops loop_ok_shrink intro: inv_loop_ok)
qed

lemma loop_ok_closed: "loop_ok D l st \<Longrightarrow> loop_ok D l (st\<lparr>loop_closed := True\<rparr>)"
  by (auto simp: loop_ok_def iterations_def)

lemma pend_inv_filter:
  assumes "pend_inv P q"
  shows "pend_inv (\<lambda>m. filter f (P m)) q"
proof (rule pend_inv_subset [OF assms])
  show "dict_ok (filter f (P m))" for m
    using assms unfolding pend_inv_def by (blast intro: distinct_map_filter)
  show "queued (\<lambda>m. filter f (P m)) \<subseteq> queued P" by (auto simp: queued_def)
qed

lemma inv_close_loop:
  assumes "sched_inv env X s"
  shows "sched_inv env X (close_loop env' a n s)"
proof -
  have pend: "pend_inv (\<lambda>m. filter f (pending s m)) (seq s)" for f
    using assms by (intro pend_inv_filter) (simp add: sched_inv_def)
  have "apart_inv (\<lambda>m. filter f (pending s m)) (running_groups s)" for f
    using assms by (auto simp: sched_inv_def apart_inv_def map_of_eq_None_iff)
  with pend have "sched_inv env X (s\<lparr>loops := dset l (st\<lparr>loop_closed := True\<rparr>) (loops s),
      pending := (\<lambda>m. filter f (pending s m))\<rparr>)" if "dget (loops s) l = Some st" for l st f
    using assms loop_ok_closed [OF inv_loop_ok [OF assms that]] by (simp add: sched_inv_def loop_inv_update)
  moreover have "sched_inv env X (s\<lparr>sched_error := e\<rparr>)" for e using assms by (simp add: sched_inv_def)
  ultimately show ?thesis
    using assms by (auto simp: close_loop_def Let_def split: option.splits)
qed

section \<open>Joins\<close>

lemma inv_satisfy: "sched_inv env X s \<Longrightarrow> n \<in> done_nodes (records s) \<Longrightarrow> sched_inv env X (satisfy l n s)"
  by (auto simp: sched_inv_def satisfy_def join_inv_def)

lemma set_ddel_all: "set (fold (\<lambda>a. ddel (f a)) as d) = {x \<in> set d. fst x \<notin> f ` set as}"
  by (induction as arbitrary: d) (auto simp: AList.delete_eq)

lemma dget_ddel_all:
  "dget (fold (\<lambda>a. ddel (f a)) as d) h = (if h \<in> f ` set as then None else dget d h)"
  by (induction as arbitrary: d) (auto simp: dict_simps)

lemma dict_ok_ddel_all: "dict_ok d \<Longrightarrow> dict_ok (fold (\<lambda>a. ddel (f a)) as d)"
  by (induction as arbitrary: d) (auto simp: distinct_delete)

lemma pending_groups:
  assumes "pend_inv P q"
  shows "map group_id (map snd (P n)) = map fst (P n)"
proof -
  have "(group_id \<circ> snd) x = fst x" if "x \<in> set (P n)" for x
  proof -
    have "(n, fst x, snd x) \<in> queued P" using that by (simp add: queued_def)
    from pend_invD [OF assms this] show ?thesis by simp
  qed
  then show ?thesis by (simp only: map_map map_eq_conv) blast
qed

definition same_lineage :: "string \<Rightarrow> (string, activation) dict \<Rightarrow> activation list" where
  "same_lineage l d = filter (\<lambda>a. lineage_id a = l) (map snd d)"

lemma same_lineage_entry:
  assumes "pend_inv P q" and "a \<in> set (same_lineage l (P n))"
  shows "(n, group_id a, a) \<in> queued P" and "act_ok a" and "lineage_id a = l" and "act_sequence a \<le> q"
proof -
  from assms(2) obtain g where g: "(n, g, a) \<in> queued P" and l: "lineage_id a = l"
    by (auto simp: same_lineage_def queued_def)
  note pend_invD [OF assms(1) g]
  with g l show "(n, group_id a, a) \<in> queued P" "act_ok a" "lineage_id a = l" "act_sequence a \<le> q"
    by simp_all
qed

lemma same_lineage_distinct:
  assumes "pend_inv P q"
  shows "distinct (map group_id (same_lineage l (P n)))"
proof -
  have "distinct (map group_id (map snd (P n)))"
    using pending_groups [OF assms] assms by (metis pend_inv_def)
  then show ?thesis unfolding same_lineage_def by (rule distinct_map_filter)
qed

lemma several_in_root:
  assumes "pend_inv P q" and "1 < length (same_lineage l (P n))"
  shows "l = root_lineage"
proof (rule ccontr)
  assume other: "l \<noteq> root_lineage"
  let ?gs = "map group_id (same_lineage l (P n))"
  have "set ?gs \<subseteq> {l}"
    using same_lineage_entry [OF assms(1), of _ l n] other by (auto simp: act_ok_def group_fits_def)
  then have "card (set ?gs) \<le> card {l}" by (intro card_mono) auto
  with distinct_card [OF same_lineage_distinct [OF assms(1), of l n]] assms(2) show False by simp
qed

definition merged_group :: "activation list \<Rightarrow> string" where
  "merged_group as = ''merged:'' @ str_join ''+'' (sort (map group_id as))"

definition merged_activation :: "string \<Rightarrow> activation list \<Rightarrow> activation" where
  "merged_activation l as =
     \<lparr>group_id = merged_group as, act_sequence = Min (set (map act_sequence as)), lineage_id = l,
      scoped_outputs = scoped_outputs (hd as), loop_lineages = loop_lineages (hd as)\<rparr>"

definition merged_pending :: "string \<Rightarrow> (string, activation) dict \<Rightarrow> (string, activation) dict" where
  "merged_pending l d =
     (let as = same_lineage l d
      in dset (merged_group as) (merged_activation l as) (fold (\<lambda>a. ddel (group_id a)) as d))"

lemma merge_locked_signals_eq:
  "merge_locked_signals n l s =
     (if length (same_lineage l (pending s n)) \<le> 1 then s
      else s\<lparr>pending := (pending s)(n := merged_pending l (pending s n))\<rparr>)"
  by (simp add: merge_locked_signals_def merged_pending_def merged_activation_def merged_group_def
      same_lineage_def Let_def)

lemma merged_group_root:
  assumes "pend_inv P q" and "1 < length (same_lineage l (P n))"
  shows "root_group (merged_group (same_lineage l (P n)))"
  unfolding merged_group_def
proof (rule root_group_merged)
  show "sort (map group_id (same_lineage l (P n))) \<noteq> []"
    using assms(2) by (auto simp flip: length_0_conv)
  have "root_group (group_id a)" if "a \<in> set (same_lineage l (P n))" for a
    using same_lineage_entry [OF assms(1) that] several_in_root [OF assms] root_not_iteration
    by (auto simp: act_ok_def group_fits_def)
  then show "\<forall>g \<in> set (sort (map group_id (same_lineage l (P n)))). root_group g" by simp
qed

lemma merged_sequence:
  assumes "1 < length as"
  obtains b where "b \<in> set as" and "act_sequence (merged_activation l as) = act_sequence b"
proof -
  have "Min (set (map act_sequence as)) \<in> set (map act_sequence as)"
    using assms by (intro Min_in) auto
  then show ?thesis using that by (auto simp: merged_activation_def)
qed

lemma set_dset: "set (dset g a d) \<subseteq> insert (g, a) (set d)"
  by (induction d) auto

lemma merged_queued:
  fixes l n :: string and P :: "string \<Rightarrow> (string, activation) dict"
  defines "as \<equiv> same_lineage l (P n)"
  shows "queued (P(n := merged_pending l (P n))) \<subseteq> insert (n, group_id (merged_activation l as), merged_activation l as)
    {x \<in> queued P. \<not> (fst x = n \<and> fst (snd x) \<in> group_id ` set as)}"
proof (rule subsetI)
  fix x assume "x \<in> queued (P(n := merged_pending l (P n)))"
  then obtain m h c where x: "x = (m, h, c)" and hc: "(h, c) \<in> set ((P(n := merged_pending l (P n))) m)"
    by (auto simp: queued_def)
  show "x \<in> insert (n, group_id (merged_activation l as), merged_activation l as)
    {x \<in> queued P. \<not> (fst x = n \<and> fst (snd x) \<in> group_id ` set as)}"
  proof (cases "m = n")
    case True
    with hc have "(h, c) \<in> set (dset (merged_group as) (merged_activation l as) (fold (\<lambda>a. ddel (group_id a)) as (P n)))"
      by (simp add: merged_pending_def as_def Let_def)
    from subsetD [OF set_dset this]
    have "(h, c) = (merged_group as, merged_activation l as) \<or> (h, c) \<in> set (P n) \<and> h \<notin> group_id ` set as"
      by (auto simp: set_ddel_all)
    moreover have "group_id (merged_activation l as) = merged_group as" by (simp add: merged_activation_def)
    ultimately show ?thesis using x True by (auto simp: queued_def)
  next
    case False
    with hc x show ?thesis by (auto simp: queued_def)
  qed
qed

lemma pend_inv_merge:
  assumes "pend_inv P q" and "1 < length (same_lineage l (P n))"
  shows "pend_inv (P(n := merged_pending l (P n))) q"
proof -
  let ?as = "same_lineage l (P n)"
  let ?Q = "{x \<in> queued P. \<not> (fst x = n \<and> fst (snd x) \<in> group_id ` set ?as)}"
  obtain b where b: "b \<in> set ?as" "act_sequence (merged_activation l ?as) = act_sequence b"
    by (rule merged_sequence [OF assms(2)])
  note entry = same_lineage_entry [OF assms(1) b(1)]
  show ?thesis
  proof (rule pend_inv_insert [OF assms(1) order_refl, of _ n "merged_activation l ?as" ?Q])
    show "dict_ok ((P(n := merged_pending l (P n))) m)" for m
      using assms(1) by (simp add: pend_inv_def merged_pending_def Let_def dict_ok_ddel_all distinct_update)
    show "queued (P(n := merged_pending l (P n))) \<subseteq>
        insert (n, group_id (merged_activation l ?as), merged_activation l ?as) ?Q"
      by (rule merged_queued)
    show "act_ok (merged_activation l ?as)"
      using merged_group_root [OF assms] several_in_root [OF assms]
      by (simp add: merged_activation_def act_ok_def group_fits_def)
    show "act_sequence (merged_activation l ?as) \<le> q" using b entry by simp
    show "act_sequence (merged_activation l ?as) \<notin> seq_of ` ?Q"
    proof
      assume "act_sequence (merged_activation l ?as) \<in> seq_of ` ?Q"
      then obtain x where x: "x \<in> ?Q" "seq_of x = seq_of (n, group_id b, b)"
        unfolding b(2) snd_conv by (elim imageE) (rule that, assumption, simp)
      have "inj_on seq_of (queued P)" using assms(1) by (simp add: pend_inv_def)
      from inj_onD [OF this x(2)] x entry have "x = (n, group_id b, b)" by blast
      with x b(1) show False by auto
    qed
  qed auto
qed

lemma inv_merge:
  assumes "sched_inv env X s"
    and apart: "\<And>a. l = root_lineage \<Longrightarrow> (n, a) \<in># X \<Longrightarrow> lineage_id a \<noteq> l"
  shows "sched_inv env X (merge_locked_signals n l s)"
proof (cases "length (same_lineage l (pending s n)) \<le> 1")
  case True
  with assms(1) show ?thesis by (simp add: merge_locked_signals_eq)
next
  case False
  let ?as = "same_lineage l (pending s n)"
  have pend: "pend_inv (pending s) (seq s)" and several: "1 < length ?as"
    using assms(1) False by (simp_all add: sched_inv_def)
  have "merged_group ?as \<notin> running_groups s n"
  proof
    assume "merged_group ?as \<in> running_groups s n"
    then obtain c where c: "(n, c) \<in># X" "group_id c = merged_group ?as"
      using assms(1) by (auto simp: sched_inv_def run_inv_def)
    then have "act_ok c" using assms(1) by (auto simp: sched_inv_def join_inv_def)
    with c merged_group_root [OF pend several] root_group_not_iteration
    have "lineage_id c = root_lineage" by (auto simp: act_ok_def group_fits_def)
    with apart c(1) several_in_root [OF pend several] show False by blast
  qed
  then have "apart_inv ((pending s)(n := merged_pending l (pending s n))) (running_groups s)"
    using assms(1) by (auto simp: sched_inv_def apart_inv_def merged_pending_def Let_def dict_simps dget_ddel_all)
  with pend_inv_merge [OF pend several] assms(1) False show ?thesis
    by (simp add: merge_locked_signals_eq sched_inv_def)
qed

section \<open>What processing leaves alone\<close>

text \<open>Everything that tells which activations are outstanding, and what has been recorded.\<close>
definition same_runs :: "sched \<Rightarrow> sched \<Rightarrow> bool" where
  "same_runs s t \<longleftrightarrow> records t = records s \<and> in_flight t = in_flight s \<and> stream t = stream s \<and>
     replay_held t = replay_held s \<and> replay_ready t = replay_ready s \<and> replaying t = replaying s \<and>
     reused t = reused s \<and> replay_source t = replay_source s"

lemma same_runs_refl [simp]: "same_runs s s"
  by (simp add: same_runs_def)

lemma same_runs_trans [trans]: "same_runs s t \<Longrightarrow> same_runs t u \<Longrightarrow> same_runs s u"
  by (simp add: same_runs_def)

lemma same_runs_enqueue: "same_runs s (enqueue n g l sc ll s)"
  by (simp add: same_runs_def enqueue_def)

lemma same_runs_fold:
  assumes "\<And>x s. same_runs s (f x s)"
  shows "same_runs s (fold f xs s)"
proof (induction xs arbitrary: s)
  case (Cons x xs)
  have "same_runs s (f x s)" by (rule assms)
  also have "same_runs (f x s) (fold f xs (f x s))" by (rule Cons.IH)
  finally show ?case by simp
qed simp

lemma same_runs_loops: "same_runs s t \<Longrightarrow> same_runs s (t\<lparr>loops := L\<rparr>)"
  by (simp add: same_runs_def)

lemma same_runs_fill_one: "same_runs s (fill_one st s)"
proof -
  let ?g = "iteration_group st"
  define s1 where "s1 = s\<lparr>dirty_lineages := (if parent_lineage_id st \<in> dirty_lineages s
        then insert ?g (dirty_lineages s) else dirty_lineages s),
      satisfied := (satisfied s)(?g := insert (loop_node st) (satisfied s (parent_lineage_id st))),
      lineage_outputs := (lineage_outputs s)(?g := dset (loop_node st) (JObj (iteration_item st))
        (lineage_outputs s (parent_lineage_id st))),
      lineage_statuses := (lineage_statuses s)(?g := lineage_statuses s (parent_lineage_id st)),
      lineage_errors := (lineage_errors s)(?g := lineage_errors s (parent_lineage_id st))\<rparr>"
  have "same_runs s s1" by (simp add: same_runs_def s1_def)
  also have "same_runs s1 (fold (\<lambda>r. enqueue (target r) ?g ?g (dset (loop_node st) (JObj (iteration_item st))
      (parent_outputs st)) (dset (loop_node st) (loop_lineage st) (parent_lineages st))) (loop_routes st) s1)"
    by (rule same_runs_fold) (rule same_runs_enqueue)
  finally show ?thesis unfolding fill_one_def Let_def s1_def by (rule same_runs_loops)
qed

lemma same_runs_fill: "fill l s = Inr s' \<Longrightarrow> same_runs s s'"
  by (auto simp: fill_def split: option.splits intro: same_runs_trans same_runs_fill_one
      elim!: fill_loop_capacity_preserves)

lemma same_runs_settle:
  assumes "settle_loop_groups env s = Inr s'"
  shows "same_runs s s'"
  using assms unfolding settle_loop_groups_def
proof (rule foldR_invariant [where P = "same_runs s"])
  fix t l t' assume st: "same_runs s t" and "settle_one (live_groups env s) t l = Inr t'"
  then have "\<exists>L. same_runs (t\<lparr>loops := L\<rparr>) t' \<or> t' = t"
    by (auto simp: settle_one_def split: option.splits dest: same_runs_fill)
  with st show "same_runs s t'" by (auto intro: same_runs_trans same_runs_loops)
qed simp

lemma same_runs_close: "same_runs s (close_loop env a n s)"
  by (auto simp: same_runs_def close_loop_def Let_def split: option.splits)

lemma same_runs_merge: "same_runs s (merge_locked_signals n l s)"
  by (simp add: same_runs_def merge_locked_signals_eq)

lemma same_runs_satisfy: "same_runs s (satisfy l n s)"
  by (simp add: same_runs_def satisfy_def)

lemma same_runs_open:
  assumes "open_loop env c s = Inr s'"
  shows "same_runs s s'"
proof -
  have "\<exists>L. fill (group_id (comp_activation c) @ '':loop:'' @ rec_node (comp_record c) @ '':'' @
      show_nat (rec_run (comp_record c))) (s\<lparr>loops := L\<rparr>) = Inr s'"
    using assms by (auto simp: open_loop_def Let_def split: if_splits option.splits)
  then show ?thesis by (auto dest!: same_runs_fill simp: same_runs_def)
qed

lemma same_runs_follow:
  assumes "follow_routes env c s = Inr s'"
  shows "same_runs s s'"
proof -
  let ?a = "comp_activation c" and ?n = "rec_node (comp_record c)"
  let ?l = "lineage_id ?a"
  let ?s1 = "satisfy ?l ?n s"
  let ?s2 = "fold (\<lambda>r. enqueue (target r) (group_id ?a) ?l (scoped_outputs ?a) (loop_lineages ?a))
    (matching_routes env ?s1 ?n (result_outcome (rec_result (comp_record c))) ?l) ?s1"
  have "same_runs s ?s1" by (rule same_runs_satisfy)
  also have "same_runs ?s1 ?s2" by (rule same_runs_fold) (rule same_runs_enqueue)
  also have "same_runs ?s2 (fold (\<lambda>m. merge_locked_signals m ?l) ms ?s2)" for ms
    by (rule same_runs_fold) (rule same_runs_merge)
  finally have "same_runs s (fold (\<lambda>m. merge_locked_signals m ?l) ms ?s2)" for ms .
  then show ?thesis
    using assms unfolding follow_routes_def Let_def by (blast intro: same_runs_trans same_runs_settle)
qed

section \<open>Processing a completion\<close>

abbreviation comp_item :: "completion \<Rightarrow> string \<times> activation" where
  "comp_item c \<equiv> (rec_node (comp_record c), comp_activation c)"

lemma done_nodes_mono: "done_nodes rs \<subseteq> done_nodes (rs @ [r])"
  by (auto simp: done_nodes_def)

lemma run_inv_remove:
  assumes "run_inv (add_mset (n, a) X) R"
  shows "run_inv X (R(n := R n - {group_id a}))"
proof -
  let ?K = "image_mset task_key X"
  have "count (image_mset task_key (add_mset (n, a) X)) k \<le> 1" for k
    using assms unfolding run_inv_def by blast
  then have le: "count (add_mset (n, group_id a) ?K) k \<le> 1" for k by simp
  from le [of "(n, group_id a)"] have "(n, group_id a) \<notin># ?K" unfolding not_in_iff by simp
  moreover have "count ?K k \<le> 1" for k
    using le [of k] by (simp split: if_splits)
  moreover have "R m = {g. (m, g) \<in># add_mset (n, group_id a) ?K}" for m
    using assms by (simp add: run_inv_def)
  ultimately show ?thesis by (auto simp: run_inv_def)
qed

lemma loop_inv_mono: "loop_inv L D \<Longrightarrow> D \<subseteq> D' \<Longrightarrow> loop_inv L D'"
  by (auto simp: loop_inv_def loop_ok_def)

lemma join_inv_mono:
  assumes "join_inv env (add_mset x X) S D" and "D \<subseteq> D'"
  shows "join_inv env X S D'"
proof -
  have "S l \<subseteq> D'" for l using assms unfolding join_inv_def by blast
  moreover have "n \<in> set (node_ids (env_ir env)) \<and> act_ok a \<and> needs_of env n \<subseteq> D' \<and>
      (lineage_id a = root_lineage \<longrightarrow> needs_of env n \<subseteq> S root_lineage)" if "(n, a) \<in># X" for n a
  proof -
    have "(n, a) \<in># add_mset x X" using that by simp
    with assms(1) have "n \<in> set (node_ids (env_ir env)) \<and> act_ok a \<and> needs_of env n \<subseteq> D \<and>
        (lineage_id a = root_lineage \<longrightarrow> needs_of env n \<subseteq> S root_lineage)"
      unfolding join_inv_def by blast
    with assms(2) show ?thesis by blast
  qed
  ultimately show ?thesis unfolding join_inv_def by blast
qed

lemma inv_record:
  assumes "sched_inv env (add_mset (comp_item c) X) s"
  shows "sched_inv env X (record_completion c s)"
proof -
  let ?n = "rec_node (comp_record c)" and ?a = "comp_activation c"
  let ?R = "(running_groups s)(?n := running_groups s ?n - {group_id ?a})"
  have "run_inv X ?R" using assms by (intro run_inv_remove) (simp add: sched_inv_def)
  moreover have "cap_inv env ?R"
  proof -
    have "card (running_groups s ?n - {group_id ?a}) \<le> card (running_groups s ?n)"
      by (rule card_Diff1_le)
    with assms show ?thesis by (auto simp: sched_inv_def cap_inv_def intro: le_trans)
  qed
  moreover have "apart_inv (pending s) ?R" using assms by (auto simp: sched_inv_def apart_inv_def)
  moreover have "join_inv env X (satisfied s) (done_nodes (records s @ [comp_record c]))"
    using assms unfolding sched_inv_def by (elim conjE) (rule join_inv_mono [OF _ done_nodes_mono])
  moreover have "budget_inv env X (run_counts s) (total_runs s) (records s @ [comp_record c])"
    using assms by (auto simp: sched_inv_def budget_inv_def)
  moreover have "loop_inv (loops s) (done_nodes (records s @ [comp_record c]))"
    using assms by (intro loop_inv_mono [OF _ done_nodes_mono]) (simp add: sched_inv_def)
  ultimately show ?thesis using assms by (simp add: record_completion_def Let_def sched_inv_def)
qed

lemma inv_record_result: "sched_inv env X s \<Longrightarrow> sched_inv env X (record_result c s)"
  by (auto simp: record_result_def Let_def sched_inv_def split: option.splits)

lemma record_result_frame [simp]: "records (record_result c s) = records s"
  by (auto simp: record_result_def Let_def split: option.splits)

lemma inv_open_loop:
  assumes "open_loop env' c s = Inr s'" and "sched_inv env X s"
    and "rec_node (comp_record c) \<in> done_nodes (records s)"
  shows "sched_inv env X s'"
proof -
  let ?l = "group_id (comp_activation c) @ '':loop:'' @ rec_node (comp_record c) @ '':'' @
      show_nat (rec_run (comp_record c))"
  obtain st where "fill ?l (s\<lparr>loops := dset ?l st (loops s)\<rparr>) = Inr s'"
    and "loop_lineage st = ?l" "loop_node st = rec_node (comp_record c)" "active_groups st = {}" "next_index st = 0"
    using assms(1) by (auto simp: open_loop_def Let_def split: if_splits option.splits)
  then show ?thesis
    using assms(2,3) by (auto simp: loop_ok_def elim!: inv_fill intro!: inv_loops)
qed

lemma inv_merge_all:
  assumes "sched_inv env X s"
    and "\<forall>m \<in> set ms. \<forall>a. l = root_lineage \<longrightarrow> (m, a) \<in># X \<longrightarrow> lineage_id a \<noteq> l"
  shows "sched_inv env X (fold (\<lambda>m. merge_locked_signals m l) ms s)"
  using assms
proof (induction ms arbitrary: s)
  case (Cons m ms)
  have "sched_inv env X (merge_locked_signals m l s)"
    using Cons.prems by (intro inv_merge) auto
  from Cons.IH [OF this] Cons.prems(2) show ?case by simp
qed simp

lemma inv_follow_routes:
  assumes "follow_routes env c s = Inr s'" and "sched_inv env X s" and "act_ok (comp_activation c)"
    and "rec_node (comp_record c) \<in> done_nodes (records s)"
  shows "sched_inv env X s'"
proof -
  let ?a = "comp_activation c" and ?n = "rec_node (comp_record c)"
  let ?l = "lineage_id ?a"
  let ?s2 = "fold (\<lambda>r. enqueue (target r) (group_id ?a) ?l (scoped_outputs ?a) (loop_lineages ?a))
    (matching_routes env (satisfy ?l ?n s) ?n (result_outcome (rec_result (comp_record c))) ?l) (satisfy ?l ?n s)"
  let ?ms = "filter (\<lambda>m. lineage_is_unlocked env ?s2 m ?l)
    (filter (\<lambda>m. \<not> lineage_is_unlocked env s m ?l) (sort (remdups (node_ids (env_ir env)))))"
  have "group_fits (group_id ?a) ?l" using assms(3) by (simp add: act_ok_def)
  then have s2: "sched_inv env X ?s2"
    using assms(2,4) by (intro inv_enqueue_all inv_satisfy)
  have "lineage_id b \<noteq> ?l" if "m \<in> set ?ms" "?l = root_lineage" "(m, b) \<in># X" for m b
    using assms(2) that by (auto simp: sched_inv_def join_inv_def lineage_is_unlocked_def)
  then have "sched_inv env X (fold (\<lambda>m. merge_locked_signals m ?l) ?ms ?s2)"
    by (intro inv_merge_all s2) blast
  moreover have "settle_loop_groups env (fold (\<lambda>m. merge_locked_signals m ?l) ?ms ?s2) = Inr s'"
    using assms(1) by (simp add: follow_routes_def Let_def)
  ultimately show ?thesis by (rule inv_settle [rotated])
qed

lemma defer_frame:
  "sched_inv env X s \<Longrightarrow> sched_inv env X (snd (defer_loop_failure a e s))"
  "same_runs s (snd (defer_loop_failure a e s))"
  by (auto simp: defer_loop_failure_def sched_inv_def same_runs_def split: option.splits)

lemma inv_fail_run:
  assumes "fail_run env c s = Inr s'" and "sched_inv env X s"
  shows "sched_inv env X s'"
proof (cases "fst (defer_loop_failure (comp_activation c) (result_error (rec_result (comp_record c))) s)")
  case True
  with assms(1) show ?thesis
    by (auto simp: fail_run_def Let_def intro: inv_settle defer_frame(1) [OF assms(2)])
next
  case False
  with assms show ?thesis by (auto simp: fail_run_def Let_def sched_inv_def)
qed

lemma same_runs_fail: "fail_run env c s = Inr s' \<Longrightarrow> same_runs s s'"
  by (auto simp: fail_run_def Let_def split: if_splits
      intro: same_runs_trans [OF defer_frame(2)] same_runs_settle) (simp add: same_runs_def)

lemma inv_loop_stages:
  assumes "loop_stages env c s = Inr s'" and "sched_inv env X s"
    and "rec_node (comp_record c) \<in> done_nodes (records s)"
  shows "sched_inv env X s' \<and> same_runs s s'"
proof -
  let ?a = "comp_activation c" and ?n = "rec_node (comp_record c)"
  obtain s1 where opened: "s1 = s \<or> (\<exists>t. open_loop env c (satisfy (lineage_id ?a) ?n s) = Inr t \<and>
      settle_loop_groups env t = Inr s1)"
    and closed: "s' = s1 \<or> settle_loop_groups env (close_loop env ?a ?n s1) = Inr s'"
    using assms(1) by (auto simp: loop_stages_def Let_def andThen_eq_Inr split: if_splits)
  have "sched_inv env X s1 \<and> same_runs s s1"
    using opened
  proof
    assume "\<exists>t. open_loop env c (satisfy (lineage_id ?a) ?n s) = Inr t \<and> settle_loop_groups env t = Inr s1"
    then obtain t where t: "open_loop env c (satisfy (lineage_id ?a) ?n s) = Inr t"
        "settle_loop_groups env t = Inr s1" by blast
    have "sched_inv env X t"
      using t(1) inv_satisfy [OF assms(2,3)] by (rule inv_open_loop) (use assms(3) in \<open>simp add: satisfy_def\<close>)
    then have "sched_inv env X s1" using t(2) inv_settle by blast
    moreover have "same_runs s s1"
      using same_runs_satisfy same_runs_open [OF t(1)] same_runs_settle [OF t(2)] by (blast intro: same_runs_trans)
    ultimately show ?thesis ..
  qed (use assms(2) in simp)
  with closed show ?thesis
    by (blast intro: same_runs_trans same_runs_close same_runs_settle inv_settle inv_close_loop)
qed

lemma inv_process:
  assumes "process_completion env c s = Inr s'" and "sched_inv env (add_mset (comp_item c) X) s"
  shows "sched_inv env X s'" and "same_runs (record_completion c s) s'"
proof -
  let ?s = "record_result c (record_completion c s)"
  have inv: "sched_inv env X ?s" by (intro inv_record_result inv_record assms(2))
  have act: "act_ok (comp_activation c)" using assms(2) by (simp add: sched_inv_def join_inv_def)
  have base: "same_runs (record_completion c s) ?s"
    by (auto simp: same_runs_def record_result_def Let_def split: option.splits)
  have "sched_inv env X s' \<and> same_runs ?s s'"
  proof (cases "result_outcome (rec_result (comp_record c)) = Failure")
    case True
    with assms(1) inv show ?thesis
      by (auto simp: process_completion_def Let_def intro: inv_fail_run same_runs_fail)
  next
    case False
    then have dn: "rec_node (comp_record c) \<in> done_nodes (records ?s)"
      by (simp add: done_nodes_def record_completion_def Let_def)
    obtain s2 where stages: "loop_stages env c ?s = Inr s2"
      and rest: "s' = s2 \<or> (\<exists>e. s' = s2\<lparr>sched_error := e\<rparr>) \<or> follow_routes env c s2 = Inr s'"
      using assms(1) False
      by (auto simp: process_completion_def Let_def andThen_eq_Inr split: if_splits)
    note mid = inv_loop_stages [OF stages inv dn]
    then have "rec_node (comp_record c) \<in> done_nodes (records s2)" using dn by (simp add: same_runs_def)
    moreover have "sched_inv env X s2 \<Longrightarrow> sched_inv env X (s2\<lparr>sched_error := e\<rparr>)" for e
      by (simp add: sched_inv_def)
    moreover have "same_runs s2 (s2\<lparr>sched_error := e\<rparr>)" for e by (simp add: same_runs_def)
    ultimately show ?thesis
      using mid rest act by (blast intro: same_runs_trans inv_follow_routes same_runs_follow)
  qed
  with base show "sched_inv env X s'" and "same_runs (record_completion c s) s'"
    by (auto intro: same_runs_trans)
qed

section \<open>Starting activations\<close>

definition outstanding_of :: "sched \<Rightarrow> outstanding" where
  "outstanding_of s =
     mset (map (\<lambda>t. (task_node t, task_activation t)) (in_flight s @ replay_held s)) +
     mset (map (\<lambda>r. (ready_node r, ready_activation r)) (replay_ready s)) +
     mset (map comp_item (stream s))"

abbreviation sched_ok :: "sched_env \<Rightarrow> sched \<Rightarrow> bool" where
  "sched_ok env s \<equiv> sched_inv env (outstanding_of s) s"

lemma replayed_ready:
  "replay_ready (snd (replayed n a k s)) =
     (if fst (replayed n a k s)
      then push_ready \<lparr>ready_index = fst (dget_or [] (replay_records s) (replay_key_of n a) !
             dget_or 0 (replay_starts s) (replay_key_of n a)), ready_node = n, ready_activation = a, ready_run = k,
             ready_prior = snd (dget_or [] (replay_records s) (replay_key_of n a) !
             dget_or 0 (replay_starts s) (replay_key_of n a))\<rparr> (replay_ready s)
      else replay_ready s)"
  by (simp add: replayed_def Let_def)

lemma outstanding_start: "outstanding_of (start_one n a s) = add_mset (n, a) (outstanding_of s)"
  by (simp add: outstanding_of_def start_one_def Let_def task_of_def replayed_ready push_ready_def)

lemma outstanding_reserve [simp]: "outstanding_of (snd (reserve_run env n s)) = outstanding_of s"
  by (simp add: outstanding_of_def)

definition startable :: "sched_env \<Rightarrow> sched \<Rightarrow> string \<Rightarrow> activation \<Rightarrow> bool" where
  "startable env s n a \<longleftrightarrow> n \<in> set (node_ids (env_ir env)) \<and> dget (pending s n) (group_id a) = Some a \<and>
     is_unlocked env s n a"

lemma run_inv_add:
  assumes "run_inv X R" and "group_id a \<notin> R n"
  shows "run_inv (add_mset (n, a) X) (R(n := insert (group_id a) (R n)))"
proof -
  have R: "R m = {g. (m, g) \<in># image_mset task_key X}" for m using assms(1) unfolding run_inv_def by blast
  then have "(n, group_id a) \<notin># image_mset task_key X" using assms(2) by blast
  then have "count (image_mset task_key X) (n, group_id a) = 0" unfolding not_in_iff .
  moreover have "count (image_mset task_key X) k \<le> 1" for k using assms(1) unfolding run_inv_def by blast
  ultimately have "count (add_mset (n, group_id a) (image_mset task_key X)) k \<le> 1" for k
    by (cases "k = (n, group_id a)") simp_all
  with R show ?thesis unfolding run_inv_def by auto
qed

lemma budget_inv_start:
  assumes "budget_inv env X (run_counts s) (total_runs s) rs" and "fst (reserve_run env n s)"
    and "n \<in> set (node_ids (env_ir env))"
  shows "budget_inv env (add_mset x X) (run_counts (snd (reserve_run env n s)))
    (total_runs (snd (reserve_run env n s))) rs"
proof -
  have eq: "run_counts (snd (reserve_run env n s)) = (run_counts s)(n := run_counts s n + 1)"
      "total_runs (snd (reserve_run env n s)) = total_runs s + 1"
    and limits: "\<And>m. workflow_max_runs (workflow (env_ir env)) = Some m \<Longrightarrow> total_runs s < m"
      "\<And>m. max_runs (exec_of env n) = Some m \<Longrightarrow> run_counts s n < m"
    using assms(2) by (auto simp: reserve_run_def Let_def split: if_splits)
  let ?ns = "set (node_ids (env_ir env))"
  have "sum ((run_counts s)(n := run_counts s n + 1)) ?ns = sum (run_counts s) ?ns + 1"
    using assms(3) by (subst (1 2) sum.remove [of _ n]) auto
  with assms(1) limits show ?thesis unfolding eq budget_inv_def by (auto simp: Suc_leI)
qed

lemma inv_start_one:
  assumes "sched_inv env X s" and "startable env s n a" and "fst (reserve_run env n s)"
    and "card (running_groups s n) < max_concurrency (exec_of env n)"
  shows "sched_inv env (add_mset (n, a) X) (start_one n a (snd (reserve_run env n s)))"
proof -
  let ?R = "(running_groups s)(n := insert (group_id a) (running_groups s n))"
  let ?P = "(pending s)(n := ddel (group_id a) (pending s n))"
  have entry: "(n, group_id a, a) \<in> queued (pending s)"
    using assms(2) by (auto simp: startable_def queued_def dest: map_of_SomeD)
  have pend: "pend_inv (pending s) (seq s)" using assms(1) by (simp add: sched_inv_def)
  have "group_id a \<notin> running_groups s n"
    using assms(1,2) by (auto simp: sched_inv_def apart_inv_def startable_def)
  then have "run_inv (add_mset (n, a) X) ?R" using assms(1) by (intro run_inv_add) (simp_all add: sched_inv_def)
  moreover have "cap_inv env ?R"
  proof -
    have "card (insert (group_id a) (running_groups s n)) \<le> Suc (card (running_groups s n))"
      by (cases "finite (running_groups s n)") (simp_all add: card_insert_if)
    with assms(1,4) show ?thesis by (auto simp: sched_inv_def cap_inv_def)
  qed
  moreover have "pend_inv ?P (seq s)"
  proof (rule pend_inv_subset [OF pend])
    show "dict_ok (?P m)" for m using pend by (simp add: pend_inv_def distinct_delete)
    show "queued ?P \<subseteq> queued (pending s)" by (auto simp: queued_def AList.delete_eq split: if_splits)
  qed
  moreover have "apart_inv ?P ?R" using assms(1) by (auto simp: sched_inv_def apart_inv_def dict_simps)
  moreover have "join_inv env (add_mset (n, a) X) (satisfied s) (done_nodes (records s))"
    using assms(1,2) pend_invD [OF pend entry]
    by (auto simp: sched_inv_def join_inv_def startable_def is_unlocked_def lineage_is_unlocked_def)
  moreover have "budget_inv env (add_mset (n, a) X) (run_counts (snd (reserve_run env n s)))
      (total_runs (snd (reserve_run env n s))) (records s)"
    using assms(1-3) by (intro budget_inv_start) (auto simp: sched_inv_def startable_def)
  ultimately show ?thesis using assms(1) by (simp add: sched_inv_def)
qed

text \<open>What holds of the candidates that are still to be started in a round.\<close>
definition round_inv :: "sched_env \<Rightarrow> candidate list \<Rightarrow> sched \<Rightarrow> bool" where
  "round_inv env cs s \<longleftrightarrow>
     (\<forall>(q, n, a) \<in> set cs. dget (pending s n) (group_id a) \<noteq> None \<longrightarrow> startable env s n a) \<and>
     (\<forall>n. card (running_groups s n) + length (filter (\<lambda>c. fst (snd c) = n) cs)
        \<le> max_concurrency (exec_of env n))"

lemma round_inv_skip:
  assumes "round_inv env (c # cs) s"
  shows "round_inv env cs s"
proof -
  have "card (running_groups s n) + length (filter (\<lambda>c. fst (snd c) = n) cs) \<le> max_concurrency (exec_of env n)" for n
  proof -
    have "card (running_groups s n) + length (filter (\<lambda>c. fst (snd c) = n) (c # cs)) \<le> max_concurrency (exec_of env n)"
      using assms unfolding round_inv_def by blast
    then show ?thesis by (simp split: if_splits)
  qed
  with assms show ?thesis unfolding round_inv_def by simp
qed

lemma startable_start:
  assumes "startable env s m b" and "dget (pending (start_one n a (snd (reserve_run env n s))) m) (group_id b) \<noteq> None"
  shows "startable env (start_one n a (snd (reserve_run env n s))) m b"
  using assms by (auto simp: startable_def is_unlocked_def lineage_is_unlocked_def dict_simps split: if_splits)

lemma round_inv_start:
  assumes "round_inv env ((q, n, a) # cs) s"
  shows "round_inv env cs (start_one n a (snd (reserve_run env n s)))"
proof -
  let ?t = "start_one n a (snd (reserve_run env n s))"
  have "startable env ?t m b" if "(p, m, b) \<in> set cs" "dget (pending ?t m) (group_id b) \<noteq> None" for p m b
  proof (rule startable_start [OF _ that(2)])
    have "dget (pending s m) (group_id b) \<noteq> None" using that(2) by (auto simp: dict_simps split: if_splits)
    with that(1) assms show "startable env s m b" by (auto simp: round_inv_def)
  qed
  moreover have "card (running_groups ?t m) + length (filter (\<lambda>c. fst (snd c) = m) cs)
      \<le> max_concurrency (exec_of env m)" for m
  proof -
    have "card (insert (group_id a) (running_groups s n)) \<le> Suc (card (running_groups s n))"
      by (cases "finite (running_groups s n)") (simp_all add: card_insert_if)
    moreover have "card (running_groups s m) + length (filter (\<lambda>c. fst (snd c) = m) ((q, n, a) # cs))
        \<le> max_concurrency (exec_of env m)"
      using assms by (simp add: round_inv_def)
    ultimately show ?thesis by (cases "m = n") auto
  qed
  ultimately show ?thesis unfolding round_inv_def by blast
qed

lemma inv_reserve_failed:
  "sched_inv env X s \<Longrightarrow> \<not> fst (reserve_run env n s) \<Longrightarrow> sched_inv env X (snd (reserve_run env n s))"
  by (auto simp: sched_inv_def reserve_run_def Let_def split: if_splits)

lemma inv_start_all:
  assumes "sched_ok env s" and "round_inv env cs s"
  shows "sched_ok env (snd (start_all env cs s p))"
  using assms
proof (induction env cs s p rule: start_all.induct)
  case (2 env q n a cs s p)
  show ?case
  proof (cases "dget (pending s n) (group_id a) \<noteq> None")
    case here: True
    show ?thesis
    proof (cases "fst (reserve_run env n s)")
      case True
      have "startable env s n a" "card (running_groups s n) < max_concurrency (exec_of env n)"
        using 2(4) here by (auto simp: round_inv_def dest: spec [of _ n])
      then have "sched_ok env (start_one n a (snd (reserve_run env n s)))"
        using inv_start_one [OF 2(3) _ True] by (simp add: outstanding_start)
      with 2(2) [OF _ True] here round_inv_start [OF 2(4)]
      have "sched_ok env (snd (start_all env cs (start_one n a (snd (reserve_run env n s))) True))" by simp
      then show ?thesis using here True by auto
    next
      case False
      with here 2(3) show ?thesis by (auto simp: inv_reserve_failed)
    qed
  next
    case False
    with 2 round_inv_skip show ?thesis by auto
  qed
qed simp

lemma candidate_startable:
  assumes "sched_ok env s" and "(q, n, a) \<in> set (candidates env s)"
  shows "startable env s n a"
proof -
  have n: "n \<in> set (node_ids (env_ir env))" using assms(2) by (rule candidates_known)
  have "a \<in> set (filter (is_unlocked env s n) (map snd (pending s n)))"
    using assms(2) by (auto simp: candidates_def node_candidates_def slice_to_def Let_def dest: in_set_takeD split: if_splits)
  then obtain g where g: "(g, a) \<in> set (pending s n)" and u: "is_unlocked env s n a" by auto
  have pend: "pend_inv (pending s) (seq s)" using assms(1) by (simp add: sched_inv_def)
  from pend_invD [OF pend, of n g a] g have "group_id a = g" by (simp add: queued_def)
  moreover have "dict_ok (pending s n)" using pend by (simp add: pend_inv_def)
  ultimately show ?thesis using n g u by (simp add: startable_def)
qed

lemma candidates_of_node:
  assumes "distinct (node_ids (env_ir env))"
  shows "length (filter (\<lambda>c. fst (snd c) = n) (candidates env s)) \<le> length (node_candidates env s n)"
proof -
  have other: "filter (\<lambda>c. fst (snd c) = n) (node_candidates env s m) = (if m = n then node_candidates env s n else [])" for m
    by (auto simp: node_candidates_def Let_def filter_empty_conv intro!: filter_True)
  have "distinct ns \<Longrightarrow> length (filter (\<lambda>c. fst (snd c) = n) (concat (map (node_candidates env s) ns)))
      \<le> (if n \<in> set ns then length (node_candidates env s n) else 0)" for ns
    by (induction ns) (auto simp: other)
  from this [OF assms] show ?thesis unfolding candidates_def by (auto split: if_splits)
qed

lemma round_inv_candidates:
  assumes "sched_ok env s" and "env_ok env"
  shows "round_inv env (sort_key f (candidates env s)) s"
proof -
  have "card (running_groups s n) + length (filter (\<lambda>c. fst (snd c) = n) (sort_key f (candidates env s)))
      \<le> max_concurrency (exec_of env n)" for n
  proof -
    have cap: "card (running_groups s n) \<le> max_concurrency (exec_of env n)"
      using assms(1) by (simp add: sched_inv_def cap_inv_def)
    have "length (node_candidates env s n) \<le> max_concurrency (exec_of env n) - card (running_groups s n)"
      using cap by (auto simp: node_candidates_def slice_to_def Let_def)
    with cap candidates_of_node [of env n s] assms(2) show ?thesis
      by (auto simp: filter_sort env_ok_def)
  qed
  moreover have "startable env s n a" if "(q, n, a) \<in> set (candidates env s)" for q n a
    using candidate_startable [OF assms(1) that] .
  ultimately show ?thesis by (auto simp: round_inv_def)
qed

lemma inv_start_pass: "sched_ok env s \<Longrightarrow> env_ok env \<Longrightarrow> sched_ok env (snd (start_pass env s))"
  unfolding start_pass_def by (intro inv_start_all round_inv_candidates)

lemma inv_start_runnable: "sched_ok env s \<Longrightarrow> env_ok env \<Longrightarrow> sched_ok env (start_runnable env s)"
proof (induction env s rule: start_runnable.induct)
  case (1 env s)
  show ?case
  proof (cases "sched_error s = None \<and> fst (start_pass env s)")
    case True
    then have "start_runnable env s = start_runnable env (snd (start_pass env s))"
      by (subst start_runnable.simps) simp
    with 1 True show ?thesis by (simp add: inv_start_pass)
  next
    case False
    then have "start_runnable env s = s \<or> start_runnable env s = snd (start_pass env s)"
      by (subst (1 2) start_runnable.simps) auto
    with 1(2,3) inv_start_pass show ?thesis by metis
  qed
qed

text \<open>After a start without an error, nothing that could be started is left.\<close>

lemma start_all_progress: "fst (start_all env cs s True)"
  by (induction env cs s "True" rule: start_all.induct) auto

lemma start_pass_idle:
  assumes "sched_ok env s" and "\<not> fst (start_pass env s)" and "sched_error (snd (start_pass env s)) = None"
  shows "candidates env s = [] \<and> snd (start_pass env s) = s"
proof (cases "sort_key (\<lambda>(q, n, a). (q, n)) (candidates env s)")
  case Nil
  then have "candidates env s = []" by (metis set_empty set_sort)
  with Nil show ?thesis by (simp add: start_pass_def)
next
  case (Cons c cs)
  obtain q n a where c: "c = (q, n, a)" by (cases c)
  have "set (sort_key (\<lambda>(q, n, a). (q, n)) (candidates env s)) = set (candidates env s)" by simp
  then have "(q, n, a) \<in> set (candidates env s)" using Cons c by auto
  from candidate_startable [OF assms(1) this] have "dget (pending s n) (group_id a) \<noteq> None"
    by (simp add: startable_def)
  then show ?thesis
    using assms(2,3) Cons c start_all_progress reserve_run_error(2) [of env n s]
    by (auto simp: start_pass_def split: if_splits)
qed

lemma start_runnable_quiet:
  "sched_ok env s \<Longrightarrow> env_ok env \<Longrightarrow> sched_error (start_runnable env s) = None \<Longrightarrow>
     candidates env (start_runnable env s) = []"
proof (induction env s rule: start_runnable.induct)
  case (1 env s)
  show ?case
  proof (cases "sched_error s = None \<and> fst (start_pass env s)")
    case True
    then have eq: "start_runnable env s = start_runnable env (snd (start_pass env s))"
      by (subst start_runnable.simps) simp
    with 1 True show ?thesis by (simp add: inv_start_pass)
  next
    case False
    with 1(4) have "start_runnable env s = snd (start_pass env s)" "\<not> fst (start_pass env s)"
      by (auto simp: start_runnable.simps [of env s] split: if_splits)
    with start_pass_idle [OF 1(2)] 1(4) show ?thesis by simp
  qed
qed

end
