(* ===== verification/Ir_Validation.thy ===== *)
theory Ir_Validation
  imports Ir Structured_Output Runtime
begin

text \<open>
  \<^verbatim>\<open>rattish/ir_validation.py\<close>: the invariants of a workflow document that its JSON Schema
  cannot express. Every \<^verbatim>\<open>_invalid\<close> call is a constructor of \<open>ir_error\<close>; the checks run in
  the order of the code, so the first violated one is reported.
\<close>

datatype ir_error =
    UnsupportedIrVersion json
  | UnsupportedLanguageVersion json
  | DuplicateNodeIds "string list"
  | WorkflowIdMismatch
  | ContractForOtherType string
  | NoContractDependency string
  | SchemaRejected string structured_error
  | UnknownNodes string "string list"
  | InitialActivationWrong string
  | StartWithNeeds string
  | TerminalWithRoutes string
  | FinishFailAllowsFailure string
  | DuplicateRoute string string
  | UnreachableFailureRoute string
  | SeveralOtherwise string
  | ContradictoryRoutes string "string list"
  | DuplicateBindings string
  | IncompatibleBinding string
  | ReferenceSchemaInconsistent string
  | OptionalWithoutDefault string
  | ExpressionNotBoolean string
  | ExpressionUsesStatus string
  | LiteralViolatesSchema string
  | DefaultViolatesSchema string
  | NoProviderDependency string
  | NoInterfaceDependency string
  | NoWorkflowDependency string
  | WorkflowOutputMismatch string
  | UndeclaredChildInput string
  | InvalidBreakControl string
  | MissingBreakControl string
  | IncomingSourcesMismatch string
  | SourceMapMismatch
  | DuplicateInputNames
  | InputDefaultViolatesSchema string
  | DuplicateOutputNames
  | OutputNotPublic string
  | OutputSourceViolatesSchema string
  | InvalidSecretReference string
  | InvalidTriggerReference string
  | InvalidInputReference string
  | UnknownNodeReference string "string option"

section \<open>Versions\<close>

definition supported_ir_version :: int where
  "supported_ir_version = 1"

definition supported_rattish_version :: int where
  "supported_rattish_version = 1"

text \<open>An absent version is \<open>JNull\<close>.\<close>
definition validate_ir_versions :: "ir \<Rightarrow> ir_error + unit" where
  "validate_ir_versions d =
     andThen (need (ir_version d = JNull \<or> py_eq (ir_version d) (JInt supported_ir_version))
                (UnsupportedIrVersion (ir_version d))) (\<lambda>_.
       need (rattish_version d = JNull \<or> py_eq (rattish_version d) (JInt supported_rattish_version))
         (UnsupportedLanguageVersion (rattish_version d)))"

section \<open>References and predicates\<close>

definition validate_reference :: "string list \<Rightarrow> string \<Rightarrow> reference \<Rightarrow> ir_error + unit" where
  "validate_reference known owner r =
     (let named = (case symbol r of None \<Rightarrow> False | Some s \<Rightarrow> s \<noteq> [])
      in case root r of
           SecretRoot \<Rightarrow> need (named \<and> channel r = None \<and> path r = []) (InvalidSecretReference owner)
         | TriggerRoot \<Rightarrow> need (symbol r = Some ''events'' \<and> channel r = None) (InvalidTriggerReference owner)
         | InputRoot \<Rightarrow> need (named \<and> channel r = None) (InvalidInputReference owner)
         | NodeRoot \<Rightarrow>
             need (case symbol r of None \<Rightarrow> False | Some s \<Rightarrow> s \<in> set known)
               (UnknownNodeReference owner (symbol r)))"

fun validate_operand :: "string list \<Rightarrow> string \<Rightarrow> operand \<Rightarrow> ir_error + unit" where
  "validate_operand known owner (OperandRef r) = validate_reference known owner r"
| "validate_operand known owner (OperandLit _ _) = Inr ()"

fun validate_predicate_references :: "string list \<Rightarrow> string \<Rightarrow> predicate \<Rightarrow> ir_error + unit" where
  "validate_predicate_references known owner (Logical _ l r) =
     andThen (validate_predicate_references known owner l) (\<lambda>_. validate_predicate_references known owner r)"
| "validate_predicate_references known owner (NotP p) = validate_predicate_references known owner p"
| "validate_predicate_references known owner (Exists r) = validate_reference known owner r"
| "validate_predicate_references known owner (NullTest _ r) = validate_reference known owner r"
| "validate_predicate_references known owner (RefPredicate r) = validate_reference known owner r"
| "validate_predicate_references known owner (Comparison _ l r) =
     andThen (validate_operand known owner l) (\<lambda>_. validate_operand known owner r)"
| "validate_predicate_references known owner (Status _) = Inr ()"

fun predicate_matches_failure :: "predicate \<Rightarrow> bool"
  and predicate_matches_success :: "predicate \<Rightarrow> bool" where
  "predicate_matches_failure (Status v) = (v = Failed)"
| "predicate_matches_failure (Logical _ l r) = (predicate_matches_failure l \<or> predicate_matches_failure r)"
| "predicate_matches_failure (NotP p) = predicate_matches_success p"
| "predicate_matches_failure _ = False"
| "predicate_matches_success (Status v) = (v = Succeeded)"
| "predicate_matches_success (Logical _ l r) = (predicate_matches_success l \<or> predicate_matches_success r)"
| "predicate_matches_success (NotP p) = predicate_matches_failure p"
| "predicate_matches_success _ = False"

fun predicate_contains_status :: "predicate \<Rightarrow> bool" where
  "predicate_contains_status (Status _) = True"
| "predicate_contains_status (Logical _ l r) = (predicate_contains_status l \<or> predicate_contains_status r)"
| "predicate_contains_status (NotP p) = predicate_contains_status p"
| "predicate_contains_status _ = False"

text \<open>
  \<^verbatim>\<open>_predicate_key\<close> prints the mode and the predicate with sorted members. The printer is
  injective, so two keys are equal exactly when the modes carry the same predicate up to
  the member order of the JSON values in it.
\<close>
definition reference_key :: "reference \<Rightarrow> reference" where
  "reference_key r = r\<lparr>ref_schema := sort_json (ref_schema r)\<rparr>"

fun operand_key :: "operand \<Rightarrow> operand" where
  "operand_key (OperandRef r) = OperandRef (reference_key r)"
| "operand_key (OperandLit v s) = OperandLit (sort_json v) (sort_json s)"

fun predicate_normal :: "predicate \<Rightarrow> predicate" where
  "predicate_normal (Logical op l r) = Logical op (predicate_normal l) (predicate_normal r)"
| "predicate_normal (NotP p) = NotP (predicate_normal p)"
| "predicate_normal (Exists r) = Exists (reference_key r)"
| "predicate_normal (NullTest op r) = NullTest op (reference_key r)"
| "predicate_normal (RefPredicate r) = RefPredicate (reference_key r)"
| "predicate_normal (Comparison op l r) = Comparison op (operand_key l) (operand_key r)"
| "predicate_normal (Status v) = Status v"

fun predicate_key :: "route_mode \<Rightarrow> route_mode" where
  "predicate_key (Conditional p) = Conditional (predicate_normal p)"
| "predicate_key m = m"

section \<open>Nodes\<close>

definition require_known_nodes :: "string list \<Rightarrow> string \<Rightarrow> string list \<Rightarrow> ir_error + unit" where
  "require_known_nodes known owner values =
     (let unknown = sorted_list_of_set (set values - set known)
      in need (unknown = []) (UnknownNodes owner unknown))"

definition check_schema_of :: "schema_lib \<Rightarrow> string \<Rightarrow> json \<Rightarrow> ir_error + unit" where
  "check_schema_of lib owner s =
     (case validate_schema lib s of Inl e \<Rightarrow> Inl (SchemaRejected owner e) | Inr _ \<Rightarrow> Inr ())"

definition has_dependency ::
  "ir \<Rightarrow> dependency_kind \<Rightarrow> string \<Rightarrow> nat \<Rightarrow> string \<Rightarrow> bool" where
  "has_dependency d k i v f \<longleftrightarrow>
     list_ex (\<lambda>x. dep_kind x = k \<and> dep_id x = i \<and> py_eq (dep_version x) (JNat v) \<and> dep_fingerprint x = f)
       (dependencies d)"

text \<open>The execution settings of a node.\<close>
definition check_execution :: "ir \<Rightarrow> schema_lib \<Rightarrow> node \<Rightarrow> ir_error + unit" where
  "check_execution d lib n =
     (let c = contract n; x = execution n; needed = needs (readiness n); i = node_id n
      in andThen (need (contract_node_type c = node_type n) (ContractForOtherType i)) (\<lambda>_.
         andThen (need (has_dependency d NodeContractDep (contract_node_type c) (contract_version c)
                   (contract_fingerprint c)) (NoContractDependency i)) (\<lambda>_.
         andThen (check_schema_of lib i (node_output_schema n)) (\<lambda>_.
         andThen (require_known_nodes (node_ids d) i needed) (\<lambda>_.
         andThen (need (initial_activation x = (needed = [])) (InitialActivationWrong i)) (\<lambda>_.
         andThen (need (\<not> (start_declared x \<and> needed \<noteq> [])) (StartWithNeeds i)) (\<lambda>_.
         andThen (need (\<not> (finish x \<noteq> None \<and> routes n \<noteq> [])) (TerminalWithRoutes i)) (\<lambda>_.
           need (\<not> (finish x = Some FinishFail \<and> allow_fail x)) (FinishFailAllowsFailure i)))))))))"

text \<open>The loop over the routes, with the sets it builds.\<close>
record route_sets =
  route_keys :: "(string \<times> route_mode) list"
  otherwise_targets :: "string list"
  unconditional_targets :: "string list"

definition check_route :: "ir \<Rightarrow> node \<Rightarrow> route_sets \<Rightarrow> route \<Rightarrow> ir_error + route_sets" where
  "check_route d n st r =
     (let i = node_id n; key = (target r, predicate_key (mode r))
      in andThen (require_known_nodes (node_ids d) i [target r]) (\<lambda>_.
         andThen (need (key \<notin> set (route_keys st)) (DuplicateRoute i (target r))) (\<lambda>_.
         (let st' = st\<lparr>route_keys := key # route_keys st,
                otherwise_targets := (if mode r = Otherwise then [target r] else []) @ otherwise_targets st,
                unconditional_targets :=
                  (if mode r = Unconditional then [target r] else []) @ unconditional_targets st\<rparr>
          in case mode r of
               Conditional p \<Rightarrow>
                 andThen (validate_predicate_references (node_ids d) i p) (\<lambda>_.
                 andThen (need (allow_fail (execution n) \<or> \<not> predicate_matches_failure p)
                           (UnreachableFailureRoute i)) (\<lambda>_. Inr st'))
             | _ \<Rightarrow> Inr st'))))"

definition no_routes :: route_sets where
  "no_routes = \<lparr>route_keys = [], otherwise_targets = [], unconditional_targets = []\<rparr>"

definition check_routes :: "ir \<Rightarrow> node \<Rightarrow> ir_error + unit" where
  "check_routes d n =
     andThen (foldR (check_route d n) no_routes (routes n)) (\<lambda>st.
     let contradictory = sorted_list_of_set (set (otherwise_targets st) \<inter> set (unconditional_targets st))
     in andThen (need (card (set (otherwise_targets st)) \<le> 1) (SeveralOtherwise (node_id n))) (\<lambda>_.
          need (contradictory = []) (ContradictoryRoutes (node_id n) contradictory)))"

definition check_binding :: "ir \<Rightarrow> schema_lib \<Rightarrow> string \<Rightarrow> binding \<Rightarrow> ir_error + unit" where
  "check_binding d lib i b =
     (let src = source_schema b; dst = destination_schema b
      in andThen (check_schema_of lib i src) (\<lambda>_.
         andThen (check_schema_of lib i dst) (\<lambda>_.
         andThen (need (schema_accepts_schema (instance_matches_schema lib) dst src) (IncompatibleBinding i)) (\<lambda>_.
         andThen
           (case source b of
              RefSource r \<Rightarrow>
                andThen (validate_reference (node_ids d) i r) (\<lambda>_.
                andThen (need (py_eq (ref_schema r) src) (ReferenceSchemaInconsistent i)) (\<lambda>_.
                  need (\<not> (optional r \<and> default_value b = None)) (OptionalWithoutDefault i)))
            | ExprSource p \<Rightarrow>
                andThen (need (jget src ''type'' = Some (JStr ''boolean'')) (ExpressionNotBoolean i)) (\<lambda>_.
                andThen (need (\<not> predicate_contains_status p) (ExpressionUsesStatus i)) (\<lambda>_.
                  validate_predicate_references (node_ids d) i p))
            | LitSource v \<Rightarrow> need (instance_matches_schema lib src v) (LiteralViolatesSchema i)) (\<lambda>_.
           need (case default_value b of None \<Rightarrow> True | Some v \<Rightarrow> instance_matches_schema lib dst v)
             (DefaultViolatesSchema i))))))"

definition check_bindings :: "ir \<Rightarrow> schema_lib \<Rightarrow> node \<Rightarrow> ir_error + unit" where
  "check_bindings d lib n =
     andThen (need (distinct (map binding_name (bindings n))) (DuplicateBindings (node_id n))) (\<lambda>_.
       each (check_binding d lib (node_id n)) (bindings n))"

definition delivers_child_input :: "binding \<Rightarrow> bool" where
  "delivers_child_input b = (case delivery b of DeliverWorkflowInput _ \<Rightarrow> True | _ \<Rightarrow> False)"

definition check_resolutions :: "ir \<Rightarrow> node \<Rightarrow> ir_error + unit" where
  "check_resolutions d n =
     (let i = node_id n
      in andThen
           (case provider n of
              None \<Rightarrow> Inr ()
            | Some p \<Rightarrow>
                need (has_dependency d ProviderContractDep (provider_id p) (provider_version p)
                       (provider_fingerprint p)) (NoProviderDependency i)) (\<lambda>_.
         case child_workflow n of
           None \<Rightarrow> Inr ()
         | Some w \<Rightarrow>
             andThen (need (has_dependency d WorkflowInterfaceDep (child_workflow_id w) (interface_version w)
                       (interface_fingerprint w)) (NoInterfaceDependency i)) (\<lambda>_.
             andThen (need (list_ex (\<lambda>x. dep_kind x = WorkflowDep \<and> dep_id x = child_workflow_id w \<and>
                         dep_fingerprint x = child_fingerprint w) (dependencies d)) (NoWorkflowDependency i)) (\<lambda>_.
             andThen (need (py_eq (node_output_schema n) (output_schema w)) (WorkflowOutputMismatch i)) (\<lambda>_.
               each (\<lambda>b. need (\<not> delivers_child_input b \<or>
                           jget (jget_or (JObj []) (input_schema w) ''properties'') (binding_name b) \<noteq> None)
                      (UndeclaredChildInput i)) (bindings n))))))"

definition check_control :: "ir \<Rightarrow> node \<Rightarrow> ir_error + unit" where
  "check_control d n =
     (case break_of n of
        Some l \<Rightarrow>
          andThen (require_known_nodes (node_ids d) (node_id n) [l]) (\<lambda>_.
            need (node_type n = ''break'' \<and> map_option node_type (node_of d l) = Some ''loop'')
              (InvalidBreakControl (node_id n)))
      | None \<Rightarrow> need (node_type n \<noteq> ''break'') (MissingBreakControl (node_id n)))"

definition check_node :: "ir \<Rightarrow> schema_lib \<Rightarrow> node \<Rightarrow> ir_error + unit" where
  "check_node d lib n =
     andThen (check_execution d lib n) (\<lambda>_.
     andThen (check_routes d n) (\<lambda>_.
     andThen (check_bindings d lib n) (\<lambda>_.
     andThen (check_resolutions d n) (\<lambda>_. check_control d n))))"

section \<open>The whole document\<close>

text \<open>\<^verbatim>\<open>actual_incoming[n]\<close> once all routes have been visited.\<close>
definition actual_incoming :: "ir \<Rightarrow> string \<Rightarrow> string list" where
  "actual_incoming d n =
     map node_id (filter (\<lambda>m. list_ex (\<lambda>r. target r = n) (routes m)) (nodes d))"

definition duplicate_ids :: "ir \<Rightarrow> string list" where
  "duplicate_ids d =
     sorted_list_of_set (set (filter (\<lambda>i. 1 < count_list (node_ids d) i) (node_ids d)))"

definition check_inputs :: "schema_lib \<Rightarrow> workflow \<Rightarrow> ir_error + unit" where
  "check_inputs lib w =
     andThen (need (distinct (map input_name (inputs w))) DuplicateInputNames) (\<lambda>_.
       each (\<lambda>i.
         andThen (check_schema_of lib (input_name i) (input_decl_schema i)) (\<lambda>_.
           need (case input_default i of None \<Rightarrow> True
                 | Some v \<Rightarrow> instance_matches_schema lib (input_decl_schema i) v)
             (InputDefaultViolatesSchema (input_name i)))) (inputs w))"

definition check_output :: "ir \<Rightarrow> schema_lib \<Rightarrow> workflow_output \<Rightarrow> ir_error + unit" where
  "check_output d lib out =
     (let n = output_name out; src = output_source out
      in andThen (check_schema_of lib n (output_decl_schema out)) (\<lambda>_.
         andThen (check_schema_of lib n (ref_schema src)) (\<lambda>_.
         andThen (validate_reference (node_ids d) n src) (\<lambda>_.
         andThen (need (root src \<noteq> SecretRoot \<and> root src \<noteq> TriggerRoot) (OutputNotPublic n)) (\<lambda>_.
           need (schema_accepts_schema (instance_matches_schema lib) (output_decl_schema out) (ref_schema src))
             (OutputSourceViolatesSchema n))))))"

definition validate_ir_invariants :: "schema_lib \<Rightarrow> ir \<Rightarrow> ir_error + unit" where
  "validate_ir_invariants lib d =
     andThen (validate_ir_versions d) (\<lambda>_.
     andThen (need (duplicate_ids d = []) (DuplicateNodeIds (duplicate_ids d))) (\<lambda>_.
     andThen (need (source_workflow_id d = workflow_id (workflow d)) WorkflowIdMismatch) (\<lambda>_.
     andThen (each (check_node d lib) (nodes d)) (\<lambda>_.
     andThen (each (\<lambda>n. need (set (incoming_route_sources (readiness n)) = set (actual_incoming d (node_id n)))
                         (IncomingSourcesMismatch (node_id n))) (nodes d)) (\<lambda>_.
     andThen (need (set (source_map_nodes d) = set (node_ids d)) SourceMapMismatch) (\<lambda>_.
     andThen (check_inputs lib (workflow d)) (\<lambda>_.
     andThen (need (distinct (map output_name (outputs (workflow d)))) DuplicateOutputNames) (\<lambda>_.
       each (check_output d lib) (outputs (workflow d))))))))))"

section \<open>What validation guarantees\<close>

lemma sorted_set_empty [simp]: "finite A \<Longrightarrow> sorted_list_of_set A = [] \<longleftrightarrow> A = {}"
  by (metis set_empty set_sorted_list_of_set sorted_list_of_set_empty)

lemma require_known_iff [result_simps]:
  "require_known_nodes known owner vs = Inr u \<longleftrightarrow> set vs \<subseteq> set known"
  by (simp add: require_known_nodes_def Let_def)

lemma distinct_count: "distinct xs \<longleftrightarrow> (\<forall>x \<in> set xs. count_list xs x \<le> 1)"
proof (induction xs)
  case (Cons y ys)
  have "count_list ys y = 0 \<longleftrightarrow> y \<notin> set ys" by (simp add: count_list_0_iff)
  with Cons show ?case by (auto simp: not_less_eq_eq)
qed simp

lemma duplicate_ids_iff: "duplicate_ids d = [] \<longleftrightarrow> distinct (node_ids d)"
  unfolding duplicate_ids_def distinct_count by (auto simp: not_less filter_empty_conv)

lemma validated_node:
  assumes "validate_ir_invariants lib d = Inr ()"
  shows "distinct (node_ids d)"
    and "n \<in> set (nodes d) \<Longrightarrow> check_node d lib n = Inr ()"
    and "n \<in> set (nodes d) \<Longrightarrow>
      set (incoming_route_sources (readiness n)) = set (actual_incoming d (node_id n))"
  using assms by (auto simp: validate_ir_invariants_def andThen_eq_Inr duplicate_ids_iff)

lemma validated_execution:
  assumes "check_node d lib n = Inr ()"
  shows "check_execution d lib n = Inr ()" and "check_routes d n = Inr ()"
    and "check_bindings d lib n = Inr ()" and "check_control d n = Inr ()"
  using assms by (auto simp: check_node_def andThen_eq_Inr)

abbreviation route_key :: "route \<Rightarrow> string \<times> route_mode" where
  "route_key r \<equiv> (target r, predicate_key (mode r))"

lemma check_route_step:
  assumes "check_route d n st r = Inr st'"
  shows "target r \<in> set (node_ids d) \<and> route_key r \<notin> set (route_keys st) \<and>
    route_keys st' = route_key r # route_keys st \<and>
    set (otherwise_targets st') = (if mode r = Otherwise then {target r} else {}) \<union> set (otherwise_targets st) \<and>
    set (unconditional_targets st') =
      (if mode r = Unconditional then {target r} else {}) \<union> set (unconditional_targets st) \<and>
    (\<forall>p. mode r = Conditional p \<longrightarrow> allow_fail (execution n) \<or> \<not> predicate_matches_failure p)"
  using assms by (auto simp: check_route_def Let_def andThen_eq_Inr require_known_iff split: route_mode.splits)

text \<open>What the route loop has established of the routes it visited.\<close>
lemma check_routes_fold:
  assumes "foldR (check_route d n) st rs = Inr st'" and "distinct (route_keys st)"
  shows "set (map target rs) \<subseteq> set (node_ids d) \<and>
    route_keys st' = rev (map route_key rs) @ route_keys st \<and> distinct (route_keys st') \<and>
    set (otherwise_targets st') = set (otherwise_targets st) \<union> target ` {r \<in> set rs. mode r = Otherwise} \<and>
    set (unconditional_targets st') =
      set (unconditional_targets st) \<union> target ` {r \<in> set rs. mode r = Unconditional} \<and>
    (\<forall>r p. r \<in> set rs \<and> mode r = Conditional p \<longrightarrow>
      allow_fail (execution n) \<or> \<not> predicate_matches_failure p)"
  using assms
proof (induction rs arbitrary: st)
  case (Cons r rs)
  then obtain st1 where step: "check_route d n st r = Inr st1"
    and rest: "foldR (check_route d n) st1 rs = Inr st'" by (auto simp: andThen_eq_Inr)
  note one = check_route_step [OF step]
  with Cons.prems(2) have "distinct (route_keys st1)" by simp
  note facts = Cons.IH [OF rest this]
  show ?case
  proof (intro conjI)
    show "distinct (route_keys st')" using facts by blast
  qed (use facts one in \<open>auto split: if_splits\<close>)
qed auto


text \<open>
  The routes of a validated node are pairwise different, at most one target is
  reached by \<^verbatim>\<open>otherwise\<close>, that target has no unconditional route, and a terminal node has
  no routes.
\<close>
theorem validated_routes:
  assumes "validate_ir_invariants lib d = Inr ()" and "n \<in> set (nodes d)"
  shows "distinct (map route_key (routes n)) \<and>
    (\<forall>r \<in> set (routes n). \<forall>q \<in> set (routes n).
       mode r = Otherwise \<and> mode q = Otherwise \<longrightarrow> r = q \<or> target r = target q) \<and>
    (\<forall>r \<in> set (routes n). \<forall>q \<in> set (routes n).
       mode r = Otherwise \<and> mode q = Unconditional \<longrightarrow> target r \<noteq> target q) \<and>
    (finish (execution n) \<noteq> None \<longrightarrow> routes n = [])"
proof -
  note checks = validated_execution [OF validated_node(2) [OF assms]]
  from checks(2) obtain st where fold: "foldR (check_route d n) no_routes (routes n) = Inr st"
    and one: "card (set (otherwise_targets st)) \<le> 1"
    and apart: "set (otherwise_targets st) \<inter> set (unconditional_targets st) = {}"
    by (auto simp: check_routes_def andThen_eq_Inr Let_def)
  note facts = check_routes_fold [OF fold]
  have "distinct (map route_key (routes n))"
    using facts by (auto simp: no_routes_def)
  moreover have "target r = target q"
    if "r \<in> set (routes n)" "q \<in> set (routes n)" "mode r = Otherwise" "mode q = Otherwise" for r q
  proof -
    have "target r \<in> set (otherwise_targets st)" "target q \<in> set (otherwise_targets st)"
      using facts that by (auto simp: no_routes_def)
    with one show ?thesis by (metis card_le_Suc0_iff_eq finite_set One_nat_def)
  qed
  moreover have "target r \<noteq> target q"
    if "r \<in> set (routes n)" "q \<in> set (routes n)" "mode r = Otherwise" "mode q = Unconditional" for r q
    using facts apart that by (auto simp: no_routes_def)
  moreover have "finish (execution n) \<noteq> None \<longrightarrow> routes n = []"
    using checks(1) by (auto simp: check_execution_def Let_def andThen_eq_Inr)
  ultimately show ?thesis by blast
qed

lemma matches_failure_monotone:
  "\<not> predicate_matches_failure p \<Longrightarrow> evaluate_predicate lib Failure sc p \<Longrightarrow> evaluate_predicate lib Success sc p"
  "\<not> predicate_matches_success p \<Longrightarrow> evaluate_predicate lib Success sc p \<Longrightarrow> evaluate_predicate lib Failure sc p"
proof (induction p)
  case (Status v)
  { case 1 then show ?case by (cases v) auto }
  { case 2 then show ?case by (cases v) auto }
next
  case (Logical op l r)
  { case 1 with Logical show ?case by (cases op) (auto simp: Let_def split: if_splits) }
  { case 2 with Logical show ?case by (cases op) (auto simp: Let_def split: if_splits) }
qed auto

text \<open>
  The syntactic test for failure routes is sound: a conditional route accepted on a
  node that does not allow failure never holds for a failed result unless it also holds
  for a successful one, so no branch of the workflow waits for a failure that ends the run.
\<close>
theorem validated_routes_need_no_failure:
  assumes "validate_ir_invariants lib d = Inr ()" and "n \<in> set (nodes d)"
    and "\<not> allow_fail (execution n)" and "r \<in> set (routes n)" and "mode r = Conditional p"
    and "evaluate_predicate plib Failure sc p"
  shows "evaluate_predicate plib Success sc p"
proof -
  note checks = validated_execution [OF validated_node(2) [OF assms(1,2)]]
  from checks(2) obtain st where "foldR (check_route d n) no_routes (routes n) = Inr st"
    by (auto simp: check_routes_def andThen_eq_Inr)
  from check_routes_fold [OF this] assms(3-5) have "\<not> predicate_matches_failure p"
    by (auto simp: no_routes_def)
  then show ?thesis using assms(6) by (rule matches_failure_monotone)
qed

text \<open>
  The outputs a validated workflow publishes are read from inputs or nodes of the
  document, never from a secret or the triggering events.
\<close>
theorem validated_outputs_public:
  assumes "validate_ir_invariants lib d = Inr ()" and "out \<in> set (outputs (workflow d))"
  shows "root (output_source out) = InputRoot \<or>
    root (output_source out) = NodeRoot \<and>
      (\<exists>s x. symbol (output_source out) = Some s \<and> node_of d s = Some x)"
proof -
  have check: "check_output d lib out = Inr ()"
    using assms by (auto simp: validate_ir_invariants_def andThen_eq_Inr)
  then show ?thesis
    using node_of_None [of d]
    by (auto simp: check_output_def Let_def andThen_eq_Inr validate_reference_def
        split: ref_root.splits option.splits)
qed

section \<open>A validated document\<close>

definition plain_schema_lib :: schema_lib where
  "plain_schema_lib = \<lparr>check_schema = (\<lambda>s. None), is_valid = (\<lambda>s v. Some True),
     pattern_search = (\<lambda>p s. Some (str_in p s)), str_of = text_of\<rparr>"

definition no_input_x :: predicate where
  "no_input_x = NotP (Exists \<lparr>root = InputRoot, symbol = Some ''x'', channel = None, path = [],
     optional = False, ref_schema = JObj []\<rparr>)"

definition no_data :: scope where
  "no_data = \<lparr>workflow_inputs = [], trigger_events = [], node_outputs = [], node_statuses = [],
     node_errors = []\<rparr>"

text \<open>Node \<^verbatim>\<open>a\<close> routes to \<^verbatim>\<open>b\<close> when there is no input \<^verbatim>\<open>x\<close>; \<^verbatim>\<open>b\<close> needs \<^verbatim>\<open>a\<close> and ends the workflow.\<close>
definition two_nodes :: "node list" where
  "two_nodes =
     [(plain_node ''a'' ''t'')\<lparr>execution := plain_execution\<lparr>initial_activation := True\<rparr>,
        routes := [\<lparr>target = ''b'', mode = Conditional no_input_x, eligible_outcomes = [Success]\<rparr>]\<rparr>,
      (plain_node ''b'' ''t'')\<lparr>execution := plain_execution\<lparr>finish := Some FinishPass\<rparr>,
        readiness := \<lparr>needs = [''a''], incoming_route_sources = [''a'']\<rparr>\<rparr>]"

definition two_node_ir :: ir where
  "two_node_ir = (plain_ir two_nodes)
     \<lparr>ir_version := JInt 1, rattish_version := JInt 1,
      dependencies := [\<lparr>dep_kind = NodeContractDep, dep_id = ''t'', dep_version = JInt 1, dep_fingerprint = []\<rparr>],
      workflow := (workflow (plain_ir []))\<lparr>outputs :=
        [\<lparr>output_name = ''o'', output_source = \<lparr>root = NodeRoot, symbol = Some ''b'', channel = Some OutputChannel,
           path = [], optional = False, ref_schema = JObj []\<rparr>, output_decl_schema = JObj []\<rparr>]\<rparr>,
      source_map_nodes := [''a'', ''b'']\<rparr>"

lemma check_schema_empty: "check_schema_of plain_schema_lib owner (JObj []) = Inr ()"
  by (simp add: check_schema_of_def validate_schema_def plain_schema_lib_def schema_references_def
      own_references_def pushed_def)

lemma two_node_ir_valid: "validate_ir_invariants plain_schema_lib two_node_ir = Inr ()"
proof -
  have "check_node two_node_ir plain_schema_lib n = Inr ()" if "n \<in> set two_nodes" for n
    using that
    by (auto simp: two_nodes_def two_node_ir_def plain_simps check_node_def check_execution_def
        check_routes_def check_route_def check_bindings_def check_resolutions_def check_control_def
        check_schema_empty require_known_iff no_routes_def no_input_x_def validate_reference_def has_dependency_def andThen_eq_Inr Let_def)
  moreover have "check_output two_node_ir plain_schema_lib out = Inr ()"
    if "out \<in> set (outputs (workflow two_node_ir))" for out
    using that
    by (auto simp: two_node_ir_def two_nodes_def plain_simps check_output_def check_schema_empty andThen_eq_Inr Let_def
        validate_reference_def schema_accepts_schema.simps has_constraints_def)
  moreover have "distinct (node_ids two_node_ir)"
    by (simp add: two_node_ir_def plain_simps two_nodes_def)
  ultimately show ?thesis
    by (auto simp: validate_ir_invariants_def validate_ir_versions_def andThen_eq_Inr duplicate_ids_iff
        two_node_ir_def plain_simps two_nodes_def actual_incoming_def check_inputs_def
        supported_ir_version_def supported_rattish_version_def)
qed


theorem validated_routes_witness:
  "distinct (map route_key (routes (hd two_nodes)))"
proof -
  have "hd two_nodes \<in> set (nodes two_node_ir)" by (simp add: two_node_ir_def plain_simps two_nodes_def)
  from validated_routes [OF two_node_ir_valid this] show ?thesis by blast
qed

theorem validated_routes_need_no_failure_witness:
  "evaluate_predicate token_lib Success no_data no_input_x"
proof (rule validated_routes_need_no_failure [OF two_node_ir_valid, of "hd two_nodes" "hd (routes (hd two_nodes))"])
  show "evaluate_predicate token_lib Failure no_data no_input_x"
    by (simp add: no_input_x_def no_data_def reference_value_def)
qed (simp_all add: two_node_ir_def plain_simps two_nodes_def)

theorem validated_outputs_public_witness:
  "root (output_source (hd (outputs (workflow two_node_ir)))) \<noteq> SecretRoot"
proof -
  have "hd (outputs (workflow two_node_ir)) \<in> set (outputs (workflow two_node_ir))" by (simp add: two_node_ir_def)
  from validated_outputs_public [OF two_node_ir_valid this] show ?thesis by auto
qed

end
