(* ===== verification/Scheduler_Run.thy ===== *)
theory Scheduler_Run
  imports Scheduler_Invariants Ir_Validation
begin

text \<open>
  Whole runs of the scheduler: every interleaving of the main loop with the running
  activations keeps the invariant, never waits in vain, and respects the limits on runs
  and concurrency; what a finished run reports; and \<^verbatim>\<open>execute_workflow\<close>.
\<close>

section \<open>The steps of a run\<close>

lemma outstanding_same_runs: "same_runs s t \<Longrightarrow> outstanding_of t = outstanding_of s"
  by (simp add: same_runs_def outstanding_of_def)

lemma outstanding_record: "outstanding_of (record_completion c s) = outstanding_of s"
  by (simp add: outstanding_of_def record_completion_def Let_def)

lemma process_ok:
  assumes "process_completion env c s = Inr s'" and "sched_inv env (add_mset (comp_item c) (outstanding_of s)) s"
  shows "sched_ok env s'"
proof -
  note inv_process [OF assms]
  moreover from this(2) have "outstanding_of s' = outstanding_of s"
    by (simp add: outstanding_same_runs outstanding_record)
  ultimately show ?thesis by simp
qed

lemma replay_next_ok:
  assumes "replay_next env s = Inr s'" and "sched_ok env s"
  shows "sched_ok env s'"
proof (cases "replay_ready s")
  case Nil
  with assms show ?thesis by (simp add: replay_next_def)
next
  case (Cons r rs)
  let ?c = "replay_completion (replay_source s) r" and ?s = "s\<lparr>replay_ready := rs, reused := reused s + 1\<rparr>"
  have "outstanding_of s = add_mset (comp_item ?c) (outstanding_of ?s)"
    using Cons by (simp add: outstanding_of_def replay_completion_def Let_def)
  with assms(2) have "sched_inv env (add_mset (comp_item ?c) (outstanding_of ?s)) ?s"
    by (simp add: sched_inv_def)
  with assms(1) Cons show ?thesis by (auto simp: replay_next_def intro: process_ok)
qed

lemma finish_replay_ok: "sched_ok env s \<Longrightarrow> sched_ok env (finish_replay s)"
proof -
  have "outstanding_of (finish_replay s) = outstanding_of s"
    by (simp add: outstanding_of_def finish_replay_def)
  then show "sched_ok env s \<Longrightarrow> ?thesis" by (simp add: sched_inv_def finish_replay_def)
qed

lemma advance_ok:
  assumes "advance env s = Inr (p, s')" and "sched_ok env s" and "env_ok env"
  shows "sched_ok env s'"
  using assms
  by (auto simp: advance_def Let_def andThen_eq_Inr split: if_splits
      intro: inv_start_runnable finish_replay_ok replay_next_ok)

lemma receive_ok:
  assumes "receive_completion env s = Inr (p, s')" and "sched_ok env s" and "env_ok env"
  shows "sched_ok env s'"
proof (cases "stream s")
  case Nil
  with assms show ?thesis by (simp add: receive_completion_def)
next
  case (Cons c cs)
  have "outstanding_of s = add_mset (comp_item c) (outstanding_of (s\<lparr>stream := cs\<rparr>))"
    using Cons by (simp add: outstanding_of_def)
  with assms(2) have "sched_inv env (add_mset (comp_item c) (outstanding_of (s\<lparr>stream := cs\<rparr>))) (s\<lparr>stream := cs\<rparr>)"
    by (simp add: sched_inv_def)
  then have "sched_ok env t" if "process_completion env c (s\<lparr>stream := cs\<rparr>) = Inr t" for t
    using process_ok that by blast
  with assms(1,3) Cons show ?thesis
    by (auto simp: receive_completion_def andThen_eq_Inr split: if_splits intro: inv_start_runnable)
qed

lemma mset_without: "i < length xs \<Longrightarrow> mset xs = add_mset (xs ! i) (mset (take i xs @ drop (Suc i) xs))"
  by (metis id_take_nth_drop mset_append mset.simps(2) union_mset_add_mset_right)

lemma outstanding_complete:
  assumes "i < length (in_flight s)"
  shows "outstanding_of (s\<lparr>in_flight := take i (in_flight s) @ drop (Suc i) (in_flight s),
      stream := stream s @ [task_completion (in_flight s ! i) started finished duration r]\<rparr>) = outstanding_of s"
  using mset_without [OF assms] by (simp add: outstanding_of_def task_completion_def)

lemma outstanding_update:
  assumes "i < length (in_flight s)" and "task_node t = task_node (in_flight s ! i)"
    and "task_activation t = task_activation (in_flight s ! i)"
  shows "outstanding_of (s\<lparr>in_flight := (in_flight s)[i := t], events := es\<rparr>) = outstanding_of s"
proof -
  have "map (\<lambda>t. (task_node t, task_activation t)) ((in_flight s)[i := t]) =
      map (\<lambda>t. (task_node t, task_activation t)) (in_flight s)"
    using assms by (auto simp: map_update intro!: list_update_same_conv [THEN iffD2])
  then show ?thesis by (simp add: outstanding_of_def)
qed

text \<open>Work is held back only while a replay is under way.\<close>
definition held_inv :: "sched \<Rightarrow> bool" where
  "held_inv s \<longleftrightarrow> (replaying s \<or> replay_held s = [])"

lemma held_start_one: "held_inv s \<Longrightarrow> held_inv (start_one n a s)"
  by (auto simp: held_inv_def start_one_def Let_def)

lemma held_start_all: "held_inv s \<Longrightarrow> held_inv (snd (start_all env cs s p))"
proof (induction env cs s p rule: start_all.induct)
  case (2 env q n a cs s p)
  have "held_inv (snd (reserve_run env n s))" using 2(3) by (simp add: held_inv_def)
  with 2 show ?case by (simp add: held_start_one)
qed simp

lemma held_start_runnable: "held_inv s \<Longrightarrow> held_inv (start_runnable env s)"
proof (induction env s rule: start_runnable.induct)
  case (1 env s)
  have "held_inv (snd (start_pass env s))" using 1(2) by (simp add: start_pass_def held_start_all)
  with 1 show ?case by (subst start_runnable.simps) (simp split: if_splits)
qed

lemma held_same_runs: "same_runs s t \<Longrightarrow> held_inv s \<Longrightarrow> held_inv t"
  by (simp add: same_runs_def held_inv_def)

lemma held_process:
  assumes "process_completion env c s = Inr s'" and "sched_inv env (add_mset (comp_item c) X) s" and "held_inv s"
  shows "held_inv s'"
  using inv_process(2) [OF assms(1,2)] assms(3)
  by (simp add: same_runs_def held_inv_def record_completion_def Let_def)

section \<open>The invariant of a run\<close>

definition phase_inv :: "sched_env \<Rightarrow> phase \<times> sched \<Rightarrow> bool" where
  "phase_inv env = (\<lambda>(p, s).
     (\<exists>X. sched_inv env X s \<and> (p \<noteq> Ended \<or> sched_error s = None \<longrightarrow> X = outstanding_of s)) \<and> held_inv s \<and>
     (p = AtHead \<longrightarrow> sched_error s = None \<longrightarrow> candidates env s = []) \<and>
     (p = Waiting \<longrightarrow> in_flight s \<noteq> [] \<or> stream s \<noteq> []) \<and>
     (p = Ended \<longrightarrow> sched_error s = None \<longrightarrow> outstanding_of s = {#} \<and> \<not> has_runnable_pending env s))"

lemma sum_list_zero: "sum_list (map f xs) = (0 :: nat) \<longleftrightarrow> (\<forall>x \<in> set xs. f x = 0)"
  by (induction xs) auto

lemma idle_without_candidates:
  assumes "env_ok env" and "candidates env s = []" and "running_count env s = 0"
  shows "\<not> has_runnable_pending env s"
proof
  assume "has_runnable_pending env s"
  then obtain n g a where n: "n \<in> set (node_ids (env_ir env))" and ga: "(g, a) \<in> set (pending s n)"
    and u: "is_unlocked env s n a" by (auto simp: has_runnable_pending_def list_ex_iff)
  have "card (running_groups s n) = 0"
    using assms(3) n by (simp only: running_count_def sum_list_zero)
  moreover have "1 \<le> max_concurrency (exec_of env n)"
  proof -
    from n obtain x where "x \<in> set (nodes (env_ir env))" "node_id x = n" by auto
    with assms(1) show ?thesis
      using node_of_distinct [of "env_ir env" x] by (auto simp: env_ok_def node_at_def)
  qed
  moreover have "a \<in> set (filter (is_unlocked env s n) (map snd (pending s n)))" using ga u by force
  then have "filter (is_unlocked env s n) (map snd (pending s n)) \<noteq> []" by (metis empty_iff empty_set)
  ultimately have "node_candidates env s n \<noteq> []"
    by (auto simp: node_candidates_def slice_to_def Let_def)
  with assms(2) n show False by (auto simp: candidates_def)
qed

lemma running_outstanding:
  assumes "sched_ok env s" and "running_count env s \<noteq> 0"
  shows "outstanding_of s \<noteq> {#}"
proof
  assume empty: "outstanding_of s = {#}"
  have "running_groups s n = {}" for n
    using assms(1) unfolding sched_inv_def run_inv_def empty by auto
  with assms(2) show False by (simp add: running_count_def sum_list_zero)
qed

lemma idle_outstanding:
  assumes "sched_ok env s" and "running_count env s = 0"
  shows "outstanding_of s = {#}"
proof (rule ccontr)
  assume "outstanding_of s \<noteq> {#}"
  then obtain x where "x \<in># outstanding_of s" by blast
  then obtain n a where na: "(n, a) \<in># outstanding_of s" by (cases x) auto
  have R: "running_groups s n = {g. (n, g) \<in># image_mset task_key (outstanding_of s)}"
    using assms(1) unfolding sched_inv_def run_inv_def by blast
  have "group_id a \<in> running_groups s n" using na unfolding R by force
  moreover have "finite (running_groups s n)"
    unfolding R by (rule finite_subset [of _ "snd ` set_mset (image_mset task_key (outstanding_of s))"]) force+
  moreover have "n \<in> set (node_ids (env_ir env))"
    using assms(1) na unfolding sched_inv_def join_inv_def by blast
  then have "card (running_groups s n) = 0"
    using assms(2) by (simp only: running_count_def sum_list_zero)
  ultimately show False by auto
qed

lemma running_finish [simp]: "running_count env (finish_replay s) = running_count env s"
  by (simp add: running_count_def finish_replay_def)

text \<open>The ways through the body of the main loop, up to its wait.\<close>
lemma advance_cases:
  assumes "advance env s = Inr (p, s')" and "\<not> (running_count env s = 0 \<and> has_runnable_pending env s)"
  obtains (ended) "p = Ended" "s' = s" "sched_error s \<noteq> None \<or> running_count env s = 0 \<and> \<not> has_runnable_pending env s"
  | (replay) t where "replay_next env s = Inr t" "replay_ready s \<noteq> []" "p = AtHead"
      "s' = (if sched_error t = None then start_runnable env t else t)"
  | (wait) "p = Waiting" "s' = (if replaying s then finish_replay s else s)" "replay_ready s = []"
      "running_count env s' \<noteq> 0"
proof (cases "running_count env s = 0 \<or> sched_error s \<noteq> None")
  case True
  with assms have "p = Ended \<and> s' = s" by (auto simp: advance_def split: if_splits)
  then show ?thesis using ended True assms(2) by blast
next
  case False
  show ?thesis
  proof (cases "replay_ready s = []")
    case True
    with False assms(1) have "p = Waiting \<and> s' = (if replaying s then finish_replay s else s)"
      by (simp add: advance_def Let_def split: if_splits)
    moreover from this False have "running_count env s' \<noteq> 0" by simp
    ultimately show ?thesis using True wait by blast
  next
    case nonempty: False
    with False assms(1) obtain t where "replay_next env s = Inr t" "p = AtHead"
        "s' = (if sched_error t = None then start_runnable env t else t)"
      by (auto simp: advance_def andThen_eq_Inr)
    with nonempty show ?thesis using replay by blast
  qed
qed

lemma held_replay_next:
  assumes "replay_next env s = Inr t" and "sched_ok env s" and "held_inv s"
  shows "held_inv t"
proof (cases "replay_ready s")
  case Nil
  with assms show ?thesis by (simp add: replay_next_def)
next
  case (Cons r rs)
  let ?c = "replay_completion (replay_source s) r" and ?s = "s\<lparr>replay_ready := rs, reused := reused s + 1\<rparr>"
  have "outstanding_of s = add_mset (comp_item ?c) (outstanding_of ?s)"
    using Cons by (simp add: outstanding_of_def replay_completion_def Let_def)
  with assms(2) have "sched_inv env (add_mset (comp_item ?c) (outstanding_of ?s)) ?s" by (simp add: sched_inv_def)
  moreover have "held_inv ?s" using assms(3) by (simp add: held_inv_def)
  ultimately show ?thesis using assms(1) Cons by (auto simp: replay_next_def intro: held_process)
qed

lemma advance_phase:
  assumes "advance env s = Inr (p, s')" and "phase_inv env (AtHead, s)" and "env_ok env"
  shows "phase_inv env (p, s')"
proof -
  have ok: "sched_ok env s" and held: "held_inv s" and quiet: "sched_error s = None \<Longrightarrow> candidates env s = []"
    using assms(2) by (auto simp: phase_inv_def)
  show ?thesis
  proof (cases "running_count env s = 0 \<and> has_runnable_pending env s")
    case True
    with idle_without_candidates [OF assms(3) quiet] have "sched_error s \<noteq> None" by auto
    moreover from this assms(1) True have "p = Ended" "s' = s" by (auto simp: advance_def)
    ultimately show ?thesis using ok held by (auto simp: phase_inv_def)
  next
    case False
    from assms(1) False show ?thesis
    proof (cases rule: advance_cases)
      case ended
      with ok held idle_outstanding [OF ok] show ?thesis by (auto simp: phase_inv_def)
    next
      case (replay t)
      then have "sched_ok env t" "held_inv t"
        using replay_next_ok held_replay_next ok held by blast+
      with replay assms(3) show ?thesis
        by (auto simp: phase_inv_def intro: inv_start_runnable held_start_runnable start_runnable_quiet)
    next
      case wait
      have ok': "sched_ok env s'" and held': "held_inv s'"
        using wait(2) ok held finish_replay_ok by (auto simp: held_inv_def) (simp_all add: finish_replay_def)
      have "replay_held s' = []" "replay_ready s' = []"
        using wait(2,3) held by (auto simp: finish_replay_def held_inv_def)
      with running_outstanding [OF ok' wait(4)] have "in_flight s' \<noteq> [] \<or> stream s' \<noteq> []"
        by (auto simp: outstanding_of_def)
      with ok' held' wait(1) show ?thesis by (auto simp: phase_inv_def)
    qed
  qed
qed

lemma receive_phase:
  assumes "receive_completion env s = Inr (p, s')" and "stream s \<noteq> []" and "phase_inv env (Waiting, s)"
    and "env_ok env"
  shows "phase_inv env (p, s')"
proof -
  obtain c cs where cs: "stream s = c # cs" using assms(2) by (cases "stream s") auto
  have ok: "sched_ok env s" and held: "held_inv s" using assms(3) by (auto simp: phase_inv_def)
  have "outstanding_of s = add_mset (comp_item c) (outstanding_of (s\<lparr>stream := cs\<rparr>))"
    using cs by (simp add: outstanding_of_def)
  with ok have "sched_inv env (add_mset (comp_item c) (outstanding_of (s\<lparr>stream := cs\<rparr>))) (s\<lparr>stream := cs\<rparr>)"
    by (simp add: sched_inv_def)
  moreover obtain t where t: "process_completion env c (s\<lparr>stream := cs\<rparr>) = Inr t"
    and res: "(p, s') = (if sched_error t \<noteq> None then (Ended, t) else (AtHead, start_runnable env t))"
    using assms(1) cs by (auto simp: receive_completion_def andThen_eq_Inr)
  moreover have "held_inv (s\<lparr>stream := cs\<rparr>)" using held by (simp add: held_inv_def)
  ultimately have "sched_ok env t" "held_inv t" using process_ok held_process by blast+
  with res assms(4) show ?thesis
    by (auto simp: phase_inv_def split: if_splits
        intro: inv_start_runnable held_start_runnable start_runnable_quiet)
qed

lemma phase_inv_task:
  assumes "phase_inv env (p, s)" and "p \<noteq> Ended" and "outstanding_of t = outstanding_of s"
    and "t = s\<lparr>in_flight := fl, stream := st, events := es\<rparr>" and "fl \<noteq> [] \<or> st \<noteq> []"
  shows "phase_inv env (p, t)"
proof -
  have "node_candidates env t = node_candidates env s"
    using assms(4)
    by (simp add: fun_eq_iff node_candidates_def is_unlocked_def [abs_def] lineage_is_unlocked_def)
  then have "candidates env t = candidates env s" by (simp add: candidates_def)
  with assms show ?thesis by (auto simp: phase_inv_def sched_inv_def held_inv_def)
qed

lemma run_step_phase:
  assumes "run_step env x y" and "phase_inv env x" and "env_ok env"
  shows "phase_inv env y"
  using assms
proof (induction rule: run_step.induct)
  case (begin_attempt p i s t es)
  let ?t = "s\<lparr>in_flight := (in_flight s)[i := t], events := events s @ es\<rparr>"
  have "outstanding_of ?t = outstanding_of s"
    using begin_attempt(2,4) by (intro outstanding_update) (auto simp: begin_task_def)
  with begin_attempt show ?case by (intro phase_inv_task [where s = s and t = ?t and fl = "(in_flight s)[i := t]" and st = "stream s"
        and es = "events s @ es"]) auto
next
  case (retry_attempt p i s r t es)
  let ?t = "s\<lparr>in_flight := (in_flight s)[i := t], events := events s @ es\<rparr>"
  have "outstanding_of ?t = outstanding_of s"
    using retry_attempt(2,5) by (intro outstanding_update) (auto simp: retry_task_def)
  with retry_attempt show ?case by (intro phase_inv_task [where s = s and t = ?t and fl = "(in_flight s)[i := t]" and st = "stream s"
        and es = "events s @ es"]) auto
next
  case (complete_task p i s r started finished duration)
  let ?c = "task_completion (in_flight s ! i) started finished duration r"
  show ?case
    by (rule phase_inv_task [OF complete_task(5,1) outstanding_complete [OF complete_task(2)],
          where fl = "take i (in_flight s) @ drop (Suc i) (in_flight s)" and st = "stream s @ [?c]"
            and es = "events s"]) auto
next
  case (cancel_task s i)
  then show ?case by (auto simp: phase_inv_def sched_inv_def held_inv_def)
qed (auto intro: advance_phase receive_phase)

section \<open>Reachable states\<close>

lemma new_sched_ok: "sched_ok env (new_sched replay src)"
  by (simp add: sched_inv_def new_sched_def outstanding_of_def run_inv_def cap_inv_def pend_inv_def apart_inv_def
      join_inv_def budget_inv_def loop_inv_def queued_def inj_on_def)

lemma enqueue_initial_ok:
  assumes "env_ok env"
  shows "sched_ok env (enqueue_initial env (new_sched replay src))"
    and "same_runs (new_sched replay src) (enqueue_initial env (new_sched replay src))"
proof -
  let ?ns = "filter (\<lambda>n. initial_activation (exec_of env n)) (sort (remdups (node_ids (env_ir env))))"
  show same: "same_runs (new_sched replay src) (enqueue_initial env (new_sched replay src))"
    unfolding enqueue_initial_def by (rule same_runs_fold) (rule same_runs_enqueue)
  have "sched_inv env X s \<Longrightarrow> \<forall>n \<in> set ns. ident_ok n \<Longrightarrow>
      sched_inv env X (fold (\<lambda>n. enqueue n (''initial:'' @ n) root_lineage [] []) ns s)" for X s ns
  proof (induction ns arbitrary: s)
    case (Cons n ns)
    have "sched_inv env X (enqueue n (''initial:'' @ n) root_lineage [] [] s)"
      using Cons.prems root_group_initial [of n] by (intro inv_enqueue) (auto simp: group_fits_def)
    with Cons show ?case by simp
  qed simp
  moreover have "\<forall>n \<in> set ?ns. ident_ok n" using assms by (auto simp: env_ok_def)
  ultimately have "sched_inv env (outstanding_of (new_sched replay src)) (enqueue_initial env (new_sched replay src))"
    unfolding enqueue_initial_def using new_sched_ok by blast
  then show "sched_ok env (enqueue_initial env (new_sched replay src))"
    by (simp add: outstanding_same_runs [OF same])
qed

lemma reachable_phase_inv:
  assumes "reachable env replay src x" and "env_ok env"
  shows "phase_inv env x"
  using assms
proof (induction rule: reachable.induct)
  case start
  let ?s = "enqueue_initial env (new_sched replay src)"
  note init = enqueue_initial_ok [OF start]
  have "held_inv ?s"
    using held_same_runs [OF init(2)] by (simp add: held_inv_def new_sched_def)
  with init(1) start show ?case
    by (auto simp: phase_inv_def initial_sched_def
        intro: inv_start_runnable held_start_runnable start_runnable_quiet)
next
  case (step x y)
  then show ?case using run_step_phase by blast
qed

lemma reachable_inv:
  assumes "reachable env replay src (p, s)" and "env_ok env"
  obtains X where "sched_inv env X s" and "p \<noteq> Ended \<longrightarrow> X = outstanding_of s"
  using reachable_phase_inv [OF assms] by (auto simp: phase_inv_def)

section \<open>Properties of every run\<close>

text \<open>
  C16. Run budgets hold in every reachable state: the number of runs started is the sum of
  the per-node counts, it equals the completed runs plus the outstanding ones, and it
  never exceeds the workflow's limit, nor a node's count that node's limit.
\<close>
theorem run_budget:
  assumes "reachable env replay src (p, s)" and "env_ok env"
  shows "total_runs s = sum (run_counts s) (set (node_ids (env_ir env))) \<and>
    length (records s) \<le> total_runs s \<and>
    (p \<noteq> Ended \<longrightarrow> total_runs s = length (records s) + length (in_flight s) + length (replay_held s) +
       length (replay_ready s) + length (stream s)) \<and>
    (\<forall>m. workflow_max_runs (workflow (env_ir env)) = Some m \<longrightarrow> total_runs s \<le> m) \<and>
    (\<forall>n m. max_runs (exec_of env n) = Some m \<longrightarrow> run_counts s n \<le> m)"
proof -
  obtain X where inv: "sched_inv env X s" and X: "p \<noteq> Ended \<longrightarrow> X = outstanding_of s"
    using assms by (rule reachable_inv)
  have "size (outstanding_of s) = length (in_flight s) + length (replay_held s) + length (replay_ready s) +
      length (stream s)"
    by (simp add: outstanding_of_def)
  with inv X show ?thesis by (auto simp: sched_inv_def budget_inv_def)
qed

lemma size_simple:
  assumes "\<And>k. count M k \<le> 1"
  shows "size M = card (set_mset M)"
proof -
  have "count M k = 1" if "k \<in> set_mset M" for k
  proof -
    have "count M k > 0" using that by simp
    with assms [of k] show ?thesis by linarith
  qed
  then have "sum (count M) (set_mset M) = sum (\<lambda>_. 1) (set_mset M)" by (intro sum.cong refl)
  then show ?thesis by (simp only: size_multiset_overloaded_eq card_eq_sum)
qed

lemma run_inv_size:
  assumes "run_inv X R"
  shows "size (filter_mset (\<lambda>x. fst x = n) X) = card (R n)"
proof -
  let ?Y = "image_mset task_key (filter_mset (\<lambda>x. fst x = n) X)"
  have "filter_mset (\<lambda>x. fst x = n) X \<subseteq># X" by (rule multiset_filter_subset)
  then have "?Y \<subseteq># image_mset task_key X" by (rule image_mset_subseteq_mono)
  moreover have "count (image_mset task_key X) k \<le> 1" for k using assms unfolding run_inv_def by blast
  ultimately have "count ?Y k \<le> 1" for k by (rule le_trans [OF mset_subset_eq_count])
  then have "size ?Y = card (set_mset ?Y)" by (rule size_simple)
  moreover have "R n = {g. (n, g) \<in># image_mset task_key X}" using assms unfolding run_inv_def by blast
  then have "set_mset ?Y = Pair n ` R n" by auto
  ultimately show ?thesis by (simp add: card_image inj_on_def)
qed

text \<open>
  C17. Concurrency limits hold in every reachable state: the activations of a node that are
  running, held, being replayed or waiting to be processed are exactly its running
  groups, and never exceed its limit.
\<close>
theorem concurrency_limit:
  assumes "reachable env replay src (p, s)" and "env_ok env" and "p \<noteq> Ended"
  shows "size (filter_mset (\<lambda>x. fst x = n) (outstanding_of s)) = card (running_groups s n) \<and>
    card (running_groups s n) \<le> max_concurrency (exec_of env n)"
proof -
  obtain X where "sched_inv env X s" and "p \<noteq> Ended \<longrightarrow> X = outstanding_of s"
    using assms(1,2) by (rule reachable_inv)
  with assms(3) show ?thesis by (auto simp: sched_inv_def cap_inv_def run_inv_size)
qed

text \<open>
  C18. The scheduler never waits in vain: whenever it waits for a completion, an activation
  is in flight or its completion is already in the stream.
\<close>
theorem never_waits_in_vain:
  assumes "reachable env replay src (Waiting, s)" and "env_ok env"
  shows "in_flight s \<noteq> [] \<or> stream s \<noteq> []"
  using reachable_phase_inv [OF assms] by (simp add: phase_inv_def)

text \<open>
  C19. Joins are safe: an activation that has been started belongs to a node all of whose
  needs have completed, successfully or with an allowed failure, before it.
\<close>
theorem join_safety:
  assumes "reachable env replay src (p, s)" and "env_ok env" and "p \<noteq> Ended"
    and "(n, a) \<in># outstanding_of s" and "m \<in> needs_of env n"
  shows "\<exists>r \<in> set (records s). rec_node r = m \<and> result_outcome (rec_result r) \<noteq> Failure"
proof -
  obtain X where "sched_inv env X s" and "p \<noteq> Ended \<longrightarrow> X = outstanding_of s"
    using assms(1,2) by (rule reachable_inv)
  with assms(3-5) have "m \<in> done_nodes (records s)" by (auto simp: sched_inv_def join_inv_def)
  then show ?thesis by (auto simp: done_nodes_def)
qed

text \<open>
  Queued activations carry pairwise different sequence numbers, so sorting the
  candidates never compares two activations; within a node they have different groups,
  and none of these groups is running.
\<close>
theorem queue_well_formed:
  assumes "reachable env replay src (p, s)" and "env_ok env"
    and "(g, a) \<in> set (pending s n)" and "(h, b) \<in> set (pending s m)"
  shows "group_id a = g \<and> g \<notin> running_groups s n \<and>
    (act_sequence a = act_sequence b \<longrightarrow> n = m \<and> a = b) \<and> (n = m \<and> g = h \<longrightarrow> a = b)"
proof -
  obtain X where inv: "sched_inv env X s" and "p \<noteq> Ended \<longrightarrow> X = outstanding_of s"
    using assms(1,2) by (rule reachable_inv)
  have pend: "pend_inv (pending s) (seq s)" using inv by (simp add: sched_inv_def)
  have in_q: "(n, g, a) \<in> queued (pending s)" "(m, h, b) \<in> queued (pending s)"
    using assms(3,4) by (simp_all add: queued_def)
  have ok: "dict_ok (pending s k)" for k using pend by (simp add: pend_inv_def)
  have "dget (pending s n) g \<noteq> None" using assms(3) ok by simp
  then have "g \<notin> running_groups s n" using inv by (auto simp: sched_inv_def apart_inv_def)
  moreover have "act_sequence a = act_sequence b \<longrightarrow> n = m \<and> a = b"
    using inj_onD [of seq_of "queued (pending s)" "(n, g, a)" "(m, h, b)"] in_q pend by (auto simp: pend_inv_def)
  moreover have "n = m \<and> g = h \<longrightarrow> a = b"
    using assms(3,4) ok by (metis map_of_is_SomeI option.inject)
  ultimately show ?thesis using pend_invD [OF pend in_q(1)] by simp
qed


end
