(* ===== verification/Scheduler_Results.thy ===== *)
theory Scheduler_Results
  imports Scheduler_Run
begin

text \<open>
  What a finished run reports and where its results come from: a passing run has no failed
  node and leaves nothing undone; results copied from an earlier run are that run's
  reusable results; which routes fire; how loops fill, close and handle failures.

  The locale \<open>queueing\<close> collects the elementary updates that queueing and loops are made
  of, and \<open>bookkeeping\<close> adds the recording of errors; a property that these updates keep is
  kept by the whole processing of a completion.
\<close>

section \<open>Properties kept by queueing and bookkeeping\<close>

locale queueing =
  fixes P :: "sched \<Rightarrow> bool"
  assumes keep_queue: "P s \<Longrightarrow> P (s\<lparr>seq := q, pending := f\<rparr>)"
    and keep_lineage: "P s \<Longrightarrow> P (s\<lparr>dirty_lineages := dl, satisfied := sat, lineage_outputs := lo,
          lineage_statuses := ls, lineage_errors := le\<rparr>)"
    and keep_loops: "P s \<Longrightarrow> P (s\<lparr>loops := L\<rparr>)"
begin

lemma keep_pending: "P s \<Longrightarrow> P (s\<lparr>pending := f\<rparr>)"
  using keep_queue [where s = s and q = "seq s"] by simp

lemma keep_enqueue: "P s \<Longrightarrow> P (enqueue n g l sc ll s)"
  by (simp add: enqueue_def keep_queue)

lemma keep_enqueue_all: "P s \<Longrightarrow> P (fold (\<lambda>r. enqueue (f r) g l sc ll) rs s)"
  by (induction rs arbitrary: s) (auto intro: keep_enqueue)

lemma keep_fill_one: "P s \<Longrightarrow> P (fill_one st s)"
  unfolding fill_one_def Let_def by (intro keep_loops keep_enqueue_all keep_lineage)

lemma keep_fill: "fill l s = Inr s' \<Longrightarrow> P s \<Longrightarrow> P s'"
  by (auto simp: fill_def split: option.splits intro: keep_fill_one elim!: fill_loop_capacity_preserves)

lemma keep_settle:
  assumes "settle_loop_groups env s = Inr s'" and "P s"
  shows "P s'"
  using assms(1) unfolding settle_loop_groups_def
proof (rule foldR_invariant [where P = P])
  fix t l t' assume "P t" and "settle_one (live_groups env s) t l = Inr t'"
  then show "P t'" by (auto simp: settle_one_def split: option.splits intro: keep_fill keep_loops)
qed (rule assms(2))

lemma keep_merge: "P s \<Longrightarrow> P (merge_locked_signals n l s)"
  by (simp add: merge_locked_signals_eq keep_pending)

lemma keep_merge_all: "P s \<Longrightarrow> P (fold (\<lambda>m. merge_locked_signals m l) ms s)"
  by (induction ms arbitrary: s) (auto intro: keep_merge)

lemma keep_satisfy: "P s \<Longrightarrow> P (satisfy l n s)"
  using keep_lineage [where s = s and dl = "dirty_lineages s" and lo = "lineage_outputs s" and ls = "lineage_statuses s"
      and le = "lineage_errors s"]
  by (simp add: satisfy_def)

lemma keep_open: "open_loop env c s = Inr s' \<Longrightarrow> P s \<Longrightarrow> P s'"
  by (auto simp: open_loop_def Let_def split: if_splits option.splits intro: keep_fill keep_loops)

lemma keep_follow: "follow_routes env c s = Inr s' \<Longrightarrow> P s \<Longrightarrow> P s'"
  unfolding follow_routes_def Let_def
  by (erule keep_settle) (intro keep_merge_all keep_enqueue_all keep_satisfy)

end

locale bookkeeping = queueing +
  assumes keep_error: "P s \<Longrightarrow> P (s\<lparr>sched_error := Some e\<rparr>)"
    and keep_deferred: "P s \<Longrightarrow> P (s\<lparr>deferred_failures := deferred_failures s @ [e]\<rparr>)"
begin

lemma keep_close: "P s \<Longrightarrow> P (close_loop env a n s)"
  by (auto simp: close_loop_def Let_def split: option.splits intro: keep_error keep_pending keep_loops)

lemma keep_stages: "loop_stages env c s = Inr s' \<Longrightarrow> P s \<Longrightarrow> P s'"
  by (auto simp: loop_stages_def Let_def andThen_eq_Inr split: if_splits)
    (blast intro: keep_settle keep_open keep_close keep_satisfy)+

lemma keep_fail: "fail_run env c s = Inr s' \<Longrightarrow> P s \<Longrightarrow> P s'"
  by (auto simp: fail_run_def Let_def defer_loop_failure_def split: if_splits option.splits
      intro: keep_settle keep_error keep_deferred)

lemma keep_process:
  assumes "process_completion env c s = Inr s'" and "P (record_result c (record_completion c s))"
  shows "P s'"
  using assms
  by (auto simp: process_completion_def Let_def andThen_eq_Inr split: if_splits
      intro: keep_fail keep_stages keep_follow keep_error)

end

section \<open>Failures are never lost\<close>

definition alarm :: "sched \<Rightarrow> bool" where
  "alarm s \<longleftrightarrow> sched_error s \<noteq> None \<or> deferred_failures s \<noteq> []"

interpretation errors_kept: queueing "\<lambda>s. sched_error s = e \<and> deferred_failures s = es"
  for e es
  by unfold_locales auto

interpretation alarm_kept: bookkeeping alarm
  by unfold_locales (auto simp: alarm_def)

interpretation replay_index_kept: bookkeeping "\<lambda>s. replay_records s = R"
  for R
  by unfold_locales auto

definition failures_known :: "sched \<Rightarrow> bool" where
  "failures_known s \<longleftrightarrow> (\<forall>r \<in> set (records s). result_outcome (rec_result r) = Failure \<longrightarrow> alarm s)"

lemma fail_run_alarm:
  assumes "fail_run env c s = Inr s'"
  shows "alarm s'"
proof (cases "fst (defer_loop_failure (comp_activation c) (result_error (rec_result (comp_record c))) s)")
  case True
  then have "alarm (snd (defer_loop_failure (comp_activation c) (result_error (rec_result (comp_record c))) s))"
    by (auto simp: defer_loop_failure_def alarm_def split: option.splits)
  with assms True show ?thesis by (auto simp: fail_run_def Let_def intro: alarm_kept.keep_settle)
next
  case False
  with assms show ?thesis by (auto simp: fail_run_def Let_def alarm_def)
qed

lemma alarm_record: "alarm s \<Longrightarrow> alarm (record_result c (record_completion c s))"
  by (auto simp: alarm_def record_result_def record_completion_def Let_def split: option.splits)

lemma failures_process:
  assumes "process_completion env c s = Inr s'" and "sched_inv env (add_mset (comp_item c) X) s"
    and "failures_known s"
  shows "failures_known s'"
proof (cases "result_outcome (rec_result (comp_record c)) = Failure")
  case True
  with assms(1) have "fail_run env c (record_result c (record_completion c s)) = Inr s'"
    by (simp add: process_completion_def Let_def)
  from fail_run_alarm [OF this] show ?thesis by (simp add: failures_known_def)
next
  case False
  have "records s' = records s @ [comp_record c]"
    using inv_process(2) [OF assms(1,2)] by (simp add: same_runs_def record_completion_def Let_def)
  with False assms(3) have "failures_known s' \<longleftrightarrow> alarm s' \<or> \<not> alarm s \<or> \<not> alarm s'"
    unfolding failures_known_def using alarm_kept.keep_process [OF assms(1) alarm_record] by auto
  then show ?thesis by blast
qed

lemma alarm_start:
  "alarm s \<Longrightarrow> alarm (start_one n a s)" "alarm s \<Longrightarrow> alarm (snd (reserve_run env n s))"
  by (auto simp: alarm_def reserve_run_def Let_def)

lemma start_all_frame:
  "records (snd (start_all env cs s p)) = records s"
  "alarm s \<Longrightarrow> alarm (snd (start_all env cs s p))"
  by (induction env cs s p rule: start_all.induct) (auto intro: alarm_start)

lemma start_runnable_frame:
  "records (start_runnable env s) = records s" "alarm s \<Longrightarrow> alarm (start_runnable env s)"
proof (induction env s rule: start_runnable.induct)
  case (1 env s)
  { case 1 with "1.IH"(1) show ?case by (subst start_runnable.simps) (simp add: start_pass_def start_all_frame) }
  { case 2 with "1.IH"(2) show ?case by (subst start_runnable.simps) (simp add: start_pass_def start_all_frame) }
qed

lemma failures_start: "failures_known s \<Longrightarrow> failures_known (start_runnable env s)"
  by (auto simp: failures_known_def start_runnable_frame)

lemma failures_cong:
  "records t = records s \<Longrightarrow> sched_error t = sched_error s \<Longrightarrow> deferred_failures t = deferred_failures s \<Longrightarrow>
     failures_known s \<Longrightarrow> failures_known t"
  by (simp add: failures_known_def alarm_def)

lemma failures_replay_next:
  assumes "replay_next env s = Inr t" and "sched_ok env s" and "failures_known s"
  shows "failures_known t"
proof (cases "replay_ready s")
  case Nil
  with assms show ?thesis by (simp add: replay_next_def)
next
  case (Cons r rs)
  let ?c = "replay_completion (replay_source s) r" and ?s = "s\<lparr>replay_ready := rs, reused := reused s + 1\<rparr>"
  have "outstanding_of s = add_mset (comp_item ?c) (outstanding_of ?s)"
    using Cons by (simp add: outstanding_of_def replay_completion_def Let_def)
  with assms(2) have "sched_inv env (add_mset (comp_item ?c) (outstanding_of ?s)) ?s" by (simp add: sched_inv_def)
  moreover have "failures_known ?s" using assms(3) by (rule failures_cong [rotated -1]) simp_all
  ultimately show ?thesis using assms(1) Cons by (auto simp: replay_next_def intro: failures_process)
qed

lemma failures_step:
  assumes "run_step env x y" and "phase_inv env x" and "failures_known (snd x)"
  shows "failures_known (snd y)"
  using assms
proof (induction rule: run_step.induct)
  case (advance s p s')
  then have ok: "sched_ok env s" by (simp add: phase_inv_def)
  have fin: "failures_known (finish_replay s)"
    using advance(3) by (simp add: failures_known_def alarm_def finish_replay_def)
  from advance(1,3) ok fin show ?case
    by (auto simp: advance_def Let_def andThen_eq_Inr split: if_splits
        intro: failures_start failures_replay_next)
next
  case (receive s p s')
  then obtain c cs where cs: "stream s = c # cs" by (cases "stream s") auto
  have "outstanding_of s = add_mset (comp_item c) (outstanding_of (s\<lparr>stream := cs\<rparr>))"
    using cs by (simp add: outstanding_of_def)
  with receive(3) have "sched_inv env (add_mset (comp_item c) (outstanding_of (s\<lparr>stream := cs\<rparr>))) (s\<lparr>stream := cs\<rparr>)"
    by (simp add: phase_inv_def sched_inv_def)
  moreover have "failures_known (s\<lparr>stream := cs\<rparr>)" using receive(4) by (simp add: failures_known_def alarm_def)
  ultimately have "failures_known t" if "process_completion env c (s\<lparr>stream := cs\<rparr>) = Inr t" for t
    using failures_process that by blast
  with receive(2) cs show ?case
    by (auto simp: receive_completion_def andThen_eq_Inr split: if_splits intro: failures_start)
qed (auto simp: failures_known_def alarm_def)

lemma reachable_failures_known:
  assumes "reachable env replay src x" and "env_ok env"
  shows "failures_known (snd x)"
  using assms(1)
proof (induction rule: reachable.induct)
  case start
  have "records (enqueue_initial env (new_sched replay src)) = []"
    using enqueue_initial_ok(2) [OF assms(2)] by (simp add: same_runs_def new_sched_def)
  then have "failures_known (enqueue_initial env (new_sched replay src))" by (simp add: failures_known_def)
  then show ?case by (simp add: initial_sched_def failures_start)
next
  case (step x y)
  then show ?case using failures_step reachable_phase_inv [OF _ assms(2)] by blast
qed

lemma add_output_step:
  "add_output env s acc out = Inr acc' \<longleftrightarrow>
     (\<exists>v. reference_value (env_lib env) (latest_scope env s) (output_source out) = Some v \<and>
        instance_matches_schema (env_schemas env) (output_decl_schema out) v \<and> acc' = dset (output_name out) v acc)"
  by (auto simp: add_output_def Let_def split: option.splits)

lemma workflow_outputs_fold:
  assumes "foldR (add_output env s) acc os = Inr xs" and "distinct (map output_name os)"
  shows "(\<forall>out \<in> set os. \<exists>v. dget xs (output_name out) = Some v \<and>
      reference_value (env_lib env) (latest_scope env s) (output_source out) = Some v \<and>
      instance_matches_schema (env_schemas env) (output_decl_schema out) v) \<and>
    (\<forall>k. k \<notin> set (map output_name os) \<longrightarrow> dget xs k = dget acc k)"
  using assms
proof (induction os arbitrary: acc)
  case (Cons out os)
  then obtain v where v: "reference_value (env_lib env) (latest_scope env s) (output_source out) = Some v"
      "instance_matches_schema (env_schemas env) (output_decl_schema out) v"
    and rest: "foldR (add_output env s) (dset (output_name out) v acc) os = Inr xs"
    by (auto simp: andThen_eq_Inr add_output_step)
  have fresh: "output_name out \<notin> set (map output_name os)" using Cons.prems by simp
  note ih = Cons.IH [OF rest]
  then have "dget xs (output_name out) = Some v" using Cons.prems(2) fresh by (simp add: dict_simps)
  with ih v Cons.prems(2) show ?case by (auto simp: dict_simps)
qed simp

lemma passed_run_facts:
  assumes "reachable env replay src (Ended, s)" and "env_ok env"
    and "wr_outcome (run_result env s) = Passed" and "distinct (map output_name (outputs (workflow (env_ir env))))"
  shows "(\<forall>r \<in> set (wr_runs (run_result env s)). result_outcome (rec_result r) \<noteq> Failure) \<and>
    total_runs s = length (wr_runs (run_result env s)) \<and> in_flight s = [] \<and>
    (\<forall>n \<in> set (node_ids (env_ir env)). pending s n = []) \<and>
    (\<forall>out \<in> set (outputs (workflow (env_ir env))). \<exists>v.
       dget (wr_outputs (run_result env s)) (output_name out) = Some v \<and>
       instance_matches_schema (env_schemas env) (output_decl_schema out) v)"
proof -
  obtain xs where none: "final_error env s = None" and outs: "workflow_outputs env s = Inr xs"
    and res: "run_result env s = \<lparr>wr_outcome = Passed, wr_runs = records s, wr_outputs = xs,
      wr_latest = latest_outputs s, wr_error = None\<rparr>"
    using assms(3) by (auto simp: run_result_def Let_def split: option.splits sum.splits)
  have quiet: "sched_error s = None" "deferred_failures s = []" "unresolved_joins env s = []"
    using none by (auto simp: final_error_def unresolved_join_error_def split: option.splits list.splits if_splits)
  have "\<forall>r \<in> set (records s). result_outcome (rec_result r) \<noteq> Failure"
    using reachable_failures_known [OF assms(1,2)] quiet by (auto simp: failures_known_def alarm_def)
  moreover have inv: "phase_inv env (Ended, s)" using assms(1,2) by (rule reachable_phase_inv)
  then have idle: "outstanding_of s = {#}" "\<not> has_runnable_pending env s"
    using quiet(1) by (auto simp: phase_inv_def)
  moreover have "in_flight s = []" using idle(1) by (simp add: outstanding_of_def)
  moreover have "total_runs s = length (records s)"
    using inv idle(1) quiet(1) by (auto simp: phase_inv_def sched_inv_def budget_inv_def)
  moreover have "pending s n = []" if n: "n \<in> set (node_ids (env_ir env))" for n
  proof -
    have "\<not> is_unlocked env s n (snd x)" if "x \<in> set (pending s n)" for x
      using idle(2) n that by (fastforce simp: has_runnable_pending_def list_ex_iff)
    moreover have "filter (\<lambda>a. \<not> is_unlocked env s n a) (map snd (pending s n)) = []"
      using quiet(3) n by (auto simp: unresolved_joins_def)
    ultimately show ?thesis by (cases "pending s n") auto
  qed
  ultimately show ?thesis
    using workflow_outputs_fold [of env s "[]" "outputs (workflow (env_ir env))" xs] outs assms(4)
    unfolding workflow_outputs_def res by fastforce
qed

text \<open>
  C21. A passing run is complete and clean: no node run failed, every started run was
  completed, nothing is left in a queue, and every public output has a value that passes
  its schema.
\<close>
theorem passed_run_complete:
  assumes "reachable env replay src (Ended, s)" and "env_ok env"
    and "wr_outcome (run_result env s) = Passed" and "distinct (map output_name (outputs (workflow (env_ir env))))"
  shows "(\<forall>r \<in> set (wr_runs (run_result env s)). result_outcome (rec_result r) \<noteq> Failure) \<and>
    total_runs s = length (wr_runs (run_result env s)) \<and> in_flight s = [] \<and>
    (\<forall>n \<in> set (node_ids (env_ir env)). pending s n = []) \<and>
    (\<forall>out \<in> set (outputs (workflow (env_ir env))). \<exists>v.
       dget (wr_outputs (run_result env s)) (output_name out) = Some v \<and>
       instance_matches_schema (env_schemas env) (output_decl_schema out) v)"
  using assms by (rule passed_run_facts)

section \<open>Reused results\<close>

definition prior_fits :: "prior_run list \<Rightarrow> replay_key \<Rightarrow> prior_run \<Rightarrow> bool" where
  "prior_fits replay k p \<longleftrightarrow> p \<in> set replay \<and> is_reusable (prior_outcome p) \<and> prior_key p = k"

definition copied :: "prior_run list \<Rightarrow> run_record \<Rightarrow> bool" where
  "copied replay r \<longleftrightarrow> (\<exists>p. prior_fits replay (rec_node r, rec_group r, rec_lineage r) p \<and>
     result_outcome (rec_result r) = prior_outcome p \<and> result_output (rec_result r) = prior_output p \<and>
     result_error (rec_result r) = prior_error p)"

definition replay_inv :: "prior_run list \<Rightarrow> sched \<Rightarrow> bool" where
  "replay_inv replay s \<longleftrightarrow> replay_records s = index_priors replay \<and>
     (\<forall>r \<in> set (replay_ready s). prior_fits replay (replay_key_of (ready_node r) (ready_activation r)) (ready_prior r)) \<and>
     (\<forall>c \<in> set (stream s). reused_from (comp_record c) = None) \<and>
     (\<forall>r \<in> set (records s). reused_from r \<noteq> None \<longrightarrow> copied replay r)"

definition index_ok :: "prior_run set \<Rightarrow> (replay_key, (nat \<times> prior_run) list) dict \<Rightarrow> bool" where
  "index_ok A d \<longleftrightarrow> (\<forall>k ips. dget d k = Some ips \<longrightarrow> (\<forall>x \<in> set ips. snd x \<in> A \<and> prior_key (snd x) = k))"

lemma index_okD: "index_ok A d \<Longrightarrow> dget d k = Some ips \<Longrightarrow> x \<in> set ips \<Longrightarrow> snd x \<in> A \<and> prior_key (snd x) = k"
  unfolding index_ok_def by blast

lemma index_ok_add:
  assumes "index_ok A d" and "p \<in> A"
  shows "index_ok A (dset (prior_key p) (dget_or [] d (prior_key p) @ [(i, p)]) d)"
  unfolding index_ok_def
proof (intro allI impI ballI)
  fix k ips x
  assume get: "dget (dset (prior_key p) (dget_or [] d (prior_key p) @ [(i, p)]) d) k = Some ips" and x: "x \<in> set ips"
  show "snd x \<in> A \<and> prior_key (snd x) = k"
  proof (cases "k = prior_key p")
    case True
    with get x have "x = (i, p) \<or> (\<exists>jps. dget d k = Some jps \<and> x \<in> set jps)"
      by (auto simp: dict_simps dget_or_def split: option.splits)
    then show ?thesis
    proof
      assume "\<exists>jps. dget d k = Some jps \<and> x \<in> set jps"
      with index_okD [OF assms(1)] show ?thesis by blast
    qed (use True assms(2) in simp)
  next
    case False
    with get have "dget d k = Some ips" by (simp add: dict_simps)
    from index_okD [OF assms(1) this x] show ?thesis .
  qed
qed

lemma index_fold:
  assumes "index_ok A d" and "snd ` set xs \<subseteq> A"
  shows "index_ok A (fold (\<lambda>(i, p) d. dset (prior_key p) (dget_or [] d (prior_key p) @ [(i, p)]) d) xs d)"
  using assms by (induction xs arbitrary: d) (auto simp: index_ok_add)

lemma index_priors_ok: "index_ok (set replay) (index_priors replay)"
  unfolding index_priors_def
  by (rule index_fold) (auto simp: index_ok_def in_set_enumerate_eq)

lemma replayed_fits:
  assumes "fst (replayed n a k s)" and "replay_records s = index_priors replay"
  shows "prior_fits replay (replay_key_of n a)
    (snd (dget_or [] (replay_records s) (replay_key_of n a) ! dget_or 0 (replay_starts s) (replay_key_of n a)))"
proof -
  let ?ips = "dget_or [] (replay_records s) (replay_key_of n a)" and ?i = "dget_or 0 (replay_starts s) (replay_key_of n a)"
  have i: "?i < length ?ips" "is_reusable (prior_outcome (snd (?ips ! ?i)))"
    using assms(1) by (auto simp: replayed_def Let_def split: if_splits)
  then obtain ips where "dget (index_priors replay) (replay_key_of n a) = Some ips" "?ips = ips"
    using assms(2) by (auto simp: dget_or_def split: option.splits)
  with i index_okD [OF index_priors_ok this(1), of "?ips ! ?i"] show ?thesis
    by (auto simp: prior_fits_def)
qed

lemma replay_inv_start_one: "replay_inv replay s \<Longrightarrow> replay_inv replay (start_one n a s)"
  using replayed_fits [of n a "run_counts s n" "s\<lparr>pending := (pending s)(n := ddel (group_id a) (pending s n)),
    running_groups := (running_groups s)(n := insert (group_id a) (running_groups s n))\<rparr>" replay]
  by (auto simp: replay_inv_def start_one_def Let_def replayed_ready push_ready_def set_insort_key)

lemma replay_inv_start_all: "replay_inv replay s \<Longrightarrow> replay_inv replay (snd (start_all env cs s p))"
proof (induction env cs s p rule: start_all.induct)
  case (2 env q n a cs s p)
  have "replay_inv replay (snd (reserve_run env n s))" using 2(3) by (simp add: replay_inv_def)
  with 2 show ?case by (simp add: replay_inv_start_one)
qed simp

lemma replay_inv_start: "replay_inv replay s \<Longrightarrow> replay_inv replay (start_runnable env s)"
proof (induction env s rule: start_runnable.induct)
  case (1 env s)
  have "replay_inv replay (snd (start_pass env s))" using 1(2) by (simp add: start_pass_def replay_inv_start_all)
  with 1 show ?case by (subst start_runnable.simps) (simp split: if_splits)
qed

lemma replay_inv_process:
  assumes "process_completion env c s = Inr s'" and "sched_inv env (add_mset (comp_item c) X) s"
    and "replay_inv replay s" and "reused_from (comp_record c) \<noteq> None \<longrightarrow> copied replay (comp_record c)"
  shows "replay_inv replay s'"
proof -
  have "replay_records s' = replay_records s"
    by (rule replay_index_kept.keep_process [OF assms(1)])
      (auto simp: record_result_def record_completion_def Let_def split: option.splits)
  moreover have "same_runs (record_completion c s) s'" by (rule inv_process(2) [OF assms(1,2)])
  ultimately show ?thesis
    using assms(3,4) by (auto simp: replay_inv_def same_runs_def record_completion_def Let_def)
qed

lemma copied_replay:
  assumes "prior_fits replay (replay_key_of (ready_node r) (ready_activation r)) (ready_prior r)"
  shows "copied replay (comp_record (replay_completion src r))"
  unfolding copied_def
  by (rule exI [of _ "ready_prior r"]) (use assms in \<open>simp add: replay_completion_def Let_def replay_key_of_def\<close>)

lemma replay_inv_next:
  assumes "replay_next env s = Inr t" and "sched_ok env s" and "replay_inv replay s"
  shows "replay_inv replay t"
proof (cases "replay_ready s")
  case Nil
  with assms show ?thesis by (simp add: replay_next_def)
next
  case (Cons r rs)
  let ?c = "replay_completion (replay_source s) r" and ?s = "s\<lparr>replay_ready := rs, reused := reused s + 1\<rparr>"
  have "outstanding_of s = add_mset (comp_item ?c) (outstanding_of ?s)"
    using Cons by (simp add: outstanding_of_def replay_completion_def Let_def)
  with assms(2) have "sched_inv env (add_mset (comp_item ?c) (outstanding_of ?s)) ?s" by (simp add: sched_inv_def)
  moreover have "replay_inv replay ?s" using assms(3) Cons by (simp add: replay_inv_def)
  moreover have "copied replay (comp_record ?c)"
    using assms(3) Cons by (intro copied_replay) (simp add: replay_inv_def)
  ultimately show ?thesis using assms(1) Cons by (auto simp: replay_next_def intro: replay_inv_process)
qed

lemma replay_inv_step:
  assumes "run_step env x y" and "phase_inv env x" and "replay_inv replay (snd x)"
  shows "replay_inv replay (snd y)"
  using assms
proof (induction rule: run_step.induct)
  case (advance s p s')
  then have ok: "sched_ok env s" by (simp add: phase_inv_def)
  have "replay_inv replay (finish_replay s)" using advance(3) by (simp add: replay_inv_def finish_replay_def)
  with advance(1,3) ok show ?case
    by (auto simp: advance_def Let_def andThen_eq_Inr split: if_splits intro: replay_inv_start replay_inv_next)
next
  case (receive s p s')
  then obtain c cs where cs: "stream s = c # cs" by (cases "stream s") auto
  have "outstanding_of s = add_mset (comp_item c) (outstanding_of (s\<lparr>stream := cs\<rparr>))"
    using cs by (simp add: outstanding_of_def)
  with receive(3) have "sched_inv env (add_mset (comp_item c) (outstanding_of (s\<lparr>stream := cs\<rparr>))) (s\<lparr>stream := cs\<rparr>)"
    by (simp add: phase_inv_def sched_inv_def)
  moreover have "replay_inv replay (s\<lparr>stream := cs\<rparr>)" "reused_from (comp_record c) = None"
    using receive(4) cs by (auto simp: replay_inv_def)
  ultimately have "replay_inv replay t" if "process_completion env c (s\<lparr>stream := cs\<rparr>) = Inr t" for t
    using replay_inv_process [OF that] by simp
  with receive(2) cs show ?case
    by (auto simp: receive_completion_def andThen_eq_Inr split: if_splits intro: replay_inv_start)
qed (auto simp: replay_inv_def task_completion_def)

lemma reachable_replay_inv:
  assumes "reachable env replay src x" and "env_ok env"
  shows "replay_inv replay (snd x)"
  using assms(1)
proof (induction rule: reachable.induct)
  case start
  have "replay_records (fold (\<lambda>n. enqueue n (''initial:'' @ n) root_lineage [] []) ns s) = replay_records s" for ns s
    by (induction ns arbitrary: s) (auto simp: enqueue_def)
  moreover have "same_runs (new_sched replay src) (enqueue_initial env (new_sched replay src))"
    using assms(2) by (rule enqueue_initial_ok)
  ultimately have "replay_inv replay (enqueue_initial env (new_sched replay src))"
    by (simp add: replay_inv_def same_runs_def new_sched_def enqueue_initial_def)
  then show ?case by (simp add: initial_sched_def replay_inv_start)
next
  case (step x y)
  then show ?case using replay_inv_step reachable_phase_inv [OF _ assms(2)] by blast
qed

text \<open>
  C22. A record that a resumed run copied from an earlier one reports exactly what that run
  saved for the same node, group and lineage, and only saved results that succeeded or
  were allowed to fail are copied.
\<close>
theorem reused_records_are_saved_results:
  assumes "reachable env replay src (p, s)" and "env_ok env" and "r \<in> set (records s)" and "reused_from r \<noteq> None"
  shows "\<exists>q \<in> set replay. prior_node q = rec_node r \<and> prior_group q = rec_group r \<and> prior_lineage q = rec_lineage r \<and>
    is_reusable (prior_outcome q) \<and> result_outcome (rec_result r) = prior_outcome q \<and>
    result_output (rec_result r) = prior_output q \<and> result_error (rec_result r) = prior_error q"
  using reachable_replay_inv [OF assms(1,2)] assms(3,4)
  by (auto simp: replay_inv_def copied_def prior_fits_def prior_key_def)

text \<open>
  The end of the replay phase does not stop the reuse of saved results: whether a start
  reuses one is decided the same way before and after \<^verbatim>\<open>_finish_replay\<close>.
\<close>
theorem reuse_continues_after_replay:
  "fst (replayed n a k (finish_replay s)) = fst (replayed n a k s)"
  by (simp add: replayed_def finish_replay_def Let_def)

section \<open>Filling loops\<close>

lemma loops_fill_one:
  "dget (loops (fill_one st s)) l =
     (if l = loop_lineage st then Some (st\<lparr>next_index := next_index st + 1,
        active_groups := (if loop_routes st = [] then insert (iteration_group st) (active_groups st) - {iteration_group st}
                          else insert (iteration_group st) (active_groups st))\<rparr>) else dget (loops s) l)"
proof -
  have "loops (fold (\<lambda>r. enqueue (target r) g h sc ll) rs t) = loops t" for rs t g h sc ll
    by (induction rs arbitrary: t) (auto simp: enqueue_def)
  then show ?thesis by (simp add: fill_one_def Let_def dict_simps)
qed

lemma fill_loop_capacity_full:
  assumes "fill_loop_capacity l s = Some s'" and "dget (loops s') l = Some st"
  shows "\<not> may_fill st"
proof -
  have "\<forall>st. dget (loops s') l = Some st \<longrightarrow> \<not> may_fill st"
    by (rule fill_loop_capacity.raw_induct [where P = "\<lambda>l s s'. \<forall>st. dget (loops s') l = Some st \<longrightarrow> \<not> may_fill st", OF _ assms(1)])
      (auto split: option.splits if_splits)
  with assms(2) show ?thesis by simp
qed

text \<open>Each round of the loop uses an item, or a place among the live iterations.\<close>
definition fill_room :: "loop_state \<Rightarrow> nat" where
  "fill_room st = (if loop_infinite st then nat (loop_max_concurrency st - int (card (active_groups st)))
                   else length (loop_items st) - next_index st)"

lemma fill_ends:
  assumes "dget (loops s) l = Some st" and "loop_ok D l st" and "\<not> (loop_infinite st \<and> loop_routes st = [])"
  shows "\<exists>t. fill_loop_capacity l s = Some t"
  using assms
proof (induction "fill_room st" arbitrary: s st rule: less_induct)
  case less
  show ?case
  proof (cases "may_fill st")
    case True
    let ?A = "if loop_routes st = [] then insert (iteration_group st) (active_groups st) - {iteration_group st}
      else insert (iteration_group st) (active_groups st)"
    let ?st = "st\<lparr>next_index := next_index st + 1, active_groups := ?A\<rparr>"
    have ok: "loop_ok D l ?st" using loop_ok_fill [OF less.prems(2) True refl] .
    have "loop_lineage st = l" "active_groups st \<subseteq> iterations st" using less.prems(2) by (simp_all add: loop_ok_def)
    then have get: "dget (loops (fill_one st s)) l = Some ?st"
      and card: "card (insert (iteration_group st) (active_groups st)) = Suc (card (active_groups st))"
      using loop_ok_finite [OF less.prems(2)] iteration_group_fresh by (auto simp: loops_fill_one)
    have "fill_room ?st < fill_room st" 
      using True less.prems(3) card by (auto simp: fill_room_def may_fill_def)
    from less.hyps [OF this get ok] less.prems(3) obtain t where "fill_loop_capacity l (fill_one st s) = Some t" by auto
    with less.prems(1) True show ?thesis by (subst fill_loop_capacity.simps) simp
  next
    case False
    with less.prems(1) show ?thesis by (subst fill_loop_capacity.simps) simp
  qed
qed

lemma fill_never_ends:
  assumes "dget (loops s) l = Some st" and "loop_ok D l st" and "loop_infinite st" and "loop_routes st = []" and "may_fill st"
  shows "fill_loop_capacity l s = None"
proof (rule ccontr)
  let ?P = "\<lambda>s. \<exists>st. dget (loops s) l = Some st \<and> loop_ok D l st \<and> loop_infinite st \<and> loop_routes st = [] \<and> may_fill st"
  assume "fill_loop_capacity l s \<noteq> None"
  then obtain s' where s': "fill_loop_capacity l s = Some s'" by auto
  moreover have "?P (fill_one st s)" if st: "?P s" "dget (loops s) l = Some st" for s st
  proof -
    have ok: "loop_ok D l st" and inf: "loop_infinite st" "loop_routes st = []" "may_fill st" using st by auto
    then have fresh: "iteration_group st \<notin> active_groups st" "loop_lineage st = l"
      using iteration_group_fresh by (auto simp: loop_ok_def)
    with ok inf have "dget (loops (fill_one st s)) l = Some (st\<lparr>next_index := next_index st + 1\<rparr>)"
      by (simp add: loops_fill_one)
    moreover have "loop_ok D l (st\<lparr>next_index := next_index st + 1\<rparr>)"
      using loop_ok_fill [OF ok inf(3) refl] inf fresh by simp
    ultimately show ?thesis using inf by (simp add: may_fill_def)
  qed
  ultimately have "?P s'" using assms fill_loop_capacity_preserves [OF s', of ?P] by blast
  with fill_loop_capacity_full [OF s'] show False by blast
qed


section \<open>Routing and failures\<close>

text \<open>
  Where a run goes after an allowed failure does not depend on any node's output: only
  statuses, errors, inputs and trigger events decide.
\<close>
lemma routing_after_allowed_failure:
  "matching_routes env (s\<lparr>lineage_outputs := f\<rparr>) n AllowedFailure l = matching_routes env s n AllowedFailure l"
proof -
  have "lineage_scope env (s\<lparr>lineage_outputs := f\<rparr>) l = (lineage_scope env s l)\<lparr>node_outputs := f l\<rparr>"
    by (simp add: lineage_scope_def)
  then have "conditional_matches env (lineage_scope env (s\<lparr>lineage_outputs := f\<rparr>) l) AllowedFailure =
      conditional_matches env (lineage_scope env s l) AllowedFailure"
    by (auto simp: fun_eq_iff conditional_matches_def predicate_ignores_outputs split: route_mode.splits)
  then show ?thesis by (simp add: matching_routes_def)
qed

text \<open>
  A failed node run ends the workflow unless one of the loops around it is not
  fail-fast; then exactly this failure is recorded for the end of the run, and the run
  goes on.
\<close>
theorem failure_ends_run_or_is_deferred:
  assumes "process_completion env c s = Inr s'" and "result_outcome (rec_result (comp_record c)) = Failure"
    and "result_error (rec_result (comp_record c)) = Some e"
  shows "if \<exists>l \<in> snd ` set (loop_lineages (comp_activation c)). \<exists>st. dget (loops s) l = Some st \<and> \<not> loop_fail_fast st
    then sched_error s' = sched_error s \<and> deferred_failures s' = deferred_failures s @ [e]
    else sched_error s' = Some e \<and> deferred_failures s' = deferred_failures s"
proof -
  let ?s = "record_result c (record_completion c s)"
  let ?d = "defer_loop_failure (comp_activation c) (Some e) ?s"
  have frame: "loops ?s = loops s" "sched_error ?s = sched_error s" "deferred_failures ?s = deferred_failures s"
    by (simp_all add: record_result_def record_completion_def Let_def split: option.splits)
  have hit: "fst ?d \<longleftrightarrow> (\<exists>l \<in> snd ` set (loop_lineages (comp_activation c)). \<exists>st. dget (loops s) l = Some st \<and> \<not> loop_fail_fast st)"
    unfolding defer_loop_failure_def frame(1)
    by (auto simp: find_None_iff find_Some_iff split: option.splits) (metis nth_mem)+
  have run: "fail_run env c ?s = Inr s'" using assms(1,2) by (simp add: process_completion_def Let_def)
  show ?thesis
  proof (cases "fst ?d")
    case True
    with run assms(3) have "settle_loop_groups env (snd ?d) = Inr s'" by (simp add: fail_run_def Let_def)
    moreover have "sched_error (snd ?d) = sched_error s \<and> deferred_failures (snd ?d) = deferred_failures s @ [e]"
      using True frame by (auto simp: defer_loop_failure_def split: option.splits)
    ultimately have "sched_error s' = sched_error s \<and> deferred_failures s' = deferred_failures s @ [e]"
      by (rule errors_kept.keep_settle)
    with True show ?thesis unfolding hit [symmetric] by simp
  next
    case False
    with run assms(3) have "s' = ?s\<lparr>sched_error := Some e\<rparr>" by (simp add: fail_run_def Let_def)
    with False frame show ?thesis unfolding hit [symmetric] by simp
  qed
qed

text \<open>
  A break node closes its loop for good: no activation of the loop stays queued, and
  filling the loop starts no further iteration.
\<close>
theorem break_closes_loop:
  assumes "break_of (node_at (env_ir env) n) = Some loop" and "dget (loop_lineages a) loop = Some l"
    and "dget (loops s) l = Some st" and "\<not> loop_closed st"
  shows "(\<forall>m g q. (g, q) \<in> set (pending (close_loop env a n s) m) \<longrightarrow> dget (loop_lineages q) loop \<noteq> Some l) \<and>
    fill_loop_capacity l (close_loop env a n s) = Some (close_loop env a n s)"
proof -
  have "dget (loops (close_loop env a n s)) l = Some (st\<lparr>loop_closed := True\<rparr>)"
    using assms by (simp add: close_loop_def dict_simps)
  then have "fill_loop_capacity l (close_loop env a n s) = Some (close_loop env a n s)"
    by (subst fill_loop_capacity.simps) (simp add: may_fill_def)
  with assms show ?thesis by (simp add: close_loop_def)
qed

section \<open>Running a workflow\<close>

datatype run_error = InvalidIr ir_error | InvalidInputs input_error | SchedulerRaised sched_fault

text \<open>
  \<^verbatim>\<open>execute_workflow\<close>, as the relation between its arguments and what it may return or
  raise: the interleaving, the results of the handlers and the moment of a timeout are
  not determined by the arguments. A loop that never fills does not return.
\<close>
inductive execute_workflow ::
  "py_lib \<Rightarrow> schema_lib \<Rightarrow> schema_validator \<Rightarrow> ir \<Rightarrow> (string, json) dict \<Rightarrow> json list \<Rightarrow>
   prior_run list \<Rightarrow> string option \<Rightarrow> run_error + workflow_result \<Rightarrow> bool"
  for lib schemas validator d supplied evs replay src where
  invalid: "validate_ir_invariants schemas d = Inl e \<Longrightarrow>
    execute_workflow lib schemas validator d supplied evs replay src (Inl (InvalidIr e))"
| empty: "validate_ir_invariants schemas d = Inr () \<Longrightarrow> nodes d = [] \<Longrightarrow>
    execute_workflow lib schemas validator d supplied evs replay src (Inr (empty_result d))"
| bad_inputs: "validate_ir_invariants schemas d = Inr () \<Longrightarrow> nodes d \<noteq> [] \<Longrightarrow>
    prepare_workflow_inputs validator (workflow d) supplied = Inl e \<Longrightarrow>
    execute_workflow lib schemas validator d supplied evs replay src (Inl (InvalidInputs e))"
| finished: "validate_ir_invariants schemas d = Inr () \<Longrightarrow> nodes d \<noteq> [] \<Longrightarrow>
    prepare_workflow_inputs validator (workflow d) supplied = Inr prepared \<Longrightarrow>
    env = \<lparr>env_ir = d, env_lib = lib, env_schemas = schemas, env_inputs = prepared, env_events = evs\<rparr> \<Longrightarrow>
    reachable env replay src (Ended, s) \<Longrightarrow>
    execute_workflow lib schemas validator d supplied evs replay src (Inr (run_result env s))"
| timed_out: "validate_ir_invariants schemas d = Inr () \<Longrightarrow> nodes d \<noteq> [] \<Longrightarrow>
    prepare_workflow_inputs validator (workflow d) supplied = Inr prepared \<Longrightarrow>
    env = \<lparr>env_ir = d, env_lib = lib, env_schemas = schemas, env_inputs = prepared, env_events = evs\<rparr> \<Longrightarrow>
    workflow_timeout_ms (workflow d) \<noteq> None \<Longrightarrow> reachable env replay src (p, s) \<Longrightarrow>
    execute_workflow lib schemas validator d supplied evs replay src (Inr (timeout_result env s))"
| raised: "validate_ir_invariants schemas d = Inr () \<Longrightarrow> nodes d \<noteq> [] \<Longrightarrow>
    prepare_workflow_inputs validator (workflow d) supplied = Inr prepared \<Longrightarrow>
    env = \<lparr>env_ir = d, env_lib = lib, env_schemas = schemas, env_inputs = prepared, env_events = evs\<rparr> \<Longrightarrow>
    reachable env replay src (p, s) \<Longrightarrow> f \<noteq> LoopNeverFills \<Longrightarrow>
    p = AtHead \<and> advance env s = Inl f \<or> p = Waiting \<and> receive_completion env s = Inl f \<Longrightarrow>
    execute_workflow lib schemas validator d supplied evs replay src (Inl (SchedulerRaised f))"

lemma validated_names_distinct:
  assumes "validate_ir_invariants lib d = Inr u"
  shows "distinct (node_ids d)" and "distinct (map output_name (outputs (workflow d)))"
  using assms by (auto simp: validate_ir_invariants_def andThen_eq_Inr duplicate_ids_iff)

lemma run_result_runs: "wr_runs (run_result env s) = records s" "wr_outcome (run_result env s) = Passed \<Longrightarrow> wr_error (run_result env s) = None"
  by (auto simp: run_result_def Let_def split: option.splits sum.splits)

lemma records_budget:
  assumes "reachable env replay src (p, s)" and "env_ok env" and "workflow_max_runs (workflow (env_ir env)) = Some m"
  shows "length (records s) \<le> m"
proof -
  obtain X where "sched_inv env X s" and "p \<noteq> Ended \<longrightarrow> X = outstanding_of s"
    using assms(1,2) by (rule reachable_inv)
  then have "budget_inv env X (run_counts s) (total_runs s) (records s)" by (simp add: sched_inv_def)
  with assms(3) show ?thesis unfolding budget_inv_def by fastforce
qed

text \<open>
  C15. What \<^verbatim>\<open>execute_workflow\<close> returns can be trusted: it never reports more node runs than
  the workflow's limit, and it reports success only without an error, when no node run
  failed and every public output has a value that passes its schema.
\<close>
theorem execute_workflow_result:
  assumes "execute_workflow lib schemas validator d supplied evs replay src (Inr res)"
    and "\<forall>n \<in> set (nodes d). ident_ok (node_id n) \<and> 1 \<le> max_concurrency (execution n)"
  shows "(\<forall>m. workflow_max_runs (workflow d) = Some m \<longrightarrow> length (wr_runs res) \<le> m) \<and>
    (wr_outcome res = Passed \<longrightarrow> wr_error res = None \<and>
       (\<forall>r \<in> set (wr_runs res). result_outcome (rec_result r) \<noteq> Failure) \<and>
       (\<forall>out \<in> set (outputs (workflow d)). \<exists>v. dget (wr_outputs res) (output_name out) = Some v \<and>
          instance_matches_schema schemas (output_decl_schema out) v))"
  using assms(1)
proof (cases rule: execute_workflow.cases)
  case empty
  then show ?thesis by (simp add: empty_result_def)
next
  case (finished prepared env s)
  then have ok: "env_ok env" using assms(2) validated_names_distinct by (auto simp: env_ok_def)
  show ?thesis
    using passed_run_facts [OF finished(6) ok] records_budget [OF finished(6) ok] finished
      validated_names_distinct(2) [OF finished(2)]
    by (simp add: run_result_runs)
next
  case (timed_out prepared env p s)
  then have "env_ok env" using assms(2) validated_names_distinct by (auto simp: env_ok_def)
  then show ?thesis using records_budget timed_out by (auto simp: timeout_result_def)
qed

end
