(* ===== verification/Scheduler_Sample.thy ===== *)
theory Scheduler_Sample
  imports Scheduler_Results
begin

text \<open>
  A small workflow, run to its end: a loop node \<^verbatim>\<open>l\<close> with two items that starts a node \<^verbatim>\<open>b\<close> for
  each of them. The properties of \<open>Scheduler_Run\<close> and \<open>Scheduler_Results\<close> are applied to the
  states of this run.
\<close>

section \<open>The workflow and its run\<close>

definition sample_ir :: ir where
  "sample_ir = (plain_ir
     [(plain_node ''l'' ''loop'')\<lparr>execution := plain_execution\<lparr>initial_activation := True\<rparr>,
        routes := [\<lparr>target = ''b'', mode = Unconditional, eligible_outcomes = [Success]\<rparr>]\<rparr>,
      (plain_node ''b'' ''t'')\<lparr>execution := plain_execution\<lparr>finish := Some FinishPass\<rparr>,
        readiness := \<lparr>needs = [''l''], incoming_route_sources = [''l'']\<rparr>\<rparr>])
     \<lparr>ir_version := JInt 1, rattish_version := JInt 1,
      dependencies := map (\<lambda>t. \<lparr>dep_kind = NodeContractDep, dep_id = t, dep_version = JInt 1, dep_fingerprint = []\<rparr>)
        [''loop'', ''t''],
      workflow := (workflow (plain_ir []))\<lparr>workflow_max_runs := Some 3, outputs :=
        [\<lparr>output_name = ''o'', output_source = \<lparr>root = NodeRoot, symbol = Some ''b'', channel = Some OutputChannel,
           path = [], optional = False, ref_schema = JObj []\<rparr>, output_decl_schema = JObj []\<rparr>]\<rparr>,
      source_map_nodes := [''l'', ''b'']\<rparr>"

definition sample_env :: sched_env where
  "sample_env = \<lparr>env_ir = sample_ir, env_lib = token_lib, env_schemas = plain_schema_lib, env_inputs = [],
     env_events = []\<rparr>"

lemma sample_ir_valid: "validate_ir_invariants plain_schema_lib sample_ir = Inr ()"
  by code_simp

lemma sample_nodes_ok: "\<forall>n \<in> set (nodes sample_ir). ident_ok (node_id n) \<and> 1 \<le> max_concurrency (execution n)"
  by (simp add: sample_ir_def plain_simps ident_ok_def is_digit_def)

lemma sample_env_ok: "env_ok sample_env"
  using sample_nodes_ok validated_names_distinct [OF sample_ir_valid] by (simp add: env_ok_def sample_env_def)

text \<open>The first task in flight begins and completes with a result.\<close>
definition complete_first :: "node_result \<Rightarrow> sched \<Rightarrow> sched" where
  "complete_first r s =
     (let t = (hd (in_flight s))\<lparr>task_begun := True\<rparr>
      in s\<lparr>events := events s @ [task_event (hd (in_flight s)) (NodeStarted (task_attempt (hd (in_flight s)) + 1))],
           in_flight := tl (in_flight s),
           stream := stream s @ [task_completion t [] [] 0 r]\<rparr>)"

text \<open>Rounds of the main loop, each with the completion of the first task in flight.\<close>
fun sample_rounds :: "node_result list \<Rightarrow> sched \<Rightarrow> sched option" where
  "sample_rounds [] s = Some s"
| "sample_rounds (r # rs) s =
     (case advance sample_env s of
        Inr (Waiting, s1) \<Rightarrow>
          if in_flight s1 = [] \<or> task_begun (hd (in_flight s1)) \<or> \<not> last_attempt sample_env (hd (in_flight s1)) r
          then None
          else (case receive_completion sample_env (complete_first r s1) of
                  Inr (AtHead, s2) \<Rightarrow> sample_rounds rs s2
                | _ \<Rightarrow> None)
      | _ \<Rightarrow> None)"

lemma complete_first_reachable:
  assumes "reachable env replay src (p, s)" and "p \<noteq> Ended" and "in_flight s \<noteq> []"
    and "\<not> task_begun (hd (in_flight s))" and "last_attempt env (hd (in_flight s)) r"
  shows "reachable env replay src (p, complete_first r s)"
proof -
  obtain t ts where ts: "in_flight s = t # ts" using assms(3) by (cases "in_flight s") auto
  let ?e = "[task_event t (NodeStarted (task_attempt t + 1))]"
  let ?s = "s\<lparr>in_flight := t\<lparr>task_begun := True\<rparr> # ts, events := events s @ ?e\<rparr>"
  have "run_step env (p, s) (p, ?s)"
    using run_step.begin_attempt [of p 0 s "t\<lparr>task_begun := True\<rparr>" ?e env] assms ts by (simp add: begin_task_def)
  moreover have "run_step env (p, ?s) (p, complete_first r s)"
    using run_step.complete_task [of p 0 ?s env r "[]" "[]" 0] assms ts
    by (simp add: complete_first_def Let_def last_attempt_def)
  ultimately show ?thesis using assms(1) reachable.step by blast
qed

lemma sample_rounds_reachable:
  assumes "reachable sample_env replay src (AtHead, s)" and "sample_rounds rs s = Some s'"
  shows "reachable sample_env replay src (AtHead, s')"
  using assms
proof (induction rs s rule: sample_rounds.induct)
  case (2 r rs s)
  obtain s1 s2 where s1: "advance sample_env s = Inr (Waiting, s1)"
    and ready: "in_flight s1 \<noteq> []" "\<not> task_begun (hd (in_flight s1))" "last_attempt sample_env (hd (in_flight s1)) r"
    and s2: "receive_completion sample_env (complete_first r s1) = Inr (AtHead, s2)"
    and rest: "sample_rounds rs s2 = Some s'"
    using 2(3) by (auto split: sum.splits prod.splits phase.splits if_splits)
  have "reachable sample_env replay src (Waiting, complete_first r s1)"
    using reachable.step [OF 2(2) run_step.advance [OF s1]] ready by (intro complete_first_reachable) auto
  then have "reachable sample_env replay src (AtHead, s2)"
    using run_step.receive [OF _ s2] reachable.step by (fastforce simp: complete_first_def Let_def)
  with 2(1) s1 s2 ready rest show ?case by simp
qed simp

definition sample_result :: "string \<Rightarrow> json \<Rightarrow> node_result" where
  "sample_result n v = \<lparr>result_node_id = n, result_outcome = Success, result_output = v, result_error = None\<rparr>"

definition sample_results :: "node_result list" where
  "sample_results =
     [sample_result ''l'' (JObj [(''items'', JList [JObj [], JObj []]), (''max_concurrency'', JInt 2)]),
      sample_result ''b'' JNull, sample_result ''b'' (JInt 2)]"

text \<open>The state after the first \<open>k\<close> completions.\<close>
definition sample_state :: "nat \<Rightarrow> sched" where
  "sample_state k = (case sample_rounds (take k sample_results) (initial_sched sample_env [] None) of
     Some s \<Rightarrow> s | None \<Rightarrow> new_sched [] None)"

lemma sample_state_reachable:
  assumes "sample_rounds (take k sample_results) (initial_sched sample_env [] None) \<noteq> None"
  shows "reachable sample_env [] None (AtHead, sample_state k)"
  using assms sample_rounds_reachable [OF reachable.start] by (auto simp: sample_state_def)

lemma sample_start_reachable: "reachable sample_env [] None (AtHead, sample_state 0)"
  by (rule sample_state_reachable) simp

lemma sample_first_reachable: "reachable sample_env [] None (AtHead, sample_state 1)"
  by (rule sample_state_reachable) code_simp

text \<open>What the witnesses need of the state after the first completion, and of the last state.\<close>
lemma sample_first_state:
  "map (\<lambda>t. (task_node t, task_activation t)) (in_flight (sample_state 1)) =
     [(''b'', \<lparr>group_id = ''initial:l:loop:l:1:iteration:0'', act_sequence = 2,
        lineage_id = ''initial:l:loop:l:1:iteration:0'', scoped_outputs = [(''l'', JObj [(''index'', JInt 0)])],
        loop_lineages = [(''l'', ''initial:l:loop:l:1'')]\<rparr>)]"
  by code_simp

lemma sample_first_queue: "map fst (pending (sample_state 1) ''b'') = [''initial:l:loop:l:1:iteration:1'']"
  by code_simp

lemma sample_first_loop: "map_option next_index (dget (loops (sample_state 1)) ''initial:l:loop:l:1'') = Some 2"
  by code_simp

lemma sample_last:
  "sample_rounds (take 3 sample_results) (initial_sched sample_env [] None) \<noteq> None \<and>
   map_sum id fst (advance sample_env (sample_state 3)) = Inr Ended"
  by code_simp

section \<open>The properties at these states\<close>

theorem run_budget_witness: "total_runs (sample_state 0) \<le> 3"
  using run_budget [OF sample_start_reachable sample_env_ok] by (simp add: sample_env_def sample_ir_def)

theorem concurrency_limit_witness: "card (running_groups (sample_state 0) ''l'') \<le> 1"
  using concurrency_limit [OF sample_start_reachable sample_env_ok, of "''l''"]
  by (simp add: sample_env_def sample_ir_def node_at_def node_of_def plain_simps)

theorem never_waits_in_vain_witness:
  "\<exists>s. reachable sample_env [] None (Waiting, s) \<and> (in_flight s \<noteq> [] \<or> stream s \<noteq> [])"
proof -
  have "map_sum id fst (advance sample_env (sample_state 0)) = Inr Waiting" by code_simp
  then obtain s where "advance sample_env (sample_state 0) = Inr (Waiting, s)"
    by (cases "advance sample_env (sample_state 0)") auto
  then have r: "reachable sample_env [] None (Waiting, s)"
    using reachable.step [OF sample_start_reachable run_step.advance] by blast
  from never_waits_in_vain [OF r sample_env_ok] r show ?thesis by blast
qed

theorem join_safety_witness: "\<exists>r \<in> set (records (sample_state 1)). rec_node r = ''l'' \<and> result_outcome (rec_result r) \<noteq> Failure"
proof -
  obtain t where "in_flight (sample_state 1) = [t]" "task_node t = ''b''"
    using sample_first_state by auto
  then have "(''b'', task_activation t) \<in># outstanding_of (sample_state 1)"
    by (simp add: outstanding_of_def)
  then show ?thesis
    by (rule join_safety [OF sample_first_reachable sample_env_ok phase.distinct(3)])
      (simp add: needs_of_def sample_env_def sample_ir_def node_at_def node_of_def plain_simps)
qed

theorem queue_well_formed_witness:
  "\<exists>a. (''initial:l:loop:l:1:iteration:1'', a) \<in> set (pending (sample_state 1) ''b'') \<and>
     ''initial:l:loop:l:1:iteration:1'' \<notin> running_groups (sample_state 1) ''b''"
proof -
  from sample_first_queue obtain a where a: "(''initial:l:loop:l:1:iteration:1'', a) \<in> set (pending (sample_state 1) ''b'')"
    by (cases "pending (sample_state 1) ''b''") auto
  from queue_well_formed [OF sample_first_reachable sample_env_ok a a] a show ?thesis by blast
qed



lemma sample_ended: "reachable sample_env [] None (Ended, snd (projr (advance sample_env (sample_state 3))))"
proof -
  from sample_last obtain s where "advance sample_env (sample_state 3) = Inr (Ended, s)"
    by (cases "advance sample_env (sample_state 3)") auto
  with reachable.step [OF sample_state_reachable run_step.advance] sample_last show ?thesis by simp
qed

lemma sample_passed: "wr_outcome (run_result sample_env (snd (projr (advance sample_env (sample_state 3))))) = Passed"
  by code_simp

theorem passed_run_complete_witness: "in_flight (snd (projr (advance sample_env (sample_state 3)))) = []"
  using passed_run_complete [OF sample_ended sample_env_ok sample_passed]
    validated_names_distinct(2) [OF sample_ir_valid] by (simp add: sample_env_def)

theorem execute_workflow_result_witness:
  "\<exists>res. execute_workflow token_lib plain_schema_lib (\<lambda>s v. Inr None) sample_ir [] [] [] None (Inr res) \<and>
     wr_outcome res = Passed \<and> (\<exists>v. dget (wr_outputs res) ''o'' = Some v)"
proof -
  let ?res = "run_result sample_env (snd (projr (advance sample_env (sample_state 3))))"
  have run: "execute_workflow token_lib plain_schema_lib (\<lambda>s v. Inr None) sample_ir [] [] [] None (Inr ?res)"
    by (rule execute_workflow.finished [OF sample_ir_valid _ _ sample_env_def sample_ended])
      (simp_all add: sample_ir_def plain_simps prepare_workflow_inputs_def declarations_def need_def)
  have "\<exists>v. dget (wr_outputs ?res) ''o'' = Some v"
    using execute_workflow_result [OF run sample_nodes_ok] sample_passed by (auto simp: sample_ir_def plain_simps)
  with run sample_passed show ?thesis by blast
qed

text \<open>A resumed run of the same workflow, with the saved record of the loop node.\<close>
definition sample_prior :: prior_run where
  "sample_prior = \<lparr>prior_node = ''l'', prior_group = ''initial:l'', prior_lineage = ''root'', prior_outcome = Success,
     prior_output = JObj [(''items'', JList [JObj []])], prior_error = None, prior_started = [], prior_finished = [],
     prior_duration = 0\<rparr>"

definition sample_resumed :: sched where
  "sample_resumed = snd (projr (advance sample_env (initial_sched sample_env [sample_prior] (Some ''run''))))"

theorem reused_records_are_saved_results_witness:
  "\<exists>r \<in> set (records sample_resumed). reused_from r = Some ''run'' \<and> result_output (rec_result r) = prior_output sample_prior"
proof -
  have "map_sum id fst (advance sample_env (initial_sched sample_env [sample_prior] (Some ''run''))) = Inr AtHead"
    by code_simp
  then have "advance sample_env (initial_sched sample_env [sample_prior] (Some ''run'')) = Inr (AtHead, sample_resumed)"
    unfolding sample_resumed_def
    by (cases "advance sample_env (initial_sched sample_env [sample_prior] (Some ''run''))") auto
  then have run: "reachable sample_env [sample_prior] (Some ''run'') (AtHead, sample_resumed)"
    using reachable.step [OF reachable.start run_step.advance] by blast
  have "map reused_from (records sample_resumed) = [Some ''run'']" by code_simp
  then obtain r where r: "r \<in> set (records sample_resumed)" "reused_from r = Some ''run''" by auto
  from reused_records_are_saved_results [OF run sample_env_ok r(1)] r show ?thesis by auto
qed

definition sample_failure :: completion where
  "sample_failure = \<lparr>comp_activation = \<lparr>group_id = ''initial:l'', act_sequence = 1, lineage_id = ''root'',
       scoped_outputs = [], loop_lineages = []\<rparr>,
     comp_record = \<lparr>rec_node = ''l'', rec_run = 1, rec_lineage = ''root'', rec_group = ''initial:l'', rec_started = [],
       rec_finished = [], rec_duration = 0,
       rec_result = (sample_result ''l'' JNull)\<lparr>result_outcome := Failure,
         result_error := Some \<lparr>kind = ''k'', code = ''c'', message = ''m'', details = []\<rparr>\<rparr>,
       reused_from = None\<rparr>\<rparr>"

theorem failure_ends_run_or_is_deferred_witness:
  "\<exists>s. process_completion sample_env sample_failure (new_sched [] None) = Inr s \<and> map_option code (sched_error s) = Some ''c''"
proof -
  obtain s where s: "process_completion sample_env sample_failure (new_sched [] None) = Inr s"
    by (simp add: process_completion_def fail_run_def defer_loop_failure_def sample_failure_def Let_def)
  have "result_outcome (rec_result (comp_record sample_failure)) = Failure"
    "result_error (rec_result (comp_record sample_failure)) = Some \<lparr>kind = ''k'', code = ''c'', message = ''m'', details = []\<rparr>"
    by (simp_all add: sample_failure_def)
  from failure_ends_run_or_is_deferred [OF s this] s show ?thesis by (simp add: sample_failure_def)
qed

theorem break_closes_loop_witness:
  "let env = sample_env\<lparr>env_ir := plain_ir [(plain_node ''k'' ''break'')\<lparr>break_of := Some ''l''\<rparr>]\<rparr>;
       a = \<lparr>group_id = ''g'', act_sequence = 1, lineage_id = ''g'', scoped_outputs = [], loop_lineages = [(''l'', ''r'')]\<rparr>;
       st = \<lparr>loop_node = ''l'', loop_lineage = ''r'', loop_items = [[]], loop_infinite = False, loop_max_concurrency = 1,
         loop_fail_fast = True, loop_routes = [], parent_outputs = [], parent_lineages = [],
         parent_lineage_id = ''root'', next_index = 0, loop_closed = False, active_groups = {}\<rparr>;
       s = (new_sched [] None)\<lparr>loops := [(''r'', st)]\<rparr>
   in fill_loop_capacity ''r'' (close_loop env a ''k'' s) = Some (close_loop env a ''k'' s)"
  unfolding Let_def
  by (rule break_closes_loop [where loop = "''l''", THEN conjunct2])
    (simp add: node_at_def node_of_def plain_simps)+

end
