(* ===== verification/Base64.thy ===== *)
theory Base64
  imports Json_Text
begin

text \<open>
  The part of Python's \<^verbatim>\<open>base64\<close> and \<^verbatim>\<open>re\<close> modules that the device protocol uses: the URL-safe
  encoding without padding, its decoder, and the two patterns the protocol checks texts
  against. The laws of an encoding are the locale \<open>codec\<close>, interpreted on base64.
\<close>

section \<open>The alphabet\<close>

definition b64_char :: "nat \<Rightarrow> char" where
  "b64_char n =
     (if n < 26 then char_of (65 + n) else if n < 52 then char_of (71 + n)
      else if n < 62 then char_of (n - 4) else if n = 62 then CHR ''-'' else CHR ''_'')"

definition b64_value :: "char \<Rightarrow> nat option" where
  "b64_value c =
     (if 65 \<le> ord c \<and> ord c \<le> 90 then Some (ord c - 65)
      else if 97 \<le> ord c \<and> ord c \<le> 122 then Some (ord c - 71)
      else if 48 \<le> ord c \<and> ord c \<le> 57 then Some (ord c + 4)
      else if c = CHR ''-'' then Some 62 else if c = CHR ''_'' then Some 63 else None)"

lemma b64_value_char [simp]: "n < 64 \<Longrightarrow> b64_value (b64_char n) = Some n"
proof -
  assume "n < 64"
  then consider "n < 26" | "26 \<le> n" "n < 52" | "52 \<le> n" "n < 62" | "n = 62" | "n = 63" by linarith
  then show ?thesis by cases (auto simp: b64_char_def b64_value_def)
qed

text \<open>\<^verbatim>\<open>re.fullmatch(r"[A-Za-z0-9_-]+", s)\<close>\<close>
definition b64_text :: "string \<Rightarrow> bool" where
  "b64_text s \<longleftrightarrow> s \<noteq> [] \<and> list_all (\<lambda>c. b64_value c \<noteq> None) s"

section \<open>Encoding and decoding\<close>

text \<open>\<^verbatim>\<open>base64.urlsafe_b64encode(data).rstrip(b"=")\<close>\<close>
fun b64_encode :: "string \<Rightarrow> string" where
  "b64_encode [] = []"
| "b64_encode [a] = [b64_char (ord a div 4), b64_char (ord a mod 4 * 16)]"
| "b64_encode [a, b] =
     [b64_char (ord a div 4), b64_char (ord a mod 4 * 16 + ord b div 16), b64_char (ord b mod 16 * 4)]"
| "b64_encode (a # b # c # s) =
     b64_char (ord a div 4) # b64_char (ord a mod 4 * 16 + ord b div 16) #
     b64_char (ord b mod 16 * 4 + ord c div 64) # b64_char (ord c mod 64) # b64_encode s"

text \<open>
  \<^verbatim>\<open>base64.b64decode(s + "=" * (-len(s) % 4), altchars=b"-_", validate=True)\<close>: the unused bits
  of the last character are ignored, and a single left-over character is an error.
\<close>
fun b64_decode :: "string \<Rightarrow> string option" where
  "b64_decode [] = Some []"
| "b64_decode [p] = None"
| "b64_decode [p, q] =
     (case (b64_value p, b64_value q) of
        (Some w, Some x) \<Rightarrow> Some [char_of (w * 4 + x div 16)]
      | _ \<Rightarrow> None)"
| "b64_decode [p, q, r] =
     (case (b64_value p, b64_value q, b64_value r) of
        (Some w, Some x, Some y) \<Rightarrow> Some [char_of (w * 4 + x div 16), char_of (x mod 16 * 16 + y div 4)]
      | _ \<Rightarrow> None)"
| "b64_decode (p # q # r # t # s) =
     (case (b64_value p, b64_value q, b64_value r, b64_value t) of
        (Some w, Some x, Some y, Some z) \<Rightarrow>
          map_option (\<lambda>bs. char_of (w * 4 + x div 16) # char_of (x mod 16 * 16 + y div 4) #
            char_of (y mod 4 * 64 + z) # bs) (b64_decode s)
      | _ \<Rightarrow> None)"

lemma ord_less [simp]: "ord c < 256"
  using of_char_mod_256 [of c] by (metis mod_less_divisor zero_less_numeral)

lemma ord_pieces [simp]: "ord c div 4 < 64" "ord c div 16 < 16" "ord c div 64 < 4"
  using ord_less [of c] by linarith+

lemma b64_merge:
  "(ord a mod 4 * 16 + ord b div 16) div 16 = ord a mod 4" "(ord a mod 4 * 16 + ord b div 16) mod 16 = ord b div 16"
  "(ord a mod 16 * 4 + ord b div 64) div 4 = ord a mod 16" "(ord a mod 16 * 4 + ord b div 64) mod 4 = ord b div 64"
  "ord a mod 4 * 16 + ord b div 16 < 64" "ord a mod 16 * 4 + ord b div 64 < 64"
  using ord_pieces [of b] by (simp_all, linarith+)

lemma b64_bytes:
  "char_of (ord a div 4 * 4 + ord a mod 4) = a" "char_of (ord a div 16 * 16 + ord a mod 16) = a"
  "char_of (ord a div 64 * 64 + ord a mod 64) = a"
  by simp_all

lemma b64_decode_encode: "b64_decode (b64_encode bs) = Some bs"
proof (induction bs rule: b64_encode.induct)
  case (2 a)
  have "ord a mod 4 * 16 < 64" by simp
  then show ?case by (simp add: b64_bytes)
next
  case (3 a b)
  have "ord b mod 16 * 4 < 64" by simp
  then show ?case using b64_merge by (simp add: b64_bytes)
next
  case (4 a b c s)
  then show ?case using b64_merge by (simp add: b64_bytes)
qed simp

lemma b64_encode_text: "bs \<noteq> [] \<Longrightarrow> b64_text (b64_encode bs)"
proof (induction bs rule: b64_encode.induct)
  case (4 a b c s)
  then show ?case using b64_merge by (cases "s = []") (simp_all add: b64_text_def)
next
  case (2 a)
  have "ord a mod 4 * 16 < 64" by simp
  then show ?case by (simp add: b64_text_def)
next
  case (3 a b)
  have "ord b mod 16 * 4 < 64" by simp
  then show ?case using b64_merge by (simp add: b64_text_def)
qed simp

lemma b64_encode_length: "3 * length (b64_encode bs) \<le> 4 * length bs + 4"
  by (induction bs rule: b64_encode.induct) simp_all

section \<open>Codecs\<close>

text \<open>What a user of an encoding relies on: reading back what was written.\<close>
locale codec =
  fixes encode :: "'a \<Rightarrow> 'b" and decode :: "'b \<Rightarrow> 'a option"
  assumes decode_encode: "decode (encode x) = Some x"
begin

lemma encode_inject: "encode x = encode y \<longleftrightarrow> x = y"
  using decode_encode by (metis option.inject)

text \<open>The check \<^verbatim>\<open>encode(decode(s)) == s\<close> accepts exactly the texts the encoder writes.\<close>
lemma canonical_iff: "(\<exists>x. decode s = Some x \<and> encode x = s) \<longleftrightarrow> s \<in> range encode"
  using decode_encode by auto

end

interpretation b64: codec b64_encode b64_decode
  by unfold_locales (rule b64_decode_encode)

section \<open>Patterns\<close>

definition lower_hex :: "char \<Rightarrow> bool" where
  "lower_hex c \<longleftrightarrow> 48 \<le> ord c \<and> ord c \<le> 57 \<or> 97 \<le> ord c \<and> ord c \<le> 102"

text \<open>\<^verbatim>\<open>[0-9a-f]{8}(?:-[0-9a-f]{4}){3}-[0-9a-f]{12}\<close>, the canonical text of a UUID\<close>
definition is_uuid :: "string \<Rightarrow> bool" where
  "is_uuid s \<longleftrightarrow> length s = 36 \<and>
     list_all (\<lambda>i. if i \<in> {8, 13, 18, 23} then s ! i = CHR ''-'' else lower_hex (s ! i)) [0..<36]"

end
