(* ===== verification/Framing.thy ===== *)
theory Framing
  imports Base64
begin

text \<open>
  \<^verbatim>\<open>devices/framing.py\<close>: strict JSON, the carrier frames of the device protocol, their
  reassembly and the records inside the authenticated byte stream. Byte strings are
  \<open>string\<close>; times are rational numbers of seconds.

  A number too large for a float, which the code refuses as non-finite after parsing, is
  refused by the parser here (\<open>float_parse\<close> has no infinity).
\<close>

section \<open>Limits\<close>

definition max_frame :: nat where "max_frame = 3072"
definition max_chunk :: nat where "max_chunk = 2048"
definition max_reorder :: nat where "max_reorder = 32"
definition max_reorder_bytes :: nat where "max_reorder_bytes = 65536"
definition gap_seconds :: rat where "gap_seconds = 30"
definition max_record :: nat where "max_record = 65536"
definition max_collection :: nat where "max_collection = 1024"
definition max_integer :: int where "max_integer = 2 ^ 53 - 1"

lemmas limits = max_frame_def max_chunk_def max_reorder_def max_reorder_bytes_def gap_seconds_def
  max_record_def max_collection_def max_integer_def

text \<open>A \<^verbatim>\<open>FrameError\<close> with its code, and the \<^verbatim>\<open>UnicodeEncodeError\<close> of a text with a lone surrogate.\<close>
datatype frame_error = FrameError string | EncodeError

section \<open>Strict JSON\<close>

text \<open>The number of rounds that a stacked value takes.\<close>
fun weight :: "json \<Rightarrow> nat"
  and weight_list :: "json list \<Rightarrow> nat"
  and weight_members :: "(string \<times> json) list \<Rightarrow> nat" where
  "weight (JList xs) = Suc (weight_list xs)"
| "weight (JObj ms) = Suc (weight_members ms)"
| "weight v = 1"
| "weight_list [] = 0"
| "weight_list (x # xs) = weight x + weight_list xs"
| "weight_members [] = 0"
| "weight_members ((k, v) # ms) = Suc (weight v + weight_members ms)"

abbreviation stack_weight :: "(json \<times> nat) list \<Rightarrow> nat" where
  "stack_weight st \<equiv> sum_list (map (weight \<circ> fst) st)"

definition at_depth :: "nat \<Rightarrow> json list \<Rightarrow> (json \<times> nat) list" where
  "at_depth d xs = map (\<lambda>x. (x, d)) xs"

lemma weight_positive [simp]: "0 < weight v"
  by (cases v) auto

lemma weight_list_sum: "weight_list xs = sum_list (map weight xs)"
  by (induction xs) auto

lemma weight_members_sum: "weight_members ms = length ms + sum_list (map (weight \<circ> snd) ms)"
  by (induction ms) auto

lemma stack_weight_depth: "stack_weight (at_depth d xs) = sum_list (map weight xs)"
  by (simp add: at_depth_def o_def)

text \<open>The names of an object are stacked like values, below its values.\<close>
abbreviation pushed_members :: "nat \<Rightarrow> (string \<times> json) list \<Rightarrow> (json \<times> nat) list" where
  "pushed_members d ms \<equiv> rev (at_depth d (map (JStr \<circ> fst) ms) @ at_depth d (map snd ms))"

lemma pushed_weight: "stack_weight (pushed_members d ms) = weight_members ms"
proof -
  have "sum_list (map weight (map (JStr \<circ> fst) ms)) = length ms" by (induction ms) auto
  then show ?thesis
    by (simp only: rev_map [symmetric] map_append sum_list_append sum_list_rev stack_weight_depth weight_members_sum)
      (simp add: o_def)
qed

function check_stack :: "(json \<times> nat) list \<Rightarrow> frame_error + unit" where
  "check_stack [] = Inr ()"
| "check_stack ((item, depth) # st) =
     (if 16 < depth then Inl (FrameError ''json_depth_limit'')
      else case item of
        JObj ms \<Rightarrow>
          if max_collection < length ms then Inl (FrameError ''json_collection_limit'')
          else check_stack (pushed_members (Suc depth) ms @ st)
      | JList xs \<Rightarrow>
          if max_collection < length xs then Inl (FrameError ''json_collection_limit'')
          else check_stack (rev (at_depth (Suc depth) xs) @ st)
      | JStr s \<Rightarrow> if utf8_ok s then check_stack st else Inl (FrameError ''invalid_unicode'')
      | _ \<Rightarrow> check_stack st)"
  by pat_completeness auto
termination
proof (relation "measure stack_weight")
  show "(pushed_members (Suc depth) ms @ st, (item, depth) # st) \<in> measure stack_weight"
    if "item = JObj ms" for item depth st ms
    using that pushed_weight [of "Suc depth" ms] by (simp del: rev_append)
  show "(rev (at_depth (Suc depth) xs) @ st, (item, depth) # st) \<in> measure stack_weight"
    if "item = JList xs" for item depth st xs
    using that stack_weight_depth [of "Suc depth" xs] by (simp add: weight_list_sum rev_map [symmetric])
qed auto

definition strict_json :: "float_io \<Rightarrow> nat \<Rightarrow> string \<Rightarrow> frame_error + json" where
  "strict_json io limit data =
     (if data = [] \<or> limit < length data then Inl (FrameError ''json_size_limit'')
      else case (if utf8_ok data then loads io True data else None) of
        None \<Rightarrow> Inl (FrameError ''invalid_json'')
      | Some v \<Rightarrow>
          if \<not> is_mapping v then Inl (FrameError ''json_object_required'')
          else andThen (check_stack [(v, 0)]) (\<lambda>_. Inr v))"

text \<open>What the stack of \<^verbatim>\<open>strict_json\<close> checks, stated by recursion on the document.\<close>
fun fits :: "nat \<Rightarrow> json \<Rightarrow> bool"
  and fits_list :: "nat \<Rightarrow> json list \<Rightarrow> bool"
  and fits_members :: "nat \<Rightarrow> (string \<times> json) list \<Rightarrow> bool" where
  "fits d (JList xs) = (d \<le> 16 \<and> length xs \<le> max_collection \<and> fits_list (Suc d) xs)"
| "fits d (JObj ms) = (d \<le> 16 \<and> length ms \<le> max_collection \<and> fits_members (Suc d) ms)"
| "fits d (JStr s) = (d \<le> 16 \<and> utf8_ok s)"
| "fits d _ = (d \<le> 16)"
| "fits_list d [] = True"
| "fits_list d (x # xs) = (fits d x \<and> fits_list d xs)"
| "fits_members d [] = True"
| "fits_members d ((k, v) # ms) = (fits d (JStr k) \<and> fits d v \<and> fits_members d ms)"

abbreviation stack_fits :: "(json \<times> nat) list \<Rightarrow> bool" where
  "stack_fits st \<equiv> list_all (\<lambda>(v, d). fits d v) st"

lemma stack_fits_list: "stack_fits (rev (at_depth d xs)) \<longleftrightarrow> fits_list d xs"
  by (induction xs) (auto simp: at_depth_def)

lemma stack_fits_members: "stack_fits (pushed_members d ms) \<longleftrightarrow> fits_members d ms"
  by (induction ms) (auto simp: at_depth_def)

lemma fits_depth: "fits d v \<Longrightarrow> d \<le> 16"
  by (cases v) auto

lemma check_stack_iff: "check_stack st = Inr () \<longleftrightarrow> stack_fits st"
proof (induction st rule: check_stack.induct)
  case (2 item depth st)
  show ?case
  proof (cases "16 < depth")
    case True
    then show ?thesis using fits_depth [of depth item] by auto
  next
    case False
    with 2 show ?thesis
      using stack_fits_list [of "Suc depth"] stack_fits_members [of "Suc depth"]
      by (cases item) (auto simp del: rev_append)
  qed
qed simp

lemma strict_json_iff:
  "strict_json io limit data = Inr v \<longleftrightarrow>
     data \<noteq> [] \<and> length data \<le> limit \<and> utf8_ok data \<and> loads io True data = Some v \<and> is_mapping v \<and> fits 0 v"
  using check_stack_iff [of "[(v, 0)]"]
  by (auto simp: strict_json_def andThen_eq_Inr split: option.splits if_splits)

section \<open>Frames\<close>

record frame =
  frame_session :: string
  frame_mode :: string
  frame_direction :: string
  frame_index :: int
  frame_body :: string

definition directions :: "string list" where
  "directions = [''initiator_to_responder'', ''responder_to_initiator'']"

definition modes :: "string list" where
  "modes = [''pair'', ''resume'']"

definition frame_document :: "frame \<Rightarrow> json" where
  "frame_document f =
     JObj [(''version'', JInt 2), (''session_id'', JStr (frame_session f)), (''mode'', JStr (frame_mode f)),
           (''direction'', JStr (frame_direction f)), (''index'', JInt (frame_index f)),
           (''body'', JStr (b64_encode (frame_body f)))]"

definition frame_fields :: "string list" where
  "frame_fields = [''version'', ''session_id'', ''mode'', ''direction'', ''index'', ''body'']"

text \<open>\<^verbatim>\<open>value[key]\<close> as a text that passes a test\<close>
definition text_field :: "json \<Rightarrow> string \<Rightarrow> (string \<Rightarrow> bool) \<Rightarrow> string \<Rightarrow> frame_error + string" where
  "text_field v k ok e =
     (case jget v k of Some (JStr s) \<Rightarrow> if ok s then Inr s else Inl (FrameError e) | _ \<Rightarrow> Inl (FrameError e))"

definition index_field :: "json \<Rightarrow> frame_error + int" where
  "index_field v =
     (case jget v ''index'' of
        Some (JInt i) \<Rightarrow> if 0 \<le> i \<and> i \<le> max_integer then Inr i else Inl (FrameError ''frame_index'')
      | _ \<Rightarrow> Inl (FrameError ''frame_index''))"

definition body_of :: "string \<Rightarrow> frame_error + string" where
  "body_of encoded =
     (case b64_decode encoded of
        None \<Rightarrow> Inl (FrameError ''frame_base64'')
      | Some body \<Rightarrow>
          if b64_encode body \<noteq> encoded then Inl (FrameError ''frame_base64'')
          else if 1 \<le> length body \<and> length body \<le> max_chunk then Inr body
          else Inl (FrameError ''frame_chunk_limit''))"

definition decode_frame :: "float_io \<Rightarrow> string \<Rightarrow> frame_error + frame" where
  "decode_frame io data =
     andThen (strict_json io max_frame data) (\<lambda>v.
     andThen (need (set (dkeys (members v)) = set frame_fields) (FrameError ''frame_fields'')) (\<lambda>_.
     andThen (need (jget v ''version'' = Some (JInt 2)) (FrameError ''frame_version'')) (\<lambda>_.
     andThen (text_field v ''session_id'' is_uuid ''frame_session'') (\<lambda>session.
     andThen (text_field v ''mode'' (\<lambda>s. s \<in> set modes) ''frame_mode'') (\<lambda>m.
     andThen (text_field v ''direction'' (\<lambda>s. s \<in> set directions) ''frame_direction'') (\<lambda>direction.
     andThen (index_field v) (\<lambda>index.
     andThen (text_field v ''body'' b64_text ''frame_base64'') (\<lambda>encoded.
     andThen (body_of encoded) (\<lambda>body.
       Inr \<lparr>frame_session = session, frame_mode = m, frame_direction = direction, frame_index = index,
            frame_body = body\<rparr>)))))))))"

definition encode_frame :: "float_io \<Rightarrow> frame \<Rightarrow> frame_error + string" where
  "encode_frame io f =
     (let data = dumps io esc_ascii (frame_document f) in andThen (decode_frame io data) (\<lambda>_. Inr data))"

text \<open>The frames of the protocol.\<close>
definition frame_ok :: "frame \<Rightarrow> bool" where
  "frame_ok f \<longleftrightarrow> is_uuid (frame_session f) \<and> frame_mode f \<in> set modes \<and> frame_direction f \<in> set directions \<and>
     0 \<le> frame_index f \<and> frame_index f \<le> max_integer \<and> 1 \<le> length (frame_body f) \<and> length (frame_body f) \<le> max_chunk"

lemma text_field_iff:
  "text_field v k ok e = Inr s \<longleftrightarrow> jget v k = Some (JStr s) \<and> ok s"
  by (auto simp: text_field_def split: option.splits json.splits)

lemma index_field_iff:
  "index_field v = Inr i \<longleftrightarrow> jget v ''index'' = Some (JInt i) \<and> 0 \<le> i \<and> i \<le> max_integer"
  by (auto simp: index_field_def split: option.splits json.splits)

lemma body_of_iff:
  "body_of t = Inr b \<longleftrightarrow> t = b64_encode b \<and> 1 \<le> length b \<and> length b \<le> max_chunk"
  by (auto simp: body_of_def b64_decode_encode split: option.splits if_splits)

lemma decode_frame_ok: "decode_frame io data = Inr f \<Longrightarrow> frame_ok f"
  by (auto simp: decode_frame_def andThen_eq_Inr text_field_iff index_field_iff body_of_iff frame_ok_def)

text \<open>Printable ASCII without quotes and backslashes stands for itself in JSON text.\<close>
definition plain_char :: "char \<Rightarrow> bool" where
  "plain_char c \<longleftrightarrow> 32 \<le> ord c \<and> ord c < 127 \<and> ord c \<noteq> 34 \<and> ord c \<noteq> 92"

lemma utf8_dec_ascii: "list_all (\<lambda>c. ord c < 128) s \<Longrightarrow> utf8_dec s = map ord s"
  by (induction s) auto

lemma utf8_enc_ascii: "ord c < 128 \<Longrightarrow> utf8_enc (ord c) = [c]"
  by (simp add: utf8_enc_def)

lemma utf8_ok_ascii: "list_all (\<lambda>c. ord c < 128) s \<Longrightarrow> utf8_ok s"
proof -
  assume s: "list_all (\<lambda>c. ord c < 128) s"
  then have "utf8_encode (map ord s) = s" by (induction s) (auto simp: utf8_encode_def utf8_enc_ascii)
  with s show ?thesis by (auto simp: utf8_ok_def utf8_dec_ascii list_all_iff scalar_def)
qed

lemma plain_ascii: "list_all plain_char s \<Longrightarrow> list_all (\<lambda>c. ord c < 128) s"
  by (induction s) (auto simp: plain_char_def)

lemma esc_plain: "plain_char c \<Longrightarrow> esc_ascii (ord c) = [c]"
  by (auto simp: plain_char_def esc_ascii_def esc_raw_def utf8_enc_ascii)

lemma json_string_plain: "list_all plain_char s \<Longrightarrow> json_string esc_ascii s = CHR 0x22 # s @ [CHR 0x22]"
proof -
  assume s: "list_all plain_char s"
  have "concat (map esc_ascii (map ord s)) = s" using s by (induction s) (auto simp: esc_plain)
  with s show ?thesis by (simp add: json_string_def utf8_dec_ascii plain_ascii)
qed

lemma utf8_ok_plain: "list_all plain_char s \<Longrightarrow> utf8_ok s"
  by (rule utf8_ok_ascii) (rule plain_ascii)

lemma length_show_nat: "n < 10 ^ Suc k \<Longrightarrow> length (show_nat n) \<le> Suc k"
proof (induction n arbitrary: k rule: show_nat.induct)
  case (1 n)
  show ?case
  proof (cases "n < 10")
    case False
    with "1.prems" obtain j where k: "k = Suc j" by (cases k) auto
    have "n div 10 < 10 ^ Suc j" using "1.prems" k by (simp add: div_less_iff_less_mult mult.commute)
    from "1.IH" [OF False this] False k show ?thesis by (simp add: show_nat.simps [of n])
  qed (simp add: show_nat.simps [of n])
qed

lemma index_text:
  assumes "0 \<le> i" and "i \<le> max_integer"
  shows "length (show_int i) \<le> 16" and "list_all plain_char (show_int i)"
proof -
  have "nat i < 10 ^ Suc 15" using assms by (simp add: max_integer_def)
  from length_show_nat [OF this] assms(1) show "length (show_int i) \<le> 16" by (simp add: show_int_def)
  show "list_all plain_char (show_int i)"
    using show_nat_digits [of "nat i"] assms(1) by (auto simp: list_all_iff show_int_def is_digit_def plain_char_def)
qed

lemma uuid_text: "is_uuid s \<Longrightarrow> list_all plain_char s \<and> length s = 36"
proof -
  assume s: "is_uuid s"
  have "plain_char (s ! i)" if "i < 36" for i
  proof -
    have "if i \<in> {8, 13, 18, 23} then s ! i = CHR ''-'' else lower_hex (s ! i)"
      using s that unfolding is_uuid_def list_all_iff by (metis atLeastLessThan_iff set_upt zero_le)
    moreover have "plain_char (CHR ''-'')" by (simp add: plain_char_def)
    moreover have "lower_hex c \<Longrightarrow> plain_char c" for c by (auto simp: lower_hex_def plain_char_def)
    ultimately show ?thesis by metis
  qed
  with s show ?thesis by (simp add: is_uuid_def list_all_length)
qed

lemma b64_value_plain: "b64_value c \<noteq> None \<Longrightarrow> plain_char c"
  by (auto simp: b64_value_def plain_char_def split: if_splits)

lemma b64_text_plain: "b64_text s \<Longrightarrow> list_all plain_char s"
  unfolding b64_text_def by (blast intro: list.pred_mono_strong b64_value_plain)

lemma mode_text: "s \<in> set modes \<Longrightarrow> list_all plain_char s \<and> length s \<le> 6"
  by (auto simp: modes_def plain_char_def)

lemma direction_text: "s \<in> set directions \<Longrightarrow> list_all plain_char s \<and> length s \<le> 22"
  by (auto simp: directions_def plain_char_def)

lemma frame_texts:
  assumes "frame_ok f"
  shows "list_all plain_char (frame_session f)" "list_all plain_char (frame_mode f)"
    "list_all plain_char (frame_direction f)" "list_all plain_char (show_int (frame_index f))"
    "list_all plain_char (b64_encode (frame_body f))"
proof -
  have "frame_body f \<noteq> []" using assms by (auto simp: frame_ok_def)
  then show "list_all plain_char (b64_encode (frame_body f))" by (intro b64_text_plain b64_encode_text)
qed (use assms uuid_text mode_text direction_text index_text in \<open>auto simp: frame_ok_def\<close>)

lemma field_names: "list_all (list_all plain_char) frame_fields"
  by (simp add: frame_fields_def plain_char_def)

lemma dumps_frame:
  assumes "frame_ok f"
  shows "dumps io esc_ascii (frame_document f) =
    ''{'' @ CHR 0x22 # ''version'' @ CHR 0x22 # '':2,'' @ CHR 0x22 # ''session_id'' @ CHR 0x22 # '':'' @
    CHR 0x22 # frame_session f @ CHR 0x22 # '','' @ CHR 0x22 # ''mode'' @ CHR 0x22 # '':'' @
    CHR 0x22 # frame_mode f @ CHR 0x22 # '','' @ CHR 0x22 # ''direction'' @ CHR 0x22 # '':'' @
    CHR 0x22 # frame_direction f @ CHR 0x22 # '','' @ CHR 0x22 # ''index'' @ CHR 0x22 # '':'' @
    show_int (frame_index f) @ '','' @ CHR 0x22 # ''body'' @ CHR 0x22 # '':'' @
    CHR 0x22 # b64_encode (frame_body f) @ CHR 0x22 # ''}''"
proof -
  have "show_int 2 = ''2''" by code_simp
  then show ?thesis
    using frame_texts [OF assms] field_names
    by (simp add: frame_document_def json_string_plain frame_fields_def)
qed

lemma frame_text_length:
  assumes "frame_ok f"
  shows "length (dumps io esc_ascii (frame_document f)) \<le> max_frame"
proof -
  have "length (frame_session f) = 36" "length (frame_mode f) \<le> 6" "length (frame_direction f) \<le> 22"
    "length (show_int (frame_index f)) \<le> 16"
    using assms uuid_text mode_text direction_text index_text by (auto simp: frame_ok_def)
  moreover have "3 * length (b64_encode (frame_body f)) \<le> 4 * 2048 + 4"
    using b64_encode_length [of "frame_body f"] assms by (simp add: frame_ok_def limits)
  ultimately show ?thesis unfolding dumps_frame [OF assms] by (simp add: limits)
qed

lemma frame_text_ascii:
  assumes "frame_ok f"
  shows "utf8_ok (dumps io esc_ascii (frame_document f))"
  by (rule utf8_ok_ascii) (simp add: dumps_frame [OF assms] plain_ascii frame_texts [OF assms])

lemma frame_document_ok:
  assumes "frame_ok f"
  shows "printable io (frame_document f)" and "fits 0 (frame_document f)"
proof -
  have "nat \<bar>frame_index f\<bar> < 10 ^ Suc 15" using assms by (auto simp: frame_ok_def max_integer_def)
  from length_show_nat [OF this] have i: "length (show_nat (nat \<bar>frame_index f\<bar>)) \<le> 4300" by simp
  have two: "length (show_nat (nat \<bar>2 :: int\<bar>)) \<le> 4300" by code_simp
  show "printable io (frame_document f)" "fits 0 (frame_document f)"
    using frame_texts [OF assms] field_names i two
    by (simp_all add: frame_document_def utf8_ok_plain frame_fields_def limits)
qed

lemma decode_encoded:
  assumes "frame_ok f"
  shows "decode_frame io (dumps io esc_ascii (frame_document f)) = Inr f"
proof -
  let ?data = "dumps io esc_ascii (frame_document f)"
  have "loads io True ?data = Some (frame_document f)"
    using frame_document_ok(1) [OF assms] by (rule ascii_escape.loads_dumps)
  then have "strict_json io max_frame ?data = Inr (frame_document f)"
    using frame_document_ok [OF assms] frame_text_ascii [OF assms] frame_text_length [OF assms] dumps_frame [OF assms]
    by (simp add: strict_json_iff) (simp add: frame_document_def)
  moreover have "b64_text (b64_encode (frame_body f))"
    by (rule b64_encode_text) (use assms in \<open>auto simp: frame_ok_def\<close>)
  ultimately show ?thesis
    using assms
    by (auto simp: decode_frame_def andThen_eq_Inr text_field_iff index_field_iff body_of_iff frame_ok_def
        frame_document_def frame_fields_def)
qed


section \<open>Reassembly\<close>

text \<open>\<^verbatim>\<open>OrderedFrames\<close>: one direction of a session\<close>
record ordered_frames =
  of_session :: string
  of_mode :: string
  of_direction :: string
  of_expected :: int
  of_buffer :: "(int, string) dict"
  of_gap_since :: "rat option"
  of_failed :: bool

definition new_ordered :: "string \<Rightarrow> string \<Rightarrow> string \<Rightarrow> ordered_frames" where
  "new_ordered session m direction =
     \<lparr>of_session = session, of_mode = m, of_direction = direction, of_expected = 0, of_buffer = [],
      of_gap_since = None, of_failed = False\<rparr>"

definition fail_ordered :: "ordered_frames \<Rightarrow> ordered_frames" where
  "fail_ordered q = q\<lparr>of_failed := True, of_buffer := []\<rparr>"

definition gap_expired :: "rat \<Rightarrow> ordered_frames \<Rightarrow> bool" where
  "gap_expired now q \<longleftrightarrow> (case of_gap_since q of None \<Rightarrow> False | Some t \<Rightarrow> gap_seconds \<le> now - t)"

definition check_deadline :: "rat \<Rightarrow> ordered_frames \<Rightarrow> (frame_error + unit) \<times> ordered_frames" where
  "check_deadline now q =
     (if of_failed q then (Inl (FrameError ''session_closed''), q)
      else if gap_expired now q then (Inl (FrameError ''gap_timeout''), fail_ordered q)
      else (Inr (), q))"

text \<open>The inner loop of \<^verbatim>\<open>accept\<close>: take chunks while the next one is there.\<close>
function take_ready :: "int \<Rightarrow> (int, string) dict \<Rightarrow> string list \<times> int \<times> (int, string) dict" where
  "take_ready expected buf =
     (case dget buf expected of
        None \<Rightarrow> ([], expected, buf)
      | Some body \<Rightarrow>
          (case take_ready (expected + 1) (ddel expected buf) of (bs, e, rest) \<Rightarrow> (body # bs, e, rest)))"
  by pat_completeness auto
termination
proof (relation "measure (\<lambda>(e, buf). length buf)")
  show "((expected + 1, ddel expected buf), expected, buf) \<in> measure (\<lambda>(e, buf). length buf)"
    if "dget buf expected = Some body" for expected :: int and buf body
    using that by (induction buf) (auto simp: less_Suc_eq_le length_delete_le split: if_splits)
qed simp

declare take_ready.simps [simp del]

text \<open>The body of the \<^verbatim>\<open>try\<close> block, once the frame has been decoded.\<close>
definition accept_frame :: "rat \<Rightarrow> frame \<Rightarrow> ordered_frames \<Rightarrow> frame_error + (string \<times> ordered_frames)" where
  "accept_frame now f q =
     (if (frame_session f, frame_mode f, frame_direction f) \<noteq> (of_session q, of_mode q, of_direction q)
      then Inl (FrameError ''session_binding'')
      else if frame_index f < of_expected q then Inr ([], q)
      else if of_expected q + int max_reorder < frame_index f then Inl (FrameError ''reorder_limit'')
      else if (case dget (of_buffer q) (frame_index f) of None \<Rightarrow> False | Some b \<Rightarrow> b \<noteq> frame_body f)
      then Inl (FrameError ''conflicting_frame'')
      else
        (case take_ready (of_expected q) (dset (frame_index f) (frame_body f) (of_buffer q)) of
           (bodies, expected, buf) \<Rightarrow>
             if max_reorder < length buf then Inl (FrameError ''reorder_limit'')
             else if max_reorder_bytes < sum_list (map (length \<circ> snd) buf) then Inl (FrameError ''reorder_limit'')
             else Inr (concat bodies,
               q\<lparr>of_expected := expected, of_buffer := buf,
                 of_gap_since := (if buf = [] then None else if of_gap_since q = None then Some now
                                  else of_gap_since q)\<rparr>)))"

definition accept :: "float_io \<Rightarrow> string \<Rightarrow> rat \<Rightarrow> ordered_frames \<Rightarrow> (frame_error + string) \<times> ordered_frames" where
  "accept io raw now q =
     (if of_failed q then (Inl (FrameError ''session_closed''), q)
      else case check_deadline now q of
        (Inl e, q1) \<Rightarrow> (Inl e, fail_ordered q1)
      | (Inr _, q1) \<Rightarrow>
          (case andThen (decode_frame io raw) (\<lambda>f. accept_frame now f q1) of
             Inl e \<Rightarrow> (Inl e, fail_ordered q1)
           | Inr (out, q2) \<Rightarrow> (Inr out, q2)))"

text \<open>A sequence of deliveries by the carrier: the bytes passed on, and the receiver after it.\<close>
fun accept_all :: "float_io \<Rightarrow> (string \<times> rat) list \<Rightarrow> ordered_frames \<Rightarrow> (frame_error + string) \<times> ordered_frames" where
  "accept_all io [] q = (Inr [], q)"
| "accept_all io ((raw, now) # ds) q =
     (case accept io raw now q of
        (Inl e, q1) \<Rightarrow> (Inl e, q1)
      | (Inr out, q1) \<Rightarrow>
          (case accept_all io ds q1 of
             (Inl e, q2) \<Rightarrow> (Inl e, q2)
           | (Inr outs, q2) \<Rightarrow> (Inr (out @ outs), q2)))"

subsection \<open>What the receiver has taken in\<close>

lemma take_ready_spec:
  assumes "take_ready e buf = (bs, e', rest)" and "dict_ok buf"
  shows "e \<le> e' \<and> (\<forall>i. e \<le> i \<and> i < e' \<longrightarrow> dget buf i \<noteq> None) \<and> bs = map (\<lambda>i. the (dget buf i)) [e..e' - 1] \<and>
    (\<forall>i. dget rest i = (if e \<le> i \<and> i < e' then None else dget buf i)) \<and> dget rest e' = None \<and> dict_ok rest"
  using assms
proof (induction e buf arbitrary: bs e' rest rule: take_ready.induct)
  case (1 e buf)
  show ?case
  proof (cases "dget buf e")
    case None
    with "1.prems" show ?thesis by (auto simp: take_ready.simps [of e])
  next
    case (Some body)
    then obtain cs where cs: "take_ready (e + 1) (ddel e buf) = (cs, e', rest)" "bs = body # cs"
      using "1.prems"(1) by (auto simp: take_ready.simps [of e] split: prod.splits)
    have "dict_ok (ddel e buf)" using "1.prems"(2) by (rule distinct_delete)
    note ih = "1.IH" [OF Some cs(1) this]
    have del: "dget (ddel e buf) i = (if i = e then None else dget buf i)" for i by (simp add: dict_simps)
    have "map (\<lambda>i. the (dget (ddel e buf) i)) [e + 1..e' - 1] = map (\<lambda>i. the (dget buf i)) [e + 1..e' - 1]"
      by (rule map_cong) (auto simp: del)
    moreover have "[e..e' - 1] = e # [e + 1..e' - 1]" using ih by (simp add: upto_rec1)
    moreover have "dget buf i \<noteq> None" if "e \<le> i" "i < e'" for i
      using that ih Some del [of i] by (cases "i = e") auto
    ultimately show ?thesis using ih Some cs(2) by (auto simp: del)
  qed
qed

text \<open>
  The receiver \<open>q\<close> after the frames with the indices \<open>D\<close> of a stream of chunks: it has
  passed on the chunks below the first missing index, and keeps those above it.
\<close>
definition received :: "(int \<Rightarrow> string) \<Rightarrow> int set \<Rightarrow> ordered_frames \<Rightarrow> bool" where
  "received chunk D q \<longleftrightarrow> 0 \<le> of_expected q \<and> dict_ok (of_buffer q) \<and>
     (\<forall>i. i \<in> D \<longleftrightarrow> 0 \<le> i \<and> i < of_expected q \<or> dget (of_buffer q) i \<noteq> None) \<and>
     (\<forall>i b. dget (of_buffer q) i = Some b \<longrightarrow>
        of_expected q < i \<and> i \<le> of_expected q + int max_reorder \<and> b = chunk i \<and> length b \<le> max_chunk)"

lemma buffer_bounds:
  assumes "received chunk D q"
  shows "length (of_buffer q) \<le> max_reorder" and "sum_list (map (length \<circ> snd) (of_buffer q)) \<le> max_reorder_bytes"
proof -
  have ok: "dict_ok (of_buffer q)" using assms by (simp add: received_def)
  have "set (dkeys (of_buffer q)) \<subseteq> {of_expected q <.. of_expected q + int max_reorder}"
    using assms ok by (auto simp: received_def)
  from card_mono [OF _ this] show len: "length (of_buffer q) \<le> max_reorder"
    using distinct_card [OF ok] by simp
  have "length (snd x) \<le> max_chunk" if "x \<in> set (of_buffer q)" for x
    using assms ok that by (cases x) (auto simp: received_def)
  then have "sum_list (map (length \<circ> snd) (of_buffer q)) \<le> sum_list (map (\<lambda>_. max_chunk) (of_buffer q))"
    by (intro sum_list_mono) auto
  with len show "sum_list (map (length \<circ> snd) (of_buffer q)) \<le> max_reorder_bytes"
    by (simp add: sum_list_triv limits)
qed

lemma received_keeps:
  assumes "received chunk D q" and "dget (of_buffer q) i = Some b"
  shows "of_expected q < i \<and> i \<le> of_expected q + int max_reorder \<and> b = chunk i \<and> length b \<le> max_chunk"
  using assms unfolding received_def by blast

lemma absorb:
  assumes "received chunk D q" and "of_expected q \<le> n" and "n \<le> of_expected q + int max_reorder"
    and "length (chunk n) \<le> max_chunk"
    and "take_ready (of_expected q) (dset n (chunk n) (of_buffer q)) = (bs, e', rest)"
  shows "received chunk (insert n D) (q\<lparr>of_expected := e', of_buffer := rest, of_gap_since := g\<rparr>) \<and>
    bs = map chunk [of_expected q..e' - 1] \<and> of_expected q \<le> e'"
proof -
  let ?e = "of_expected q" and ?old = "dget (of_buffer q)"
  have "dict_ok (dset n (chunk n) (of_buffer q))"
    using assms(1) by (intro distinct_update) (simp add: received_def)
  note spec = take_ready_spec [OF assms(5) this]
  then have le: "?e \<le> e'" by blast
  have buf: "dget (dset n (chunk n) (of_buffer q)) i = (if i = n then Some (chunk i) else ?old i)" for i
    by (simp add: dict_simps)
  have present: "i = n \<or> ?old i \<noteq> None" if "?e \<le> i" "i < e'" for i using spec that buf by metis
  have rest: "dget rest i = (if ?e \<le> i \<and> i < e' then None else if i = n then Some (chunk i) else ?old i)"
    "dget rest e' = None" for i using spec buf by metis+
  have mem: "i \<in> D \<longleftrightarrow> 0 \<le> i \<and> i < ?e \<or> ?old i \<noteq> None" and nonneg: "0 \<le> ?e" for i
    using assms(1) unfolding received_def by blast+
  have D: "i \<in> insert n D \<longleftrightarrow> 0 \<le> i \<and> i < e' \<or> dget rest i \<noteq> None" for i
    using present [of i] mem [of i] nonneg rest(1) [of i] le assms(2) by auto
  have range: "e' < i \<and> i \<le> e' + int max_reorder \<and> b = chunk i \<and> length b \<le> max_chunk"
    if i: "dget rest i = Some b" for i b
  proof -
    have "i \<noteq> e'" "\<not> (?e \<le> i \<and> i < e')" "i = n \<and> b = chunk i \<or> ?old i = Some b"
      using i rest by (auto split: if_splits)
    then show ?thesis using received_keeps [OF assms(1), of i b] le assms(2-4) by auto
  qed
  have "the (dget (dset n (chunk n) (of_buffer q)) i) = chunk i" if "?e \<le> i" "i < e'" for i
    using present [OF that] received_keeps [OF assms(1), of i] buf [of i] by auto
  then have "map (\<lambda>i. the (dget (dset n (chunk n) (of_buffer q)) i)) [?e..e' - 1] = map chunk [?e..e' - 1]"
    by (intro map_cong) auto
  then have bs: "bs = map chunk [?e..e' - 1]" using spec by metis
  have "dict_ok rest" using spec by blast
  moreover have "0 \<le> e'" using le nonneg by simp
  ultimately show ?thesis using bs le D range unfolding received_def by simp
qed

lemma accept_frame_received:
  assumes "received chunk D q" and "frame_ok f" and "frame_body f = chunk (frame_index f)"
    and "(frame_session f, frame_mode f, frame_direction f) = (of_session q, of_mode q, of_direction q)"
    and "frame_index f \<le> of_expected q + int max_reorder"
  shows "\<exists>q'. accept_frame now f q = Inr (concat (map chunk [of_expected q..of_expected q' - 1]), q') \<and>
    received chunk (insert (frame_index f) D) q' \<and> of_expected q \<le> of_expected q' \<and>
    of_failed q' = of_failed q \<and> of_session q' = of_session q \<and> of_mode q' = of_mode q \<and> of_direction q' = of_direction q"
proof (cases "frame_index f < of_expected q")
  case True
  with assms have "accept_frame now f q = Inr ([], q)" by (simp add: accept_frame_def)
  moreover have "frame_index f \<in> D" using True assms(1,2) unfolding received_def frame_ok_def by blast
  then have "insert (frame_index f) D = D" by (rule insert_absorb)
  ultimately show ?thesis using assms(1) by auto
next
  case False
  let ?n = "frame_index f"
  obtain bs e' rest where t: "take_ready (of_expected q) (dset ?n (chunk ?n) (of_buffer q)) = (bs, e', rest)"
    by (metis prod_cases3)
  let ?q = "q\<lparr>of_expected := e', of_buffer := rest,
    of_gap_since := (if rest = [] then None else if of_gap_since q = None then Some now else of_gap_since q)\<rparr>"
  have "length (chunk ?n) \<le> max_chunk" using assms(2,3) by (simp add: frame_ok_def)
  with False absorb [OF assms(1) _ assms(5) _ t]
  have recv: "received chunk (insert ?n D) ?q" and bs: "bs = map chunk [of_expected q..e' - 1]" "of_expected q \<le> e'"
    by (simp_all del: update.simps)
  have "\<not> (case dget (of_buffer q) ?n of None \<Rightarrow> False | Some b \<Rightarrow> b \<noteq> frame_body f)"
    using received_keeps [OF assms(1), of ?n] assms(3) by (auto split: option.splits)
  then have "accept_frame now f q = Inr (concat bs, ?q)"
    using assms(3-5) False t buffer_bounds [OF recv] by (simp add: accept_frame_def)
  with recv bs show ?thesis by auto
qed

lemma accept_received:
  assumes "accept io raw now q = (Inr out, q')" and "received chunk D q"
    and "\<And>f. decode_frame io raw = Inr f \<Longrightarrow> frame_body f = chunk (frame_index f)"
  shows "\<exists>f. decode_frame io raw = Inr f \<and> out = concat (map chunk [of_expected q..of_expected q' - 1]) \<and>
    received chunk (insert (frame_index f) D) q' \<and> of_expected q \<le> of_expected q'"
proof -
  have "check_deadline now q = (Inr (), q)"
    using assms(1) by (auto simp: accept_def check_deadline_def split: if_splits)
  with assms(1) obtain f where f: "decode_frame io raw = Inr f" and acc: "accept_frame now f q = Inr (out, q')"
    by (auto simp: accept_def andThen_eq_Inr split: if_splits sum.splits)
  then have "(frame_session f, frame_mode f, frame_direction f) = (of_session q, of_mode q, of_direction q)"
    and "frame_index f \<le> of_expected q + int max_reorder"
    using assms(2) by (auto simp: accept_frame_def received_def split: if_splits)
  from accept_frame_received [OF assms(2) decode_frame_ok [OF f] assms(3) [OF f] this, of now] f acc
  show ?thesis by auto
qed

definition delivered_indices :: "float_io \<Rightarrow> (string \<times> rat) list \<Rightarrow> int set" where
  "delivered_indices io ds = {i. \<exists>(raw, now) \<in> set ds. \<exists>f. decode_frame io raw = Inr f \<and> frame_index f = i}"

lemma delivered_Cons:
  "decode_frame io raw = Inr f \<Longrightarrow> delivered_indices io ((raw, now) # ds) = insert (frame_index f) (delivered_indices io ds)"
  by (auto simp: delivered_indices_def)

lemma upto_append_chunks:
  "a \<le> b \<Longrightarrow> b \<le> c \<Longrightarrow> concat (map f [a..b - 1]) @ concat (map f [b..c - 1]) = concat (map f [a..c - 1 :: int])"
  by (cases "b = c") (simp_all add: upto_split1 [of a b "c - 1"])

lemma accept_all_received:
  assumes "accept_all io ds q = (Inr out, q')" and "received chunk D q"
    and "\<And>raw now f. (raw, now) \<in> set ds \<Longrightarrow> decode_frame io raw = Inr f \<Longrightarrow> frame_body f = chunk (frame_index f)"
  shows "out = concat (map chunk [of_expected q..of_expected q' - 1]) \<and>
    received chunk (delivered_indices io ds \<union> D) q' \<and> of_expected q \<le> of_expected q'"
  using assms
proof (induction io ds q arbitrary: out D rule: accept_all.induct)
  case (1 io q)
  then show ?case by (simp add: delivered_indices_def)
next
  case (2 io raw now ds q)
  obtain o1 q1 o2 where first: "accept io raw now q = (Inr o1, q1)" and rest: "accept_all io ds q1 = (Inr o2, q')"
    and out: "out = o1 @ o2"
    using "2.prems"(1) by (auto split: prod.splits sum.splits)
  obtain f where f: "decode_frame io raw = Inr f" and o1: "o1 = concat (map chunk [of_expected q..of_expected q1 - 1])"
    and r1: "received chunk (insert (frame_index f) D) q1" and le: "of_expected q \<le> of_expected q1"
    using accept_received [OF first "2.prems"(2)] "2.prems"(3) by fastforce
  have ih: "o2 = concat (map chunk [of_expected q1..of_expected q' - 1]) \<and>
      received chunk (delivered_indices io ds \<union> insert (frame_index f) D) q' \<and> of_expected q1 \<le> of_expected q'"
    using "2.IH" first rest r1 "2.prems"(3) by fastforce
  then show ?case
    using out o1 le upto_append_chunks [of "of_expected q" "of_expected q1" "of_expected q'" chunk]
    by (simp add: delivered_Cons [OF f])
qed

text \<open>
  C27. Reassembly is exact, whatever order and repetition the carrier delivers the frames
  in: as long as the receiver accepts, the bytes it has passed on are the chunks before
  the first index that has not arrived, each of them once and in order, and what it holds
  back stays within the limits of the reorder buffer.
\<close>
theorem ordered_delivery:
  assumes "accept_all io ds (new_ordered session m direction) = (Inr out, q)"
    and "\<And>raw now f. (raw, now) \<in> set ds \<Longrightarrow> decode_frame io raw = Inr f \<Longrightarrow> frame_body f = chunk (frame_index f)"
  shows "out = concat (map chunk [0..of_expected q - 1]) \<and> of_expected q \<notin> delivered_indices io ds \<and>
    {0..<of_expected q} \<subseteq> delivered_indices io ds \<and> length (of_buffer q) \<le> max_reorder \<and>
    sum_list (map (length \<circ> snd) (of_buffer q)) \<le> max_reorder_bytes"
proof -
  have "received chunk {} (new_ordered session m direction)" by (simp add: received_def new_ordered_def)
  from accept_all_received [OF assms(1) this assms(2)]
  have out: "out = concat (map chunk [0..of_expected q - 1])" and recv: "received chunk (delivered_indices io ds) q"
    by (simp_all add: new_ordered_def)
  have mem: "i \<in> delivered_indices io ds \<longleftrightarrow> 0 \<le> i \<and> i < of_expected q \<or> dget (of_buffer q) i \<noteq> None" for i
    using recv unfolding received_def by blast
  have "dget (of_buffer q) (of_expected q) = None"
    using received_keeps [OF recv, of "of_expected q"] by (cases "dget (of_buffer q) (of_expected q)") auto
  then show ?thesis using out mem buffer_bounds [OF recv] by auto
qed

section \<open>Records\<close>

text \<open>\<^verbatim>\<open>n.to_bytes(4, "big")\<close> and \<^verbatim>\<open>int.from_bytes(data, "big")\<close>\<close>
definition to_bytes4 :: "nat \<Rightarrow> string" where
  "to_bytes4 n = [char_of (n div 2 ^ 24), char_of (n div 2 ^ 16 mod 256), char_of (n div 2 ^ 8 mod 256), char_of (n mod 256)]"

definition from_bytes :: "string \<Rightarrow> nat" where
  "from_bytes bs = foldl (\<lambda>n c. 256 * n + ord c) 0 bs"

definition encode_record :: "float_io \<Rightarrow> json \<Rightarrow> frame_error + string" where
  "encode_record io r =
     (let body = dumps io esc_raw r
      in if \<not> utf8_ok body then Inl EncodeError
         else andThen (strict_json io max_record body) (\<lambda>_. Inr (to_bytes4 (length body) @ body)))"

record records =
  rb_buffer :: string
  rb_failed :: bool

definition new_records :: records where
  "new_records = \<lparr>rb_buffer = [], rb_failed = False\<rparr>"

text \<open>The \<^verbatim>\<open>while\<close> loop of \<^verbatim>\<open>feed\<close>: the complete records at the front, and the rest.\<close>
function parse_records :: "float_io \<Rightarrow> string \<Rightarrow> frame_error + (json list \<times> string)" where
  "parse_records io buf =
     (if length buf < 4 then Inr ([], buf)
      else
        (let n = from_bytes (take 4 buf)
         in if \<not> (1 \<le> n \<and> n \<le> max_record) then Inl (FrameError ''record_size_limit'')
            else if length buf < 4 + n then Inr ([], buf)
            else
              andThen (strict_json io max_record (take n (drop 4 buf))) (\<lambda>r.
              andThen (parse_records io (drop (4 + n) buf)) (\<lambda>(rs, rest).
                Inr (r # rs, rest)))))"
  by pat_completeness auto
termination
  by (relation "measure (\<lambda>(io, buf). length buf)") auto

declare parse_records.simps [simp del]

definition feed :: "float_io \<Rightarrow> string \<Rightarrow> records \<Rightarrow> (frame_error + json list) \<times> records" where
  "feed io plaintext s =
     (if rb_failed s then (Inl (FrameError ''session_closed''), s)
      else if 2 * (max_record + 4) < length (rb_buffer s) + length plaintext
      then (Inl (FrameError ''record_buffer_limit''), s\<lparr>rb_failed := True\<rparr>)
      else case parse_records io (rb_buffer s @ plaintext) of
        Inl e \<Rightarrow> (Inl e, s\<lparr>rb_failed := True, rb_buffer := []\<rparr>)
      | Inr (rs, rest) \<Rightarrow> (Inr rs, s\<lparr>rb_buffer := rest\<rparr>))"

fun feed_all :: "float_io \<Rightarrow> string list \<Rightarrow> records \<Rightarrow> (frame_error + json list) \<times> records" where
  "feed_all io [] s = (Inr [], s)"
| "feed_all io (p # ps) s =
     (case feed io p s of
        (Inl e, s1) \<Rightarrow> (Inl e, s1)
      | (Inr rs, s1) \<Rightarrow>
          (case feed_all io ps s1 of (Inl e, s2) \<Rightarrow> (Inl e, s2) | (Inr rs', s2) \<Rightarrow> (Inr (rs @ rs'), s2)))"

lemma from_to_bytes4: "n < 2 ^ 32 \<Longrightarrow> from_bytes (to_bytes4 n) = n"
proof -
  assume n: "n < 2 ^ 32"
  have "n div 2 ^ 24 < 256" using n by (simp add: div_less_iff_less_mult)
  moreover have "n div 2 ^ 24 = n div 2 ^ 16 div 256" "n div 2 ^ 16 = n div 2 ^ 8 div 256" "n div 2 ^ 8 = n div 256"
    by (simp_all add: div_mult2_eq [symmetric])
  ultimately show ?thesis
    using div_mult_mod_eq [of "n div 2 ^ 16" 256] div_mult_mod_eq [of "n div 256" 256] div_mult_mod_eq [of n 256]
    by (simp add: from_bytes_def to_bytes4_def)
qed

lemma length_to_bytes4 [simp]: "length (to_bytes4 n) = 4"
  by (simp add: to_bytes4_def)

lemma parse_records_step:
  assumes "n = from_bytes (take 4 buf)" and "1 \<le> n" and "n \<le> max_record" and "4 + n \<le> length buf"
    and "strict_json io max_record (take n (drop 4 buf)) = Inr r"
  shows "parse_records io buf = andThen (parse_records io (drop (4 + n) buf)) (\<lambda>(rs, rest). Inr (r # rs, rest))"
  using assms by (subst parse_records.simps) (simp add: Let_def)

text \<open>What has been read is not changed by what comes later.\<close>
lemma parse_records_append:
  assumes "parse_records io a = Inr (rs, rest)"
  shows "parse_records io (a @ b) = andThen (parse_records io (rest @ b)) (\<lambda>(rs', rest'). Inr (rs @ rs', rest'))"
  using assms
proof (induction io a arbitrary: rs rest rule: parse_records.induct)
  case (1 io a)
  have id: "andThen x (\<lambda>(rs', rest'). Inr ([] @ rs', rest')) = x" for x :: "frame_error + (json list \<times> string)"
    by (cases x) auto
  let ?n = "from_bytes (take 4 a)"
  show ?case
  proof (cases "length a < 4 \<or> length a < 4 + ?n")
    case True
    with "1.prems" have "rs = []" "rest = a" by (auto simp: parse_records.simps [of io a] Let_def split: if_splits)
    then show ?thesis by (simp only: id)
  next
    case False
    with "1.prems" obtain r rs1 where n: "1 \<le> ?n" "?n \<le> max_record"
      and r: "strict_json io max_record (take ?n (drop 4 a)) = Inr r"
      and tail: "parse_records io (drop (4 + ?n) a) = Inr (rs1, rest)" and rs: "rs = r # rs1"
      by (auto simp: parse_records.simps [of io a] Let_def andThen_eq_Inr split: if_splits)
    have ih: "parse_records io (drop (4 + ?n) a @ b) =
        andThen (parse_records io (rest @ b)) (\<lambda>(rs', rest'). Inr (rs1 @ rs', rest'))"
      using "1.IH" [of ?n r] False n r tail by simp
    have "parse_records io (a @ b) =
        andThen (parse_records io (drop (4 + ?n) (a @ b))) (\<lambda>(rs, rest). Inr (r # rs, rest))"
      using False n r by (intro parse_records_step) auto
    moreover have "drop (4 + ?n) (a @ b) = drop (4 + ?n) a @ b" using False by simp
    ultimately have "parse_records io (a @ b) =
        andThen (parse_records io (drop (4 + ?n) a @ b)) (\<lambda>(rs, rest). Inr (r # rs, rest))" by simp
    then show ?thesis unfolding ih rs by (cases "parse_records io (rest @ b)") auto
  qed
qed

lemma parse_records_rest: "parse_records io a = Inr (rs, rest) \<Longrightarrow> length rest < 4 + max_record"
proof (induction io a arbitrary: rs rest rule: parse_records.induct)
  case (1 io a)
  let ?n = "from_bytes (take 4 a)"
  show ?case
  proof (cases "length a < 4 \<or> length a < 4 + ?n")
    case True
    with "1.prems" show ?thesis by (auto simp: parse_records.simps [of io a] Let_def split: if_splits)
  next
    case False
    with "1.prems" 1 show ?thesis
      by (fastforce simp: parse_records.simps [of io a] Let_def andThen_eq_Inr split: if_splits)
  qed
qed

lemma parse_records_error: "parse_records io a = Inl e \<Longrightarrow> parse_records io (a @ b) = Inl e"
proof (induction io a rule: parse_records.induct)
  case (1 io a)
  let ?n = "from_bytes (take 4 a)"
  have long: "\<not> length a < 4" using "1.prems" by (auto simp: parse_records.simps [of io a])
  then have n: "from_bytes (take 4 (a @ b)) = ?n" by simp
  show ?case
  proof (cases "1 \<le> ?n \<and> ?n \<le> max_record")
    case True
    with "1.prems" long have full: "4 + ?n \<le> length a"
      by (auto simp: parse_records.simps [of io a] Let_def split: if_splits)
    then have eqs: "take ?n (drop 4 (a @ b)) = take ?n (drop 4 a)" "drop (4 + ?n) (a @ b) = drop (4 + ?n) a @ b"
      using long by simp_all
    show ?thesis
    proof (cases "strict_json io max_record (take ?n (drop 4 a))")
      case (Inl e')
      with "1.prems" long True full eqs n show ?thesis
        by (simp add: parse_records.simps [of io a] parse_records.simps [of io "a @ b"] Let_def del: drop_append take_append)
    next
      case (Inr r)
      have "parse_records io (drop (4 + ?n) a) = Inl e"
        using "1.prems" parse_records_step [of ?n a io r] True full Inr
        by (cases "parse_records io (drop (4 + ?n) a)") auto
      then have "parse_records io (drop (4 + ?n) a @ b) = Inl e" using "1.IH" [of ?n r] long True full Inr by simp
      with parse_records_step [of ?n "a @ b" io r] True full Inr eqs n show ?thesis by simp
    qed
  next
    case False
    with "1.prems" long n show ?thesis
      by (auto simp: parse_records.simps [of io a] parse_records.simps [of io "a @ b"] Let_def simp del: take_append)
  qed
qed

lemma parse_records_stable: "parse_records io a = Inr (rs, rest) \<Longrightarrow> parse_records io rest = Inr ([], rest)"
proof (induction io a arbitrary: rs rest rule: parse_records.induct)
  case (1 io a)
  let ?n = "from_bytes (take 4 a)"
  show ?case
  proof (cases "length a < 4 \<or> length a < 4 + ?n")
    case True
    with "1.prems" have "rs = [] \<and> rest = a" by (auto simp: parse_records.simps [of io a] Let_def split: if_splits)
    with "1.prems" show ?thesis by simp
  next
    case False
    with "1.prems" 1 show ?thesis
      by (fastforce simp: parse_records.simps [of io a] Let_def andThen_eq_Inr split: if_splits)
  qed
qed

lemma feed_all_parse:
  assumes "parse_records io (rb_buffer s @ concat ps) = Inr (rs, rest)" and "\<not> rb_failed s"
    and "length (rb_buffer s) < 4 + max_record" and "\<forall>p \<in> set ps. length p \<le> max_record + 4"
    and "parse_records io (rb_buffer s) = Inr ([], rb_buffer s)"
  shows "feed_all io ps s = (Inr rs, s\<lparr>rb_buffer := rest\<rparr>)"
  using assms
proof (induction ps arbitrary: s rs)
  case (Cons p ps)
  have room: "\<not> 2 * (max_record + 4) < length (rb_buffer s) + length p"
    using Cons.prems(3,4) by simp
  show ?case
  proof (cases "parse_records io (rb_buffer s @ p)")
    case (Inl e)
    then have "parse_records io ((rb_buffer s @ p) @ concat ps) = Inl e" by (rule parse_records_error)
    with Cons.prems(1) show ?thesis by simp
  next
    case (Inr x)
    then obtain rs1 b1 where one: "parse_records io (rb_buffer s @ p) = Inr (rs1, b1)" by (cases x) auto
    let ?s = "s\<lparr>rb_buffer := b1\<rparr>"
    from parse_records_append [OF one, of "concat ps"] Cons.prems(1)
    obtain rs2 where rest: "parse_records io (rb_buffer ?s @ concat ps) = Inr (rs2, rest)" and rs: "rs = rs1 @ rs2"
      by (auto simp: andThen_eq_Inr)
    have "feed_all io ps ?s = (Inr rs2, ?s\<lparr>rb_buffer := rest\<rparr>)"
      using Cons.prems(2,4) parse_records_rest [OF one] parse_records_stable [OF one] by (intro Cons.IH [OF rest]) auto
    with one room rs Cons.prems(2) show ?thesis by (simp add: feed_def)
  qed
qed auto

lemma parse_record_encoded:
  assumes "encode_record io r = Inr d" and "printable io r"
  shows "parse_records io (d @ s) = andThen (parse_records io s) (\<lambda>(rs, rest). Inr (r # rs, rest))"
proof -
  let ?body = "dumps io esc_raw r"
  obtain v where "strict_json io max_record ?body = Inr v" and d: "d = to_bytes4 (length ?body) @ ?body"
    using assms(1) by (auto simp: encode_record_def Let_def andThen_eq_Inr split: if_splits)
  moreover from this have "v = r"
    using raw_escape.loads_dumps [OF assms(2), of True] by (simp add: strict_json_iff)
  ultimately have r: "strict_json io max_record ?body = Inr r" by simp
  then have len: "1 \<le> length ?body" "length ?body \<le> max_record" by (auto simp: strict_json_iff Suc_le_eq)
  then have "from_bytes (to_bytes4 (length ?body)) = length ?body" by (intro from_to_bytes4) (simp add: limits)
  with d r len show ?thesis
    using parse_records_step [of "length ?body" "d @ s" io r] by simp
qed

lemma parse_records_encoded:
  assumes "list_all2 (\<lambda>r d. encode_record io r = Inr d \<and> printable io r) rs ds"
  shows "parse_records io (concat ds) = Inr (rs, [])"
  using assms
  by (induction rs ds rule: list_all2_induct) (auto simp: parse_records.simps [of io "[]"] parse_record_encoded)

text \<open>
  C28. Records survive the byte stream: however the encoded records are cut into pieces of
  plaintext, the incremental parser returns exactly these records, in order, and ends with
  an empty buffer.
\<close>
theorem records_round_trip:
  assumes "list_all2 (\<lambda>r d. encode_record io r = Inr d \<and> printable io r) rs ds"
    and "concat pieces = concat ds" and "\<forall>p \<in> set pieces. length p \<le> max_record + 4"
  shows "feed_all io pieces new_records = (Inr rs, new_records)"
  using feed_all_parse [of io new_records pieces rs "[]"] parse_records_encoded [OF assms(1)] assms(2,3)
  by (simp add: new_records_def parse_records.simps [of io "[]"] limits)

section \<open>A small exchange\<close>

definition no_floats :: float_io where
  "no_floats = \<lparr>float_repr = (\<lambda>r. []), float_parse = (\<lambda>s. None)\<rparr>"

definition sample_session :: string where
  "sample_session = ''01234567-89ab-cdef-0123-456789abcdef''"

definition sample_frame :: "int \<Rightarrow> frame" where
  "sample_frame i = \<lparr>frame_session = sample_session, frame_mode = ''pair'', frame_direction = ''initiator_to_responder'',
     frame_index = i, frame_body = (if i = 0 then ''he'' else ''llo'')\<rparr>"

text \<open>The two frames of \<^verbatim>\<open>hello\<close>, the second one first.\<close>
definition sample_deliveries :: "(string \<times> rat) list" where
  "sample_deliveries =
     [(dumps no_floats esc_ascii (frame_document (sample_frame 1)), 0),
      (dumps no_floats esc_ascii (frame_document (sample_frame 0)), 1)]"

lemma sample_frame_ok: "frame_ok (sample_frame i)" if "i \<in> {0, 1}"
proof -
  have "is_uuid sample_session" by code_simp
  with that show ?thesis by (auto simp: frame_ok_def sample_frame_def modes_def directions_def limits)
qed

lemmas sample_decoded = decode_encoded [OF sample_frame_ok]

lemma accept_decoded:
  assumes "\<not> of_failed q" and "\<not> gap_expired now q" and "decode_frame io raw = Inr f"
  shows "accept io raw now q = (case accept_frame now f q of Inl e \<Rightarrow> (Inl e, fail_ordered q) | Inr (out, q1) \<Rightarrow> (Inr out, q1))"
  using assms by (simp add: accept_def check_deadline_def)

theorem ordered_delivery_witness:
  "\<exists>q. accept_all no_floats sample_deliveries (new_ordered sample_session ''pair'' ''initiator_to_responder'') =
     (Inr ''hello'', q) \<and> of_expected q \<notin> delivered_indices no_floats sample_deliveries"
proof -
  let ?q0 = "new_ordered sample_session ''pair'' ''initiator_to_responder''"
  let ?q1 = "?q0\<lparr>of_buffer := [(1, ''llo'')], of_gap_since := Some 0\<rparr>"
  have "accept_frame 0 (sample_frame 1) ?q0 = Inr ([], ?q1)"
    and second: "\<exists>q. accept_frame 1 (sample_frame 0) ?q1 = Inr (''hello'', q)"
    by (simp_all add: accept_frame_def new_ordered_def sample_frame_def take_ready.simps limits)
  moreover have "\<not> of_failed ?q0" "\<not> gap_expired 0 ?q0" "\<not> of_failed ?q1" "\<not> gap_expired 1 ?q1"
    by (simp_all add: new_ordered_def gap_expired_def limits)
  ultimately obtain q where q: "accept_all no_floats sample_deliveries ?q0 = (Inr ''hello'', q)"
    by (auto simp: sample_deliveries_def accept_decoded [OF _ _ sample_decoded])
  have chunks: "frame_body f = (if frame_index f = 0 then ''he'' else ''llo'')"
    if "(raw, now) \<in> set sample_deliveries" "decode_frame no_floats raw = Inr f" for raw now f
  proof -
    have "f = sample_frame 0 \<or> f = sample_frame 1" using that by (auto simp: sample_deliveries_def sample_decoded)
    then show ?thesis by (auto simp: sample_frame_def)
  qed
  from ordered_delivery [OF q, of "\<lambda>i. if i = 0 then ''he'' else ''llo''"] chunks q show ?thesis by blast
qed

theorem records_round_trip_witness:
  "feed_all no_floats [to_bytes4 7, ''{'' @ CHR 0x22 # ''a'', CHR 0x22 # '':1}''] new_records =
     (Inr [JObj [(''a'', JInt 1)]], new_records)"
proof (rule records_round_trip)
  let ?b = "''{'' @ CHR 0x22 # ''a'' @ CHR 0x22 # '':1}''" and ?r = "JObj [(''a'', JInt 1)]"
  have ascii: "utf8_ok ''a''" "utf8_ok ?b" by (rule utf8_ok_ascii, simp)+
  have one: "show_nat 1 = ''1''" by code_simp
  have "json_string esc_raw ''a'' = CHR 0x22 # ''a'' @ [CHR 0x22]"
    by (simp add: json_string_def esc_raw_def utf8_enc_def char_of_eq_iff)
  then have body: "dumps no_floats esc_raw ?r = ?b" using one by (simp add: show_int_def)
  have p: "printable no_floats ?r" using ascii(1) one by simp
  from raw_escape.loads_dumps [OF p, of True] have "loads no_floats True ?b = Some ?r" unfolding body .
  then have "strict_json no_floats max_record ?b = Inr ?r"
    using ascii by (simp add: strict_json_iff limits)
  then have "encode_record no_floats ?r = Inr (to_bytes4 7 @ ?b)"
    using ascii(2) unfolding encode_record_def body Let_def by (simp add: eval_nat_numeral)
  with p show "list_all2 (\<lambda>r d. encode_record no_floats r = Inr d \<and> printable no_floats r) [?r] [to_bytes4 7 @ ?b]"
    by simp
qed (simp_all add: limits)

end
