(* ===== verification/Session_Binding.thy ===== *)
theory Session_Binding
  imports Framing "HOL-Library.Multiset"
begin

text \<open>
  \<^verbatim>\<open>devices/binding.py\<close>: the first record of a session names both devices, their roles and,
  when pairing, the invitation and its secret; the responder compares it with what it
  expects. The comparison is by canonical text, and is shown to be equality of the two
  records.
\<close>

record session_binding =
  sb_session :: string
  sb_mode :: string
  sb_initiator :: string
  sb_responder :: string
  sb_role :: string
  sb_invitation :: "string option"
  sb_secret :: "string option"

text \<open>\<^verbatim>\<open>__post_init__\<close>\<close>
definition check_binding_fields :: "session_binding \<Rightarrow> frame_error + unit" where
  "check_binding_fields b =
     andThen (need (sb_mode b \<in> set modes) (FrameError ''binding_mode'')) (\<lambda>_.
     andThen (need (sb_role b \<in> {''controller'', ''desktop''}) (FrameError ''binding_role'')) (\<lambda>_.
     andThen (need (\<not> (sb_mode b = ''resume'' \<and> (sb_invitation b \<noteq> None \<or> sb_secret b \<noteq> None)))
       (FrameError ''binding_mode'')) (\<lambda>_.
       need (\<not> (sb_mode b = ''pair'' \<and> (sb_invitation b = None \<or> sb_secret b = None)))
         (FrameError ''binding_mode''))))"

definition new_binding ::
  "string \<Rightarrow> string \<Rightarrow> string \<Rightarrow> string \<Rightarrow> string \<Rightarrow> string option \<Rightarrow> string option \<Rightarrow> frame_error + session_binding" where
  "new_binding session m initiator responder role invitation secret =
     (let b = \<lparr>sb_session = session, sb_mode = m, sb_initiator = initiator, sb_responder = responder, sb_role = role,
               sb_invitation = invitation, sb_secret = secret\<rparr>
      in andThen (check_binding_fields b) (\<lambda>_. Inr b))"

abbreviation json_opt :: "string option \<Rightarrow> json" where
  "json_opt x \<equiv> (case x of None \<Rightarrow> JNull | Some s \<Rightarrow> JStr s)"

definition binding_members :: "session_binding \<Rightarrow> (string \<times> json) list" where
  "binding_members b =
     [(''type'', JStr ''session.bind''), (''version'', JInt 2), (''profile'', JStr ''raticode-tls13-v2''),
      (''session_id'', JStr (sb_session b)), (''mode'', JStr (sb_mode b)), (''initiator_id'', JStr (sb_initiator b)),
      (''responder_id'', JStr (sb_responder b)), (''initiator_role'', JStr (sb_role b)),
      (''responder_role'', JStr ''desktop''), (''invitation_sha256'', json_opt (sb_invitation b)),
      (''secret'', json_opt (sb_secret b))]"

definition verify_binding :: "float_io \<Rightarrow> session_binding \<Rightarrow> json \<Rightarrow> frame_error + unit" where
  "verify_binding io b v =
     need (dumps io esc_ascii (sort_json (JObj (binding_members b))) = dumps io esc_ascii (sort_json v))
       (FrameError ''session_binding'')"

section \<open>Sorted members\<close>

lemma sort_json_members_map: "sort_json_members ms = map (\<lambda>(k, v). (k, sort_json v)) ms"
  by (induction ms) auto

lemma sort_json_list_map: "sort_json_list xs = map sort_json xs"
  by (induction xs) auto

lemma printable_members_iff: "printable_members io ms \<longleftrightarrow> (\<forall>(k, v) \<in> set ms. utf8_ok k \<and> printable io v)"
  by (induction ms) auto

lemma printable_list_iff: "printable_list io xs \<longleftrightarrow> (\<forall>x \<in> set xs. printable io x)"
  by (induction xs) auto

lemma printable_sort_mutual:
  "printable io v \<Longrightarrow> printable io (sort_json v)"
  "printable_list io xs \<Longrightarrow> printable_list io (sort_json_list xs)"
  "printable_members io ms \<Longrightarrow> printable_members io (sort_json_members ms)"
proof (induction io v and io xs and io ms rule: printable_printable_list_printable_members.induct)
  case (7 io ms)
  have "mset (sort_key fst (sort_json_members ms)) = mset (sort_json_members ms)" by simp
  then have "mset (dkeys (sort_key fst (sort_json_members ms))) = mset (dkeys (sort_json_members ms))"
    by (simp only: mset_map)
  then have "dict_ok (sort_key fst (sort_json_members ms)) \<longleftrightarrow> dict_ok (sort_json_members ms)"
    by (rule mset_eq_imp_distinct_iff)
  moreover have "dkeys (sort_json_members ms) = dkeys ms"
    by (simp add: sort_json_members_map case_prod_beta o_def)
  ultimately show ?case using 7 by (simp add: printable_members_iff)
qed auto

lemma printable_sort: "printable io v \<Longrightarrow> printable io (sort_json v)"
  by (rule printable_sort_mutual)

text \<open>Sorting identifies exactly the objects with the same members, when one has only plain values.\<close>
definition plain_members :: "(string \<times> json) list \<Rightarrow> bool" where
  "plain_members ms \<longleftrightarrow> list_all (\<lambda>(k, v). \<not> is_mapping v \<and> (\<forall>xs. v \<noteq> JList xs)) ms"

lemma sort_json_members_plain: "plain_members ms \<Longrightarrow> sort_json_members ms = ms"
proof (induction ms)
  case (Cons kv ms)
  then show ?case by (cases kv; cases "snd kv") (auto simp: plain_members_def)
qed simp

lemma plain_members_sort: "plain_members (sort_json_members ms) \<longleftrightarrow> plain_members ms"
proof (induction ms)
  case (Cons kv ms)
  then show ?case by (cases kv; cases "snd kv") (auto simp: plain_members_def)
qed simp

lemma plain_members_set: "set ms = set ns \<Longrightarrow> plain_members ms \<longleftrightarrow> plain_members ns"
  by (simp add: plain_members_def list_all_iff)

lemma sort_json_flat:
  assumes ok: "dict_ok ms" "dict_ok ns" and plain: "plain_members ns"
  shows "sort_json (JObj ms) = sort_json (JObj ns) \<longleftrightarrow> (\<forall>k. dget ms k = dget ns k)"
proof
  assume "sort_json (JObj ms) = sort_json (JObj ns)"
  then have "sort_key fst (sort_json_members ms) = sort_key fst ns"
    using sort_json_members_plain [OF plain] by simp
  then have "set (sort_key fst (sort_json_members ms)) = set (sort_key fst ns)" by (rule arg_cong)
  then have same: "set (sort_json_members ms) = set ns" by simp
  with plain have "plain_members ms" using plain_members_set [OF same] plain_members_sort by simp
  with same have "set ms = set ns" using sort_json_members_plain by simp
  then have "dget ms = dget ns" using map_of_inject_set [OF ok] by simp
  then show "\<forall>k. dget ms k = dget ns k" by simp
next
  assume "\<forall>k. dget ms k = dget ns k"
  then have "dget ms = dget ns" by (simp add: fun_eq_iff)
  then have same: "set ms = set ns" using map_of_inject_set [OF ok] by simp
  have "plain_members ms" using plain plain_members_set [OF same] by simp
  moreover have "mset ms = mset ns"
    using same ok by (simp add: set_eq_iff_mset_eq_distinct [symmetric] distinct_map)
  then have "sort_key fst ms = sort_key fst ns"
    using ok by (intro sort_key_inj_key_eq) (simp_all add: distinct_map)
  ultimately show "sort_json (JObj ms) = sort_json (JObj ns)"
    using sort_json_members_plain plain by simp
qed

section \<open>The comparison is equality of records\<close>

definition binding_ok :: "session_binding \<Rightarrow> bool" where
  "binding_ok b \<longleftrightarrow> utf8_ok (sb_session b) \<and> utf8_ok (sb_mode b) \<and> utf8_ok (sb_initiator b) \<and>
     utf8_ok (sb_responder b) \<and> utf8_ok (sb_role b) \<and>
     (case sb_invitation b of None \<Rightarrow> True | Some s \<Rightarrow> utf8_ok s) \<and>
     (case sb_secret b of None \<Rightarrow> True | Some s \<Rightarrow> utf8_ok s)"

lemma show_nat_small: "show_nat 2 = ''2''"
  by code_simp

lemma binding_printable: "binding_ok b \<Longrightarrow> printable io (JObj (binding_members b))"
  by (simp add: binding_ok_def binding_members_def utf8_ok_ascii show_nat_small split: option.splits)

lemma binding_plain: "plain_members (binding_members b)"
  by (simp add: plain_members_def binding_members_def split: option.splits)

lemma verify_binding_iff:
  assumes "binding_ok b" and "printable io (JObj ms)"
  shows "verify_binding io b (JObj ms) = Inr () \<longleftrightarrow> (\<forall>k. dget ms k = dget (binding_members b) k)"
proof -
  let ?s = "\<lambda>v. dumps io esc_ascii (sort_json v)"
  let ?b = "JObj (binding_members b)"
  have "printable io (sort_json ?b)" and "printable io (sort_json (JObj ms))"
    using binding_printable assms printable_sort by blast+
  then have "?s ?b = ?s (JObj ms) \<longleftrightarrow> sort_json ?b = sort_json (JObj ms)"
    by (auto simp del: sort_json.simps intro: ascii_escape.dumps_inject)
  also have "\<dots> \<longleftrightarrow> sort_json (JObj ms) = sort_json ?b" by (rule eq_commute)
  also have "\<dots> \<longleftrightarrow> (\<forall>k. dget ms k = dget (binding_members b) k)"
    using assms(2) binding_printable [OF assms(1), of io] by (intro sort_json_flat binding_plain) simp_all
  finally show ?thesis by (simp add: verify_binding_def)
qed

lemma binding_members_inject: "(\<forall>k. dget (binding_members b) k = dget (binding_members c) k) \<longleftrightarrow> b = c"
proof
  assume same: "\<forall>k. dget (binding_members b) k = dget (binding_members c) k"
  have opt: "json_opt x = json_opt y \<longleftrightarrow> x = y" for x y by (cases x; cases y) auto
  show "b = c"
    using spec [OF same, of "''session_id''"] spec [OF same, of "''mode''"] spec [OF same, of "''initiator_id''"]
      spec [OF same, of "''responder_id''"] spec [OF same, of "''initiator_role''"]
      spec [OF same, of "''invitation_sha256''"] spec [OF same, of "''secret''"]
    by (simp add: binding_members_def opt)
qed simp

text \<open>
  C29. The responder accepts the first record of a session exactly when it has the eleven members
  of the expected binding with the expected values and no others, in any order; in particular a
  record written from another binding is accepted only when the two bindings are the same. The
  comparison of canonical texts that the code makes is therefore equality of the records.
\<close>
theorem verify_binding_exact:
  assumes "binding_ok b" and "printable io (JObj ms)" and "binding_ok c"
  shows "verify_binding io b (JObj ms) = (if \<forall>k. dget ms k = dget (binding_members b) k then Inr ()
           else Inl (FrameError ''session_binding'')) \<and>
         (verify_binding io b (JObj (binding_members c)) = Inr () \<longleftrightarrow> b = c)"
proof (intro conjI)
  have two: "verify_binding io b v = Inr () \<or> verify_binding io b v = Inl (FrameError ''session_binding'')" for v
    by (simp add: verify_binding_def need_def)
  show "verify_binding io b (JObj ms) = (if \<forall>k. dget ms k = dget (binding_members b) k then Inr ()
      else Inl (FrameError ''session_binding''))"
    using two [of "JObj ms"] verify_binding_iff [OF assms(1,2)] by auto
  show "verify_binding io b (JObj (binding_members c)) = Inr () \<longleftrightarrow> b = c"
    using verify_binding_iff [OF assms(1) binding_printable [OF assms(3)]] binding_members_inject [of c b] by auto
qed

definition sample_binding :: session_binding where
  "sample_binding = \<lparr>sb_session = sample_session, sb_mode = ''pair'', sb_initiator = ''a'', sb_responder = ''b'',
     sb_role = ''controller'', sb_invitation = Some ''c0'', sb_secret = Some ''s''\<rparr>"

lemma sample_binding_ok: "binding_ok sample_binding" "binding_ok (sample_binding \<lparr>sb_secret := Some ''t''\<rparr>)"
  by (simp_all add: binding_ok_def sample_binding_def sample_session_def utf8_ok_ascii)

theorem verify_binding_exact_witness:
  "verify_binding no_floats sample_binding (JObj (rev (binding_members sample_binding))) = Inr () \<and>
   verify_binding no_floats sample_binding (JObj (binding_members (sample_binding \<lparr>sb_secret := Some ''t''\<rparr>))) \<noteq> Inr ()"
proof -
  let ?b = "sample_binding" and ?c = "sample_binding \<lparr>sb_secret := Some ''t''\<rparr>"
  have p: "printable no_floats (JObj (rev (binding_members ?b)))"
    using binding_printable [OF sample_binding_ok(1), of no_floats]
    by (simp add: printable_members_iff rev_map [symmetric])
  have keys: "dict_ok (binding_members ?b)" by (simp add: binding_members_def)
  then have "dict_ok (rev (binding_members ?b))" by (simp only: rev_map [symmetric] distinct_rev)
  with keys have "dget (rev (binding_members ?b)) = dget (binding_members ?b)"
    by (simp only: map_of_inject_set set_rev)
  moreover have "?b \<noteq> ?c" by (simp add: sample_binding_def)
  ultimately show ?thesis
    using verify_binding_exact [OF sample_binding_ok(1) p sample_binding_ok(2)] by simp
qed

end
