(* ===== verification/Registry.thy ===== *)
theory Registry
  imports Session_Binding
begin

text \<open>
  \<^verbatim>\<open>devices/registry.py\<close>: which devices may talk to this one. A peer is proposed, confirmed by
  the user (or, when this device scanned the invitation, by the answer of the other side),
  acknowledges, and may be revoked; a revoked row stays as a tombstone.

  The tables of the database are lists of rows in the order of insertion. Every operation
  runs in a transaction, so one that raises leaves the tables as they were: its model
  returns only the exception. The readings of the clock, the random tokens and the
  identifiers that \<^verbatim>\<open>uuid4\<close> makes are arguments.
\<close>

text \<open>\<open>FrameFault\<close> is a \<^verbatim>\<open>FrameError\<close>, \<open>Uncaught\<close> an exception that no handler of the module names.\<close>
datatype registry_error = PairingError string | StorageError string | FrameFault frame_error | Uncaught string

section \<open>What is not part of the repository\<close>

text \<open>
  The cipher, the hash function, the classification of network addresses (its tables differ
  between releases of Python), \<^verbatim>\<open>urlsplit\<close> (which normalises host names by the Unicode tables; \<open>None\<close>
  when it or the port raises) and the tables of the Unicode database are parameters.
\<close>
record address =
  is_private :: bool
  is_loopback :: bool
  is_unspecified :: bool
  is_multicast :: bool

record url =
  url_scheme :: string
  url_hostname :: string
  url_username :: string
  url_password :: string
  url_path :: string
  url_query :: string
  url_fragment :: string
  url_port :: "int option"

record device_lib =
  lib_io :: float_io
  lib_printable :: "nat \<Rightarrow> bool"
  lib_control :: "nat \<Rightarrow> bool"
  lib_urlsplit :: "string \<Rightarrow> url option"
  lib_sha256 :: "string \<Rightarrow> string"
  lib_address :: "string \<Rightarrow> address option"
  lib_encrypt :: "string \<Rightarrow> string \<Rightarrow> string \<Rightarrow> string"
  lib_decrypt :: "string \<Rightarrow> string \<Rightarrow> string \<Rightarrow> string option"

text \<open>The documented behaviour of \<^verbatim>\<open>AESGCM\<close>: decryption under the same nonce and data inverts encryption.\<close>
definition cipher_ok :: "device_lib \<Rightarrow> bool" where
  "cipher_ok lib \<longleftrightarrow> (\<forall>nonce text data. lib_decrypt lib nonce (lib_encrypt lib nonce text data) data = Some text)"

section \<open>Names\<close>

text \<open>\<^verbatim>\<open>str(UUID(value)) == value\<close> holds of the canonical texts only.\<close>
definition device_id :: "json \<Rightarrow> registry_error + string" where
  "device_id v =
     (case v of
        JStr s \<Rightarrow> if is_uuid s then Inr s else Inl (PairingError ''invalid_device_id'')
      | _ \<Rightarrow> Inl (PairingError ''invalid_device_id''))"

text \<open>\<^verbatim>\<open>str.isspace\<close>\<close>
definition py_space :: "nat \<Rightarrow> bool" where
  "py_space c \<longleftrightarrow> 9 \<le> c \<and> c \<le> 13 \<or> 28 \<le> c \<and> c \<le> 32 \<or> c = 0x85 \<or> c = 0xA0 \<or> c = 0x1680 \<or>
     0x2000 \<le> c \<and> c \<le> 0x200A \<or> c = 0x2028 \<or> c = 0x2029 \<or> c = 0x202F \<or> c = 0x205F \<or> c = 0x3000"

text \<open>\<^verbatim>\<open>str.split()\<close>, with the word being read\<close>
fun split_words :: "nat list \<Rightarrow> nat list \<Rightarrow> nat list list" where
  "split_words w [] = (if w = [] then [] else [w])"
| "split_words w (c # cs) =
     (if py_space c then (if w = [] then split_words [] cs else w # split_words [] cs)
      else split_words (w @ [c]) cs)"

fun join_words :: "nat list list \<Rightarrow> nat list" where
  "join_words [] = []"
| "join_words (w # ws) = (if ws = [] then w else w @ 32 # join_words ws)"

definition display_name :: "device_lib \<Rightarrow> json \<Rightarrow> string option" where
  "display_name lib v =
     (case v of
        JStr s \<Rightarrow>
          (let label = utf8_encode (take 80 (join_words (split_words [] (filter (lib_printable lib) (utf8_dec s)))))
           in if label = [] then None else Some label)
      | _ \<Rightarrow> None)"

definition default_desktop_name :: string where
  "default_desktop_name = ''Raticode Desktop''"

text \<open>\<^verbatim>\<open>lan_endpoint\<close> of \<^verbatim>\<open>devices/pairing.py\<close>; \<^verbatim>\<open>None\<close> is \<open>JNull\<close>.\<close>
definition lan_endpoint :: "device_lib \<Rightarrow> json \<Rightarrow> registry_error + json" where
  "lan_endpoint lib v =
     (if v = JNull then Inr v
      else case (v, jget v ''host'', jget v ''port'') of
        (JObj ms, Some (JStr host), Some (JInt port)) \<Rightarrow>
          if set (dkeys ms) = {''host'', ''port''} \<and> 1 \<le> py_len host \<and> py_len host \<le> 253 \<and>
             CHR ''%'' \<notin> set host \<and> 1 \<le> port \<and> port \<le> 65535
          then case lib_address lib host of
              None \<Rightarrow> Inl (PairingError ''invalid_lan_endpoint'')
            | Some a \<Rightarrow>
                if \<not> (is_private a \<or> is_loopback a) \<or> is_unspecified a \<or> is_multicast a
                then Inl (PairingError ''invalid_lan_endpoint'') else Inr v
          else Inl (PairingError ''invalid_lan_endpoint'')
      | _ \<Rightarrow> Inl (PairingError ''invalid_lan_endpoint''))"

definition hex_text :: "string \<Rightarrow> string" where
  "hex_text bs = concat (map (\<lambda>c. [hex_digit (ord c div 16), hex_digit (ord c mod 16)]) bs)"

section \<open>The tables\<close>

datatype peer_state = Pending | OutboundPending | Confirmed | Active | Revoked

fun state_text :: "peer_state \<Rightarrow> string" where
  "state_text Pending = ''pending''"
| "state_text OutboundPending = ''outbound_pending''"
| "state_text Confirmed = ''confirmed''"
| "state_text Active = ''active''"
| "state_text Revoked = ''revoked''"

record peer =
  peer_id :: string
  peer_pin :: string
  peer_role :: string
  peer_state :: peer_state
  peer_revision :: int
  peer_created :: rat
  peer_last_seen :: "rat option"
  peer_expires :: "rat option"
  peer_routes :: "string option"
  peer_capabilities :: string
  peer_generation :: string

text \<open>
  \<open>reg_identity\<close> is the row of the table \<^verbatim>\<open>identity\<close>; \<open>reg_id\<close> and \<open>reg_pin\<close> are the
  identifier and the certificate pin of \<^verbatim>\<open>self.identity\<close>.
\<close>
record registry =
  reg_identity :: "(string \<times> string) option"
  reg_id :: string
  reg_pin :: string
  reg_peers :: "peer list"
  reg_endpoints :: "(string, string) dict"
  reg_names :: "(string, string) dict"
  reg_config :: "(string, int) dict"
  reg_workspace :: "string list"

definition max_peers :: nat where "max_peers = 128"

abbreviation peer_ids :: "registry \<Rightarrow> string list" where
  "peer_ids r \<equiv> map peer_id (reg_peers r)"

abbreviation peer_pins :: "registry \<Rightarrow> string list" where
  "peer_pins r \<equiv> map peer_pin (reg_peers r)"

definition find_peer :: "string \<Rightarrow> registry \<Rightarrow> peer option" where
  "find_peer p r = find (\<lambda>x. peer_id x = p) (reg_peers r)"

definition update_peer :: "string \<Rightarrow> (peer \<Rightarrow> peer) \<Rightarrow> registry \<Rightarrow> registry" where
  "update_peer p f r = r\<lparr>reg_peers := map (\<lambda>x. if peer_id x = p then f x else x) (reg_peers r)\<rparr>"

text \<open>\<^verbatim>\<open>expires <= now\<close> in the query language, where \<^verbatim>\<open>NULL\<close> is not true.\<close>
definition expired :: "rat \<Rightarrow> peer \<Rightarrow> bool" where
  "expired now x \<longleftrightarrow> (case peer_expires x of None \<Rightarrow> False | Some e \<Rightarrow> e \<le> now)"

text \<open>\<^verbatim>\<open>row["expires"] <= now\<close> in Python, where \<^verbatim>\<open>None\<close> has no order.\<close>
definition lapsed :: "rat \<Rightarrow> peer \<Rightarrow> registry_error + bool" where
  "lapsed now x = (case peer_expires x of None \<Rightarrow> Inl (Uncaught ''TypeError'') | Some e \<Rightarrow> Inr (e \<le> now))"

section \<open>Opening the registry\<close>

text \<open>
  \<open>fresh\<close> is the identity that would be created; \<open>stored\<close> what the secret store holds, decoded
  (\<open>Inl\<close> when that raises); \<open>gens\<close> the identifiers for rows that have no generation yet.
\<close>
fun fill_generations :: "string list \<Rightarrow> peer list \<Rightarrow> peer list" where
  "fill_generations gens [] = []"
| "fill_generations gens (x # xs) =
     (if peer_generation x = [] then
        x\<lparr>peer_generation := (case gens of [] \<Rightarrow> [] | g # _ \<Rightarrow> g)\<rparr> # fill_generations (tl gens) xs
      else x # fill_generations gens xs)"

definition open_registry ::
  "bool \<Rightarrow> string \<times> string \<Rightarrow> (registry_error + string \<times> string) option \<Rightarrow> string list \<Rightarrow> registry \<Rightarrow> registry_error + registry" where
  "open_registry initialize fresh stored gens r =
     andThen
       (case stored of
          None \<Rightarrow>
            if reg_identity r \<noteq> None \<or> \<not> initialize then Inl (StorageError ''identity_missing_repair_required'')
            else Inr fresh
        | Some res \<Rightarrow> res)
       (\<lambda>own.
         if reg_identity r \<noteq> None \<and> reg_identity r \<noteq> Some own
         then Inl (StorageError ''identity_mismatch_repair_required'')
         else Inr (r\<lparr>reg_peers := fill_generations gens (reg_peers r), reg_identity := Some own,
                     reg_id := fst own, reg_pin := snd own\<rparr>))"

definition empty_registry :: registry where
  "empty_registry = \<lparr>reg_identity = None, reg_id = [], reg_pin = [], reg_peers = [], reg_endpoints = [],
     reg_names = [], reg_config = [], reg_workspace = []\<rparr>"

section \<open>Operations\<close>

definition peer_row :: "string \<Rightarrow> registry \<Rightarrow> registry_error + peer" where
  "peer_row p r =
     andThen (device_id (JStr p)) (\<lambda>_.
       case find_peer p r of None \<Rightarrow> Inl (PairingError ''peer_unavailable'') | Some x \<Rightarrow> Inr x)"

definition roles :: "string list" where
  "roles = [''controller'', ''desktop'']"

definition drop_expired :: "rat \<Rightarrow> registry \<Rightarrow> registry" where
  "drop_expired now r =
     (let kept = filter (\<lambda>x. \<not> (peer_state x \<in> {Pending, OutboundPending} \<and> expired now x)) (reg_peers r);
          ids = map peer_id kept
      in r\<lparr>reg_peers := kept, reg_endpoints := filter (\<lambda>(k, _). k \<in> set ids) (reg_endpoints r),
           reg_names := filter (\<lambda>(k, _). k \<in> set ids) (reg_names r)\<rparr>)"

definition new_peer :: "rat \<Rightarrow> string \<Rightarrow> string \<Rightarrow> string \<Rightarrow> string \<Rightarrow> rat \<Rightarrow> bool \<Rightarrow> peer" where
  "new_peer now gen p pin role expires outbound =
     \<lparr>peer_id = p, peer_pin = pin, peer_role = role,
      peer_state = (if outbound then OutboundPending else Pending), peer_revision = 0, peer_created = now,
      peer_last_seen = None, peer_expires = Some expires, peer_routes = None, peer_capabilities = ''[]'',
      peer_generation = gen\<rparr>"

definition propose ::
  "rat \<Rightarrow> rat \<Rightarrow> string \<Rightarrow> string \<Rightarrow> string \<Rightarrow> string \<Rightarrow> rat \<Rightarrow> bool \<Rightarrow> registry \<Rightarrow> registry_error + registry" where
  "propose now later gen p pin role expires outbound r =
     andThen (device_id (JStr p)) (\<lambda>_.
     andThen (need (length pin = 32 \<and> role \<in> set roles \<and> p \<noteq> reg_id r) (PairingError ''invalid_peer'')) (\<lambda>_.
     let r1 = drop_expired now r
     in andThen (need (length (reg_peers r1) < max_peers) (PairingError ''peer_quota'')) (\<lambda>_.
        andThen (need (p \<notin> set (peer_ids r1) \<and> pin \<notin> set (peer_pins r1)) (PairingError ''peer_conflict'')) (\<lambda>_.
          Inr (r1\<lparr>reg_peers := reg_peers r1 @ [new_peer later gen p pin role expires outbound]\<rparr>)))))"

definition routes_document :: "string \<Rightarrow> string \<Rightarrow> (string \<times> json) list" where
  "routes_document initiator responder =
     [(''initiator_topic'', JStr initiator), (''responder_topic'', JStr responder)]"

definition protect_routes :: "device_lib \<Rightarrow> string \<Rightarrow> string \<Rightarrow> (string \<times> json) list \<Rightarrow> string" where
  "protect_routes lib nonce p routes = nonce @ lib_encrypt lib nonce (dumps_flat (lib_io lib) esc_ascii routes) p"

definition confirm ::
  "device_lib \<Rightarrow> rat \<Rightarrow> string \<Rightarrow> string \<Rightarrow> string \<Rightarrow> string \<Rightarrow> string \<Rightarrow> registry \<Rightarrow> registry_error + registry" where
  "confirm lib now initiator responder nonce p pin_hex r =
     andThen (peer_row p r) (\<lambda>x.
     andThen (if peer_state x \<noteq> Pending then Inr True else lapsed now x) (\<lambda>stale.
     andThen (need (\<not> stale) (PairingError ''enrollment_expired'')) (\<lambda>_.
     andThen (need (list_all (\<lambda>c. ord c < 128) pin_hex) (Uncaught ''TypeError'')) (\<lambda>_.
     andThen (need (hex_text (peer_pin x) = pin_hex) (PairingError ''identity_changed'')) (\<lambda>_.
     let encrypted = protect_routes lib nonce p (routes_document initiator responder);
         r1 = update_peer p (\<lambda>y. y\<lparr>peer_state := Confirmed, peer_revision := 1, peer_expires := None,
                peer_routes := Some encrypted, peer_capabilities := ''[]''\<rparr>) r
     in Inr (if peer_role x = ''controller'' then r1\<lparr>reg_workspace := List.insert p (reg_workspace r1)\<rparr> else r1))))))"

definition trusted :: "peer_state \<Rightarrow> bool" where
  "trusted st \<longleftrightarrow> st \<in> {Confirmed, Active}"

definition trusted_pins :: "registry \<Rightarrow> string set" where
  "trusted_pins r = set (map peer_pin (filter (\<lambda>x. trusted (peer_state x)) (reg_peers r)))"

definition generation :: "string \<Rightarrow> registry \<Rightarrow> registry_error + string" where
  "generation p r = andThen (peer_row p r) (\<lambda>x. Inr (peer_generation x))"

definition check_generation :: "string \<Rightarrow> string option \<Rightarrow> registry \<Rightarrow> registry_error + unit" where
  "check_generation p gen r =
     (case gen of
        None \<Rightarrow> Inl (PairingError ''pairing_changed'')
      | Some g \<Rightarrow> andThen (generation p r) (\<lambda>h. need (h = g) (PairingError ''pairing_changed'')))"

definition authenticate :: "string \<Rightarrow> string \<Rightarrow> string \<Rightarrow> registry \<Rightarrow> registry_error + unit" where
  "authenticate p pin role r =
     andThen (peer_row p r) (\<lambda>x.
       need (trusted (peer_state x) \<and> peer_role x = role \<and> peer_pin x = pin) (PairingError ''peer_unavailable''))"

text \<open>
  A routes column that is \<^verbatim>\<open>NULL\<close> is a \<^verbatim>\<open>TypeError\<close> inside the handler, and so is reported as
  invalid. (\<^verbatim>\<open>json.loads\<close> on bytes would also read UTF-16 and UTF-32 texts; the only texts that
  are ever encrypted are UTF-8.)
\<close>
definition read_routes :: "device_lib \<Rightarrow> string \<Rightarrow> peer \<Rightarrow> registry_error + json" where
  "read_routes lib p x =
     (case peer_routes x of
        None \<Rightarrow> Inl (StorageError ''protected_routes_invalid'')
      | Some blob \<Rightarrow>
          (case lib_decrypt lib (take 12 blob) (drop 12 blob) p of
             None \<Rightarrow> Inl (StorageError ''protected_routes_invalid'')
           | Some text \<Rightarrow>
               (case (if utf8_ok text then loads (lib_io lib) False text else None) of
                  None \<Rightarrow> Inl (StorageError ''protected_routes_invalid'')
                | Some v \<Rightarrow> Inr v)))"

definition ready :: "device_lib \<Rightarrow> string \<Rightarrow> string \<Rightarrow> string \<Rightarrow> registry \<Rightarrow> registry_error + (string \<times> json) list" where
  "ready lib p pin role r =
     andThen (authenticate p pin role r) (\<lambda>_.
     andThen (peer_row p r) (\<lambda>x.
     andThen (read_routes lib p x) (\<lambda>routes.
     andThen (case loads (lib_io lib) False (peer_capabilities x) of
                None \<Rightarrow> Inl (Uncaught ''JSONDecodeError'') | Some v \<Rightarrow> Inr v) (\<lambda>caps.
     andThen (need (is_mapping routes) (Uncaught ''TypeError'')) (\<lambda>_.
       Inr (dset ''trust_revision'' (JInt (peer_revision x))
         (dmerge [(''type'', JStr ''session.ready''), (''device_id'', JStr p), (''role'', JStr role),
                  (''capabilities'', caps)] (members routes))))))))"

definition is_int :: "json option \<Rightarrow> bool" where
  "is_int v \<longleftrightarrow> (case v of Some (JInt _) \<Rightarrow> True | _ \<Rightarrow> False)"

definition acknowledge ::
  "rat \<Rightarrow> string \<Rightarrow> string \<Rightarrow> string \<Rightarrow> (string \<times> json) list \<Rightarrow> registry \<Rightarrow> registry_error + registry" where
  "acknowledge now p pin role rec r =
     andThen (authenticate p pin role r) (\<lambda>_.
     andThen (peer_row p r) (\<lambda>x.
     andThen (need (py_eq (JObj rec) (JObj [(''type'', JStr ''session.ready_ack''), (''device_id'', JStr p),
                      (''trust_revision'', JInt (peer_revision x))]) \<and> is_int (dget rec ''trust_revision''))
       (PairingError ''invalid_ready_ack'')) (\<lambda>_.
       Inr (update_peer p (\<lambda>y. y\<lparr>peer_state := Active, peer_last_seen := Some now\<rparr>) r))))"

definition revoke :: "string \<Rightarrow> registry \<Rightarrow> registry_error + registry" where
  "revoke p r =
     andThen (peer_row p r) (\<lambda>_.
       Inr (update_peer p (\<lambda>y. y\<lparr>peer_state := Revoked, peer_revision := peer_revision y + 1, peer_routes := None,
              peer_capabilities := ''[]'', peer_expires := None\<rparr>)
            (r\<lparr>reg_endpoints := ddel p (reg_endpoints r)\<rparr>)))"

definition json_rat :: "rat option \<Rightarrow> json" where
  "json_rat v = (case v of None \<Rightarrow> JNull | Some q \<Rightarrow> JFloat q)"

text \<open>One row of \<^verbatim>\<open>list\<close>; \<open>now\<close> is the reading of the clock for this row.\<close>
definition list_row :: "device_lib \<Rightarrow> rat \<Rightarrow> (string, string) dict \<Rightarrow> peer \<Rightarrow> registry_error + json" where
  "list_row lib now names x =
     andThen (if peer_state x \<in> {Pending, OutboundPending} then lapsed now x else Inr False) (\<lambda>stale.
     andThen (case loads (lib_io lib) False (peer_capabilities x) of
                None \<Rightarrow> Inl (Uncaught ''JSONDecodeError'') | Some v \<Rightarrow> Inr v) (\<lambda>caps.
       Inr (JObj [(''device_id'', JStr (peer_id x)), (''name'', json_opt (dget names (peer_id x))),
         (''fingerprint'', JStr (hex_text (peer_pin x))), (''role'', JStr (peer_role x)),
         (''state'', JStr (if stale then ''expired'' else state_text (peer_state x))),
         (''trust_revision'', JInt (peer_revision x)), (''created_at'', JFloat (peer_created x)),
         (''expires_at'', json_rat (peer_expires x)), (''last_seen'', json_rat (peer_last_seen x)),
         (''capabilities'', caps)])))"

fun list_rows :: "device_lib \<Rightarrow> (nat \<Rightarrow> rat) \<Rightarrow> (string, string) dict \<Rightarrow> nat \<Rightarrow> peer list \<Rightarrow> registry_error + json list" where
  "list_rows lib clock names i [] = Inr []"
| "list_rows lib clock names i (x # xs) =
     andThen (list_row lib (clock i) names x) (\<lambda>v.
     andThen (list_rows lib clock names (Suc i) xs) (\<lambda>vs. Inr (v # vs)))"

definition list_peers :: "device_lib \<Rightarrow> (nat \<Rightarrow> rat) \<Rightarrow> registry \<Rightarrow> registry_error + json list" where
  "list_peers lib clock r = list_rows lib clock (reg_names r) 0 (sort_key peer_created (reg_peers r))"

section \<open>Enrollment from the other side\<close>

definition ready_fields :: "string list" where
  "ready_fields = [''type'', ''device_id'', ''role'', ''capabilities'', ''initiator_topic'', ''responder_topic'',
     ''trust_revision'']"

text \<open>\<^verbatim>\<open>re.fullmatch(r"[A-Za-z0-9_-]{43}", v)\<close> of a text\<close>
definition topic_ok :: "string \<Rightarrow> bool" where
  "topic_ok s \<longleftrightarrow> b64_text s \<and> length s = 43"

definition is_topic :: "json option \<Rightarrow> bool" where
  "is_topic v \<longleftrightarrow> (case v of Some (JStr s) \<Rightarrow> topic_ok s | _ \<Rightarrow> False)"

definition str_of :: "json option \<Rightarrow> string" where
  "str_of v = (case v of Some (JStr s) \<Rightarrow> s | _ \<Rightarrow> [])"

definition remote_ready_ok :: "string \<Rightarrow> (string \<times> json) list \<Rightarrow> bool" where
  "remote_ready_ok own rec \<longleftrightarrow>
     set (dkeys rec) = set ready_fields \<and> dget rec ''type'' = Some (JStr ''session.ready'') \<and>
     dget rec ''device_id'' = Some (JStr own) \<and> dget rec ''role'' = Some (JStr ''desktop'') \<and>
     dget rec ''capabilities'' = Some (JList []) \<and> dget rec ''trust_revision'' = Some (JInt 1) \<and>
     is_topic (dget rec ''initiator_topic'') \<and> is_topic (dget rec ''responder_topic'')"

definition accept_remote ::
  "device_lib \<Rightarrow> rat \<Rightarrow> rat \<Rightarrow> string \<Rightarrow> string \<Rightarrow> string \<Rightarrow> (string \<times> json) list \<Rightarrow> registry \<Rightarrow> registry_error + registry" where
  "accept_remote lib now later nonce p pin rec r =
     andThen (need (remote_ready_ok (reg_id r) rec) (PairingError ''invalid_remote_ready'')) (\<lambda>_.
     andThen (peer_row p r) (\<lambda>x.
     andThen (if peer_state x \<noteq> OutboundPending then Inr True else lapsed now x) (\<lambda>stale.
     andThen (need (\<not> stale \<and> peer_pin x = pin \<and> peer_role x = ''desktop'') (PairingError ''peer_unavailable'')) (\<lambda>_.
     let routes = routes_document (str_of (dget rec ''initiator_topic'')) (str_of (dget rec ''responder_topic''))
     in Inr (update_peer p (\<lambda>y. y\<lparr>peer_state := Active, peer_revision := 1, peer_expires := None,
               peer_routes := Some (protect_routes lib nonce p routes), peer_capabilities := ''[]'',
               peer_last_seen := Some later\<rparr>) r)))))"

definition reconnect_pin :: "rat \<Rightarrow> string \<Rightarrow> registry \<Rightarrow> registry_error + string" where
  "reconnect_pin now p r =
     andThen (peer_row p r) (\<lambda>x.
     andThen (need (peer_state x \<in> {OutboundPending, Active, Confirmed}) (PairingError ''peer_unavailable'')) (\<lambda>_.
     andThen (if peer_state x = OutboundPending then lapsed now x else Inr False) (\<lambda>stale.
     andThen (need (\<not> stale) (PairingError ''enrollment_expired'')) (\<lambda>_.
       Inr (peer_pin x)))))"

definition recover_remote ::
  "device_lib \<Rightarrow> rat \<Rightarrow> rat \<Rightarrow> string \<Rightarrow> string \<Rightarrow> string \<Rightarrow> (string \<times> json) list \<Rightarrow> registry \<Rightarrow> registry_error + registry" where
  "recover_remote lib now later nonce p pin rec r =
     andThen (peer_row p r) (\<lambda>x.
       if peer_state x = OutboundPending then accept_remote lib now later nonce p pin rec r
       else andThen (ready lib p pin ''desktop'' r) (\<lambda>known.
         let expected = dset ''device_id'' (JStr (reg_id r)) known
         in andThen (need (py_eq (JObj rec) (JObj expected) \<and> is_int (dget rec ''trust_revision''))
              (PairingError ''remote_trust_conflict'')) (\<lambda>_. Inr r)))"

section \<open>Endpoints, names and settings\<close>

definition dumps_endpoint :: "device_lib \<Rightarrow> json \<Rightarrow> string" where
  "dumps_endpoint lib v =
     (case v of JObj ms \<Rightarrow> dumps_flat (lib_io lib) esc_ascii ms | _ \<Rightarrow> dumps (lib_io lib) esc_ascii v)"

definition save_endpoint :: "device_lib \<Rightarrow> rat \<Rightarrow> string \<Rightarrow> json \<Rightarrow> registry \<Rightarrow> registry_error + registry" where
  "save_endpoint lib now p v r =
     andThen (lan_endpoint lib v) (\<lambda>w.
     andThen (reconnect_pin now p r) (\<lambda>_.
       Inr (r\<lparr>reg_endpoints := dset p (dumps_endpoint lib w) (reg_endpoints r)\<rparr>)))"

definition save_name :: "device_lib \<Rightarrow> string \<Rightarrow> json \<Rightarrow> bool \<Rightarrow> registry \<Rightarrow> registry_error + registry" where
  "save_name lib p name chosen r =
     (case display_name lib name of
        None \<Rightarrow> Inr r
      | Some label \<Rightarrow>
          andThen (peer_row p r) (\<lambda>_.
            Inr (case dget (reg_names r) p of
                   None \<Rightarrow> r\<lparr>reg_names := dset p label (reg_names r)\<rparr>
                 | Some old \<Rightarrow>
                     if chosen \<or> old = default_desktop_name then r\<lparr>reg_names := dset p label (reg_names r)\<rparr> else r)))"

definition endpoint :: "device_lib \<Rightarrow> rat \<Rightarrow> string \<Rightarrow> registry \<Rightarrow> registry_error + json" where
  "endpoint lib now p r =
     andThen (reconnect_pin now p r) (\<lambda>_.
       case dget (reg_endpoints r) p of
         None \<Rightarrow> Inl (PairingError ''peer_endpoint_unknown'')
       | Some text \<Rightarrow>
           (case loads (lib_io lib) False text of None \<Rightarrow> Inl (Uncaught ''JSONDecodeError'') | Some v \<Rightarrow> Inr v))"

definition listener_port :: "registry \<Rightarrow> int" where
  "listener_port r = dget_or 0 (reg_config r) ''listener_port''"

definition save_listener_port :: "int \<Rightarrow> registry \<Rightarrow> registry" where
  "save_listener_port port r = r\<lparr>reg_config := dset ''listener_port'' port (reg_config r)\<rparr>"

definition tailnet_enabled :: "registry \<Rightarrow> bool" where
  "tailnet_enabled r \<longleftrightarrow> dget_or 0 (reg_config r) ''tailnet'' \<noteq> 0"

definition save_tailnet_enabled :: "bool \<Rightarrow> registry \<Rightarrow> registry" where
  "save_tailnet_enabled enabled r = r\<lparr>reg_config := dset ''tailnet'' (if enabled then 1 else 0) (reg_config r)\<rparr>"

end
