(* ===== verification/Registry_Trust.thy ===== *)
theory Registry_Trust
  imports Registry
begin

text \<open>
  What the registry guarantees over any sequence of requests: its tables stay consistent, a
  revoked device stays revoked, and a device is trusted only after this user confirmed its
  pin, or after this device itself started the enrollment with that pin. The life of a row
  is specified by the step relation \<open>trust_move\<close>, which the operations refine.
\<close>

section \<open>Requests\<close>

datatype request =
    Reopen bool "string \<times> string" "(registry_error + string \<times> string) option" "string list"
  | Propose rat rat string string string string rat bool
  | Confirm rat string string string string string
  | Acknowledge rat string string string "(string \<times> json) list"
  | Revoke string
  | AcceptRemote rat rat string string string "(string \<times> json) list"
  | RecoverRemote rat rat string string string "(string \<times> json) list"
  | SaveEndpoint rat string json
  | SaveName string json bool
  | SaveListenerPort int
  | SaveTailnet bool

fun perform :: "device_lib \<Rightarrow> request \<Rightarrow> registry \<Rightarrow> registry_error + registry" where
  "perform lib (Reopen initialize fresh stored gens) r = open_registry initialize fresh stored gens r"
| "perform lib (Propose now later gen p pin role expires outbound) r =
     propose now later gen p pin role expires outbound r"
| "perform lib (Confirm now initiator responder nonce p pin_hex) r = confirm lib now initiator responder nonce p pin_hex r"
| "perform lib (Acknowledge now p pin role rec) r = acknowledge now p pin role rec r"
| "perform lib (Revoke p) r = revoke p r"
| "perform lib (AcceptRemote now later nonce p pin rec) r = accept_remote lib now later nonce p pin rec r"
| "perform lib (RecoverRemote now later nonce p pin rec) r = recover_remote lib now later nonce p pin rec r"
| "perform lib (SaveEndpoint now p v) r = save_endpoint lib now p v r"
| "perform lib (SaveName p name chosen) r = save_name lib p name chosen r"
| "perform lib (SaveListenerPort port) r = Inr (save_listener_port port r)"
| "perform lib (SaveTailnet enabled) r = Inr (save_tailnet_enabled enabled r)"

text \<open>A request that raises is rolled back.\<close>
definition attempt :: "device_lib \<Rightarrow> request \<Rightarrow> registry \<Rightarrow> registry" where
  "attempt lib q r = (case perform lib q r of Inl _ \<Rightarrow> r | Inr r' \<Rightarrow> r')"

abbreviation attempts :: "device_lib \<Rightarrow> request list \<Rightarrow> registry \<Rightarrow> registry" where
  "attempts lib qs r \<equiv> fold (attempt lib) qs r"

section \<open>Rows\<close>

named_theorems row_simps \<open>looking up rows before and after an operation\<close>

lemma device_id_str [row_simps]: "device_id (JStr s) = (if is_uuid s then Inr s else Inl (PairingError ''invalid_device_id''))"
  by (simp add: device_id_def)

lemma peer_row_eq [row_simps]: "peer_row p r = Inr x \<longleftrightarrow> is_uuid p \<and> find_peer p r = Some x"
  by (auto simp: peer_row_def row_simps split: option.splits)

lemma find_peer_id: "find_peer p r = Some x \<Longrightarrow> peer_id x = p \<and> x \<in> set (reg_peers r)"
  unfolding find_peer_def by (auto simp: find_Some_iff)

lemma find_peer_None: "find_peer p r = None \<longleftrightarrow> p \<notin> set (peer_ids r)"
  unfolding find_peer_def by (auto simp: find_None_iff)

lemma find_peer_mem:
  assumes "distinct (peer_ids r)" and "x \<in> set (reg_peers r)"
  shows "find_peer (peer_id x) r = Some x"
proof (cases "find_peer (peer_id x) r")
  case None
  with assms(2) show ?thesis by (simp add: find_peer_None)
next
  case (Some y)
  then have "peer_id y = peer_id x" "y \<in> set (reg_peers r)" using find_peer_id by blast+
  with assms Some show ?thesis by (metis distinct_map inj_on_eq_iff)
qed

text \<open>The updates of the operations change neither the identifier nor the pin nor the role of a row.\<close>
definition keeps_identity :: "(peer \<Rightarrow> peer) \<Rightarrow> bool" where
  "keeps_identity f \<longleftrightarrow> (\<forall>y. peer_id (f y) = peer_id y \<and> peer_pin (f y) = peer_pin y \<and> peer_role (f y) = peer_role y)"

lemma find_peer_update [row_simps]:
  assumes "keeps_identity f"
  shows "find_peer q (update_peer p f r) = (if q = p then map_option f (find_peer q r) else find_peer q r)"
proof -
  have "find (\<lambda>x. peer_id x = q) (map (\<lambda>x. if peer_id x = p then f x else x) xs)
      = (if q = p then map_option f (find (\<lambda>x. peer_id x = q) xs) else find (\<lambda>x. peer_id x = q) xs)" for xs
    using assms by (induction xs) (auto simp: keeps_identity_def)
  then show ?thesis by (simp add: find_peer_def update_peer_def)
qed

lemma update_peer_columns [row_simps]:
  assumes "keeps_identity f"
  shows "peer_ids (update_peer p f r) = peer_ids r" "peer_pins (update_peer p f r) = peer_pins r"
    "length (reg_peers (update_peer p f r)) = length (reg_peers r)"
  using assms by (auto simp: update_peer_def keeps_identity_def)

lemma update_peer_tables [simp, row_simps]:
  "reg_identity (update_peer p f r) = reg_identity r" "reg_id (update_peer p f r) = reg_id r"
  "reg_pin (update_peer p f r) = reg_pin r" "reg_endpoints (update_peer p f r) = reg_endpoints r"
  "reg_names (update_peer p f r) = reg_names r" "reg_workspace (update_peer p f r) = reg_workspace r"
  by (simp_all add: update_peer_def)

lemma find_peer_tables [simp, row_simps]:
  "find_peer p (r\<lparr>reg_endpoints := e\<rparr>) = find_peer p r" "find_peer p (r\<lparr>reg_names := e\<rparr>) = find_peer p r"
  "find_peer p (r\<lparr>reg_workspace := w\<rparr>) = find_peer p r" "find_peer p (r\<lparr>reg_config := c\<rparr>) = find_peer p r"
  by (simp_all add: find_peer_def)

lemma keeps_identityI [intro]:
  "(\<And>y. peer_id (f y) = peer_id y \<and> peer_pin (f y) = peer_pin y \<and> peer_role (f y) = peer_role y) \<Longrightarrow> keeps_identity f"
  by (simp add: keeps_identity_def)

section \<open>Consistent tables\<close>

definition peer_ok :: "peer \<Rightarrow> bool" where
  "peer_ok x \<longleftrightarrow> is_uuid (peer_id x) \<and> length (peer_pin x) = 32 \<and> peer_role x \<in> set roles \<and>
     peer_capabilities x = ''[]'' \<and>
     (case peer_state x of
        Pending \<Rightarrow> peer_revision x = 0 \<and> peer_routes x = None \<and> peer_expires x \<noteq> None \<and> peer_last_seen x = None
      | OutboundPending \<Rightarrow> peer_revision x = 0 \<and> peer_routes x = None \<and> peer_expires x \<noteq> None \<and> peer_last_seen x = None
      | Confirmed \<Rightarrow> peer_revision x = 1 \<and> peer_routes x \<noteq> None \<and> peer_expires x = None \<and> peer_last_seen x = None
      | Active \<Rightarrow> peer_revision x = 1 \<and> peer_routes x \<noteq> None \<and> peer_expires x = None \<and> peer_last_seen x \<noteq> None
      | Revoked \<Rightarrow> 1 \<le> peer_revision x \<and> peer_routes x = None \<and> peer_expires x = None)"

definition reconnectable :: "string \<Rightarrow> registry \<Rightarrow> bool" where
  "reconnectable p r \<longleftrightarrow>
     (case find_peer p r of None \<Rightarrow> False | Some x \<Rightarrow> peer_state x \<in> {OutboundPending, Confirmed, Active})"

definition workspace_member :: "string \<Rightarrow> registry \<Rightarrow> bool" where
  "workspace_member p r \<longleftrightarrow>
     (case find_peer p r of
        None \<Rightarrow> False | Some x \<Rightarrow> peer_role x = ''controller'' \<and> peer_state x \<in> {Confirmed, Active, Revoked})"

definition rows_ok :: "registry \<Rightarrow> bool" where
  "rows_ok r \<longleftrightarrow> distinct (peer_ids r) \<and> distinct (peer_pins r) \<and> length (reg_peers r) \<le> max_peers \<and>
     reg_id r \<notin> set (peer_ids r) \<and> list_all peer_ok (reg_peers r)"

definition links_ok :: "registry \<Rightarrow> bool" where
  "links_ok r \<longleftrightarrow> dict_ok (reg_endpoints r) \<and> dict_ok (reg_names r) \<and> distinct (reg_workspace r) \<and>
     (\<forall>p. dget (reg_endpoints r) p \<noteq> None \<longrightarrow> reconnectable p r) \<and>
     (\<forall>p. dget (reg_names r) p \<noteq> None \<longrightarrow> find_peer p r \<noteq> None) \<and>
     (\<forall>p \<in> set (reg_workspace r). workspace_member p r)"

lemma links_ok_cong:
  assumes "links_ok r" and "\<And>p. reconnectable p r \<Longrightarrow> reconnectable p r'" and "\<And>p. find_peer p r \<noteq> None \<Longrightarrow> find_peer p r' \<noteq> None"
    and "\<And>p. workspace_member p r \<Longrightarrow> workspace_member p r'"
    and "reg_endpoints r' = reg_endpoints r" "reg_names r' = reg_names r" "reg_workspace r' = reg_workspace r"
  shows "links_ok r'"
  using assms by (auto simp: links_ok_def)

lemma status_tables [simp]:
  "reconnectable p (r\<lparr>reg_endpoints := e\<rparr>) = reconnectable p r" "workspace_member p (r\<lparr>reg_endpoints := e\<rparr>) = workspace_member p r"
  "reconnectable p (r\<lparr>reg_names := e\<rparr>) = reconnectable p r" "workspace_member p (r\<lparr>reg_names := e\<rparr>) = workspace_member p r"
  "reconnectable p (r\<lparr>reg_workspace := w\<rparr>) = reconnectable p r" "workspace_member p (r\<lparr>reg_workspace := w\<rparr>) = workspace_member p r"
  "reconnectable p (r\<lparr>reg_config := c\<rparr>) = reconnectable p r" "workspace_member p (r\<lparr>reg_config := c\<rparr>) = workspace_member p r"
  by (simp_all add: reconnectable_def workspace_member_def)

definition registry_ok :: "registry \<Rightarrow> bool" where
  "registry_ok r \<longleftrightarrow> reg_identity r = Some (reg_id r, reg_pin r) \<and> rows_ok r \<and> links_ok r"

lemma rows_ok_find: "rows_ok r \<Longrightarrow> find_peer p r = Some x \<Longrightarrow> peer_ok x"
  using find_peer_id [of p r x] by (auto simp: rows_ok_def list_all_iff)

lemma rows_ok_update:
  assumes "rows_ok r" and "keeps_identity f" and "\<And>x. find_peer p r = Some x \<Longrightarrow> peer_ok (f x)"
  shows "rows_ok (update_peer p f r)"
proof -
  have "peer_ok (if peer_id x = p then f x else x)" if "x \<in> set (reg_peers r)" for x
    using assms(1,3) find_peer_mem [of r x] that by (auto simp: rows_ok_def list_all_iff)
  then have "list_all peer_ok (reg_peers (update_peer p f r))" by (simp add: list_all_length update_peer_def)
  with assms(1) show ?thesis by (simp add: rows_ok_def update_peer_columns [OF assms(2)])
qed

lemma links_ok_update:
  assumes "links_ok r" and "keeps_identity f"
    and "reconnectable p r \<Longrightarrow> reconnectable p (update_peer p f r)"
    and "workspace_member p r \<Longrightarrow> workspace_member p (update_peer p f r)"
  shows "links_ok (update_peer p f r)"
proof -
  have "reconnectable q r \<Longrightarrow> reconnectable q (update_peer p f r)" for q
    using assms(3) by (cases "q = p") (simp_all add: reconnectable_def row_simps assms(2))
  moreover have "workspace_member q r \<Longrightarrow> workspace_member q (update_peer p f r)" for q
    using assms(4) by (cases "q = p") (simp_all add: workspace_member_def row_simps assms(2))
  ultimately show ?thesis by (intro links_ok_cong [OF assms(1)]) (auto simp: row_simps assms(2))
qed

lemma registry_ok_update:
  assumes "registry_ok r" and "keeps_identity f" and "find_peer p r = Some x" and "peer_ok (f x)"
    and "peer_state x \<in> {OutboundPending, Confirmed, Active} \<Longrightarrow> peer_state (f x) \<in> {OutboundPending, Confirmed, Active}"
    and "peer_state x \<in> {Confirmed, Active, Revoked} \<Longrightarrow> peer_state (f x) \<in> {Confirmed, Active, Revoked}"
  shows "registry_ok (update_peer p f r)"
proof -
  have role: "peer_role (f x) = peer_role x" using assms(2) by (simp add: keeps_identity_def)
  have "rows_ok (update_peer p f r)"
    using assms(1-4) by (intro rows_ok_update) (auto simp: registry_ok_def)
  moreover have "links_ok (update_peer p f r)"
    using assms by (intro links_ok_update)
      (auto simp: registry_ok_def reconnectable_def workspace_member_def row_simps role)
  ultimately show ?thesis using assms(1) by (simp add: registry_ok_def)
qed

subsection \<open>Proposing\<close>

lemma peer_ok_new:
  "is_uuid p \<Longrightarrow> length pin = 32 \<Longrightarrow> role \<in> set roles \<Longrightarrow> peer_ok (new_peer now gen p pin role expires outbound)"
  by (simp add: peer_ok_def new_peer_def)

lemma new_peer_columns [simp]:
  "peer_id (new_peer now gen p pin role expires outbound) = p"
  "peer_pin (new_peer now gen p pin role expires outbound) = pin"
  by (simp_all add: new_peer_def)

lemma drop_expired_tables [simp]:
  "reg_identity (drop_expired now r) = reg_identity r" "reg_id (drop_expired now r) = reg_id r"
  "reg_pin (drop_expired now r) = reg_pin r" "reg_workspace (drop_expired now r) = reg_workspace r"
  by (simp_all add: drop_expired_def Let_def)

definition kept_row :: "rat \<Rightarrow> peer \<Rightarrow> bool" where
  "kept_row now x \<longleftrightarrow> \<not> (peer_state x \<in> {Pending, OutboundPending} \<and> expired now x)"

lemma drop_expired_peers: "reg_peers (drop_expired now r) = filter (kept_row now) (reg_peers r)"
  by (simp add: drop_expired_def Let_def kept_row_def [abs_def])

lemma find_drop_expired:
  assumes "distinct (peer_ids r)"
  shows "find_peer p (drop_expired now r) =
    (case find_peer p r of None \<Rightarrow> None | Some x \<Rightarrow> if kept_row now x then Some x else None)"
proof (cases "find_peer p (drop_expired now r)")
  case None
  then have "p \<notin> peer_id ` set (filter (kept_row now) (reg_peers r))" by (simp add: find_peer_None drop_expired_peers)
  then show ?thesis using None find_peer_id [of p r] by (auto split: option.splits)
next
  case (Some x)
  then have "peer_id x = p" "x \<in> set (reg_peers r)" "kept_row now x"
    using find_peer_id [of p "drop_expired now r" x] by (auto simp: drop_expired_peers)
  with find_peer_mem [OF assms, of x] Some show ?thesis by auto
qed

lemma rows_ok_drop_expired: "rows_ok r \<Longrightarrow> rows_ok (drop_expired now r)"
  unfolding rows_ok_def drop_expired_peers drop_expired_tables
  by (auto simp: list_all_iff distinct_map_filter intro: le_trans [OF length_filter_le])

lemma dget_filter: "dget (filter (\<lambda>(k, _). P k) d) k = (if P k then dget d k else None)"
  by (induction d) auto

lemma dict_ok_filter: "dict_ok d \<Longrightarrow> dict_ok (filter P d)"
  by (simp add: distinct_map_filter)

lemma drop_expired_links:
  "reg_endpoints (drop_expired now r) = filter (\<lambda>(p, _). find_peer p (drop_expired now r) \<noteq> None) (reg_endpoints r)"
  "reg_names (drop_expired now r) = filter (\<lambda>(p, _). find_peer p (drop_expired now r) \<noteq> None) (reg_names r)"
  unfolding find_peer_None by (simp_all add: drop_expired_def Let_def)

lemma links_ok_drop_expired:
  assumes rows: "rows_ok r" and links: "links_ok r"
  shows "links_ok (drop_expired now r)"
proof -
  let ?d = "drop_expired now r"
  have dist: "distinct (peer_ids r)" using rows by (simp add: rows_ok_def)
  have "reconnectable q ?d" if "reconnectable q r" and "find_peer q ?d \<noteq> None" for q
    using that by (auto simp: reconnectable_def find_drop_expired [OF dist] split: option.splits if_splits)
  moreover have "workspace_member q ?d" if "workspace_member q r" for q
    using that by (auto simp: workspace_member_def find_drop_expired [OF dist] kept_row_def split: option.splits)
  ultimately show ?thesis
    using links unfolding links_ok_def drop_expired_tables
    by (simp add: drop_expired_links dget_filter dict_ok_filter)
qed

lemma find_peer_append:
  "find_peer q (r\<lparr>reg_peers := reg_peers r @ [x]\<rparr>) =
     (case find_peer q r of Some y \<Rightarrow> Some y | None \<Rightarrow> if peer_id x = q then Some x else None)"
proof -
  have "find P (xs @ [x]) = (case find P xs of Some y \<Rightarrow> Some y | None \<Rightarrow> if P x then Some x else None)" for P xs
    by (induction xs) auto
  then show ?thesis by (simp add: find_peer_def)
qed

lemma registry_ok_append:
  assumes "registry_ok r" and "peer_ok x" and "peer_id x \<notin> set (peer_ids r)" and "peer_pin x \<notin> set (peer_pins r)"
    and "peer_id x \<noteq> reg_id r" and "length (reg_peers r) < max_peers"
  shows "registry_ok (r\<lparr>reg_peers := reg_peers r @ [x]\<rparr>)"
proof -
  let ?r = "r\<lparr>reg_peers := reg_peers r @ [x]\<rparr>"
  have "find_peer q r = Some y \<Longrightarrow> find_peer q ?r = Some y" for q y by (simp add: find_peer_append)
  then have "reconnectable q r \<Longrightarrow> reconnectable q ?r" "find_peer q r \<noteq> None \<Longrightarrow> find_peer q ?r \<noteq> None"
    "workspace_member q r \<Longrightarrow> workspace_member q ?r" for q
    by (auto simp: reconnectable_def workspace_member_def split: option.splits)
  then have "links_ok ?r" using links_ok_cong [of r ?r] assms(1) by (simp add: registry_ok_def)
  then show ?thesis using assms by (auto simp: registry_ok_def rows_ok_def)
qed

lemma propose_eq:
  "propose now later gen p pin role expires outbound r = Inr r' \<longleftrightarrow>
     is_uuid p \<and> length pin = 32 \<and> role \<in> set roles \<and> p \<noteq> reg_id r \<and>
     length (reg_peers (drop_expired now r)) < max_peers \<and> p \<notin> set (peer_ids (drop_expired now r)) \<and>
     pin \<notin> set (peer_pins (drop_expired now r)) \<and>
     r' = (drop_expired now r)\<lparr>reg_peers := reg_peers (drop_expired now r) @
             [new_peer later gen p pin role expires outbound]\<rparr>"
  by (auto simp: propose_def andThen_eq_Inr row_simps Let_def split: if_splits)

lemma registry_ok_propose:
  assumes "registry_ok r" and "propose now later gen p pin role expires outbound r = Inr r'"
  shows "registry_ok r'"
proof -
  have "registry_ok (drop_expired now r)"
    using assms(1) by (simp add: registry_ok_def rows_ok_drop_expired links_ok_drop_expired)
  with assms(2) show ?thesis
    unfolding propose_eq by (auto intro!: registry_ok_append peer_ok_new)
qed

subsection \<open>The other operations\<close>

lemma not_stale_eq:
  "(\<exists>s. (if c then Inr True else v) = Inr s \<and> \<not> s \<and> P) \<longleftrightarrow> \<not> c \<and> v = Inr False \<and> P"
  by (cases v) auto

lemma confirm_eq:
  "confirm lib now initiator responder nonce p pin_hex r = Inr r' \<longleftrightarrow>
     (\<exists>x. is_uuid p \<and> find_peer p r = Some x \<and> peer_state x = Pending \<and> lapsed now x = Inr False \<and>
        list_all (\<lambda>c. ord c < 128) pin_hex \<and> hex_text (peer_pin x) = pin_hex \<and>
        r' = (let r1 = update_peer p (\<lambda>y. y\<lparr>peer_state := Confirmed, peer_revision := 1, peer_expires := None,
                    peer_routes := Some (protect_routes lib nonce p (routes_document initiator responder)),
                    peer_capabilities := ''[]''\<rparr>) r
              in if peer_role x = ''controller'' then r1\<lparr>reg_workspace := List.insert p (reg_workspace r1)\<rparr> else r1))"
  unfolding confirm_def andThen_eq_Inr need_eq_Inr row_simps Let_def sum.inject
  by (simp only: simp_thms ex_simps not_stale_eq conj_assoc not_not eq_commute [of _ r'])

lemma authenticate_eq [row_simps]:
  "authenticate p pin role r = Inr u \<longleftrightarrow>
     (\<exists>x. is_uuid p \<and> find_peer p r = Some x \<and> trusted (peer_state x) \<and> peer_role x = role \<and> peer_pin x = pin)"
  by (auto simp: authenticate_def andThen_eq_Inr row_simps)

lemma acknowledge_eq:
  "acknowledge now p pin role rec r = Inr r' \<longleftrightarrow>
     (\<exists>x. is_uuid p \<and> find_peer p r = Some x \<and> trusted (peer_state x) \<and> peer_role x = role \<and> peer_pin x = pin \<and>
        py_eq (JObj rec) (JObj [(''type'', JStr ''session.ready_ack''), (''device_id'', JStr p),
          (''trust_revision'', JInt (peer_revision x))]) \<and> is_int (dget rec ''trust_revision'') \<and>
        r' = update_peer p (\<lambda>y. y\<lparr>peer_state := Active, peer_last_seen := Some now\<rparr>) r)"
  by (auto simp: acknowledge_def andThen_eq_Inr row_simps)

lemma accept_remote_eq:
  "accept_remote lib now later nonce p pin rec r = Inr r' \<longleftrightarrow>
     remote_ready_ok (reg_id r) rec \<and>
     (\<exists>x. is_uuid p \<and> find_peer p r = Some x \<and> peer_state x = OutboundPending \<and> lapsed now x = Inr False \<and>
        peer_pin x = pin \<and> peer_role x = ''desktop'' \<and>
        r' = update_peer p (\<lambda>y. y\<lparr>peer_state := Active, peer_revision := 1, peer_expires := None,
               peer_routes := Some (protect_routes lib nonce p
                 (routes_document (str_of (dget rec ''initiator_topic'')) (str_of (dget rec ''responder_topic'')))),
               peer_capabilities := ''[]'', peer_last_seen := Some later\<rparr>) r)"
  by (auto simp: accept_remote_def andThen_eq_Inr row_simps Let_def)

lemma recover_remote_eqD:
  assumes "recover_remote lib now later nonce p pin rec r = Inr r'"
  shows "r' = r \<or> accept_remote lib now later nonce p pin rec r = Inr r'"
  using assms by (auto simp: recover_remote_def andThen_eq_Inr Let_def split: if_splits)

lemma revoke_eq:
  "revoke p r = Inr r' \<longleftrightarrow> is_uuid p \<and> find_peer p r \<noteq> None \<and>
     r' = update_peer p (\<lambda>y. y\<lparr>peer_state := Revoked, peer_revision := peer_revision y + 1, peer_routes := None,
            peer_capabilities := ''[]'', peer_expires := None\<rparr>) (r\<lparr>reg_endpoints := ddel p (reg_endpoints r)\<rparr>)"
  by (auto simp: revoke_def andThen_eq_Inr row_simps)

lemma save_endpoint_eqD:
  assumes "save_endpoint lib now p v r = Inr r'"
  shows "\<exists>text. r' = r\<lparr>reg_endpoints := dset p text (reg_endpoints r)\<rparr>" and "reconnectable p r"
  using assms by (auto simp: save_endpoint_def reconnect_pin_def andThen_eq_Inr row_simps reconnectable_def)

lemma save_name_eqD:
  assumes "save_name lib p v chosen r = Inr r'"
  shows "r' = r \<or> (\<exists>label. r' = r\<lparr>reg_names := dset p label (reg_names r)\<rparr> \<and> find_peer p r \<noteq> None)"
  using assms by (auto simp: save_name_def andThen_eq_Inr row_simps split: option.splits if_splits)

lemma registry_ok_confirm:
  assumes "registry_ok r" and "confirm lib now initiator responder nonce p pin_hex r = Inr r'"
  shows "registry_ok r'"
proof -
  let ?f = "\<lambda>y. y\<lparr>peer_state := Confirmed, peer_revision := 1, peer_expires := None,
    peer_routes := Some (protect_routes lib nonce p (routes_document initiator responder)), peer_capabilities := ''[]''\<rparr>"
  let ?r1 = "update_peer p ?f r"
  obtain x where x: "find_peer p r = Some x" "peer_state x = Pending"
    and r': "r' = (if peer_role x = ''controller'' then ?r1\<lparr>reg_workspace := List.insert p (reg_workspace ?r1)\<rparr> else ?r1)"
    using assms(2) unfolding confirm_eq Let_def by blast
  have "peer_ok x" using assms(1) x rows_ok_find by (auto simp: registry_ok_def)
  then have ok: "registry_ok ?r1"
    using assms(1) x by (intro registry_ok_update) (auto simp: peer_ok_def)
  have keep: "keeps_identity ?f" by auto
  then have "workspace_member p ?r1" if "peer_role x = ''controller''"
    using x that by (simp add: workspace_member_def row_simps)
  with ok show ?thesis
    unfolding r' by (auto simp: registry_ok_def rows_ok_def links_ok_def)
qed

lemma registry_ok_acknowledge:
  assumes "registry_ok r" and "acknowledge now p pin role rec r = Inr r'"
  shows "registry_ok r'"
proof -
  obtain x where x: "find_peer p r = Some x" "trusted (peer_state x)"
    and r': "r' = update_peer p (\<lambda>y. y\<lparr>peer_state := Active, peer_last_seen := Some now\<rparr>) r"
    using assms(2) unfolding acknowledge_eq by blast
  have "peer_ok x" using assms(1) x rows_ok_find by (auto simp: registry_ok_def)
  then show ?thesis
    using assms(1) x unfolding r' by (intro registry_ok_update) (auto simp: peer_ok_def trusted_def)
qed

lemma registry_ok_accept_remote:
  assumes "registry_ok r" and "accept_remote lib now later nonce p pin rec r = Inr r'"
  shows "registry_ok r'"
proof -
  obtain x f where x: "find_peer p r = Some x" "peer_state x = OutboundPending" and r': "r' = update_peer p f r"
    and f: "f = (\<lambda>y. y\<lparr>peer_state := Active, peer_revision := 1, peer_expires := None,
               peer_routes := Some (protect_routes lib nonce p
                 (routes_document (str_of (dget rec ''initiator_topic'')) (str_of (dget rec ''responder_topic'')))),
               peer_capabilities := ''[]'', peer_last_seen := Some later\<rparr>)"
    using assms(2) unfolding accept_remote_eq by blast
  have "peer_ok x" using assms(1) x rows_ok_find by (auto simp: registry_ok_def)
  then show ?thesis
    using assms(1) x unfolding r' f by (intro registry_ok_update) (auto simp: peer_ok_def)
qed

lemma registry_ok_revoke:
  assumes "registry_ok r" and "revoke p r = Inr r'"
  shows "registry_ok r'"
proof -
  let ?r1 = "r\<lparr>reg_endpoints := ddel p (reg_endpoints r)\<rparr>"
  let ?f = "\<lambda>y. y\<lparr>peer_state := Revoked, peer_revision := peer_revision y + 1, peer_routes := None,
            peer_capabilities := ''[]'', peer_expires := None\<rparr>"
  obtain x where x: "find_peer p r = Some x" and r': "r' = update_peer p ?f ?r1"
    using assms(2) unfolding revoke_eq by blast
  have keep: "keeps_identity ?f" by auto
  have ok: "peer_ok x" using assms(1) x rows_ok_find by (auto simp: registry_ok_def)
  have "rows_ok ?r1" using assms(1) by (simp add: registry_ok_def rows_ok_def)
  moreover have "peer_ok (?f x)" using ok by (auto simp: peer_ok_def split: peer_state.splits)
  ultimately have "rows_ok r'" using x unfolding r' by (intro rows_ok_update keep) auto
  moreover have "reconnectable q r \<Longrightarrow> reconnectable q r'" if "q \<noteq> p" for q
    using that keep by (simp add: r' reconnectable_def row_simps)
  moreover have "workspace_member q r \<Longrightarrow> workspace_member q r'" for q
    using x keep by (cases "q = p") (auto simp: r' workspace_member_def row_simps)
  moreover have "find_peer q r \<noteq> None \<Longrightarrow> find_peer q r' \<noteq> None" for q
    using keep by (auto simp: r' row_simps)
  moreover have "dict_ok (reg_endpoints r')" "dget (reg_endpoints r') q = (if q = p then None else dget (reg_endpoints r) q)" for q
    using assms(1) by (simp_all add: r' dict_simps registry_ok_def links_ok_def py_dict.ok_remove)
  ultimately show ?thesis
    using assms(1) unfolding registry_ok_def links_ok_def by (auto simp: r')
qed

lemma registry_ok_endpoint: "registry_ok r \<Longrightarrow> reconnectable p r \<Longrightarrow> registry_ok (r\<lparr>reg_endpoints := dset p t (reg_endpoints r)\<rparr>)"
  by (auto simp: registry_ok_def rows_ok_def links_ok_def distinct_update dict_simps)

lemma registry_ok_name: "registry_ok r \<Longrightarrow> find_peer p r \<noteq> None \<Longrightarrow> registry_ok (r\<lparr>reg_names := dset p t (reg_names r)\<rparr>)"
  by (auto simp: registry_ok_def rows_ok_def links_ok_def distinct_update dict_simps)

subsection \<open>Opening\<close>

lemma fill_generations_map:
  "\<exists>gs. length gs = length xs \<and> fill_generations gens xs = map2 (\<lambda>x g. x\<lparr>peer_generation := g\<rparr>) xs gs"
proof (induction gens xs rule: fill_generations.induct)
  case (2 gens x xs)
  show ?case
  proof (cases "peer_generation x = []")
    case True
    with 2(1) obtain gs where "length gs = length xs"
      "fill_generations (tl gens) xs = map2 (\<lambda>x g. x\<lparr>peer_generation := g\<rparr>) xs gs" by blast
    with True show ?thesis by (intro exI [of _ "(case gens of [] \<Rightarrow> [] | g # _ \<Rightarrow> g) # gs"]) simp
  next
    case False
    with 2(2) obtain gs where "length gs = length xs"
      "fill_generations gens xs = map2 (\<lambda>x g. x\<lparr>peer_generation := g\<rparr>) xs gs" by blast
    with False show ?thesis by (intro exI [of _ "peer_generation x # gs"]) simp
  qed
qed simp

text \<open>The columns that decide about trust are not touched by filling in generations.\<close>
definition same_trust :: "peer \<Rightarrow> peer \<Rightarrow> bool" where
  "same_trust x y \<longleftrightarrow> (\<exists>g. y = x\<lparr>peer_generation := g\<rparr>)"

lemma fill_generations_same: "list_all2 same_trust xs (fill_generations gens xs)"
proof -
  obtain gs where "length gs = length xs" "fill_generations gens xs = map2 (\<lambda>x g. x\<lparr>peer_generation := g\<rparr>) xs gs"
    using fill_generations_map by blast
  then show ?thesis by (auto simp: list_all2_conv_all_nth same_trust_def)
qed

lemma peer_ok_generation [simp]: "peer_ok (x\<lparr>peer_generation := g\<rparr>) \<longleftrightarrow> peer_ok x"
  by (cases "peer_state x") (simp_all add: peer_ok_def)

lemma same_trust_columns:
  "list_all2 same_trust xs ys \<Longrightarrow> map peer_id ys = map peer_id xs \<and> map peer_pin ys = map peer_pin xs \<and>
     length ys = length xs \<and> (list_all peer_ok xs \<longrightarrow> list_all peer_ok ys)"
  by (induction rule: list_all2_induct) (auto simp: same_trust_def)

lemma same_trust_find:
  "list_all2 same_trust xs ys \<Longrightarrow>
     rel_option same_trust (find (\<lambda>x. peer_id x = p) xs) (find (\<lambda>x. peer_id x = p) ys)"
  by (induction rule: list_all2_induct) (auto simp: same_trust_def)

lemma open_registry_eqD:
  assumes "open_registry initialize fresh stored gens r = Inr r'"
  shows "\<exists>own. (reg_identity r = None \<or> reg_identity r = Some own) \<and>
    r' = r\<lparr>reg_peers := fill_generations gens (reg_peers r), reg_identity := Some own, reg_id := fst own, reg_pin := snd own\<rparr>"
proof -
  obtain own where "\<not> (reg_identity r \<noteq> None \<and> reg_identity r \<noteq> Some own)"
    "r' = r\<lparr>reg_peers := fill_generations gens (reg_peers r), reg_identity := Some own, reg_id := fst own, reg_pin := snd own\<rparr>"
    using assms unfolding open_registry_def andThen_eq_Inr by (metis Inl_Inr_False Inr_inject)
  then show ?thesis by (intro exI [of _ own]) (cases "reg_identity r"; simp)
qed

lemma registry_ok_config: "registry_ok (r\<lparr>reg_config := c\<rparr>) \<longleftrightarrow> registry_ok r"
  by (simp add: registry_ok_def rows_ok_def links_ok_def)

lemma registry_ok_open:
  assumes "registry_ok r" and "open_registry initialize fresh stored gens r = Inr r'"
  shows "registry_ok r'"
proof -
  let ?ps = "fill_generations gens (reg_peers r)"
  have r': "r' = r\<lparr>reg_peers := ?ps\<rparr>"
    using open_registry_eqD [OF assms(2)] assms(1) by (auto simp: registry_ok_def)
  have find: "rel_option same_trust (find_peer q r) (find_peer q r')" for q
    using same_trust_find [OF fill_generations_same] by (simp add: find_peer_def r')
  have "reconnectable q r \<Longrightarrow> reconnectable q r'" "find_peer q r \<noteq> None \<Longrightarrow> find_peer q r' \<noteq> None"
    "workspace_member q r \<Longrightarrow> workspace_member q r'" for q
    using find [of q]
    by (auto simp: reconnectable_def workspace_member_def same_trust_def option_rel_Some1 split: option.splits)
  then have "links_ok r'" using links_ok_cong [of r r'] assms(1) by (simp add: r' registry_ok_def)
  moreover have "rows_ok r'"
    using assms(1) same_trust_columns [OF fill_generations_same [of "reg_peers r" gens]]
    by (simp add: r' registry_ok_def rows_ok_def)
  ultimately show ?thesis using assms(1) by (simp add: r' registry_ok_def)
qed

lemma registry_ok_first_open:
  assumes "open_registry initialize fresh stored gens empty_registry = Inr r"
  shows "registry_ok r"
  using open_registry_eqD [OF assms]
  by (auto simp: empty_registry_def registry_ok_def rows_ok_def links_ok_def max_peers_def)

lemma registry_ok_perform:
  assumes "registry_ok r" and "perform lib q r = Inr r'"
  shows "registry_ok r'"
proof (cases q)
  case (Reopen i fresh stored gens)
  with assms(2) show ?thesis by (intro registry_ok_open [OF assms(1)]) simp
next
  case (Propose now later gen p pin role e b)
  with assms(2) show ?thesis by (intro registry_ok_propose [OF assms(1)]) simp
next
  case (Confirm now i s nonce p h)
  with assms(2) show ?thesis by (intro registry_ok_confirm [OF assms(1)]) simp
next
  case (Acknowledge now p pin role rec)
  with assms(2) show ?thesis by (intro registry_ok_acknowledge [OF assms(1)]) simp
next
  case (Revoke p)
  with assms(2) show ?thesis by (intro registry_ok_revoke [OF assms(1)]) simp
next
  case (AcceptRemote now later nonce p pin rec)
  with assms(2) show ?thesis by (intro registry_ok_accept_remote [OF assms(1)]) simp
next
  case (RecoverRemote now later nonce p pin rec)
  with assms(2) recover_remote_eqD have "r' = r \<or> accept_remote lib now later nonce p pin rec r = Inr r'" by simp
  with assms(1) show ?thesis using registry_ok_accept_remote by blast
next
  case (SaveEndpoint now p v)
  with assms(2) have "save_endpoint lib now p v r = Inr r'" by simp
  with assms(1) show ?thesis using save_endpoint_eqD registry_ok_endpoint by blast
next
  case (SaveName p v chosen)
  with assms(2) have "save_name lib p v chosen r = Inr r'" by simp
  with assms(1) show ?thesis using save_name_eqD registry_ok_name by blast
qed (use assms in \<open>auto simp: save_listener_port_def save_tailnet_enabled_def registry_ok_config\<close>)

inductive registry_reachable :: "device_lib \<Rightarrow> registry \<Rightarrow> bool" for lib where
  opened: "open_registry initialize fresh stored gens empty_registry = Inr r \<Longrightarrow> registry_reachable lib r"
| performed: "registry_reachable lib r \<Longrightarrow> perform lib q r = Inr r' \<Longrightarrow> registry_reachable lib r'"

lemma reachable_ok: "registry_reachable lib r \<Longrightarrow> registry_ok r"
  by (induction rule: registry_reachable.induct) (auto intro: registry_ok_first_open registry_ok_perform)

lemma reachable_attempt: "registry_reachable lib r \<Longrightarrow> registry_reachable lib (attempt lib q r)"
  by (auto simp: attempt_def split: sum.splits intro: performed)

lemma reachable_attempts: "registry_reachable lib r \<Longrightarrow> registry_reachable lib (attempts lib qs r)"
  by (induction qs arbitrary: r) (auto intro: reachable_attempt)

section \<open>The life of a row\<close>

text \<open>What matters about a device: the state of its row and the pin it is bound to.\<close>
definition trust_of :: "string \<Rightarrow> registry \<Rightarrow> (peer_state \<times> string) option" where
  "trust_of p r = map_option (\<lambda>x. (peer_state x, peer_pin x)) (find_peer p r)"

text \<open>\<open>grants q p pin st\<close>: request \<open>q\<close> may make device \<open>p\<close> with pin \<open>pin\<close> trusted, from state \<open>st\<close>.\<close>
fun grants :: "request \<Rightarrow> string \<Rightarrow> string \<Rightarrow> peer_state \<Rightarrow> bool" where
  "grants (Confirm _ _ _ _ p' pin_hex) p pin st \<longleftrightarrow> p' = p \<and> pin_hex = hex_text pin \<and> st = Pending"
| "grants (AcceptRemote _ _ _ p' pin' _) p pin st \<longleftrightarrow> p' = p \<and> pin' = pin \<and> st = OutboundPending"
| "grants (RecoverRemote _ _ _ p' pin' _) p pin st \<longleftrightarrow> p' = p \<and> pin' = pin \<and> st = OutboundPending"
| "grants _ _ _ _ \<longleftrightarrow> False"

inductive trust_move :: "request \<Rightarrow> string \<Rightarrow> (peer_state \<times> string) option \<Rightarrow> (peer_state \<times> string) option \<Rightarrow> bool" where
  stay: "trust_move q p s s"
| expire: "st \<in> {Pending, OutboundPending} \<Longrightarrow>
    trust_move (Propose now later gen p' pin' role e b) p (Some (st, pin)) None"
| enroll: "s = None \<or> (\<exists>st old. s = Some (st, old) \<and> st \<in> {Pending, OutboundPending}) \<Longrightarrow>
    trust_move (Propose now later gen p pin role e b) p s (Some (if b then OutboundPending else Pending, pin))"
| grant: "grants q p pin st \<Longrightarrow> trusted st' \<Longrightarrow> trust_move q p (Some (st, pin)) (Some (st', pin))"
| acknowledged: "trusted st \<Longrightarrow> trust_move (Acknowledge now p pin role rec) p (Some (st, pin)) (Some (Active, pin))"
| revoked: "trust_move (Revoke p) p (Some (st, pin)) (Some (Revoked, pin))"

inductive_simps move_from_revoked: "trust_move q p (Some (Revoked, pin)) s"
inductive_cases move_to_someE: "trust_move q p s (Some (st, pin))"

lemma move_to_trusted:
  assumes "trust_move q p s (Some (st', pin))" and "trusted st'"
  shows "\<exists>st. s = Some (st, pin) \<and> (trusted st \<or> grants q p pin st)"
  using assms(1) by (rule move_to_someE) (use assms(2) in \<open>auto simp: trusted_def split: if_splits\<close>)

lemma trust_of_update:
  assumes "keeps_identity f"
  shows "trust_of q (update_peer p f r) =
    (if q = p then map_option (\<lambda>x. (peer_state (f x), peer_pin x)) (find_peer p r) else trust_of q r)"
  using assms by (cases "find_peer p r") (simp_all add: trust_of_def row_simps, simp add: keeps_identity_def)

lemma trust_of_tables [simp]:
  "trust_of p (r\<lparr>reg_endpoints := e\<rparr>) = trust_of p r" "trust_of p (r\<lparr>reg_names := e\<rparr>) = trust_of p r"
  "trust_of p (r\<lparr>reg_workspace := w\<rparr>) = trust_of p r" "trust_of p (r\<lparr>reg_config := c\<rparr>) = trust_of p r"
  by (simp_all add: trust_of_def)

lemma trust_of_find: "find_peer p r = Some x \<Longrightarrow> trust_of p r = Some (peer_state x, peer_pin x)"
  by (simp add: trust_of_def)

lemma move_propose:
  assumes "registry_ok r" and "propose now later gen p' pin role e b r = Inr r'"
  shows "trust_move (Propose now later gen p' pin role e b) p (trust_of p r) (trust_of p r')"
proof -
  let ?d = "drop_expired now r"
  have dist: "distinct (peer_ids r)" using assms(1) by (simp add: registry_ok_def rows_ok_def)
  have fresh: "find_peer p' ?d = None"
    and r': "r' = ?d\<lparr>reg_peers := reg_peers ?d @ [new_peer later gen p' pin role e b]\<rparr>"
    using assms(2) unfolding propose_eq by (simp_all add: find_peer_None)
  have find: "find_peer q r' = (case find_peer q ?d of Some y \<Rightarrow> Some y | None \<Rightarrow>
      if p' = q then Some (new_peer later gen p' pin role e b) else None)" for q
    unfolding r' find_peer_append by simp
  show ?thesis
  proof (cases "p = p'")
    case True
    with fresh find have "trust_of p r' = Some (if b then OutboundPending else Pending, pin)"
      by (simp add: trust_of_def new_peer_def)
    moreover have "trust_of p r = None \<or> (\<exists>st old. trust_of p r = Some (st, old) \<and> st \<in> {Pending, OutboundPending})"
      using fresh True by (auto simp: find_drop_expired [OF dist] trust_of_def kept_row_def split: option.splits if_splits)
    ultimately show ?thesis using True by (simp add: trust_move.enroll)
  next
    case False
    then show ?thesis
      using find [of p] by (auto simp: trust_of_def find_drop_expired [OF dist] kept_row_def
          split: option.splits if_splits intro: trust_move.intros)
  qed
qed

lemma move_accept:
  assumes "accept_remote lib now later nonce p' pin rec r = Inr r'" and "grants q p' pin OutboundPending"
  shows "trust_move q p (trust_of p r) (trust_of p r')"
proof -
  obtain x f where x: "find_peer p' r = Some x" "peer_state x = OutboundPending" "peer_pin x = pin"
    and r': "r' = update_peer p' f r" and f: "keeps_identity f" "peer_state (f x) = Active"
    using assms(1) unfolding accept_remote_eq by fastforce
  show ?thesis
  proof (cases "p = p'")
    case True
    with x f have "trust_of p r = Some (OutboundPending, pin)" "trust_of p r' = Some (Active, pin)"
      by (simp_all add: r' trust_of_update trust_of_find)
    with True assms(2) show ?thesis by (simp add: trust_move.grant trusted_def)
  next
    case False
    with f show ?thesis by (simp add: r' trust_of_update trust_move.stay)
  qed
qed

lemma move_perform:
  assumes "registry_ok r" and "perform lib q r = Inr r'"
  shows "trust_move q p (trust_of p r) (trust_of p r')"
proof (cases q)
  case (Reopen i fresh stored gens)
  have "rel_option same_trust (find_peer p r) (find_peer p (r\<lparr>reg_peers := fill_generations gens (reg_peers r)\<rparr>))"
    using same_trust_find [OF fill_generations_same] by (simp add: find_peer_def)
  moreover obtain own where "r' = r\<lparr>reg_peers := fill_generations gens (reg_peers r), reg_identity := Some own,
      reg_id := fst own, reg_pin := snd own\<rparr>"
    using Reopen assms(2) open_registry_eqD by fastforce
  ultimately have "trust_of p r' = trust_of p r"
    by (auto simp: trust_of_def find_peer_def same_trust_def option_rel_Some1 elim!: option.rel_cases)
  then show ?thesis by (simp add: trust_move.stay)
next
  case (Confirm now i s nonce p' h)
  let ?f = "\<lambda>y. y\<lparr>peer_state := Confirmed, peer_revision := 1, peer_expires := None,
    peer_routes := Some (protect_routes lib nonce p' (routes_document i s)), peer_capabilities := ''[]''\<rparr>"
  from Confirm assms(2) have "confirm lib now i s nonce p' h r = Inr r'" by simp
  then obtain x where x: "find_peer p' r = Some x" "peer_state x = Pending" "hex_text (peer_pin x) = h"
    and r': "r' = (let r1 = update_peer p' ?f r in
      if peer_role x = ''controller'' then r1\<lparr>reg_workspace := List.insert p' (reg_workspace r1)\<rparr> else r1)"
    unfolding confirm_eq by blast
  have "trust_of p r' = trust_of p (update_peer p' ?f r)" unfolding r' Let_def by simp
  then have "trust_of p r' = (if p = p' then Some (Confirmed, peer_pin x) else trust_of p r)"
    using x by (subst (asm) trust_of_update) auto
  with Confirm x show ?thesis
    by (auto simp: trust_of_find trusted_def intro: trust_move.stay trust_move.grant)
next
  case (Acknowledge now p' pin role rec)
  with assms(2) show ?thesis
    by (auto simp: acknowledge_eq trust_of_update keeps_identity_def trust_of_find intro: trust_move.stay trust_move.acknowledged)
next
  case (Revoke p')
  with assms(2) show ?thesis
    by (auto simp: revoke_eq trust_of_update keeps_identity_def trust_of_find intro: trust_move.stay trust_move.revoked)
next
  case (AcceptRemote now later nonce p' pin rec)
  with assms(2) show ?thesis by (intro move_accept) simp_all
next
  case (RecoverRemote now later nonce p' pin rec)
  with assms(2) recover_remote_eqD have "r' = r \<or> accept_remote lib now later nonce p' pin rec r = Inr r'" by simp
  then show ?thesis
  proof
    assume "accept_remote lib now later nonce p' pin rec r = Inr r'"
    with RecoverRemote show ?thesis by (intro move_accept) simp_all
  qed (simp add: trust_move.stay)
next
  case (SaveEndpoint now p' v)
  with assms(2) save_endpoint_eqD(1) show ?thesis by (fastforce intro: trust_move.stay)
next
  case (SaveName p' v chosen)
  with assms(2) save_name_eqD show ?thesis by (fastforce intro: trust_move.stay)
qed (use assms move_propose in \<open>auto simp: save_listener_port_def save_tailnet_enabled_def intro: trust_move.stay\<close>)

lemma move_attempt: "registry_ok r \<Longrightarrow> trust_move q p (trust_of p r) (trust_of p (attempt lib q r))"
  by (auto simp: attempt_def split: sum.splits intro: trust_move.stay move_perform)

lemma revoked_stays_attempt:
  assumes "registry_reachable lib r" and "trust_of p r = Some (Revoked, pin)"
  shows "trust_of p (attempt lib q r) = Some (Revoked, pin)"
  using move_attempt [OF reachable_ok [OF assms(1)], of q p lib]
  by (auto simp: assms(2) move_from_revoked trusted_def elim: grants.elims)

lemma revoked_stays:
  "registry_reachable lib r \<Longrightarrow> trust_of p r = Some (Revoked, pin) \<Longrightarrow>
     trust_of p (attempts lib qs r) = Some (Revoked, pin)"
  by (induction qs arbitrary: r) (auto intro: reachable_attempt revoked_stays_attempt)

lemma trusted_pins_trust:
  assumes "rows_ok r"
  shows "pin \<in> trusted_pins r \<longleftrightarrow> (\<exists>p st. trust_of p r = Some (st, pin) \<and> trusted st)"
proof
  assume "pin \<in> trusted_pins r"
  then obtain x where x: "x \<in> set (reg_peers r)" "trusted (peer_state x)" "peer_pin x = pin"
    by (auto simp: trusted_pins_def)
  then have "find_peer (peer_id x) r = Some x" using assms find_peer_mem by (simp add: rows_ok_def)
  with x show "\<exists>p st. trust_of p r = Some (st, pin) \<and> trusted st" using trust_of_find by blast
next
  assume "\<exists>p st. trust_of p r = Some (st, pin) \<and> trusted st"
  then show "pin \<in> trusted_pins r" using find_peer_id by (force simp: trust_of_def trusted_pins_def)
qed

lemma trust_pin_unique:
  assumes "rows_ok r" and "trust_of p r = Some (st, pin)" and "trust_of q r = Some (st', pin)"
  shows "p = q"
proof -
  obtain x y where "find_peer p r = Some x" "peer_pin x = pin" "find_peer q r = Some y" "peer_pin y = pin"
    using assms(2,3) by (auto simp: trust_of_def)
  then have "peer_id x = p" "peer_id y = q" "x \<in> set (reg_peers r)" "y \<in> set (reg_peers r)" "peer_pin x = peer_pin y"
    using find_peer_id by auto
  with assms(1) show ?thesis by (metis distinct_map inj_on_eq_iff rows_ok_def)
qed

lemma trusted_was_granted:
  assumes "registry_reachable lib r0" and "\<And>p. trust_of p r0 = None"
    and "trust_of p (attempts lib qs r0) = Some (st', pin)" and "trusted st'"
  shows "\<exists>qs1 q qs2 st. qs = qs1 @ q # qs2 \<and> grants q p pin st \<and>
    trust_of p (attempts lib qs1 r0) = Some (st, pin) \<and> (\<exists>r. perform lib q (attempts lib qs1 r0) = Inr r)"
  using assms(3,4)
proof (induction qs arbitrary: st' rule: rev_induct)
  case Nil
  with assms(2) show ?case by simp
next
  case (snoc q qs)
  let ?r = "attempts lib qs r0"
  have earlier: ?case if "trust_of p ?r = Some (st, pin)" and "trusted st" for st
    using snoc.IH [OF that] by (metis append_Cons append_assoc)
  have ok: "registry_ok ?r" using reachable_ok [OF reachable_attempts [OF assms(1)]] .
  show ?case
  proof (cases "perform lib q ?r")
    case (Inl e)
    with snoc.prems have "trust_of p ?r = Some (st', pin)" by (simp add: attempt_def [of lib q])
    with snoc.prems(2) show ?thesis by (rule earlier [rotated])
  next
    case (Inr r)
    then have "trust_move q p (trust_of p ?r) (Some (st', pin))"
      using move_perform [OF ok Inr, of p] snoc.prems by (simp add: attempt_def [of lib q])
    then obtain st where st: "trust_of p ?r = Some (st, pin)" "trusted st \<or> grants q p pin st"
      using move_to_trusted snoc.prems(2) by blast
    show ?thesis
    proof (cases "trusted st")
      case False
      with st Inr show ?thesis by (intro exI [of _ qs] exI [of _ q] exI [of _ "[]"] exI [of _ st]) simp
    qed (use earlier st in blast)
  qed
qed

section \<open>Properties\<close>

text \<open>
  C30. In every state the registry can reach, through any requests and restarts, its tables are
  consistent: device identifiers and pins are unique, there are at most 128 peers and this device
  is not among them; each row has the columns its state calls for (a pending row has an expiry
  and no routes, a trusted row has routes, revision 1 and no expiry, a revoked row has neither);
  an endpoint is kept only for a device one may reconnect to, a name only for a known device, and
  only confirmed controllers are members of the workspace.
\<close>
theorem registry_invariant: "registry_reachable lib r \<Longrightarrow> registry_ok r"
  by (rule reachable_ok)

text \<open>
  C31. The operations implement the life cycle of a device: whatever a request does to a row, or
  leaves alone because it raised, is a step of \<open>trust_move\<close>. A row becomes trusted only by
  confirming its own pin or by answering an enrollment this device started, only a trusted row is
  acknowledged, and nothing leaves the revoked state.
\<close>
theorem trust_refinement:
  "registry_reachable lib r \<Longrightarrow> trust_move q p (trust_of p r) (trust_of p (attempt lib q r))"
  by (rule move_attempt [OF reachable_ok])


text \<open>
  C33. Trust comes from this device: when a pin is trusted after some requests, one of them granted
  it, and at that moment the row of the device was waiting with exactly this pin, either for the
  user to confirm the pin, or for the answer to an enrollment that this device started.
\<close>
theorem trust_is_granted:
  assumes "open_registry initialize fresh stored gens empty_registry = Inr r0"
    and "pin \<in> trusted_pins (attempts lib qs r0)"
  shows "\<exists>p qs1 q qs2 st. qs = qs1 @ q # qs2 \<and> grants q p pin st \<and>
    trust_of p (attempts lib qs1 r0) = Some (st, pin) \<and>
    (\<exists>r. perform lib q (attempts lib qs1 r0) = Inr r)"
proof -
  have reach: "registry_reachable lib r0" using opened [OF assms(1)] .
  have none: "trust_of p r0 = None" for p
    using open_registry_eqD [OF assms(1)] by (auto simp: empty_registry_def trust_of_def find_peer_def)
  obtain p st where "trust_of p (attempts lib qs r0) = Some (st, pin)" "trusted st"
    using assms(2) trusted_pins_trust reachable_ok [OF reachable_attempts [OF reach]] by (auto simp: registry_ok_def)
  then show ?thesis using trusted_was_granted [OF reach none] by blast
qed

end
