(* ===== verification/Pairing.thy ===== *)
theory Pairing
  imports Registry_Trust
begin

text \<open>
  \<^verbatim>\<open>devices/pairing.py\<close>: the invitation a desktop shows as a QR code, the bounded number of
  attempts to claim it, and the parser on the side that scans it.
\<close>

section \<open>Checks on the fields\<close>

text \<open>
  \<^verbatim>\<open>relay_origin\<close>, on any JSON value since the parser calls it before it knows the type. What
  \<^verbatim>\<open>urlsplit\<close> does with other values: a list or an object is not hashable, a false value reads as
  the empty bytes, and a number has no method \<^verbatim>\<open>decode\<close>.
\<close>
definition relay_origin :: "device_lib \<Rightarrow> json \<Rightarrow> registry_error + json" where
  "relay_origin lib v =
     (case v of
        JStr s \<Rightarrow>
          (case lib_urlsplit lib s of
             None \<Rightarrow> Inl (PairingError ''invalid_relay_origin'')
           | Some u \<Rightarrow>
               if url_scheme u \<noteq> ''https'' \<or> url_hostname u = [] \<or> url_username u \<noteq> [] \<or> url_password u \<noteq> [] \<or>
                  url_path u \<noteq> [] \<or> url_query u \<noteq> [] \<or> url_fragment u \<noteq> [] \<or>
                  url_port u \<notin> {None, Some 443} \<or> list_ex py_space (utf8_dec s)
               then Inl (PairingError ''invalid_relay_origin'') else Inr v)
      | JList _ \<Rightarrow> Inl (Uncaught ''TypeError'')
      | JObj _ \<Rightarrow> Inl (Uncaught ''TypeError'')
      | _ \<Rightarrow> if truthy v then Inl (Uncaught ''AttributeError'') else Inl (PairingError ''invalid_relay_origin''))"

text \<open>
  \<^verbatim>\<open>label\<close>: iterating over a list gives its elements and over an object its keys, and
  \<^verbatim>\<open>unicodedata.category\<close> raises unless it is given a text of one character.
\<close>
definition control_char :: "device_lib \<Rightarrow> json \<Rightarrow> registry_error + bool" where
  "control_char lib v =
     (case v of
        JStr s \<Rightarrow> (case utf8_dec s of [c] \<Rightarrow> Inr (lib_control lib c) | _ \<Rightarrow> Inl (Uncaught ''TypeError''))
      | _ \<Rightarrow> Inl (Uncaught ''TypeError''))"

fun any_control :: "device_lib \<Rightarrow> json list \<Rightarrow> registry_error + bool" where
  "any_control lib [] = Inr False"
| "any_control lib (x # xs) = andThen (control_char lib x) (\<lambda>b. if b then Inr True else any_control lib xs)"

definition label :: "device_lib \<Rightarrow> json \<Rightarrow> registry_error + json" where
  "label lib v =
     (let check = (\<lambda>xs. if \<not> (1 \<le> length xs \<and> length xs \<le> 80) then Inl (PairingError ''invalid_display_name'')
                         else andThen (any_control lib xs) (\<lambda>b. if b then Inl (PairingError ''invalid_display_name'') else Inr v))
      in case v of
           JStr s \<Rightarrow> check (map (\<lambda>c. JStr (utf8_enc c)) (utf8_dec s))
         | JList xs \<Rightarrow> check xs
         | JObj ms \<Rightarrow> check (map (\<lambda>(k, _). JStr k) ms)
         | _ \<Rightarrow> Inl (Uncaught ''TypeError''))"

section \<open>Invitations\<close>

record invitation =
  inv_raw :: string
  inv_expires :: int
  inv_deadline :: rat
  inv_failures :: nat
  inv_consumed :: bool

definition uri_prefix :: string where
  "uri_prefix = ''raticode://pair?v=2&data=''"

definition payload :: "invitation \<Rightarrow> json" where
  "payload i = JObj [(''uri'', JStr (uri_prefix @ b64_encode (inv_raw i))), (''expires_at'', JInt (inv_expires i))]"

text \<open>\<^verbatim>\<open>int(q)\<close>\<close>
definition py_int :: "rat \<Rightarrow> int" where
  "py_int q = (if 0 \<le> q then \<lfloor>q\<rfloor> else \<lceil>q\<rceil>)"

text \<open>The readings and random values of one call of \<^verbatim>\<open>create\<close>; the last three are 32 bytes each.\<close>
record create_env =
  ce_now :: rat
  ce_monotonic :: rat
  ce_uuid :: string
  ce_secret :: string
  ce_initiator :: string
  ce_responder :: string

definition unused_relay_origin :: string where
  "unused_relay_origin = ''https://relay.invalid''"

text \<open>\<^verbatim>\<open>secrets.token_urlsafe(32)\<close> is the URL-safe base64 text of 32 random bytes.\<close>
definition invitation_data :: "create_env \<Rightarrow> registry \<Rightarrow> json \<Rightarrow> json \<Rightarrow> (string \<times> json) list" where
  "invitation_data env r name lan =
     [(''version'', JInt 2), (''profile'', JStr ''raticode-tls13-v2''), (''invitation_id'', JStr (ce_uuid env)),
      (''responder_id'', JStr (reg_id r)), (''responder_name'', name), (''responder_role'', JStr ''desktop''),
      (''responder_spki_sha256'', JStr (hex_text (reg_pin r))), (''secret'', JStr (b64_encode (ce_secret env))),
      (''expires_at'', JInt (py_int (ce_now env) + 300)), (''relay'', JStr unused_relay_origin),
      (''pair_initiator_topic'', JStr (b64_encode (ce_initiator env))),
      (''pair_responder_topic'', JStr (b64_encode (ce_responder env))), (''lan_endpoint'', lan)]"

definition new_invitation :: "device_lib \<Rightarrow> create_env \<Rightarrow> (string \<times> json) list \<Rightarrow> invitation" where
  "new_invitation lib env data =
     \<lparr>inv_raw = dumps (lib_io lib) esc_ascii (JObj data), inv_expires = py_int (ce_now env) + 300,
      inv_deadline = ce_monotonic env + 300, inv_failures = 0, inv_consumed = False\<rparr>"

text \<open>\<^verbatim>\<open>Invitations.create\<close>; the state of \<^verbatim>\<open>Invitations\<close> is its \<^verbatim>\<open>current\<close>, replaced only on success.\<close>
definition create ::
  "device_lib \<Rightarrow> create_env \<Rightarrow> registry \<Rightarrow> string \<Rightarrow> json \<Rightarrow> registry_error + (json \<times> invitation option)" where
  "create lib env r name lan =
     andThen (label lib (JStr name)) (\<lambda>n.
     andThen (lan_endpoint lib lan) (\<lambda>e.
     let i = new_invitation lib env (invitation_data env r n e)
     in Inr (payload i, Some i)))"

definition cancel :: "invitation option \<Rightarrow> invitation option" where
  "cancel current = None"

text \<open>What a claim reads: two clocks, then what \<^verbatim>\<open>propose\<close> reads.\<close>
record claim_env =
  cl_clock :: rat
  cl_monotonic :: rat
  cl_now :: rat
  cl_later :: rat
  cl_gen :: string

definition claimable :: "claim_env \<Rightarrow> invitation option \<Rightarrow> bool" where
  "claimable env current \<longleftrightarrow>
     (case current of
        None \<Rightarrow> False
      | Some i \<Rightarrow> \<not> inv_consumed i \<and> inv_failures i < 5 \<and> \<not> of_int (inv_expires i) \<le> cl_clock env \<and>
          \<not> inv_deadline i \<le> cl_monotonic env)"

definition lift_frame :: "frame_error + 'a \<Rightarrow> registry_error + 'a" where
  "lift_frame x = (case x of Inl e \<Rightarrow> Inl (FrameFault e) | Inr v \<Rightarrow> Inr v)"

text \<open>The statements of \<^verbatim>\<open>claim\<close> between counting the attempt and consuming the invitation.\<close>
definition claim_invitation ::
  "device_lib \<Rightarrow> claim_env \<Rightarrow> invitation \<Rightarrow> (string \<times> json) list \<Rightarrow> string \<Rightarrow> string \<Rightarrow> registry \<Rightarrow>
     registry_error + ((string \<times> string) \<times> registry)" where
  "claim_invitation lib env i rec session pin r =
     andThen (lift_frame (strict_json (lib_io lib) max_record (inv_raw i))) (\<lambda>data.
     andThen (device_id (jget_or JNull (JObj rec) ''initiator_id'')) (\<lambda>p.
     andThen (case dget rec ''initiator_role'' of Some (JStr s) \<Rightarrow> Inr s | _ \<Rightarrow> Inl (PairingError ''invalid_role'')) (\<lambda>role.
     andThen (case jget data ''secret'' of Some (JStr s) \<Rightarrow> Inr s | _ \<Rightarrow> Inl (Uncaught ''KeyError'')) (\<lambda>secret.
     andThen (lift_frame (new_binding session ''pair'' p (reg_id r) role (Some (lib_sha256 lib (inv_raw i))) (Some secret))) (\<lambda>b.
     andThen (lift_frame (verify_binding (lib_io lib) b (JObj rec))) (\<lambda>_.
     andThen (propose (cl_now env) (cl_later env) (cl_gen env) p pin role (of_int (inv_expires i)) False r) (\<lambda>r'.
       Inr ((p, role), r'))))))))"

definition claim ::
  "device_lib \<Rightarrow> claim_env \<Rightarrow> (string \<times> json) list \<Rightarrow> string \<Rightarrow> string \<Rightarrow> invitation option \<times> registry \<Rightarrow>
     (registry_error + string \<times> string) \<times> invitation option \<times> registry" where
  "claim lib env rec session pin st =
     (case st of (current, r) \<Rightarrow>
        (case current of
           None \<Rightarrow> (Inl (PairingError ''invitation_unavailable''), current, r)
         | Some i \<Rightarrow>
             if \<not> claimable env current then (Inl (PairingError ''invitation_unavailable''), current, r)
             else let j = i\<lparr>inv_failures := inv_failures i + 1\<rparr>
               in case claim_invitation lib env j rec session pin r of
                    Inl e \<Rightarrow> (Inl e, Some j, r)
                  | Inr (peer, r') \<Rightarrow> (Inr peer, None, r')))"

section \<open>Scanning an invitation\<close>

definition invitation_fields :: "string list" where
  "invitation_fields =
     [''version'', ''profile'', ''invitation_id'', ''responder_id'', ''responder_name'', ''responder_role'',
      ''responder_spki_sha256'', ''secret'', ''expires_at'', ''relay'', ''pair_initiator_topic'',
      ''pair_responder_topic'', ''lan_endpoint'']"

text \<open>\<^verbatim>\<open>re.fullmatch(p, v)\<close>, which raises unless \<^verbatim>\<open>v\<close> is a text\<close>
definition matches :: "(string \<Rightarrow> bool) \<Rightarrow> json \<Rightarrow> registry_error + string" where
  "matches p v =
     (case v of
        JStr s \<Rightarrow> if p s then Inr s else Inl (Uncaught ''ValueError'')
      | _ \<Rightarrow> Inl (Uncaught ''TypeError''))"

definition canonical_token :: "json \<Rightarrow> registry_error + unit" where
  "canonical_token v =
     andThen (matches topic_ok v) (\<lambda>s.
       case b64_decode s of
         None \<Rightarrow> Inl (Uncaught ''ValueError'')
       | Some bs \<Rightarrow> need (b64_encode bs = s) (Uncaught ''ValueError''))"

definition pin_text :: "string \<Rightarrow> bool" where
  "pin_text s \<longleftrightarrow> length s = 64 \<and> list_all lower_hex s"

text \<open>The checks on the decoded document, in the order of the code; every field is present after the first.\<close>
definition check_invitation :: "device_lib \<Rightarrow> rat \<Rightarrow> json \<Rightarrow> registry_error + unit" where
  "check_invitation lib now data =
     (let field = jget_or JNull data
      in andThen (need (set (dkeys (members data)) = set invitation_fields \<and> field ''version'' = JInt 2 \<and>
                    field ''profile'' = JStr ''raticode-tls13-v2'' \<and> field ''responder_role'' = JStr ''desktop'')
                   (Uncaught ''ValueError'')) (\<lambda>_.
         andThen (device_id (field ''invitation_id'')) (\<lambda>_.
         andThen (device_id (field ''responder_id'')) (\<lambda>_.
         andThen (label lib (field ''responder_name'')) (\<lambda>_.
         andThen (relay_origin lib (field ''relay'')) (\<lambda>_.
         andThen (lan_endpoint lib (field ''lan_endpoint'')) (\<lambda>_.
         andThen (matches pin_text (field ''responder_spki_sha256'')) (\<lambda>_.
         andThen (each canonical_token [field ''secret'', field ''pair_initiator_topic'', field ''pair_responder_topic'']) (\<lambda>_.
           case field ''expires_at'' of
             JInt e \<Rightarrow> need (now < of_int e \<and> of_int e \<le> now + 300) (PairingError ''invitation_expired_or_clock_mismatch'')
           | _ \<Rightarrow> Inl (PairingError ''invitation_expired_or_clock_mismatch''))))))))))"

text \<open>
  \<^verbatim>\<open>except (ValueError, TypeError, KeyError)\<close>: the errors of pairing, storage and framing are all
  kinds of \<^verbatim>\<open>ValueError\<close>.
\<close>
definition rejected :: "registry_error + 'a \<Rightarrow> registry_error + 'a" where
  "rejected x =
     (case x of
        Inl (Uncaught k) \<Rightarrow>
          if k \<in> {''ValueError'', ''TypeError'', ''KeyError''} then Inl (PairingError ''invalid_or_expired_invitation'')
          else Inl (Uncaught k)
      | Inl _ \<Rightarrow> Inl (PairingError ''invalid_or_expired_invitation'')
      | Inr v \<Rightarrow> Inr v)"

text \<open>The body of the \<^verbatim>\<open>try\<close> statement.\<close>
definition open_invitation :: "device_lib \<Rightarrow> rat \<Rightarrow> string \<Rightarrow> registry_error + (string \<times> json)" where
  "open_invitation lib now encoded =
     (case b64_decode encoded of
        None \<Rightarrow> Inl (Uncaught ''ValueError'')
      | Some raw \<Rightarrow>
          andThen (need (b64_encode raw = encoded) (Uncaught ''ValueError'')) (\<lambda>_.
          andThen (lift_frame (strict_json (lib_io lib) 3072 raw)) (\<lambda>data.
          andThen (check_invitation lib now data) (\<lambda>_. Inr (raw, data)))))"

definition parse_invitation :: "device_lib \<Rightarrow> string \<Rightarrow> rat \<Rightarrow> registry_error + (string \<times> json)" where
  "parse_invitation lib uri now =
     (if 4096 < py_len uri \<or> \<not> starts_with uri_prefix uri then Inl (PairingError ''invalid_invitation'')
      else let encoded = drop (length uri_prefix) uri
        in if \<not> b64_text encoded then Inl (PairingError ''invalid_invitation'')
           else rejected (open_invitation lib now encoded))"

section \<open>How often an invitation can be claimed\<close>

text \<open>What may happen while an invitation is shown: claims, requests to the registry, and cancelling.\<close>
datatype pairing_event =
    Claimed claim_env "(string \<times> json) list" string string
  | Requested request
  | Cancelled

fun pairing_step ::
  "device_lib \<Rightarrow> pairing_event \<Rightarrow> invitation option \<times> registry \<Rightarrow>
     (registry_error + string \<times> string) list \<times> invitation option \<times> registry" where
  "pairing_step lib (Claimed env rec session pin) st =
     (case claim lib env rec session pin st of (res, st') \<Rightarrow> ([res], st'))"
| "pairing_step lib (Requested q) st = ([], fst st, attempt lib q (snd st))"
| "pairing_step lib Cancelled st = ([], cancel (fst st), snd st)"

text \<open>The results of the claims among the events, and the final state.\<close>
fun pairing_run ::
  "device_lib \<Rightarrow> pairing_event list \<Rightarrow> invitation option \<times> registry \<Rightarrow>
     (registry_error + string \<times> string) list \<times> invitation option \<times> registry" where
  "pairing_run lib [] st = ([], st)"
| "pairing_run lib (e # es) st =
     (case pairing_step lib e st of (xs, st1) \<Rightarrow> case pairing_run lib es st1 of (ys, st2) \<Rightarrow> (xs @ ys, st2))"

abbreviation unavailable :: "registry_error + string \<times> string" where
  "unavailable \<equiv> Inl (PairingError ''invitation_unavailable'')"

definition attempts_left :: "invitation option \<Rightarrow> nat" where
  "attempts_left current = (case current of None \<Rightarrow> 0 | Some i \<Rightarrow> 5 - inv_failures i)"

definition examined :: "(registry_error + string \<times> string) list \<Rightarrow> nat" where
  "examined xs = length (filter (\<lambda>x. x \<noteq> unavailable) xs)"

definition accepted :: "(registry_error + string \<times> string) list \<Rightarrow> nat" where
  "accepted xs = length (filter (\<lambda>x. \<not> isl x) xs)"

lemma claim_counts:
  assumes "claim lib env rec session pin (current, r) = (res, current', r')"
  shows "examined [res] + attempts_left current' \<le> attempts_left current" and "\<not> isl res \<Longrightarrow> current' = None"
  using assms
  by (auto simp: claim_def Let_def claimable_def examined_def attempts_left_def split: option.splits if_splits sum.splits)

lemma step_counts:
  assumes "pairing_step lib e (current, r) = (xs, current', r')"
  shows "examined xs + attempts_left current' \<le> attempts_left current \<and>
    accepted xs \<le> 1 \<and> (0 < accepted xs \<or> current = None \<longrightarrow> current' = None)"
proof (cases e)
  case (Claimed env rec session pin)
  obtain res where c: "claim lib env rec session pin (current, r) = (res, current', r')" and "xs = [res]"
    using assms Claimed by (auto split: prod.splits)
  moreover have "current = None \<Longrightarrow> current' = None" using c by (simp add: claim_def)
  moreover have "accepted [res] = (if isl res then 0 else 1)" by (simp add: accepted_def)
  ultimately show ?thesis using claim_counts [OF c] by (cases "isl res") simp_all
qed (use assms in \<open>auto simp: examined_def accepted_def attempts_left_def cancel_def\<close>)

lemma no_invitation_run:
  "pairing_run lib es (None, r) = (xs, st) \<Longrightarrow> fst st = None \<and> accepted xs = 0"
proof (induction es arbitrary: r xs)
  case (Cons e es)
  obtain ys c1 r1 zs where e: "pairing_step lib e (None, r) = (ys, c1, r1)"
    and es: "pairing_run lib es (c1, r1) = (zs, st)" and xs: "xs = ys @ zs"
    using Cons.prems by (auto split: prod.splits)
  have "c1 = None" using step_counts [OF e] by simp
  moreover have "accepted ys = 0"
    using e by (cases e) (auto simp: claim_def accepted_def)
  ultimately show ?case using Cons.IH [of r1 zs] es xs by (simp add: accepted_def)
qed (auto simp: accepted_def)

lemma run_counts:
  "pairing_run lib es (current, r) = (xs, current', r') \<Longrightarrow>
     examined xs + attempts_left current' \<le> attempts_left current \<and> accepted xs \<le> 1 \<and>
     (0 < accepted xs \<longrightarrow> current' = None)"
proof (induction es arbitrary: current r xs)
  case (Cons e es)
  obtain ys c1 r1 zs where e: "pairing_step lib e (current, r) = (ys, c1, r1)"
    and es: "pairing_run lib es (c1, r1) = (zs, current', r')" and xs: "xs = ys @ zs"
    using Cons.prems by (auto split: prod.splits)
  have sums: "examined xs = examined ys + examined zs" "accepted xs = accepted ys + accepted zs"
    by (simp_all add: xs examined_def accepted_def)
  note one = step_counts [OF e]
  show ?case
  proof (cases "accepted ys = 0")
    case True
    with one Cons.IH [OF es] sums show ?thesis by simp
  next
    case False
    then have c1: "c1 = None" using one by simp
    then have "accepted zs = 0" "current' = None" using no_invitation_run [of lib es r1 zs] es by auto
    with one Cons.IH [OF es] sums False c1 show ?thesis by simp
  qed
qed (auto simp: examined_def accepted_def)

text \<open>
  C35. An invitation bounds what an attacker can try: whatever claims, requests and cancellations
  happen while it is shown, at most five claims are examined at all, at most one is accepted, and
  once one is accepted the invitation with its secret is gone.
\<close>
theorem claim_limit:
  assumes "pairing_run lib es (Some i, r) = (results, current', r')"
  shows "examined results \<le> 5 \<and> accepted results \<le> 1 \<and> (0 < accepted results \<longrightarrow> current' = None)"
  using run_counts [OF assms] by (auto simp: attempts_left_def)

section \<open>What an accepted claim shows\<close>

lemma lift_frame_eq [simp]: "lift_frame x = Inr v \<longleftrightarrow> x = Inr v"
  by (auto simp: lift_frame_def split: sum.splits)

lemma device_id_eq: "device_id v = Inr s \<longleftrightarrow> v = JStr s \<and> is_uuid s"
  by (auto simp: device_id_def split: json.splits)

lemma text_case_eq:
  "(case x of Some (JStr s) \<Rightarrow> Inr s | _ \<Rightarrow> Inl e) = Inr t \<longleftrightarrow> x = Some (JStr t)"
  by (auto split: option.splits json.splits)

lemma claim_accepted:
  assumes "claim lib env rec session pin (current, r) = (Inr (p, role), current', r')"
  shows "\<exists>i. current = Some i \<and> claimable env current \<and> current' = None \<and>
    claim_invitation lib env (i\<lparr>inv_failures := inv_failures i + 1\<rparr>) rec session pin r = Inr ((p, role), r')"
  using assms by (auto simp: claim_def Let_def split: option.splits if_splits sum.splits)

text \<open>The document of an invitation, and the secret in it.\<close>
definition invitation_secret :: "device_lib \<Rightarrow> invitation \<Rightarrow> string option" where
  "invitation_secret lib i =
     (case strict_json (lib_io lib) max_record (inv_raw i) of
        Inr data \<Rightarrow> (case jget data ''secret'' of Some (JStr s) \<Rightarrow> Some s | _ \<Rightarrow> None)
      | Inl _ \<Rightarrow> None)"

lemma claim_invitation_eqD:
  assumes "claim_invitation lib env i rec session pin r = Inr ((p, role), r')"
  shows "\<exists>secret b. invitation_secret lib i = Some secret \<and> dget rec ''initiator_id'' = Some (JStr p) \<and>
    dget rec ''initiator_role'' = Some (JStr role) \<and>
    new_binding session ''pair'' p (reg_id r) role (Some (lib_sha256 lib (inv_raw i))) (Some secret) = Inr b \<and>
    verify_binding (lib_io lib) b (JObj rec) = Inr () \<and>
    propose (cl_now env) (cl_later env) (cl_gen env) p pin role (of_int (inv_expires i)) False r = Inr r'"
proof -
  obtain data secret b where data: "strict_json (lib_io lib) max_record (inv_raw i) = Inr data"
    and p: "jget_or JNull (JObj rec) ''initiator_id'' = JStr p"
    and role: "dget rec ''initiator_role'' = Some (JStr role)" and secret: "jget data ''secret'' = Some (JStr secret)"
    and rest: "new_binding session ''pair'' p (reg_id r) role (Some (lib_sha256 lib (inv_raw i))) (Some secret) = Inr b"
      "verify_binding (lib_io lib) b (JObj rec) = Inr ()"
      "propose (cl_now env) (cl_later env) (cl_gen env) p pin role (of_int (inv_expires i)) False r = Inr r'"
    using assms unfolding claim_invitation_def andThen_eq_Inr lift_frame_eq device_id_eq text_case_eq by force
  have "dget rec ''initiator_id'' = Some (JStr p)" using p by (simp split: option.splits)
  moreover have "invitation_secret lib i = Some secret" using data secret by (simp add: invitation_secret_def)
  ultimately show ?thesis using role rest by blast
qed

lemma propose_enters:
  assumes "propose now later gen p pin role expires False r = Inr r'"
  shows "trust_of p r' = Some (Pending, pin)" and "trusted_pins r' \<subseteq> trusted_pins r"
proof -
  let ?d = "drop_expired now r"
  have r': "r' = ?d\<lparr>reg_peers := reg_peers ?d @ [new_peer later gen p pin role expires False]\<rparr>"
    and fresh: "find_peer p ?d = None"
    using assms unfolding propose_eq find_peer_None by blast+
  show "trust_of p r' = Some (Pending, pin)"
    unfolding r' trust_of_def find_peer_append fresh by (simp add: new_peer_def)
  show "trusted_pins r' \<subseteq> trusted_pins r"
    unfolding r' by (auto simp: trusted_pins_def trusted_def new_peer_def drop_expired_peers)
qed

lemma fits_members_iff: "fits_members d ms \<longleftrightarrow> (\<forall>(k, v) \<in> set ms. fits d (JStr k) \<and> fits d v)"
  by (induction ms) auto

lemma fits_member: "fits d (JObj ms) \<Longrightarrow> dget ms k = Some (JStr s) \<Longrightarrow> utf8_ok s"
  by (force dest!: map_of_SomeD simp: fits_members_iff)

lemma invitation_secret_utf8: "invitation_secret lib i = Some s \<Longrightarrow> utf8_ok s"
proof -
  assume "invitation_secret lib i = Some s"
  then obtain data where "strict_json (lib_io lib) max_record (inv_raw i) = Inr data" "jget data ''secret'' = Some (JStr s)"
    by (auto simp: invitation_secret_def split: sum.splits option.splits json.splits)
  then have "fits 0 data" "jget data ''secret'' = Some (JStr s)" by (simp_all add: strict_json_iff)
  then show ?thesis by (cases data) (auto intro: fits_member)
qed

text \<open>
  C36. An accepted claim is bound to this invitation and this connection: its record names the
  hash of the shown invitation, the secret inside it, this device as responder, the session of
  the connection, and a device and role; the candidate is entered with the pin of the connection,
  waiting for the user, and no pin becomes trusted by it.
\<close>
theorem claim_is_bound:
  assumes "claim lib env rec session pin (current, r) = (Inr (p, role), current', r')"
    and "printable (lib_io lib) (JObj rec)"
    and "utf8_ok session" and "utf8_ok (reg_id r)" and "utf8_ok (lib_sha256 lib (inv_raw (the current)))"
  shows "\<exists>i secret. current = Some i \<and> current' = None \<and> invitation_secret lib i = Some secret \<and>
    dget rec ''secret'' = Some (JStr secret) \<and>
    dget rec ''invitation_sha256'' = Some (JStr (lib_sha256 lib (inv_raw i))) \<and>
    dget rec ''session_id'' = Some (JStr session) \<and> dget rec ''responder_id'' = Some (JStr (reg_id r)) \<and>
    dget rec ''initiator_id'' = Some (JStr p) \<and> dget rec ''initiator_role'' = Some (JStr role) \<and>
    trust_of p r' = Some (Pending, pin) \<and> trusted_pins r' \<subseteq> trusted_pins r"
proof -
  obtain i where i: "current = Some i" "current' = None"
    and ci: "claim_invitation lib env (i\<lparr>inv_failures := inv_failures i + 1\<rparr>) rec session pin r = Inr ((p, role), r')"
    using claim_accepted [OF assms(1)] by blast
  let ?j = "i\<lparr>inv_failures := inv_failures i + 1\<rparr>"
  obtain secret b where secret: "invitation_secret lib ?j = Some secret"
    and ids: "dget rec ''initiator_id'' = Some (JStr p)" "dget rec ''initiator_role'' = Some (JStr role)"
    and b: "new_binding session ''pair'' p (reg_id r) role (Some (lib_sha256 lib (inv_raw ?j))) (Some secret) = Inr b"
    and v: "verify_binding (lib_io lib) b (JObj rec) = Inr ()"
    and pr: "propose (cl_now env) (cl_later env) (cl_gen env) p pin role (of_int (inv_expires ?j)) False r = Inr r'"
    using claim_invitation_eqD [OF ci] by blast
  have b': "b = \<lparr>sb_session = session, sb_mode = ''pair'', sb_initiator = p, sb_responder = reg_id r, sb_role = role,
      sb_invitation = Some (lib_sha256 lib (inv_raw i)), sb_secret = Some secret\<rparr>"
    using b by (simp add: new_binding_def Let_def andThen_eq_Inr)
  have "utf8_ok p" "utf8_ok role"
    using ids assms(2) map_of_SomeD by (fastforce simp: printable_members_iff)+
  then have "binding_ok b"
    using assms(3-5) i secret by (simp add: b' binding_ok_def invitation_secret_utf8 utf8_ok_ascii)
  then have "\<forall>k. dget rec k = dget (binding_members b) k"
    using verify_binding_iff assms(2) v by blast
  moreover have "invitation_secret lib i = Some secret" using secret by (simp add: invitation_secret_def)
  ultimately show ?thesis
    using i propose_enters [OF pr] by (intro exI [of _ i] exI [of _ secret]) (simp add: b' binding_members_def)
qed

section \<open>The text of an invitation\<close>

abbreviation ascii :: "string \<Rightarrow> bool" where
  "ascii s \<equiv> list_all (\<lambda>c. ord c < 128) s"

lemma hex_digit_ascii [simp]: "n < 16 \<Longrightarrow> ord (hex_digit n) < 128"
  by (auto simp: hex_digit_def)

lemma esc_u_ascii [simp]: "ascii (esc_u n)"
  by (simp add: esc_u_def hex4_def)

lemma esc_ascii_ascii [simp]: "ascii (esc_ascii n)"
  by (auto simp: esc_ascii_def esc_raw_def utf8_enc_def)

lemma json_string_ascii [simp]: "ascii (json_string esc_ascii s)"
  by (auto simp: json_string_def list_all_iff) (metis esc_ascii_ascii list_all_iff)

lemma show_int_ascii [simp]: "ascii (show_int i)"
  using show_nat_digits [of "nat i"] show_nat_digits [of "nat (- i)"]
  by (auto simp: show_int_def list_all_iff is_digit_def)

text \<open>Documents without floats print as ASCII.\<close>
fun float_free :: "json \<Rightarrow> bool" and float_free_list :: "json list \<Rightarrow> bool"
  and float_free_members :: "(string \<times> json) list \<Rightarrow> bool" where
  "float_free (JFloat r) = False"
| "float_free (JList xs) = float_free_list xs"
| "float_free (JObj ms) = float_free_members ms"
| "float_free _ = True"
| "float_free_list [] = True"
| "float_free_list (x # xs) = (float_free x \<and> float_free_list xs)"
| "float_free_members [] = True"
| "float_free_members ((k, v) # ms) = (float_free v \<and> float_free_members ms)"

lemma dumps_ascii:
  "float_free v \<Longrightarrow> ascii (dumps io esc_ascii v)"
  "float_free_list xs \<Longrightarrow> ascii (dumps_list io esc_ascii xs)"
  "float_free_members ms \<Longrightarrow> ascii (dumps_members io esc_ascii ms)"
  by (induction v and xs and ms rule: float_free_float_free_list_float_free_members.induct) auto

lemma b64_encode_size: "length (b64_encode bs) = (4 * length bs + 2) div 3"
  by (induction bs rule: b64_encode.induct) auto

lemma canonical_token_encode: "length bs = 32 \<Longrightarrow> canonical_token (JStr (b64_encode bs)) = Inr ()"
  using b64_encode_text [of bs] by (cases "bs = []") (simp_all add: canonical_token_def matches_def topic_ok_def b64_encode_size b64_decode_encode need_def)

lemma pin_text_hex: "length pin = 32 \<Longrightarrow> pin_text (hex_text pin)"
proof -
  assume "length pin = 32"
  moreover have "length (hex_text pin) = 2 * length pin" by (induction pin) (auto simp: hex_text_def)
  moreover have "n < 16 \<Longrightarrow> lower_hex (hex_digit n)" for n by (auto simp: lower_hex_def hex_digit_def)
  then have "list_all lower_hex (hex_text pin)" using ord_pieces by (auto simp: hex_text_def list_all_iff)
  ultimately show ?thesis by (simp add: pin_text_def)
qed

lemma label_eqD: "label lib v = Inr w \<Longrightarrow> w = v"
  by (auto simp: label_def Let_def andThen_eq_Inr split: json.splits if_splits)

lemma lan_endpoint_eqD: "lan_endpoint lib v = Inr w \<Longrightarrow> w = v"
  by (auto simp: lan_endpoint_def split: json.splits option.splits if_splits)

lemma lan_endpoint_shape:
  assumes "lan_endpoint lib v = Inr w" and "printable io v"
  shows "float_free v \<and> fits 1 v"
proof (cases "v = JNull")
  case False
  with assms(1) obtain ms host port where v: "v = JObj ms" "dget ms ''host'' = Some (JStr host)"
    "dget ms ''port'' = Some (JInt port)" "set (dkeys ms) = {''host'', ''port''}"
    by (auto simp: lan_endpoint_def split: json.splits option.splits if_splits)
  have dict: "dict_ok ms" "printable_members io ms" using assms(2) v(1) by simp_all
  have "k = ''host'' \<and> x = JStr host \<or> k = ''port'' \<and> x = JInt port" if "(k, x) \<in> set ms" for k x
  proof -
    have "k \<in> set (dkeys ms)" using that by force
    with v(4) have "k = ''host'' \<or> k = ''port''" by simp
    moreover have "dget ms k = Some x" using that dict(1) by (simp add: map_of_is_SomeI)
    ultimately show ?thesis using v(2,3) by auto
  qed
  then have "\<forall>(k, x) \<in> set ms. fits 2 (JStr k) \<and> fits 2 x \<and> float_free x"
    using dict(2) by (fastforce simp: printable_members_iff)
  moreover have "length ms = 2" using v(4) dict(1) distinct_card [of "dkeys ms"] by simp
  moreover have "float_free_members ns \<longleftrightarrow> (\<forall>(k, x) \<in> set ns. float_free x)" for ns by (induction ns) auto
  ultimately show ?thesis using v(1) by (auto simp: fits_members_iff max_collection_def numeral_2_eq_2)
qed simp

lemma starts_with_prefix: "starts_with p (p @ s)"
  by (simp add: starts_with_def)

text \<open>What \<^verbatim>\<open>uuid4\<close>, \<^verbatim>\<open>secrets\<close> and the clock return, and the identity of this device.\<close>
definition create_env_ok :: "create_env \<Rightarrow> registry \<Rightarrow> bool" where
  "create_env_ok env r \<longleftrightarrow> is_uuid (ce_uuid env) \<and> is_uuid (reg_id r) \<and> length (reg_pin r) = 32 \<and>
     length (ce_secret env) = 32 \<and> length (ce_initiator env) = 32 \<and> length (ce_responder env) = 32 \<and>
     0 \<le> ce_now env \<and> ce_now env < 10 ^ 12"

lemma create_eqD:
  assumes "create lib env r name lan = Inr (shown, current)"
  shows "label lib (JStr name) = Inr (JStr name)" and "lan_endpoint lib lan = Inr lan"
    and "current = Some (new_invitation lib env (invitation_data env r (JStr name) lan))"
    and "shown = payload (new_invitation lib env (invitation_data env r (JStr name) lan))"
proof -
  obtain n e where "label lib (JStr name) = Inr n" "lan_endpoint lib lan = Inr e"
    "shown = payload (new_invitation lib env (invitation_data env r n e))"
    "current = Some (new_invitation lib env (invitation_data env r n e))"
    using assms unfolding create_def andThen_eq_Inr Let_def by blast
  moreover from this have "n = JStr name" "e = lan" using label_eqD lan_endpoint_eqD by blast+
  ultimately show "label lib (JStr name) = Inr (JStr name)" "lan_endpoint lib lan = Inr lan"
    "current = Some (new_invitation lib env (invitation_data env r (JStr name) lan))"
    "shown = payload (new_invitation lib env (invitation_data env r (JStr name) lan))" by simp_all
qed

lemma expires_range:
  assumes "create_env_ok env r"
  shows "0 \<le> py_int (ce_now env) + 300" and "py_int (ce_now env) + 300 \<le> max_integer"
proof -
  have n: "0 \<le> ce_now env" "ce_now env < 10 ^ 12" using assms by (simp_all add: create_env_ok_def)
  then have "\<lfloor>ce_now env\<rfloor> < 10 ^ 12" by (simp add: floor_less_iff)
  with n show "0 \<le> py_int (ce_now env) + 300" "py_int (ce_now env) + 300 \<le> max_integer"
    by (simp_all add: py_int_def max_integer_def)
qed

lemma ascii_text [simp]: "is_uuid s \<Longrightarrow> utf8_ok s" "b64_text s \<Longrightarrow> utf8_ok s" "pin_text s \<Longrightarrow> utf8_ok s"
proof -
  show "is_uuid s \<Longrightarrow> utf8_ok s" using uuid_text utf8_ok_plain by blast
  have "b64_value c \<noteq> None \<Longrightarrow> ord c < 128" for c by (auto simp: b64_value_def split: if_splits)
  then show "b64_text s \<Longrightarrow> utf8_ok s" by (auto simp: b64_text_def list_all_iff intro!: utf8_ok_ascii)
  have "lower_hex c \<Longrightarrow> ord c < 128" for c by (auto simp: lower_hex_def)
  then show "pin_text s \<Longrightarrow> utf8_ok s" by (auto simp: pin_text_def list_all_iff intro!: utf8_ok_ascii)
qed

lemma b64_utf8: "utf8_ok (b64_encode bs)"
  using b64_encode_text ascii_text(2) by (cases "bs = []") (auto intro: utf8_ok_ascii)

lemma invitation_data_ok:
  assumes "create_env_ok env r" and "utf8_ok name" and "printable (lib_io lib) lan" and "lan_endpoint lib lan = Inr lan"
  shows "printable (lib_io lib) (JObj (invitation_data env r (JStr name) lan))"
    and "fits 0 (JObj (invitation_data env r (JStr name) lan))"
    and "float_free (JObj (invitation_data env r (JStr name) lan))"
proof -
  note shape = lan_endpoint_shape [OF assms(4,3)]
  have texts: "utf8_ok (ce_uuid env)" "utf8_ok (reg_id r)" "utf8_ok (hex_text (reg_pin r))"
    using assms(1) pin_text_hex by (simp_all add: create_env_ok_def)
  have "length (show_nat (nat \<bar>py_int (ce_now env) + 300\<bar>)) \<le> 4300"
    using index_text(1) [OF expires_range [OF assms(1)]] expires_range(1) [OF assms(1)]
    by (simp add: show_int_def split: if_splits)
  then show "printable (lib_io lib) (JObj (invitation_data env r (JStr name) lan))"
    using assms texts by (simp add: invitation_data_def unused_relay_origin_def b64_utf8 utf8_ok_ascii show_nat_small)
  show "fits 0 (JObj (invitation_data env r (JStr name) lan))"
    using assms texts shape
    by (simp add: invitation_data_def unused_relay_origin_def b64_utf8 utf8_ok_ascii max_collection_def)
  show "float_free (JObj (invitation_data env r (JStr name) lan))"
    using shape by (simp add: invitation_data_def)
qed

lemma check_created:
  assumes "create_env_ok env r" and "label lib (JStr name) = Inr (JStr name)" and "lan_endpoint lib lan = Inr lan"
    and "relay_origin lib (JStr unused_relay_origin) = Inr v"
    and "now < of_int (py_int (ce_now env) + 300)" and "of_int (py_int (ce_now env) + 300) \<le> now + 300"
  shows "check_invitation lib now (JObj (invitation_data env r (JStr name) lan)) = Inr ()"
proof -
  have "canonical_token (JStr (b64_encode (ce_secret env))) = Inr ()"
    "canonical_token (JStr (b64_encode (ce_initiator env))) = Inr ()"
    "canonical_token (JStr (b64_encode (ce_responder env))) = Inr ()"
    "matches pin_text (JStr (hex_text (reg_pin r))) = Inr (hex_text (reg_pin r))"
    using assms(1) by (simp_all add: create_env_ok_def canonical_token_encode matches_def pin_text_hex)
  moreover have "device_id (JStr (ce_uuid env)) = Inr (ce_uuid env)" "device_id (JStr (reg_id r)) = Inr (reg_id r)"
    using assms(1) by (simp_all add: create_env_ok_def device_id_def)
  ultimately show ?thesis
    using assms(2-6) by (simp add: check_invitation_def invitation_data_def invitation_fields_def need_def)
qed

lemma py_len_le: "py_len s \<le> length s"
  by (simp add: py_len_def)

lemma created_document:
  assumes "create_env_ok env r" and "utf8_ok name" and "printable (lib_io lib) lan" and "lan_endpoint lib lan = Inr lan"
    and "i = new_invitation lib env (invitation_data env r (JStr name) lan)" and "length (inv_raw i) \<le> limit"
  shows "strict_json (lib_io lib) limit (inv_raw i) = Inr (JObj (invitation_data env r (JStr name) lan))"
proof -
  let ?d = "invitation_data env r (JStr name) lan"
  note ok = invitation_data_ok [OF assms(1-4)]
  have "inv_raw i = dumps (lib_io lib) esc_ascii (JObj ?d)" by (simp add: assms(5) new_invitation_def)
  then show ?thesis
    unfolding strict_json_iff
    using assms(6) ok(2) dumps_ascii(1) [OF ok(3), of "lib_io lib"] ascii_escape.loads_dumps [OF ok(1), of True]
    by (simp add: utf8_ok_ascii del: dumps.simps) simp
qed

text \<open>
  C37. What a desktop shows, the other device reads: the text made by \<^verbatim>\<open>create\<close> is accepted by
  \<^verbatim>\<open>parse_invitation\<close> while it has not expired, and gives back the very bytes that were encoded and
  the document with this device's identifier, pin, name, secret and endpoint.
\<close>
theorem invitation_round_trip:
  assumes "create lib env r name lan = Inr (shown, Some i)" and "shown = JObj [(''uri'', JStr uri), (''expires_at'', e)]"
    and "create_env_ok env r" and "utf8_ok name" and "printable (lib_io lib) lan" and "length (inv_raw i) \<le> 3050"
    and "relay_origin lib (JStr unused_relay_origin) = Inr v"
    and "now < of_int (inv_expires i)" and "of_int (inv_expires i) \<le> now + 300"
  shows "parse_invitation lib uri now = Inr (inv_raw i, JObj (invitation_data env r (JStr name) lan))"
proof -
  let ?d = "invitation_data env r (JStr name) lan"
  note c = create_eqD [OF assms(1)]
  have i: "i = new_invitation lib env ?d" using c(3) by simp
  then have raw: "inv_raw i \<noteq> []" and e: "inv_expires i = py_int (ce_now env) + 300"
    and uri: "uri = uri_prefix @ b64_encode (inv_raw i)"
    using c(4) assms(2) by (simp_all add: new_invitation_def payload_def)
  have "strict_json (lib_io lib) 3072 (inv_raw i) = Inr (JObj ?d)"
    by (rule created_document [OF assms(3-5) c(2) i]) (use assms(6) in simp)
  moreover have "check_invitation lib now (JObj ?d) = Inr ()"
    using assms(8,9) unfolding e by (rule check_created [OF assms(3) c(1,2) assms(7)])
  moreover have "py_len uri \<le> 4096"
    using py_len_le [of uri] assms(6) by (simp add: uri uri_prefix_def b64_encode_size)
  moreover have "b64_text (b64_encode (inv_raw i))" by (rule b64_encode_text [OF raw])
  ultimately show ?thesis
    by (simp add: parse_invitation_def open_invitation_def uri starts_with_prefix b64_decode_encode need_def rejected_def
        lift_frame_def)
qed

text \<open>The device that scanned the invitation can claim it.\<close>
lemma claim_created:
  assumes "create lib cenv r name lan = Inr (shown, Some i)" and "create_env_ok cenv r" and "utf8_ok name"
    and "printable (lib_io lib) lan" and "length (inv_raw i) \<le> max_record"
    and "new_binding session ''pair'' p (reg_id r) role (Some (lib_sha256 lib (inv_raw i)))
           (Some (b64_encode (ce_secret cenv))) = Inr b"
    and "binding_ok b" and "is_uuid p" and "claimable env (Some i)"
    and "propose (cl_now env) (cl_later env) (cl_gen env) p pin role (of_int (inv_expires i)) False r = Inr r'"
  shows "claim lib env (binding_members b) session pin (Some i, r) = (Inr (p, role), None, r')"
proof -
  let ?d = "invitation_data cenv r (JStr name) lan"
  note c = create_eqD [OF assms(1)]
  have "strict_json (lib_io lib) max_record (inv_raw i) = Inr (JObj ?d)"
    by (rule created_document [OF assms(2-4) c(2) _ assms(5)]) (use c(3) in simp)
  moreover have b: "sb_initiator b = p" "sb_role b = role"
    using assms(6) by (auto simp: new_binding_def Let_def andThen_eq_Inr)
  moreover have "verify_binding (lib_io lib) b (JObj (binding_members b)) = Inr ()"
    using verify_binding_iff [OF assms(7) binding_printable [OF assms(7)]] by blast
  moreover have "jget (JObj ?d) ''secret'' = Some (JStr (b64_encode (ce_secret cenv)))" by (simp add: invitation_data_def)
  moreover have "dget (binding_members b) ''initiator_id'' = Some (JStr p)"
    "dget (binding_members b) ''initiator_role'' = Some (JStr role)" using b by (simp_all add: binding_members_def)
  ultimately show ?thesis
    using assms(6,8-10) by (simp add: claim_def claim_invitation_def lift_frame_def device_id_def)
qed

section \<open>What the parser reports\<close>

lemma parts_errors:
  "device_id v \<noteq> Inl (Uncaught k)" "lan_endpoint lib v \<noteq> Inl (Uncaught k)"
  "label lib v = Inl (Uncaught k) \<Longrightarrow> k = ''TypeError''"
  "relay_origin lib v = Inl (Uncaught k) \<Longrightarrow> k = ''TypeError'' \<or> k = ''AttributeError''"
  "matches p v = Inl (Uncaught k) \<Longrightarrow> k = ''ValueError'' \<or> k = ''TypeError''"
proof -
  show "device_id v \<noteq> Inl (Uncaught k)" by (auto simp: device_id_def split: json.splits)
  show "lan_endpoint lib v \<noteq> Inl (Uncaught k)"
    by (auto simp: lan_endpoint_def split: json.splits option.splits if_splits)
  have "any_control lib xs = Inl (Uncaught k) \<Longrightarrow> k = ''TypeError''" for xs
    by (induction xs)
      (auto simp: andThen_eq_Inl control_char_def split: if_splits json.splits list.splits)
  then show "label lib v = Inl (Uncaught k) \<Longrightarrow> k = ''TypeError''"
    by (auto simp: label_def Let_def andThen_eq_Inl split: json.splits if_splits)
  show "relay_origin lib v = Inl (Uncaught k) \<Longrightarrow> k = ''TypeError'' \<or> k = ''AttributeError''"
    by (auto simp: relay_origin_def split: json.splits option.splits if_splits)
  show "matches p v = Inl (Uncaught k) \<Longrightarrow> k = ''ValueError'' \<or> k = ''TypeError''"
    by (auto simp: matches_def split: json.splits if_splits)
qed

lemma canonical_token_errors: "canonical_token v = Inl (Uncaught k) \<Longrightarrow> k = ''ValueError'' \<or> k = ''TypeError''"
  using parts_errors(5) by (auto simp: canonical_token_def andThen_eq_Inl split: option.splits)

lemma check_invitation_errors:
  assumes "check_invitation lib now data = Inl (Uncaught k)"
  shows "k \<in> {''ValueError'', ''TypeError'', ''AttributeError''}"
proof -
  let ?f = "jget_or JNull data"
  consider "k = ''ValueError''" | v where "device_id v = Inl (Uncaught k)" | v where "label lib v = Inl (Uncaught k)"
    | v where "relay_origin lib v = Inl (Uncaught k)" | v where "lan_endpoint lib v = Inl (Uncaught k)"
    | v p where "matches p v = Inl (Uncaught k)" | v where "canonical_token v = Inl (Uncaught k)"
    using assms unfolding check_invitation_def Let_def andThen_eq_Inl need_eq_Inl
    by (auto dest!: each_eq_InlD simp del: each.simps split: json.splits)
  then show ?thesis by cases (use parts_errors canonical_token_errors in blast)+
qed

lemma open_invitation_errors:
  assumes "open_invitation lib now encoded = Inl (Uncaught k)"
  shows "k \<in> {''ValueError'', ''TypeError'', ''AttributeError''}"
proof (cases "b64_decode encoded")
  case None
  with assms show ?thesis by (simp add: open_invitation_def)
next
  case (Some raw)
  have "lift_frame y \<noteq> Inl (Uncaught k)" for y :: "frame_error + json" by (simp add: lift_frame_def split: sum.splits)
  with assms Some have "k = ''ValueError'' \<or> (\<exists>data. check_invitation lib now data = Inl (Uncaught k))"
    by (auto simp: open_invitation_def andThen_eq_Inl)
  then show ?thesis using check_invitation_errors by blast
qed

text \<open>
  Scanning ends in one of four ways: the bytes and the checked document, or one of the two safe
  error codes, or an \<^verbatim>\<open>AttributeError\<close> that the handler does not catch. The code that tells an expired
  invitation apart is never reported.
\<close>
theorem parse_invitation_outcomes:
  "(\<exists>raw data. parse_invitation lib uri now = Inr (raw, data) \<and> check_invitation lib now data = Inr ()) \<or>
   parse_invitation lib uri now \<in>
     {Inl (PairingError ''invalid_invitation''), Inl (PairingError ''invalid_or_expired_invitation''),
      Inl (Uncaught ''AttributeError'')}"
proof -
  have caught: "rejected x \<in> {Inl (PairingError ''invalid_or_expired_invitation''), Inl (Uncaught ''AttributeError'')}"
    if "x = Inl e" and "\<And>k. e = Uncaught k \<Longrightarrow> k \<in> {''ValueError'', ''TypeError'', ''AttributeError''}"
    for x :: "registry_error + string \<times> json" and e
    using that by (cases e) (auto simp: rejected_def)
  let ?e = "drop (length uri_prefix) uri"
  show ?thesis
  proof (cases "4096 < py_len uri \<or> \<not> starts_with uri_prefix uri \<or> \<not> b64_text ?e")
    case True
    then show ?thesis by (auto simp: parse_invitation_def Let_def)
  next
    case False
    then have p: "parse_invitation lib uri now = rejected (open_invitation lib now ?e)"
      by (simp add: parse_invitation_def Let_def)
    show ?thesis
    proof (cases "open_invitation lib now ?e")
      case (Inl e)
      then show ?thesis using caught [OF Inl] open_invitation_errors unfolding p by blast
    next
      case (Inr y)
      then have "\<exists>raw data. y = (raw, data) \<and> check_invitation lib now data = Inr ()"
        by (auto simp: open_invitation_def andThen_eq_Inr split: option.splits)
      with Inr show ?thesis unfolding p by (auto simp: rejected_def)
    qed
  qed
qed

text \<open>A number in the field \<^verbatim>\<open>relay\<close> of an otherwise valid invitation is such a case.\<close>
lemma relay_number_escapes:
  assumes "create_env_ok env r" and "label lib (JStr name) = Inr (JStr name)"
  shows "check_invitation lib now (JObj (dset ''relay'' (JInt 5) (invitation_data env r (JStr name) lan)))
    = Inl (Uncaught ''AttributeError'')"
  using assms by (simp add: check_invitation_def invitation_data_def invitation_fields_def need_def create_env_ok_def
      device_id_def relay_origin_def insert_commute)

end
