(* ===== verification/Enrollment.thy ===== *)
theory Enrollment
  imports Pairing
begin

text \<open>
  Two desktops enroll with each other: the responder's user confirms the candidate, its
  \<^verbatim>\<open>ready\<close> record is accepted by the initiator, and the initiator's acknowledgment activates it.
  The records are those of \<^verbatim>\<open>devices/service.py\<close> and \<^verbatim>\<open>devices/client.py\<close>; the theory composes the
  registries of both sides.
\<close>

section \<open>Routes survive encryption\<close>

lemma routes_document_ok:
  assumes "topic_ok t1" and "topic_ok t2"
  shows "printable io (JObj (routes_document t1 t2))" and "ascii (dumps_flat io esc_ascii (routes_document t1 t2))"
  using assms by (simp_all add: routes_document_def topic_ok_def utf8_ok_ascii dumps_flat_def)

lemma read_routes_protected:
  assumes "cipher_ok lib" and "length nonce = 12" and "topic_ok t1" and "topic_ok t2"
    and "peer_routes x = Some (protect_routes lib nonce p (routes_document t1 t2))"
  shows "read_routes lib p x = Inr (JObj (routes_document t1 t2))"
  using assms(1,2,5) ascii_escape.loads_flat [OF routes_document_ok(1) [OF assms(3,4)]]
    utf8_ok_ascii [OF routes_document_ok(2) [OF assms(3,4)]]
  by (simp add: read_routes_def protect_routes_def cipher_ok_def)

lemma loads_no_capabilities: "loads io dup ''[]'' = Some (JList [])"
  using ascii_escape.loads_dumps [of io "JList []" dup] by simp

text \<open>The \<^verbatim>\<open>ready\<close> record of a trusted row.\<close>
definition ready_record :: "string \<Rightarrow> string \<Rightarrow> string \<Rightarrow> string \<Rightarrow> (string \<times> json) list" where
  "ready_record p role t1 t2 =
     [(''type'', JStr ''session.ready''), (''device_id'', JStr p), (''role'', JStr role), (''capabilities'', JList []),
      (''initiator_topic'', JStr t1), (''responder_topic'', JStr t2), (''trust_revision'', JInt 1)]"

text \<open>The acknowledgment that \<^verbatim>\<open>client.py\<close> answers it with.\<close>
definition ack_record :: "string \<Rightarrow> (string \<times> json) list \<Rightarrow> (string \<times> json) list" where
  "ack_record own rec =
     [(''type'', JStr ''session.ready_ack''), (''device_id'', JStr own),
      (''trust_revision'', jget_or JNull (JObj rec) ''trust_revision'')]"

lemma ready_trusted:
  assumes "cipher_ok lib" and "length nonce = 12" and "topic_ok t1" and "topic_ok t2" and "is_uuid p"
    and "find_peer p r = Some x" and "trusted (peer_state x)" and "peer_revision x = 1" and "peer_capabilities x = ''[]''"
    and "peer_routes x = Some (protect_routes lib nonce p (routes_document t1 t2))"
  shows "ready lib p (peer_pin x) (peer_role x) r = Inr (ready_record p (peer_role x) t1 t2)"
proof -
  have "authenticate p (peer_pin x) (peer_role x) r = Inr ()" "peer_row p r = Inr x"
    using assms(5-7) by (auto simp: row_simps)
  then show ?thesis
    using read_routes_protected [OF assms(1-4,10)] assms(8,9)
    by (simp add: ready_def loads_no_capabilities need_def ready_record_def routes_document_def dmerge_def)
qed

lemma remote_ready_record:
  "topic_ok t1 \<Longrightarrow> topic_ok t2 \<Longrightarrow> remote_ready_ok own (ready_record own ''desktop'' t1 t2)"
  by (simp add: remote_ready_ok_def ready_record_def ready_fields_def is_topic_def)

section \<open>Both sides\<close>

text \<open>
  C34. Pairing two desktops completes: when the user of the responder confirms the candidate, the
  responder's \<^verbatim>\<open>ready\<close> record is accepted by the initiator, whose enrollment has not lapsed, and
  the acknowledgment it sends is accepted by the responder. Afterwards each side holds the other
  as an active device under the pin it was enrolled with, and both hold the same two topics.
\<close>
theorem enrollment_completes:
  assumes lib: "cipher_ok lib" and nonces: "length nonce = 12" "length nonce' = 12" and topics: "topic_ok t1" "topic_ok t2"
    and a: "confirm lib now t1 t2 nonce (reg_id b) (hex_text (peer_pin x)) a = Inr a1"
    and x: "find_peer (reg_id b) a = Some x" "peer_role x = ''desktop''"
    and y: "is_uuid (reg_id a)" "find_peer (reg_id a) b = Some y" "peer_state y = OutboundPending"
      "peer_role y = ''desktop''" "lapsed now' y = Inr False"
  shows "\<exists>rec b1 a2. ready lib (reg_id b) (peer_pin x) ''desktop'' a1 = Inr rec \<and>
    accept_remote lib now' later nonce' (reg_id a) (peer_pin y) rec b = Inr b1 \<and>
    acknowledge later' (reg_id b) (peer_pin x) ''desktop'' (ack_record (reg_id b) rec) a1 = Inr a2 \<and>
    trust_of (reg_id b) a2 = Some (Active, peer_pin x) \<and> trust_of (reg_id a) b1 = Some (Active, peer_pin y) \<and>
    ready lib (reg_id a) (peer_pin y) ''desktop'' b1 = Inr (ready_record (reg_id a) ''desktop'' t1 t2) \<and>
    rec = ready_record (reg_id b) ''desktop'' t1 t2"
proof -
  let ?B = "reg_id b" and ?A = "reg_id a"
  let ?rec = "ready_record ?B ''desktop'' t1 t2"
  let ?f = "\<lambda>y. y\<lparr>peer_state := Confirmed, peer_revision := 1, peer_expires := None,
    peer_routes := Some (protect_routes lib nonce ?B (routes_document t1 t2)), peer_capabilities := ''[]''\<rparr>"
  let ?g = "\<lambda>z. z\<lparr>peer_state := Active, peer_revision := 1, peer_expires := None,
    peer_routes := Some (protect_routes lib nonce' ?A (routes_document t1 t2)), peer_capabilities := ''[]'',
    peer_last_seen := Some later\<rparr>"
  let ?h = "\<lambda>z. z\<lparr>peer_state := Active, peer_last_seen := Some later'\<rparr>"
  have keep: "keeps_identity ?f" "keeps_identity ?g" "keeps_identity ?h" by auto
  have B: "is_uuid ?B" and a1: "a1 = update_peer ?B ?f a"
    using a x unfolding confirm_eq by (auto simp: Let_def)
  then have fx: "find_peer ?B a1 = Some (?f x)" using x(1) keep(1) by (simp add: row_simps)
  have rec: "ready lib ?B (peer_pin x) ''desktop'' a1 = Inr ?rec"
    using ready_trusted [OF lib nonces(1) topics B fx] x(2) by (simp add: trusted_def)
  let ?b1 = "update_peer ?A ?g b"
  have b1: "accept_remote lib now' later nonce' ?A (peer_pin y) ?rec b = Inr ?b1"
    unfolding accept_remote_eq
    using remote_ready_record [OF topics, of ?B] y by (simp add: ready_record_def str_of_def)
  have gy: "find_peer ?A ?b1 = Some (?g y)" using y(2) keep(2) by (simp add: row_simps)
  have ready: "ready lib ?A (peer_pin y) ''desktop'' ?b1 = Inr (ready_record ?A ''desktop'' t1 t2)"
    using ready_trusted [OF lib nonces(2) topics y(1) gy] y(4) by (simp add: trusted_def)
  let ?a2 = "update_peer ?B ?h a1"
  have a2: "acknowledge later' ?B (peer_pin x) ''desktop'' (ack_record ?B ?rec) a1 = Inr ?a2"
    unfolding acknowledge_eq using B fx x(2)
    by (simp add: trusted_def ack_record_def ready_record_def is_int_def)
  have "trust_of ?B ?a2 = Some (Active, peer_pin x)" "trust_of ?A ?b1 = Some (Active, peer_pin y)"
    using fx y(2) keep by (simp_all add: trust_of_update)
  with rec b1 a2 ready show ?thesis by blast
qed

end
