(* ===== verification/Actions.thy ===== *)
theory Actions
  imports Registry
begin

text \<open>
  Stateful code that may raise: an action returns a result or an exception together with the state it
  leaves behind, since an object keeps what a call had changed before it raised. The assertions of
  this theory carry the proofs about sessions and about the mailbox.
\<close>

section \<open>Actions\<close>

type_synonym ('s, 'a) action = "'s \<Rightarrow> (registry_error + 'a) \<times> 's"

definition run_then :: "('s, 'a) action \<Rightarrow> ('a \<Rightarrow> ('s, 'b) action) \<Rightarrow> ('s, 'b) action" where
  "run_then m k = (\<lambda>s. case m s of (Inl e, s1) \<Rightarrow> (Inl e, s1) | (Inr x, s1) \<Rightarrow> k x s1)"

definition raise_unless :: "bool \<Rightarrow> string \<Rightarrow> ('s, unit) action" where
  "raise_unless c code = (\<lambda>s. (need c (PairingError code), s))"

definition query :: "('s \<Rightarrow> registry_error + 'a) \<Rightarrow> ('s, 'a) action" where
  "query f = (\<lambda>s. (f s, s))"

definition change :: "('s \<Rightarrow> 's) \<Rightarrow> ('s, unit) action" where
  "change f = (\<lambda>s. (Inr (), f s))"

fun for_each :: "('x \<Rightarrow> ('s, unit) action) \<Rightarrow> 'x list \<Rightarrow> ('s, unit) action" where
  "for_each f [] = (\<lambda>s. (Inr (), s))"
| "for_each f (x # xs) = run_then (f x) (\<lambda>_. for_each f xs)"

definition returns :: "'a \<Rightarrow> ('s, 'a) action" where
  "returns x = (\<lambda>s. (Inr x, s))"

fun collect :: "('x \<Rightarrow> ('s, 'a) action) \<Rightarrow> 'x list \<Rightarrow> ('s, 'a list) action" where
  "collect f [] = returns []"
| "collect f (x # xs) = run_then (f x) (\<lambda>y. run_then (collect f xs) (\<lambda>ys. returns (y # ys)))"

section \<open>Assertions about actions\<close>

text \<open>From a state with \<open>P\<close> an action ends in \<open>Q\<close> of its result, or raises and leaves \<open>E\<close>.\<close>
definition spec :: "('s \<Rightarrow> bool) \<Rightarrow> ('s, 'a) action \<Rightarrow> ('a \<Rightarrow> 's \<Rightarrow> bool) \<Rightarrow> ('s \<Rightarrow> bool) \<Rightarrow> bool" where
  "spec P m Q E \<longleftrightarrow> (\<forall>s. P s \<longrightarrow> (case m s of (Inl e, s1) \<Rightarrow> E s1 | (Inr x, s1) \<Rightarrow> Q x s1))"

lemma spec_run_then: "spec P m Q E \<Longrightarrow> (\<And>x. spec (Q x) (k x) R E) \<Longrightarrow> spec P (run_then m k) R E"
  unfolding spec_def run_then_def by (fastforce split: prod.splits sum.splits)

lemma spec_query: "(\<And>s. P s \<Longrightarrow> E s) \<Longrightarrow> (\<And>s x. P s \<Longrightarrow> f s = Inr x \<Longrightarrow> Q x s) \<Longrightarrow> spec P (query f) Q E"
  by (auto simp: spec_def query_def split: sum.splits)

lemma spec_change: "(\<And>s. P s \<Longrightarrow> Q () (f s)) \<Longrightarrow> spec P (change f) Q E"
  by (simp add: spec_def change_def)

lemma spec_weaken: "spec P m Q E \<Longrightarrow> (\<And>s. P' s \<Longrightarrow> P s) \<Longrightarrow> (\<And>x s. Q x s \<Longrightarrow> Q' x s) \<Longrightarrow> (\<And>s. E s \<Longrightarrow> E' s) \<Longrightarrow> spec P' m Q' E'"
  unfolding spec_def by (fastforce split: prod.splits sum.splits)

lemma spec_for_each:
  "(\<And>x. x \<in> set xs \<Longrightarrow> spec P (f x) (\<lambda>_. P) E) \<Longrightarrow> spec P (for_each f xs) (\<lambda>_. P) E"
proof (induction xs)
  case Nil
  then show ?case by (simp add: spec_def)
next
  case (Cons x xs)
  then show ?case by (auto intro!: spec_run_then [where Q = "\<lambda>_. P"])
qed

lemma spec_use: "spec P m Q E \<Longrightarrow> P s \<Longrightarrow> (\<And>x s1. Q x s1 \<Longrightarrow> R s1) \<Longrightarrow> (\<And>s1. E s1 \<Longrightarrow> R s1) \<Longrightarrow> R (snd (m s))"
  unfolding spec_def by (cases "m s"; cases "fst (m s)") fastforce+

lemma spec_snd: "spec P m (\<lambda>_. R) R \<longleftrightarrow> (\<forall>s. P s \<longrightarrow> R (snd (m s)))"
  unfolding spec_def by (metis (no_types, lifting) case_prod_unfold sum.case_eq_if)

end
