(* ===== verification/Device_Session.thy ===== *)
theory Device_Session
  imports Enrollment Actions
begin

text \<open>
  \<^verbatim>\<open>devices/service.py\<close>: the responder's side of one connection (\<^verbatim>\<open>DeviceSession\<close>). TLS is a parameter: a delivery carries the plaintext
  that it yields for the received bytes and the pin of the peer's certificate.
\<close>

section \<open>Actions on a session\<close>

datatype stage = BindingStage | PendingStage | AckStage | ActiveStage

record session =
  ss_id :: string
  ss_mode :: string
  ss_generations :: "(string, string) dict"
  ss_frames :: ordered_frames
  ss_records :: records
  ss_pin :: "string option"
  ss_peer :: "string option"
  ss_role :: "string option"
  ss_stage :: stage
  ss_deadline :: rat
  ss_index :: int
  ss_closed :: bool
  ss_sequence :: json
  ss_registry :: registry
  ss_invitation :: "invitation option"
  ss_sent :: "string list"
  ss_handled :: "(string \<times> (string \<times> json) list) list"

text \<open>
  \<open>ss_registry\<close> and \<open>ss_invitation\<close> are the shared objects, locked for the whole call;
  \<open>ss_sent\<close> collects what is given to \<^verbatim>\<open>tls.send\<close> and \<open>ss_handled\<close> the calls of
  \<^verbatim>\<open>application.handle\<close>.
\<close>

type_synonym 'a session_action = "(session, 'a) action"

text \<open>
  What one call reads from outside: clocks, what TLS yields for the bytes (the chunks of plaintext, and
  the exception that ends them, if any) and \<^verbatim>\<open>application.handle\<close>.
\<close>
record session_env =
  se_now :: rat
  se_accept :: rat
  se_later :: rat
  se_clock :: rat
  se_list :: "nat \<Rightarrow> rat"
  se_claim :: claim_env
  se_tls :: "string \<Rightarrow> string list \<times> registry_error option"
  se_pin :: "string option"
  se_application :: "(string \<Rightarrow> (string \<times> json) list \<Rightarrow> registry_error + unit) option"
  se_pending :: "string \<Rightarrow> json \<Rightarrow> registry_error + (string \<times> json) list list"
  se_drain :: string

definition send_record :: "device_lib \<Rightarrow> (string \<times> json) list \<Rightarrow> unit session_action" where
  "send_record lib rec =
     run_then (query (\<lambda>s. lift_frame (encode_record (lib_io lib) (JObj rec)))) (\<lambda>data.
       change (\<lambda>s. s\<lparr>ss_sent := ss_sent s @ [data]\<rparr>))"

definition check_session_generation :: "string \<Rightarrow> unit session_action" where
  "check_session_generation p = query (\<lambda>s. check_generation p (dget (ss_generations s) p) (ss_registry s))"

definition authority :: "unit session_action" where
  "authority =
     (\<lambda>s. case (ss_peer s, ss_role s) of
        (Some p, Some role) \<Rightarrow>
          if ss_stage s = PendingStage then (Inr (), s)
          else run_then (check_session_generation p) (\<lambda>_.
            query (\<lambda>s. authenticate p (case ss_pin s of None \<Rightarrow> [] | Some pin \<Rightarrow> pin) role (ss_registry s))) s
      | _ \<Rightarrow> (Inr (), s))"

text \<open>\<^verbatim>\<open>_ready\<close>; the assertions at its head hold at both calls.\<close>
definition send_ready :: "device_lib \<Rightarrow> session_env \<Rightarrow> string \<Rightarrow> string \<Rightarrow> string \<Rightarrow> unit session_action" where
  "send_ready lib env p pin role =
     run_then (query (\<lambda>s. ready lib p pin role (ss_registry s))) (\<lambda>rec.
     run_then (send_record lib rec) (\<lambda>_.
       change (\<lambda>s. s\<lparr>ss_stage := AckStage, ss_deadline := se_later env + 30\<rparr>)))"

definition session_claim :: "device_lib \<Rightarrow> session_env \<Rightarrow> (string \<times> json) list \<Rightarrow> string \<Rightarrow> (string \<times> string) session_action" where
  "session_claim lib env rec pin =
     (\<lambda>s. case claim lib (se_claim env) rec (ss_id s) pin (ss_invitation s, ss_registry s) of
        (res, current, r) \<Rightarrow> (res, s\<lparr>ss_invitation := current, ss_registry := r\<rparr>))"

text \<open>\<^verbatim>\<open>next(p["expires_at"] for p in self.registry.list() if p["device_id"] == self.peer)\<close>\<close>
definition listed_expiry :: "device_lib \<Rightarrow> session_env \<Rightarrow> string \<Rightarrow> registry \<Rightarrow> registry_error + rat" where
  "listed_expiry lib env p r =
     andThen (list_peers lib (se_list env) r) (\<lambda>rows.
       case find (\<lambda>v. jget v ''device_id'' = Some (JStr p)) rows of
         None \<Rightarrow> Inl (Uncaught ''StopIteration'')
       | Some v \<Rightarrow> (case jget v ''expires_at'' of Some (JFloat q) \<Rightarrow> Inr q | _ \<Rightarrow> Inl (Uncaught ''TypeError'')))"

definition pending_record :: "string \<Rightarrow> rat \<Rightarrow> (string \<times> json) list" where
  "pending_record p expires =
     [(''type'', JStr ''session.pending''), (''device_id'', JStr p), (''expires_at'', JInt (py_int expires))]"

definition bind_pair :: "device_lib \<Rightarrow> session_env \<Rightarrow> (string \<times> json) list \<Rightarrow> string \<Rightarrow> unit session_action" where
  "bind_pair lib env rec pin =
     run_then (session_claim lib env rec pin) (\<lambda>(p, role).
     run_then (change (\<lambda>s. s\<lparr>ss_peer := Some p, ss_role := Some role\<rparr>)) (\<lambda>_.
     run_then (query (\<lambda>s. generation p (ss_registry s))) (\<lambda>gen.
     run_then (change (\<lambda>s. s\<lparr>ss_generations := dset p gen (ss_generations s)\<rparr>)) (\<lambda>_.
     run_then (send_record lib rec) (\<lambda>_.
     run_then (change (\<lambda>s. s\<lparr>ss_stage := PendingStage\<rparr>)) (\<lambda>_.
     run_then (query (\<lambda>s. listed_expiry lib env p (ss_registry s))) (\<lambda>expires.
     run_then (change (\<lambda>s. s\<lparr>ss_deadline := se_later env + max 0 (expires - se_clock env)\<rparr>)) (\<lambda>_.
       send_record lib (pending_record p expires)))))))))"

text \<open>A role that is refused is not recorded: the session is closed with that exception.\<close>
definition bind_resume :: "device_lib \<Rightarrow> session_env \<Rightarrow> (string \<times> json) list \<Rightarrow> string \<Rightarrow> unit session_action" where
  "bind_resume lib env rec pin =
     run_then (query (\<lambda>s. device_id (jget_or JNull (JObj rec) ''initiator_id''))) (\<lambda>p.
     run_then (change (\<lambda>s. s\<lparr>ss_peer := Some p\<rparr>)) (\<lambda>_.
     run_then (query (\<lambda>s. case dget rec ''initiator_role'' of
         Some (JStr role) \<Rightarrow> if role \<in> set roles then Inr role else Inl (PairingError ''invalid_role'')
       | _ \<Rightarrow> Inl (PairingError ''invalid_role''))) (\<lambda>role.
     run_then (change (\<lambda>s. s\<lparr>ss_role := Some role\<rparr>)) (\<lambda>_.
     run_then (query (\<lambda>s. lift_frame (new_binding (ss_id s) ''resume'' p (reg_id (ss_registry s)) role None None))) (\<lambda>b.
     run_then (query (\<lambda>s. lift_frame (verify_binding (lib_io lib) b (JObj rec)))) (\<lambda>_.
     run_then (check_session_generation p) (\<lambda>_.
     run_then (query (\<lambda>s. authenticate p pin role (ss_registry s))) (\<lambda>_.
     run_then (send_record lib rec) (\<lambda>_.
       send_ready lib env p pin role)))))))))"

text \<open>\<^verbatim>\<open>record["payload"]["after_sequence"] or 0\<close>\<close>
definition resumed_sequence :: "(string \<times> json) list \<Rightarrow> registry_error + json" where
  "resumed_sequence rec =
     (case dget rec ''payload'' of
        None \<Rightarrow> Inl (Uncaught ''KeyError'')
      | Some (JObj ms) \<Rightarrow>
          (case dget ms ''after_sequence'' of
             None \<Rightarrow> Inl (Uncaught ''KeyError'')
           | Some v \<Rightarrow> Inr (if truthy v then v else JInt 0))
      | Some _ \<Rightarrow> Inl (Uncaught ''TypeError''))"

text \<open>
  A record of an active session. The application is \<^verbatim>\<open>DeviceApplication.handle\<close>; of the table of
  devices it writes the time of last contact only, which nothing here depends on.
\<close>
definition active_record ::
  "session_env \<Rightarrow> (string \<Rightarrow> (string \<times> json) list \<Rightarrow> registry_error + unit) \<Rightarrow> string \<Rightarrow> (string \<times> json) list \<Rightarrow> unit session_action" where
  "active_record env handle p rec =
     run_then (change (\<lambda>s. s\<lparr>ss_handled := ss_handled s @ [(p, rec)]\<rparr>)) (\<lambda>_.
     run_then (query (\<lambda>s. handle p rec)) (\<lambda>_.
     run_then (if dget rec ''type'' = Some (JStr ''sync.request'')
               then run_then (query (\<lambda>s. resumed_sequence rec)) (\<lambda>n. change (\<lambda>s. s\<lparr>ss_sequence := n\<rparr>))
               else change (\<lambda>s. s)) (\<lambda>_.
       change (\<lambda>s. s\<lparr>ss_deadline := se_later env + 300\<rparr>))))"

definition on_record :: "device_lib \<Rightarrow> session_env \<Rightarrow> json \<Rightarrow> unit session_action" where
  "on_record lib env v =
     (\<lambda>s. let rec = members v in
        case ss_pin s of
          None \<Rightarrow> (Inl (PairingError ''identity_missing''), s)
        | Some pin \<Rightarrow>
            (case (ss_stage s, ss_peer s, ss_role s, se_application env) of
               (BindingStage, _, _, _) \<Rightarrow>
                 if ss_mode s = ''pair'' then bind_pair lib env rec pin s else bind_resume lib env rec pin s
             | (AckStage, Some p, Some role, _) \<Rightarrow>
                 (case acknowledge (se_clock env) p pin role rec (ss_registry s) of
                    Inl e \<Rightarrow> (Inl e, s)
                  | Inr r \<Rightarrow> (Inr (), s\<lparr>ss_registry := r, ss_stage := ActiveStage, ss_deadline := se_later env + 60\<rparr>))
             | (ActiveStage, Some p, _, Some handle) \<Rightarrow>
                 active_record env handle p rec s
             | _ \<Rightarrow> (Inl (PairingError ''application_transport_not_enabled''), s)))"

text \<open>One chunk of plaintext: its records are parsed first and then processed one by one.\<close>
definition on_chunk :: "device_lib \<Rightarrow> session_env \<Rightarrow> string \<Rightarrow> unit session_action" where
  "on_chunk lib env chunk =
     (\<lambda>s. case feed (lib_io lib) chunk (ss_records s) of
        (res, q) \<Rightarrow>
          run_then (query (\<lambda>_. lift_frame res)) (\<lambda>vs. for_each (on_record lib env) vs) (s\<lparr>ss_records := q\<rparr>))"

definition receive_body :: "device_lib \<Rightarrow> session_env \<Rightarrow> string \<Rightarrow> unit session_action" where
  "receive_body lib env raw =
     run_then (\<lambda>s. (need (se_now env < ss_deadline s) (PairingError ''session_timeout''), s)) (\<lambda>_.
     run_then authority (\<lambda>_.
     run_then (\<lambda>s. case accept (lib_io lib) raw (se_accept env) (ss_frames s) of
         (res, q) \<Rightarrow> (lift_frame res, s\<lparr>ss_frames := q\<rparr>)) (\<lambda>ciphertext.
     run_then (change (\<lambda>s. s\<lparr>ss_pin := (case ss_pin s of None \<Rightarrow> se_pin env | Some pin \<Rightarrow> Some pin)\<rparr>)) (\<lambda>_.
     run_then (for_each (on_chunk lib env) (fst (se_tls env ciphertext))) (\<lambda>_.
       query (\<lambda>_. case snd (se_tls env ciphertext) of None \<Rightarrow> Inr () | Some e \<Rightarrow> Inl e))))))"

text \<open>The exceptions that the handler for \<^verbatim>\<open>ValueError\<close> and \<^verbatim>\<open>TypeError\<close> catches; others do not close the session.\<close>
definition closes :: "registry_error \<Rightarrow> bool" where
  "closes e \<longleftrightarrow> (case e of Uncaught k \<Rightarrow> k \<in> {''ValueError'', ''TypeError'', ''JSONDecodeError''} | _ \<Rightarrow> True)"

section \<open>Opening and polling\<close>

definition new_session ::
  "device_lib \<Rightarrow> session_env \<Rightarrow> frame \<Rightarrow> registry \<Rightarrow> invitation option \<Rightarrow> registry_error + session" where
  "new_session lib env first r current =
     andThen (need (frame_direction first = ''initiator_to_responder'' \<and> frame_index first = 0)
       (PairingError ''invalid_first_frame'')) (\<lambda>_.
     andThen (list_peers lib (se_list env) r) (\<lambda>_.
     andThen (each (\<lambda>x. andThen (generation (peer_id x) r) (\<lambda>_. Inr ())) (reg_peers r)) (\<lambda>_.
       Inr \<lparr>ss_id = frame_session first, ss_mode = frame_mode first,
         ss_generations = map (\<lambda>x. (peer_id x, peer_generation x)) (sort_key peer_created (reg_peers r)),
         ss_frames = new_ordered (frame_session first) (frame_mode first) (frame_direction first),
         ss_records = new_records, ss_pin = None, ss_peer = None, ss_role = None, ss_stage = BindingStage,
         ss_deadline = se_later env + 30, ss_index = 0, ss_closed = False, ss_sequence = JInt 0,
         ss_registry = r, ss_invitation = current, ss_sent = [], ss_handled = []\<rparr>)))"

text \<open>\<^verbatim>\<open>for offset in range(0, len(ciphertext), MAX_CHUNK)\<close>\<close>
function cut_frames :: "float_io \<Rightarrow> string \<Rightarrow> string \<Rightarrow> int \<Rightarrow> string \<Rightarrow> frame_error + string list" where
  "cut_frames io session m index data =
     (if data = [] then Inr []
      else
        andThen (encode_frame io \<lparr>frame_session = session, frame_mode = m, frame_direction = ''responder_to_initiator'',
            frame_index = index, frame_body = take max_chunk data\<rparr>) (\<lambda>raw.
        andThen (cut_frames io session m (index + 1) (drop max_chunk data)) (\<lambda>raws. Inr (raw # raws))))"
  by pat_completeness auto
termination
  by (relation "measure (\<lambda>(_, _, _, _, data). length data)") (auto simp: max_chunk_def)

declare cut_frames.simps [simp del]

text \<open>The part of \<^verbatim>\<open>_poll\<close> for a session that waits for the user.\<close>
definition poll_pending :: "device_lib \<Rightarrow> session_env \<Rightarrow> unit session_action" where
  "poll_pending lib env =
     (\<lambda>s. case (ss_stage s, ss_peer s, ss_role s, ss_pin s) of
        (PendingStage, Some p, Some role, Some pin) \<Rightarrow>
          run_then (check_session_generation p) (\<lambda>_.
          run_then (query (\<lambda>s. list_peers lib (se_list env) (ss_registry s))) (\<lambda>rows.
            case find (\<lambda>v. jget v ''device_id'' = Some (JStr p)) rows of
              None \<Rightarrow> raise_unless False ''enrollment_unavailable''
            | Some v \<Rightarrow>
                if jget v ''state'' \<in> {Some (JStr ''expired''), Some (JStr ''revoked'')}
                then raise_unless False ''enrollment_unavailable''
                else if jget v ''state'' = Some (JStr ''confirmed'') then send_ready lib env p pin role
                else change (\<lambda>s. s))) s
      | _ \<Rightarrow> (Inr (), s))"

definition poll_application :: "device_lib \<Rightarrow> session_env \<Rightarrow> unit session_action" where
  "poll_application lib env =
     (\<lambda>s. case (ss_stage s, ss_peer s, se_application env) of
        (ActiveStage, Some p, Some _) \<Rightarrow>
          run_then (query (\<lambda>s. se_pending env p (ss_sequence s))) (\<lambda>responses.
            for_each (\<lambda>rec. run_then (send_record lib rec) (\<lambda>_.
              run_then (query (\<lambda>s. case dget rec ''sequence'' of None \<Rightarrow> Inl (Uncaught ''KeyError'') | Some n \<Rightarrow> Inr n)) (\<lambda>n.
                change (\<lambda>s. s\<lparr>ss_sequence := n\<rparr>)))) responses) s
      | _ \<Rightarrow> (Inr (), s))"

definition poll_body :: "device_lib \<Rightarrow> session_env \<Rightarrow> string list session_action" where
  "poll_body lib env =
     run_then (\<lambda>s. case check_deadline (se_accept env) (ss_frames s) of
         (res, q) \<Rightarrow> (lift_frame res, s\<lparr>ss_frames := q\<rparr>)) (\<lambda>_.
     run_then (\<lambda>s. (need (se_now env < ss_deadline s) (PairingError ''session_timeout''), s)) (\<lambda>_.
     run_then (poll_pending lib env) (\<lambda>_.
     run_then authority (\<lambda>_.
     run_then (poll_application lib env) (\<lambda>_.
     run_then (query (\<lambda>s. lift_frame (cut_frames (lib_io lib) (ss_id s) (ss_mode s) (ss_index s) (se_drain env)))) (\<lambda>raws.
     run_then (change (\<lambda>s. s\<lparr>ss_index := ss_index s + int (length raws)\<rparr>)) (\<lambda>_.
       query (\<lambda>_. Inr raws))))))))"

text \<open>\<^verbatim>\<open>_poll\<close>, whose handler catches \<^verbatim>\<open>ValueError\<close> only\<close>
definition poll :: "device_lib \<Rightarrow> session_env \<Rightarrow> string list session_action" where
  "poll lib env =
     (\<lambda>s. if ss_closed s then (Inl (PairingError ''session_closed''), s)
        else case poll_body lib env s of
          (Inl e, s1) \<Rightarrow> (Inl e, if closes e \<and> e \<noteq> Uncaught ''TypeError'' then s1\<lparr>ss_closed := True\<rparr> else s1)
        | (Inr raws, s1) \<Rightarrow> (Inr raws, s1))"

text \<open>\<^verbatim>\<open>_receive\<close>\<close>
definition receive :: "device_lib \<Rightarrow> session_env \<Rightarrow> string \<Rightarrow> string list session_action" where
  "receive lib env raw =
     (\<lambda>s. if ss_closed s then (Inl (PairingError ''session_closed''), s)
        else case run_then (receive_body lib env raw) (\<lambda>_. poll lib env) s of
          (Inl e, s1) \<Rightarrow> (Inl e, if closes e then s1\<lparr>ss_closed := True\<rparr> else s1)
        | (Inr raws, s1) \<Rightarrow> (Inr raws, s1))"

section \<open>Invariants of a session\<close>

text \<open>The invariant of a session between calls: past the first record, the peer, its role and its pin are known.\<close>
definition known :: "session \<Rightarrow> bool" where
  "known s \<longleftrightarrow> ss_peer s \<noteq> None \<and> ss_role s \<noteq> None \<and> ss_pin s \<noteq> None"

definition session_ok :: "session \<Rightarrow> bool" where
  "session_ok s \<longleftrightarrow> (ss_stage s \<noteq> BindingStage \<longrightarrow> known s)"

text \<open>The session may talk to the application: its peer authenticates with the pin of the connection.\<close>
definition authorised :: "session \<Rightarrow> bool" where
  "authorised s \<longleftrightarrow>
     (\<exists>p role pin. ss_peer s = Some p \<and> ss_role s = Some role \<and> ss_pin s = Some pin \<and>
        authenticate p pin role (ss_registry s) = Inr ())"

text \<open>While a call runs: whatever was given to the application came from the authorised peer of an active session.\<close>
definition guarded :: "session \<Rightarrow> bool" where
  "guarded s \<longleftrightarrow> session_ok s \<and> (ss_stage s = ActiveStage \<longrightarrow> authorised s) \<and>
     (ss_handled s \<noteq> [] \<longrightarrow> ss_stage s = ActiveStage) \<and>
     list_all (\<lambda>(p, rec). ss_peer s = Some p) (ss_handled s)"

text \<open>The first record is being processed.\<close>
definition fresh :: "session \<Rightarrow> bool" where
  "fresh s \<longleftrightarrow> ss_stage s = BindingStage \<and> ss_pin s \<noteq> None \<and> ss_handled s = []"

lemma fresh_guarded: "fresh s \<Longrightarrow> guarded s"
  by (simp add: fresh_def guarded_def session_ok_def)

lemma known_guarded: "known s \<Longrightarrow> ss_handled s = [] \<Longrightarrow> ss_stage s \<noteq> ActiveStage \<Longrightarrow> guarded s"
  by (simp add: guarded_def session_ok_def)

abbreviation waiting :: "session \<Rightarrow> bool" where
  "waiting s \<equiv> known s \<and> ss_handled s = [] \<and> ss_stage s \<noteq> ActiveStage"

lemma spec_send_record:
  assumes "\<And>s d. P s \<Longrightarrow> P (s\<lparr>ss_sent := d\<rparr>)" and "\<And>s. P s \<Longrightarrow> E s"
  shows "spec P (send_record lib rec) (\<lambda>_. P) E"
  unfolding send_record_def
  by (rule spec_run_then [where Q = "\<lambda>_. P"]) (auto intro: spec_query spec_change assms)

lemma spec_send_ready:
  "spec waiting (send_ready lib env p pin role) (\<lambda>_. waiting) guarded"
  unfolding send_ready_def
  by (rule spec_run_then [where Q = "\<lambda>_. waiting"] spec_query spec_change spec_send_record | simp add: known_guarded known_def)+

lemma spec_generation_check: "(\<And>s. P s \<Longrightarrow> E s) \<Longrightarrow> spec P (check_session_generation p) (\<lambda>_. P) E"
  unfolding check_session_generation_def by (rule spec_query)

lemma spec_bind_pair: "spec fresh (bind_pair lib env rec pin) (\<lambda>_. waiting) guarded"
  unfolding bind_pair_def
proof (rule spec_run_then [where Q = "\<lambda>_. fresh"])
  show "spec fresh (session_claim lib env rec pin) (\<lambda>_. fresh) guarded"
    unfolding spec_def session_claim_def
    by (auto split: prod.splits sum.splits intro!: fresh_guarded) (simp_all add: fresh_def)
next
  fix x :: "string \<times> string"
  obtain p role where x: "x = (p, role)" by (cases x)
  show "spec fresh (case x of (p, role) \<Rightarrow>
     run_then (change (\<lambda>s. s\<lparr>ss_peer := Some p, ss_role := Some role\<rparr>)) (\<lambda>_.
     run_then (query (\<lambda>s. generation p (ss_registry s))) (\<lambda>gen.
     run_then (change (\<lambda>s. s\<lparr>ss_generations := dset p gen (ss_generations s)\<rparr>)) (\<lambda>_.
     run_then (send_record lib rec) (\<lambda>_.
     run_then (change (\<lambda>s. s\<lparr>ss_stage := PendingStage\<rparr>)) (\<lambda>_.
     run_then (query (\<lambda>s. listed_expiry lib env p (ss_registry s))) (\<lambda>expires.
     run_then (change (\<lambda>s. s\<lparr>ss_deadline := se_later env + max 0 (expires - se_clock env)\<rparr>)) (\<lambda>_.
       send_record lib (pending_record p expires))))))))) (\<lambda>_. waiting) guarded"
    unfolding x prod.case
    by (rule spec_run_then [where Q = "\<lambda>_. waiting"] spec_query spec_change spec_send_record
        | simp add: known_guarded known_def fresh_def)+
qed

lemma spec_bind_resume: "spec fresh (bind_resume lib env rec pin) (\<lambda>_. waiting) guarded"
proof -
  let ?peer = "\<lambda>s. fresh s \<and> ss_peer s \<noteq> None"
  have tail: "spec waiting
     (run_then (query (\<lambda>s. lift_frame (new_binding (ss_id s) ''resume'' p (reg_id (ss_registry s)) role None None))) (\<lambda>b.
     run_then (query (\<lambda>s. lift_frame (verify_binding (lib_io lib) b (JObj rec)))) (\<lambda>_.
     run_then (check_session_generation p) (\<lambda>_.
     run_then (query (\<lambda>s. authenticate p pin role (ss_registry s))) (\<lambda>_.
     run_then (send_record lib rec) (\<lambda>_. send_ready lib env p pin role)))))) (\<lambda>_. waiting) guarded" for p role
    by (rule spec_run_then [where Q = "\<lambda>_. waiting"] spec_query spec_generation_check spec_send_record spec_send_ready
        | simp add: known_guarded known_def)+
  have head: "spec ?peer
     (run_then (query f) (\<lambda>role. run_then (change (\<lambda>s. s\<lparr>ss_role := Some role\<rparr>)) (\<lambda>_.
       run_then (query (\<lambda>s. lift_frame (new_binding (ss_id s) ''resume'' p (reg_id (ss_registry s)) role None None))) (\<lambda>b.
       run_then (query (\<lambda>s. lift_frame (verify_binding (lib_io lib) b (JObj rec)))) (\<lambda>_.
       run_then (check_session_generation p) (\<lambda>_.
       run_then (query (\<lambda>s. authenticate p pin role (ss_registry s))) (\<lambda>_.
       run_then (send_record lib rec) (\<lambda>_. send_ready lib env p pin role)))))))) (\<lambda>_. waiting) guarded" for f p
    by (rule spec_run_then [where Q = "\<lambda>_. ?peer"], rule spec_query, simp add: fresh_guarded, simp,
        rule spec_run_then [where Q = "\<lambda>_. waiting"], rule spec_change, simp add: fresh_def known_def, rule tail)
  show ?thesis
    unfolding bind_resume_def
    by (rule spec_run_then [where Q = "\<lambda>_. fresh"], rule spec_query, erule fresh_guarded, assumption,
        rule spec_run_then [where Q = "\<lambda>_. ?peer"], rule spec_change, simp add: fresh_def, rule head)
qed

lemma acknowledge_authenticates:
  "acknowledge now p pin role rec r = Inr r' \<Longrightarrow> authenticate p pin role r' = Inr ()"
  unfolding acknowledge_eq by (auto simp: row_simps keeps_identity_def trusted_def)

lemma spec_acknowledge:
  assumes "s0 = (s :: session)" and "guarded s" and "ss_stage s = AckStage" and "ss_peer s = Some p"
    and "ss_role s = Some role" and "ss_pin s = Some pin" and "acknowledge now p pin role rec (ss_registry s) = Inr r"
  shows "guarded (s\<lparr>ss_registry := r, ss_stage := ActiveStage, ss_deadline := d\<rparr>)"
  using assms acknowledge_authenticates [OF assms(7)]
  by (auto simp: guarded_def session_ok_def known_def authorised_def)

lemma guarded_handled:
  "guarded s \<Longrightarrow> ss_stage s = ActiveStage \<Longrightarrow> ss_peer s = Some p \<Longrightarrow>
   guarded (s\<lparr>ss_handled := ss_handled s @ [(p, rec)]\<rparr>)"
  by (simp add: guarded_def session_ok_def known_def authorised_def)

lemma guarded_fields [simp]:
  "guarded (s\<lparr>ss_deadline := d\<rparr>) = guarded s" "guarded (s\<lparr>ss_sequence := n\<rparr>) = guarded s"
  "guarded (s\<lparr>ss_records := q\<rparr>) = guarded s" "guarded (s\<lparr>ss_frames := f\<rparr>) = guarded s"
  "guarded (s\<lparr>ss_sent := ds\<rparr>) = guarded s" "guarded (s\<lparr>ss_index := i\<rparr>) = guarded s"
  "guarded (s\<lparr>ss_closed := b\<rparr>) = guarded s"
  by (simp_all add: guarded_def session_ok_def known_def authorised_def)

lemma guarded_fresh:
  "guarded s \<Longrightarrow> ss_stage s = BindingStage \<Longrightarrow> ss_pin s \<noteq> None \<Longrightarrow> fresh s"
  by (auto simp: guarded_def fresh_def)

lemma spec_active_record:
  "spec (\<lambda>s. guarded s \<and> ss_stage s = ActiveStage \<and> ss_peer s = Some p) (active_record env handle p rec) (\<lambda>_. guarded) guarded"
  unfolding active_record_def
  by (cases "dget rec ''type'' = Some (JStr ''sync.request'')")
    (rule spec_run_then [where Q = "\<lambda>_. guarded"] spec_query spec_change
      | simp only: if_True if_False simp_thms | simp add: guarded_handled)+

lemma on_record_guarded:
  assumes g: "guarded s"
  shows "guarded (snd (on_record lib env v s))"
proof (cases "ss_pin s")
  case None
  with g show ?thesis by (simp add: on_record_def)
next
  case pin: (Some pin)
  show ?thesis
  proof (cases "ss_stage s")
    case BindingStage
    then have "fresh s" using g pin by (simp add: guarded_fresh)
    then have "guarded (snd (bind_pair lib env rec pin s))" "guarded (snd (bind_resume lib env rec pin s))" for rec
      by (auto intro: spec_use [OF spec_bind_pair] spec_use [OF spec_bind_resume] known_guarded)
    with BindingStage pin show ?thesis by (simp add: on_record_def Let_def)
  next
    case AckStage
    with g pin show ?thesis
      by (auto simp: on_record_def Let_def spec_acknowledge [OF refl] simp del: guarded_fields split: option.splits sum.splits)
  next
    case ActiveStage
    then have "guarded (snd (active_record env handle p rec s))" if "ss_peer s = Some p" for handle p rec
      using g that by (auto intro: spec_use [OF spec_active_record])
    with ActiveStage g pin show ?thesis by (auto simp: on_record_def Let_def split: option.splits)
  next
    case PendingStage
    with g pin show ?thesis by (simp add: on_record_def Let_def)
  qed
qed

lemma spec_on_record: "spec guarded (on_record lib env v) (\<lambda>_. guarded) guarded"
  by (simp add: spec_snd on_record_guarded)

lemma spec_on_chunk: "spec guarded (on_chunk lib env chunk) (\<lambda>_. guarded) guarded"
proof -
  have "spec guarded (run_then (query (\<lambda>_. lift_frame res)) (\<lambda>vs. for_each (on_record lib env) vs)) (\<lambda>_. guarded) guarded" for res
    by (rule spec_run_then [where Q = "\<lambda>_. guarded"]) (auto intro: spec_query spec_for_each spec_on_record)
  then show ?thesis unfolding spec_snd on_chunk_def by (auto split: prod.split)
qed

text \<open>Whatever a call hands to the application comes from the authorised peer.\<close>
definition safe :: "session \<Rightarrow> bool" where
  "safe s \<longleftrightarrow> session_ok s \<and> (ss_handled s \<noteq> [] \<longrightarrow> ss_stage s = ActiveStage \<and> authorised s) \<and>
     list_all (\<lambda>(p, rec). ss_peer s = Some p) (ss_handled s)"

definition idle :: "session \<Rightarrow> bool" where
  "idle s \<longleftrightarrow> session_ok s \<and> ss_handled s = []"

lemma guarded_safe: "guarded s \<Longrightarrow> safe s"
  by (auto simp: guarded_def safe_def)

lemma idle_safe: "idle s \<Longrightarrow> safe s"
  by (simp add: idle_def safe_def)

lemma spec_authority: "spec idle authority (\<lambda>_. guarded) safe"
  unfolding spec_def
  by (auto simp: authority_def run_then_def query_def check_session_generation_def idle_safe
      split: option.splits sum.splits)
     (auto simp: idle_def guarded_def session_ok_def known_def authorised_def)

lemma spec_receive_body: "spec idle (receive_body lib env raw) (\<lambda>_. guarded) safe"
proof -
  have tls: "spec guarded (run_then (for_each (on_chunk lib env) chunks) (\<lambda>_. query f)) (\<lambda>_. guarded) safe" for chunks f
    by (rule spec_run_then [where Q = "\<lambda>_. guarded"])
      (auto intro: spec_query guarded_safe spec_weaken [OF spec_for_each [OF spec_on_chunk]])
  have pin: "spec guarded (change (\<lambda>s. s\<lparr>ss_pin := (case ss_pin s of None \<Rightarrow> se_pin env | Some pin \<Rightarrow> Some pin)\<rparr>)) (\<lambda>_. guarded) safe"
    by (rule spec_change) (auto simp: guarded_def session_ok_def known_def authorised_def split: option.split)
  have frames: "spec guarded (\<lambda>s. case accept (lib_io lib) raw (se_accept env) (ss_frames s) of
         (res, q) \<Rightarrow> (lift_frame res, s\<lparr>ss_frames := q\<rparr>)) (\<lambda>_. guarded) safe"
    unfolding spec_def by (auto split: prod.splits sum.splits intro: guarded_safe)
  have deadline: "spec idle (\<lambda>s. (need (c s) e, s)) (\<lambda>_. idle) safe" for c e
    by (auto simp: spec_def need_def idle_safe)
  show ?thesis
    unfolding receive_body_def
    by (rule spec_run_then [OF deadline] spec_run_then [OF spec_authority] spec_run_then [OF frames] spec_run_then [OF pin] tls)+
qed

section \<open>Polling keeps what it may not change\<close>

text \<open>
  A predicate that does not look at what polling changes: the reassembly of frames, what was sent, the
  position in the outbox, the numbering of frames, the deadline, and the step from pending to acknowledged.
\<close>
locale poll_invariant =
  fixes P :: "session \<Rightarrow> bool"
  assumes frames: "P s \<Longrightarrow> P (s\<lparr>ss_frames := f\<rparr>)"
    and sent: "P s \<Longrightarrow> P (s\<lparr>ss_sent := ds\<rparr>)"
    and sequence: "P s \<Longrightarrow> P (s\<lparr>ss_sequence := n\<rparr>)"
    and index: "P s \<Longrightarrow> P (s\<lparr>ss_index := i\<rparr>)"
    and closed: "P s \<Longrightarrow> P (s\<lparr>ss_closed := c\<rparr>)"
    and confirmed: "P s \<Longrightarrow> ss_stage s = PendingStage \<Longrightarrow> P (s\<lparr>ss_stage := AckStage, ss_deadline := d\<rparr>)"
begin

lemma ready_step:
  "spec (\<lambda>s. P s \<and> ss_stage s = PendingStage) (send_ready lib env p pin role) (\<lambda>_. P) P"
  unfolding send_ready_def
  by (rule spec_run_then [where Q = "\<lambda>_ s. P s \<and> ss_stage s = PendingStage"] spec_query spec_change spec_send_record
      | simp add: sent confirmed)+

lemma pending_step: "P s \<Longrightarrow> P (snd (poll_pending lib env s))"
proof -
  let ?Q = "\<lambda>s. P s \<and> ss_stage s = PendingStage"
  have found: "spec ?Q (case v of None \<Rightarrow> raise_unless False ''enrollment_unavailable''
            | Some v \<Rightarrow>
                if jget v ''state'' \<in> {Some (JStr ''expired''), Some (JStr ''revoked'')}
                then raise_unless False ''enrollment_unavailable''
                else if jget v ''state'' = Some (JStr ''confirmed'') then send_ready lib env p pin role
                else change (\<lambda>s. s)) (\<lambda>_. P) P" for p pin role v
    using ready_step [of lib env p pin role]
    by (auto split: option.split simp: spec_def raise_unless_def need_def change_def)
  show "P (snd (poll_pending lib env s))" if "P s"
    unfolding poll_pending_def using that
    by (auto split: option.split stage.split intro!: spec_use [where P = ?Q and Q = "\<lambda>_. P" and E = P]
        spec_run_then [where Q = "\<lambda>_. ?Q"] spec_generation_check spec_query found)
qed

lemma application_step: "P s \<Longrightarrow> P (snd (poll_application lib env s))"
  unfolding poll_application_def
  by (auto split: option.split stage.split intro!: spec_use [where P = P and Q = "\<lambda>_. P" and E = P]
      spec_run_then [where Q = "\<lambda>_. P"] spec_query spec_for_each spec_send_record spec_change sent sequence)

lemma authority_step: "snd (authority s) = s"
  by (auto simp: authority_def run_then_def query_def check_session_generation_def split: option.splits sum.splits)

lemma body_step: "spec P (poll_body lib env) (\<lambda>_. P) P"
  unfolding poll_body_def
  by (intro spec_run_then [where Q = "\<lambda>_. P"] spec_query spec_change index)
    (auto simp: spec_snd pending_step application_step authority_step frames split: prod.split)

lemma poll_step: "P s \<Longrightarrow> P (snd (poll lib env s))"
  using body_step [of lib env] unfolding spec_def poll_def
  by (fastforce split: prod.splits sum.splits intro: closed)

end

interpretation guarded_poll: poll_invariant guarded
  by unfold_locales (auto simp: guarded_def session_ok_def known_def authorised_def)

interpretation idle_poll: poll_invariant idle
  by unfold_locales (auto simp: idle_def session_ok_def known_def)

interpretation safe_poll: poll_invariant safe
  by unfold_locales (auto simp: safe_def session_ok_def known_def authorised_def)

lemma receive_safe: "idle s \<Longrightarrow> safe (snd (receive lib env raw s))"
proof -
  assume s: "idle s"
  have "spec idle (run_then (receive_body lib env raw) (\<lambda>_. poll lib env)) (\<lambda>_. safe) safe"
    by (rule spec_run_then [OF spec_receive_body]) (simp add: spec_snd guarded_safe guarded_poll.poll_step)
  then show ?thesis
    using s idle_safe [OF s] safe_poll.closed unfolding spec_def receive_def
    by (fastforce split: prod.splits sum.splits)
qed

section \<open>Only trusted devices reach the application\<close>

text \<open>
  The life of a session: calls of \<^verbatim>\<open>receive\<close> and \<^verbatim>\<open>poll\<close>, and between them whatever other sessions and the
  user do to the shared registry and invitation.
\<close>
inductive session_reachable :: "device_lib \<Rightarrow> session \<Rightarrow> bool" for lib where
  opened: "new_session lib env first r current = Inr s \<Longrightarrow> session_reachable lib s"
| received: "session_reachable lib s \<Longrightarrow> session_reachable lib (snd (receive lib env raw (s\<lparr>ss_handled := []\<rparr>)))"
| polled: "session_reachable lib s \<Longrightarrow> session_reachable lib (snd (poll lib env (s\<lparr>ss_handled := []\<rparr>)))"
| elsewhere: "session_reachable lib s \<Longrightarrow> session_reachable lib (s\<lparr>ss_registry := r, ss_invitation := current\<rparr>)"
| ended: "session_reachable lib s \<Longrightarrow> session_reachable lib (s\<lparr>ss_closed := True\<rparr>)"

lemma reachable_session_ok: "session_reachable lib s \<Longrightarrow> session_ok s"
proof (induction rule: session_reachable.induct)
  case (opened env first r current s)
  then show ?case by (auto simp: new_session_def andThen_eq_Inr session_ok_def)
next
  case (received s env raw)
  then have "idle (s\<lparr>ss_handled := []\<rparr>)" by (simp add: idle_def session_ok_def known_def)
  then show ?case using receive_safe by (simp add: safe_def)
next
  case (polled s env)
  then have "idle (s\<lparr>ss_handled := []\<rparr>)" by (simp add: idle_def session_ok_def known_def)
  then show ?case using idle_poll.poll_step by (simp add: idle_def)
qed (simp_all add: session_ok_def known_def)

lemma reachable_idle: "session_reachable lib s \<Longrightarrow> idle (s\<lparr>ss_handled := []\<rparr>)"
  using reachable_session_ok by (force simp: idle_def session_ok_def known_def)

text \<open>
  C13. Whatever happens on the wire and in the registry, a record reaches \<^verbatim>\<open>application.handle\<close> only in an
  active session, in the name of the one device the session is bound to, and while that device is
  confirmed in the registry with the role of the session and with the pin of the TLS connection.
\<close>
theorem application_only_for_trusted:
  assumes "session_reachable lib s"
    and "receive lib env raw (s\<lparr>ss_handled := []\<rparr>) = (res, s1)" and "(p, rec) \<in> set (ss_handled s1)"
  shows "ss_stage s1 = ActiveStage \<and> ss_peer s1 = Some p \<and>
    (\<exists>role pin. ss_role s1 = Some role \<and> ss_pin s1 = Some pin \<and> authenticate p pin role (ss_registry s1) = Inr ())"
proof -
  have "safe s1" using receive_safe [OF reachable_idle [OF assms(1)]] assms(2) by (metis snd_conv)
  with assms(3) show ?thesis by (auto simp: safe_def authorised_def list_all_iff)
qed

lemma revoked_refused:
  assumes "ss_stage s \<notin> {BindingStage, PendingStage}" and "ss_peer s = Some p" and "ss_role s = Some role"
    and "find_peer p (ss_registry s) = Some x" and "peer_state x = Revoked"
  shows "\<exists>code. authority s = (Inl (PairingError code), s)"
  using assms
  by (auto simp: authority_def run_then_def query_def check_session_generation_def check_generation_def generation_def
      authenticate_def peer_row_def device_id_def andThen_def need_def trusted_def split: option.splits sum.splits)


end
