(* ===== verification/Device_Sample.thy ===== *)
theory Device_Sample
  imports Enrollment
begin

text \<open>
  Two desktops that enroll with each other, as concrete states: they show that the hypotheses of
  the device theorems can hold. The cipher of the sample is the identity.
\<close>

definition sample_lib :: device_lib where
  "sample_lib = \<lparr>lib_io = no_floats, lib_printable = (\<lambda>c. 32 \<le> c), lib_control = (\<lambda>c. c < 32),
     lib_urlsplit = (\<lambda>s. Some \<lparr>url_scheme = ''https'', url_hostname = ''relay.invalid'', url_username = [], url_password = [],
       url_path = [], url_query = [], url_fragment = [], url_port = None\<rparr>),
     lib_sha256 = (\<lambda>s. ''c0''),
     lib_address = (\<lambda>s. Some \<lparr>is_private = True, is_loopback = False, is_unspecified = False, is_multicast = False\<rparr>),
     lib_encrypt = (\<lambda>nonce text data. text), lib_decrypt = (\<lambda>nonce text data. Some text)\<rparr>"

definition id_a :: string where "id_a = ''00000000-0000-4000-8000-00000000000a''"
definition id_b :: string where "id_b = ''00000000-0000-4000-8000-00000000000b''"
definition pin_a :: string where "pin_a = replicate 32 (CHR ''a'')"
definition pin_b :: string where "pin_b = replicate 32 (CHR ''b'')"
definition topic_1 :: string where "topic_1 = replicate 43 (CHR ''1'')"
definition topic_2 :: string where "topic_2 = replicate 43 (CHR ''2'')"
definition nonce_0 :: string where "nonce_0 = replicate 12 (CHR ''0'')"

definition registry_a :: registry where
  "registry_a = empty_registry\<lparr>reg_identity := Some (id_a, pin_a), reg_id := id_a, reg_pin := pin_a\<rparr>"

definition registry_b :: registry where
  "registry_b = empty_registry\<lparr>reg_identity := Some (id_b, pin_b), reg_id := id_b, reg_pin := pin_b\<rparr>"

definition propose_b :: request where
  "propose_b = Propose 0 0 ''g'' id_b pin_b ''desktop'' 100 False"

definition confirm_b :: request where
  "confirm_b = Confirm 1 topic_1 topic_2 nonce_0 id_b (hex_text pin_b)"

definition pending_a :: registry where "pending_a = attempt sample_lib propose_b registry_a"
definition confirmed_a :: registry where "confirmed_a = attempt sample_lib confirm_b pending_a"
definition revoked_a :: registry where "revoked_a = attempt sample_lib (Revoke id_b) confirmed_a"
definition pending_b :: registry where
  "pending_b = attempt sample_lib (Propose 0 0 ''h'' id_a pin_a ''desktop'' 100 True) registry_b"

lemma opened_a: "open_registry True (id_a, pin_a) None [] empty_registry = Inr registry_a"
  by (simp add: open_registry_def registry_a_def empty_registry_def)

lemma ids: "is_uuid id_a" "is_uuid id_b" by code_simp+

lemma topics: "topic_ok topic_1" "topic_ok topic_2" by code_simp+

lemma sample_cipher: "cipher_ok sample_lib"
  by (simp add: cipher_ok_def sample_lib_def)

lemma pending_a_eq: "pending_a = registry_a\<lparr>reg_peers := [new_peer 0 ''g'' id_b pin_b ''desktop'' 100 False]\<rparr>"
  by code_simp

lemma pending_b_eq: "pending_b = registry_b\<lparr>reg_peers := [new_peer 0 ''h'' id_a pin_a ''desktop'' 100 True]\<rparr>"
  by code_simp

lemma confirmed_a_ok: "confirm sample_lib 1 topic_1 topic_2 nonce_0 id_b (hex_text pin_b) pending_a = Inr confirmed_a"
  by code_simp

lemma revoked_a_ok: "revoke id_b confirmed_a = Inr revoked_a"
  by code_simp

lemma trusted_a: "trust_of id_b confirmed_a = Some (Confirmed, pin_b)" "pin_b \<in> trusted_pins confirmed_a"
  by code_simp+

lemma reachable_confirmed: "registry_reachable sample_lib confirmed_a"
  unfolding confirmed_a_def pending_a_def by (intro reachable_attempt registry_reachable.opened [OF opened_a])

theorem registry_invariant_witness: "registry_ok confirmed_a \<and> length (reg_peers confirmed_a) = 1"
proof -
  have "length (reg_peers confirmed_a) = 1" by code_simp
  then show ?thesis using registry_invariant [OF reachable_confirmed] by simp
qed

theorem trust_refinement_witness:
  "trust_move (Revoke id_b) id_b (trust_of id_b confirmed_a) (trust_of id_b revoked_a) \<and>
   trust_of id_b revoked_a = Some (Revoked, pin_b)"
proof -
  have "trust_of id_b revoked_a = Some (Revoked, pin_b)" by code_simp
  then show ?thesis using trust_refinement [OF reachable_confirmed, of "Revoke id_b" id_b] by (simp add: revoked_a_def)
qed


theorem trust_is_granted_witness:
  "\<exists>p qs1 q qs2 st. [propose_b, confirm_b] = qs1 @ q # qs2 \<and> grants q p pin_b st \<and>
    trust_of p (attempts sample_lib qs1 registry_a) = Some (st, pin_b) \<and>
    (\<exists>r. perform sample_lib q (attempts sample_lib qs1 registry_a) = Inr r)"
proof -
  have "pin_b \<in> trusted_pins (attempts sample_lib [propose_b, confirm_b] registry_a)"
    using trusted_a(2) by (simp add: confirmed_a_def pending_a_def)
  from trust_is_granted [OF opened_a this] show ?thesis .
qed

theorem enrollment_completes_witness:
  "\<exists>rec b1 a2. ready sample_lib id_b pin_b ''desktop'' confirmed_a = Inr rec \<and>
    accept_remote sample_lib 1 2 nonce_0 id_a pin_a rec pending_b = Inr b1 \<and>
    acknowledge 3 id_b pin_b ''desktop'' (ack_record id_b rec) confirmed_a = Inr a2 \<and>
    trust_of id_b a2 = Some (Active, pin_b) \<and> trust_of id_a b1 = Some (Active, pin_a)"
proof -
  let ?x = "new_peer 0 ''g'' id_b pin_b ''desktop'' 100 False"
  let ?y = "new_peer 0 ''h'' id_a pin_a ''desktop'' 100 True"
  have own: "reg_id pending_a = id_a" "reg_id pending_b = id_b"
    by (simp_all add: pending_a_eq pending_b_eq registry_a_def registry_b_def)
  have x: "find_peer (reg_id pending_b) pending_a = Some ?x" "peer_role ?x = ''desktop''"
    by (simp_all add: own) (simp_all add: pending_a_eq find_peer_def new_peer_def)
  have y: "is_uuid (reg_id pending_a)" "find_peer (reg_id pending_a) pending_b = Some ?y"
    "peer_state ?y = OutboundPending" "peer_role ?y = ''desktop''" "lapsed 1 ?y = Inr False"
    by (simp_all add: own ids) (simp_all add: pending_b_eq find_peer_def new_peer_def lapsed_def)
  have n: "length nonce_0 = 12" by (simp add: nonce_0_def)
  have c: "confirm sample_lib 1 topic_1 topic_2 nonce_0 (reg_id pending_b) (hex_text (peer_pin ?x)) pending_a = Inr confirmed_a"
    using confirmed_a_ok by (simp add: own)
  show ?thesis
    using enrollment_completes [OF sample_cipher n n topics c x y, of 2 3] by (auto simp: own)
qed

section \<open>An invitation\<close>

definition invite_env :: create_env where
  "invite_env = \<lparr>ce_now = 0, ce_monotonic = 0, ce_uuid = id_a, ce_secret = pin_a, ce_initiator = pin_a, ce_responder = pin_b\<rparr>"

definition sample_invitation :: invitation where
  "sample_invitation = new_invitation sample_lib invite_env (invitation_data invite_env registry_a (JStr ''Desk'') JNull)"

definition sample_claim :: claim_env where
  "sample_claim = \<lparr>cl_clock = 1, cl_monotonic = 1, cl_now = 1, cl_later = 1, cl_gen = ''g''\<rparr>"

definition claim_binding :: session_binding where
  "claim_binding = \<lparr>sb_session = sample_session, sb_mode = ''pair'', sb_initiator = id_b, sb_responder = id_a,
     sb_role = ''desktop'', sb_invitation = Some ''c0'', sb_secret = Some (b64_encode pin_a)\<rparr>"

lemma invite_env_ok: "create_env_ok invite_env registry_a"
  by (simp add: create_env_ok_def invite_env_def registry_a_def ids pin_a_def pin_b_def)

lemma sample_created:
  "create sample_lib invite_env registry_a ''Desk'' JNull = Inr (payload sample_invitation, Some sample_invitation)"
proof -
  have "label sample_lib (JStr ''Desk'') = Inr (JStr ''Desk'')"
    by (simp add: label_def utf8_dec_ascii utf8_enc_def control_char_def sample_lib_def)
  then show ?thesis by (simp add: create_def lan_endpoint_def sample_invitation_def Let_def)
qed

lemma sample_raw_size: "length (inv_raw sample_invitation) \<le> 3050"
proof -
  have texts: "length (json_string esc_ascii s) = length s + 2" if "list_all plain_char s" for s
    using that by (simp add: json_string_plain)
  have plain: "list_all plain_char (b64_encode pin_a)" "list_all plain_char (b64_encode pin_b)" "list_all plain_char id_a"
    using b64_text_plain b64_encode_text [of pin_a] b64_encode_text [of pin_b] uuid_text [OF ids(1)]
    by (simp_all add: pin_a_def pin_b_def)
  have "pin_text (hex_text pin_a)" by (rule pin_text_hex) (simp add: pin_a_def)
  moreover from this have "list_all plain_char (hex_text pin_a)"
    by (auto simp: pin_text_def list_all_iff lower_hex_def plain_char_def)
  moreover have "length (show_int 2) \<le> 16" "length (show_int 300) \<le> 16"
    by (rule index_text(1); simp add: limits)+
  ultimately show ?thesis
    using uuid_text [OF ids(1)]
    by (simp add: sample_invitation_def new_invitation_def invitation_data_def invite_env_def registry_a_def texts plain
        plain_char_def b64_encode_size py_int_def pin_text_def unused_relay_origin_def) (simp add: pin_a_def pin_b_def)
qed

lemma sample_lib_parts [simp]: "lib_io sample_lib = no_floats" "lib_sha256 sample_lib s = ''c0''"
  by (simp_all add: sample_lib_def)

lemma sample_name: "utf8_ok ''Desk''" by (rule utf8_ok_ascii) simp

lemma sample_relay: "relay_origin sample_lib (JStr unused_relay_origin) = Inr (JStr unused_relay_origin)"
  by (simp add: relay_origin_def sample_lib_def unused_relay_origin_def utf8_dec_ascii py_space_def)

lemma sample_expires: "inv_expires sample_invitation = 300"
  by (simp add: sample_invitation_def new_invitation_def invite_env_def py_int_def)

theorem invitation_round_trip_witness:
  "parse_invitation sample_lib (uri_prefix @ b64_encode (inv_raw sample_invitation)) 1 =
     Inr (inv_raw sample_invitation, JObj (invitation_data invite_env registry_a (JStr ''Desk'') JNull))"
  using invitation_round_trip [OF sample_created, of "uri_prefix @ b64_encode (inv_raw sample_invitation)"
      "JInt 300" "JStr unused_relay_origin" 1]
  by (simp add: payload_def invite_env_ok sample_name sample_raw_size sample_relay sample_expires)

lemma claim_binding_ok: "binding_ok claim_binding"
  by (simp add: binding_ok_def claim_binding_def sample_session_def ids b64_utf8 utf8_ok_ascii)

lemma sample_claimed:
  "claim sample_lib sample_claim (binding_members claim_binding) sample_session pin_b (Some sample_invitation, registry_a) =
     (Inr (id_b, ''desktop''), None, registry_a\<lparr>reg_peers := [new_peer 1 ''g'' id_b pin_b ''desktop'' 300 False]\<rparr>)"
proof (rule claim_created [OF sample_created invite_env_ok sample_name])
  show "new_binding sample_session ''pair'' id_b (reg_id registry_a) ''desktop''
      (Some (lib_sha256 sample_lib (inv_raw sample_invitation))) (Some (b64_encode (ce_secret invite_env))) = Inr claim_binding"
    by (simp add: new_binding_def check_binding_fields_def need_def modes_def claim_binding_def invite_env_def registry_a_def)
  show "propose (cl_now sample_claim) (cl_later sample_claim) (cl_gen sample_claim) id_b pin_b ''desktop''
      (rat_of_int (inv_expires sample_invitation)) False registry_a =
      Inr (registry_a\<lparr>reg_peers := [new_peer 1 ''g'' id_b pin_b ''desktop'' 300 False]\<rparr>)"
    unfolding sample_expires by code_simp
  show "claimable sample_claim (Some sample_invitation)"
    by (simp add: claimable_def sample_expires) (simp add: sample_claim_def sample_invitation_def new_invitation_def invite_env_def)
qed (use sample_raw_size claim_binding_ok ids in \<open>simp_all add: limits\<close>)

theorem claim_is_bound_witness:
  "dget (binding_members claim_binding) ''invitation_sha256'' = Some (JStr ''c0'') \<and>
   trust_of id_b (registry_a\<lparr>reg_peers := [new_peer 1 ''g'' id_b pin_b ''desktop'' 300 False]\<rparr>) = Some (Pending, pin_b)"
  using claim_is_bound [OF sample_claimed] binding_printable [OF claim_binding_ok, of no_floats]
  by (auto simp: sample_session_def utf8_ok_ascii registry_a_def ids)

theorem claim_limit_witness:
  "\<exists>results st. pairing_run sample_lib
      (replicate 7 (Claimed sample_claim [] sample_session pin_b)) (Some sample_invitation, registry_a) = (results, st) \<and>
    length results = 7 \<and> examined results \<le> 5 \<and> accepted results \<le> 1"
proof -
  obtain results c r where run: "pairing_run sample_lib (replicate 7 (Claimed sample_claim [] sample_session pin_b))
      (Some sample_invitation, registry_a) = (results, c, r)" by (metis surj_pair)
  have "length (fst (pairing_run sample_lib (replicate n (Claimed sample_claim [] sample_session pin_b)) st)) = n" for n st
    by (induction n arbitrary: st) (simp_all add: case_prod_beta)
  from this [of 7 "(Some sample_invitation, registry_a)"] have "length results = 7" by (simp only: run fst_conv)
  with run claim_limit [OF run] show ?thesis by blast
qed

end
