(* ===== verification/Session_Sample.thy ===== *)
theory Session_Sample
  imports Device_Session Device_Sample
begin

text \<open>
  One resumed session as a concrete run: the device of the sample binds, acknowledges and sends a
  record to the application, in one message.
\<close>

lemma json_string_raw: "list_all plain_char s \<Longrightarrow> json_string esc_raw s = CHR 0x22 # s @ [CHR 0x22]"
proof -
  assume "list_all plain_char s"
  then have "concat (map esc_raw (map ord s)) = s"
    by (induction s) (auto simp: esc_raw_def plain_char_def utf8_enc_ascii)
  with \<open>list_all plain_char s\<close> show ?thesis
    by (simp add: json_string_def utf8_dec_ascii plain_ascii)
qed

lemma encode_record_ok:
  assumes "printable io (JObj ms)" and "fits 0 (JObj ms)" and "list_all (\<lambda>c. ord c < 128) (dumps io esc_raw (JObj ms))"
    and "length (dumps io esc_raw (JObj ms)) \<le> max_record"
  shows "\<exists>d. encode_record io (JObj ms) = Inr d \<and> length d = length (dumps io esc_raw (JObj ms)) + 4"
proof -
  let ?body = "dumps io esc_raw (JObj ms)"
  have "strict_json io max_record ?body = Inr (JObj ms)"
    using assms raw_escape.loads_dumps [OF assms(1), of True] by (simp add: strict_json_iff utf8_ok_ascii)
  with assms(3,4) utf8_ok_ascii [OF assms(3)] show ?thesis by (simp add: encode_record_def Let_def)
qed

definition resume_frame :: frame where
  "resume_frame = (sample_frame 0)\<lparr>frame_mode := ''resume''\<rparr>"

definition resume_binding :: session_binding where
  "resume_binding = \<lparr>sb_session = sample_session, sb_mode = ''resume'', sb_initiator = id_b, sb_responder = id_a,
     sb_role = ''desktop'', sb_invitation = None, sb_secret = None\<rparr>"

definition resume_records :: "(string \<times> json) list list" where
  "resume_records =
     [binding_members resume_binding,
      [(''type'', JStr ''session.ready_ack''), (''device_id'', JStr id_b), (''trust_revision'', JInt 1)],
      [(''type'', JStr ''ping'')]]"

definition resume_text :: string where
  "resume_text = concat (map (\<lambda>rec. case encode_record no_floats (JObj rec) of Inl _ \<Rightarrow> [] | Inr d \<Rightarrow> d) resume_records)"

definition resume_env :: session_env where
  "resume_env = \<lparr>se_now = 1, se_accept = 1, se_later = 1, se_clock = 1, se_list = (\<lambda>i. 1), se_claim = sample_claim,
     se_tls = (\<lambda>bytes. ([resume_text], None)), se_pin = Some pin_b, se_application = Some (\<lambda>p rec. Inr ()),
     se_pending = (\<lambda>p n. Inr []), se_drain = []\<rparr>"

definition resume_raw :: string where
  "resume_raw = dumps no_floats esc_ascii (frame_document resume_frame)"

lemma sample_texts: "list_all plain_char id_a" "list_all plain_char id_b" "list_all plain_char sample_session"
    "length id_a = 36" "length id_b = 36" "length sample_session = 36"
    "list_all plain_char topic_1" "list_all plain_char topic_2" "length topic_1 = 43" "length topic_2 = 43"
  by code_simp+

lemma resume_frame_ok: "frame_ok resume_frame"
  using sample_frame_ok [of 0] by (simp add: frame_ok_def resume_frame_def modes_def)

lemma small_numbers: "show_int 1 = ''1''" "show_int 2 = ''2''"
  by code_simp+

text \<open>A flat record of harmless texts is encoded.\<close>
fun simple_value :: "json \<Rightarrow> bool" where
  "simple_value (JStr s) = (list_all plain_char s \<and> length s \<le> 64)"
| "simple_value (JInt i) = (i \<in> {1, 2})"
| "simple_value (JList xs) = (xs = [])"
| "simple_value v = (v = JNull)"

abbreviation simple_members :: "(string \<times> json) list \<Rightarrow> bool" where
  "simple_members ms \<equiv> list_all (\<lambda>(k, v). list_all plain_char k \<and> length k \<le> 64 \<and> simple_value v) ms"

lemma simple_value_text:
  assumes "simple_value v"
  shows "printable io v" and "fits 1 v" and "list_all (\<lambda>c. ord c < 128) (dumps io esc_raw v)"
    and "length (dumps io esc_raw v) \<le> 66"
  using assms
  by (cases v; auto simp: json_string_raw plain_ascii utf8_ok_plain small_numbers show_nat_small limits; code_simp)+

lemma simple_members_text:
  "simple_members ms \<Longrightarrow> printable_members io ms \<and> fits_members 1 ms \<and>
    list_all (\<lambda>c. ord c < 128) (dumps_members io esc_raw ms) \<and> length (dumps_members io esc_raw ms) \<le> 134 * length ms"
proof (induction ms)
  case (Cons m ms)
  obtain k v where m: "m = (k, v)" by (cases m)
  with Cons.prems have v: "simple_value v" and k: "list_all plain_char k" "length k \<le> 64" by simp_all
  note t = simple_value_text(1,3,4) [OF v, of io] simple_value_text(2) [OF v]
  then show ?case using Cons m k by (auto simp: json_string_raw plain_ascii utf8_ok_plain)
qed simp

lemma simple_encodes:
  assumes "simple_members ms" and "dict_ok ms" and "length ms \<le> 16"
  shows "printable io (JObj ms) \<and> (\<exists>d. encode_record io (JObj ms) = Inr d \<and> length d \<le> 2150)"
proof -
  note t = simple_members_text [OF assms(1), of io]
  have p: "printable io (JObj ms)" using assms(2) t by simp
  have len: "length (dumps io esc_raw (JObj ms)) \<le> 2146" using t assms(3) by simp
  have "\<exists>d. encode_record io (JObj ms) = Inr d \<and> length d = length (dumps io esc_raw (JObj ms)) + 4"
    using p t len assms(3) by (intro encode_record_ok) (simp_all add: limits)
  with p len show ?thesis by auto
qed

lemma resume_encodes:
  assumes "rec \<in> set resume_records \<or> rec = ready_record id_b ''desktop'' topic_1 topic_2"
  shows "printable no_floats (JObj rec) \<and> (\<exists>d. encode_record no_floats (JObj rec) = Inr d \<and> length d \<le> 2150)"
proof (rule simple_encodes)
  show "simple_members rec"
    using assms sample_texts
    by (auto simp: resume_records_def ready_record_def binding_members_def resume_binding_def plain_char_def)
  show "dict_ok rec" "length rec \<le> 16"
    using assms by (auto simp: resume_records_def ready_record_def binding_members_def)
qed

section \<open>The run\<close>

definition resume_start :: session where
  "resume_start = \<lparr>ss_id = sample_session, ss_mode = ''resume'', ss_generations = [(id_b, ''g'')],
     ss_frames = new_ordered sample_session ''resume'' ''initiator_to_responder'', ss_records = new_records,
     ss_pin = None, ss_peer = None, ss_role = None, ss_stage = BindingStage, ss_deadline = 31, ss_index = 0,
     ss_closed = False, ss_sequence = JInt 0, ss_registry = confirmed_a, ss_invitation = None, ss_sent = [], ss_handled = []\<rparr>"

definition peer_b :: peer where
  "peer_b = (new_peer 0 ''g'' id_b pin_b ''desktop'' 100 False)\<lparr>peer_state := Confirmed, peer_revision := 1, peer_expires := None,
     peer_routes := Some (protect_routes sample_lib nonce_0 id_b (routes_document topic_1 topic_2)), peer_capabilities := ''[]''\<rparr>"

lemma confirmed_a_eq: "confirmed_a = registry_a\<lparr>reg_peers := [peer_b]\<rparr>"
proof -
  have x: "find_peer id_b pending_a = Some (new_peer 0 ''g'' id_b pin_b ''desktop'' 100 False)"
    by (simp add: pending_a_eq find_peer_def new_peer_def)
  show ?thesis
    using confirmed_a_ok unfolding confirm_eq x
    by (simp add: pending_a_eq update_peer_def peer_b_def Let_def new_peer_def)
qed

lemma confirmed_peer: "reg_peers confirmed_a = [peer_b]" "reg_id confirmed_a = id_a"
  unfolding confirmed_a_eq by (simp_all add: registry_a_def)

lemma peer_b_fields: "peer_id peer_b = id_b" "peer_pin peer_b = pin_b" "peer_role peer_b = ''desktop''" "peer_state peer_b = Confirmed"
    "peer_revision peer_b = 1" "peer_capabilities peer_b = ''[]''" "peer_generation peer_b = ''g''"
    "peer_routes peer_b = Some (protect_routes sample_lib nonce_0 id_b (routes_document topic_1 topic_2))"
  by (simp_all add: peer_b_def new_peer_def)

lemma find_peer_b: "find_peer id_b confirmed_a = Some peer_b"
  by (simp add: find_peer_def confirmed_peer peer_b_fields)

lemma row_b: "peer_row id_b confirmed_a = Inr peer_b"
  by (simp add: row_simps find_peer_b ids)

lemma resume_opened: "new_session sample_lib resume_env resume_frame confirmed_a None = Inr resume_start"
proof -
  have "generation id_b confirmed_a = Inr ''g''"
    by (simp add: generation_def row_b peer_b_fields)
  then show ?thesis
    by (simp add: new_session_def resume_frame_def sample_frame_def need_def list_peers_def confirmed_peer list_row_def
        peer_b_fields loads_no_capabilities resume_start_def resume_env_def)
qed

lemma resume_facts:
  "new_binding sample_session ''resume'' id_b id_a ''desktop'' None None = Inr resume_binding"
  "verify_binding no_floats resume_binding (JObj (binding_members resume_binding)) = Inr ()"
  "check_generation id_b (Some ''g'') confirmed_a = Inr ()"
  "authenticate id_b pin_b ''desktop'' confirmed_a = Inr ()"
  "ready sample_lib id_b pin_b ''desktop'' confirmed_a = Inr (ready_record id_b ''desktop'' topic_1 topic_2)"
proof -
  have ok: "binding_ok resume_binding"
    by (simp add: binding_ok_def resume_binding_def sample_texts utf8_ok_plain utf8_ok_ascii)
  show "new_binding sample_session ''resume'' id_b id_a ''desktop'' None None = Inr resume_binding"
    by (simp add: new_binding_def check_binding_fields_def need_def modes_def resume_binding_def)
  show "verify_binding no_floats resume_binding (JObj (binding_members resume_binding)) = Inr ()"
    using verify_binding_iff [OF ok binding_printable [OF ok]] by simp
  show "check_generation id_b (Some ''g'') confirmed_a = Inr ()"
    by (simp add: check_generation_def generation_def row_b peer_b_fields need_def)
  show "authenticate id_b pin_b ''desktop'' confirmed_a = Inr ()"
    by (simp add: row_simps find_peer_b ids peer_b_fields trusted_def)
  show "ready sample_lib id_b pin_b ''desktop'' confirmed_a = Inr (ready_record id_b ''desktop'' topic_1 topic_2)"
    using ready_trusted [OF sample_cipher _ topics ids(2) find_peer_b, of nonce_0]
    by (simp add: peer_b_fields trusted_def nonce_0_def)
qed

lemma resume_bound:
  assumes "ss_id s = sample_session" and "ss_generations s = [(id_b, ''g'')]" and "ss_registry s = confirmed_a"
  shows "\<exists>ds. bind_resume sample_lib resume_env (binding_members resume_binding) pin_b s =
    (Inr (), s\<lparr>ss_peer := Some id_b, ss_role := Some ''desktop'', ss_sent := ds, ss_stage := AckStage, ss_deadline := 31\<rparr>)"
proof -
  obtain d1 d2 where d: "encode_record no_floats (JObj (binding_members resume_binding)) = Inr d1"
    "encode_record no_floats (JObj (ready_record id_b ''desktop'' topic_1 topic_2)) = Inr d2"
    using resume_encodes by (metis list.set_intros(1) resume_records_def)
  have m: "dget (binding_members resume_binding) ''initiator_id'' = Some (JStr id_b)" "device_id (JStr id_b) = Inr id_b"
    "dget (binding_members resume_binding) ''initiator_role'' = Some (JStr ''desktop'')"
    by (simp_all add: binding_members_def resume_binding_def device_id_def ids)
  show ?thesis
    using assms
    by (simp add: bind_resume_def send_ready_def send_record_def check_session_generation_def run_then_def query_def change_def
        m d resume_facts confirmed_peer roles_def lift_frame_def resume_env_def) (rule exI, rule refl)
qed

lemma resume_acknowledged:
  "\<exists>r. acknowledge 1 id_b pin_b ''desktop'' (resume_records ! 1) confirmed_a = Inr r"
  unfolding acknowledge_eq
  by (simp add: resume_records_def find_peer_b ids peer_b_fields trusted_def is_int_def)

text \<open>The three records, one after the other.\<close>
lemma resume_processed:
  assumes "ss_id s = sample_session" and "ss_mode s = ''resume''" and "ss_generations s = [(id_b, ''g'')]"
    and "ss_registry s = confirmed_a" and "ss_pin s = Some pin_b" and "ss_stage s = BindingStage" and "ss_handled s = []"
  shows "\<exists>s1. for_each (on_record sample_lib resume_env) (map JObj resume_records) s = (Inr (), s1) \<and>
    ss_handled s1 = [(id_b, resume_records ! 2)]"
proof -
  obtain ds where b: "bind_resume sample_lib resume_env (binding_members resume_binding) pin_b s =
    (Inr (), s\<lparr>ss_peer := Some id_b, ss_role := Some ''desktop'', ss_sent := ds, ss_stage := AckStage, ss_deadline := 31\<rparr>)"
    using resume_bound [OF assms(1,3,4)] by blast
  obtain r where r: "acknowledge 1 id_b pin_b ''desktop'' (resume_records ! 1) confirmed_a = Inr r"
    using resume_acknowledged by blast
  have e: "se_application resume_env = Some (\<lambda>p rec. Inr ())" "se_clock resume_env = 1" by (simp_all add: resume_env_def)
  have recs: "map JObj resume_records = [JObj (binding_members resume_binding), JObj (resume_records ! 1), JObj (resume_records ! 2)]"
    by (simp add: resume_records_def)
  have t: "dget (resume_records ! 2) ''type'' = Some (JStr ''ping'')" by (simp add: resume_records_def)
  show ?thesis
    unfolding recs using assms b r
    by (simp add: run_then_def on_record_def e active_record_def query_def change_def t)
qed

lemma resume_delivered: "feed no_floats resume_text new_records = (Inr (map JObj resume_records), new_records)"
proof -
  let ?d = "\<lambda>rec. case encode_record no_floats (JObj rec) of Inl _ \<Rightarrow> [] | Inr d \<Rightarrow> d"
  have enc: "encode_record no_floats (JObj rec) = Inr (?d rec) \<and> printable no_floats (JObj rec) \<and> length (?d rec) \<le> 2150"
    if "rec \<in> set resume_records" for rec
    using resume_encodes [of rec] that by auto
  have "list_all2 (\<lambda>r d. encode_record no_floats r = Inr d \<and> printable no_floats r) (map JObj resume_records) (map ?d resume_records)"
    using enc by (simp add: list_all2_conv_all_nth)
  from parse_records_encoded [OF this] have "parse_records no_floats resume_text = Inr (map JObj resume_records, [])"
    by (simp only: resume_text_def)
  moreover have "length (concat (map ?d rs)) \<le> 2150 * length rs" if "set rs \<subseteq> set resume_records" for rs
    using that
  proof (induction rs)
    case (Cons rec rs)
    then show ?case using enc [of rec] by simp
  qed simp
  from this [of resume_records] have "length resume_text \<le> 6450"
    by (simp add: resume_text_def) (simp add: resume_records_def)
  ultimately show ?thesis by (simp add: feed_def new_records_def limits)
qed

lemma resume_handled: "ss_handled (snd (receive sample_lib resume_env resume_raw resume_start)) = [(id_b, resume_records ! 2)]"
proof -
  let ?hs = "[(id_b, resume_records ! 2)]"
  have keep: "poll_invariant (\<lambda>s. ss_handled s = ?hs)" by unfold_locales simp_all
  have "decode_frame no_floats resume_raw = Inr resume_frame"
    unfolding resume_raw_def by (rule decode_encoded [OF resume_frame_ok])
  then obtain q where a: "accept no_floats resume_raw 1 (new_ordered sample_session ''resume'' ''initiator_to_responder'') = (Inr ''he'', q)"
    by (simp add: accept_decoded new_ordered_def gap_expired_def limits accept_frame_def resume_frame_def sample_frame_def take_ready.simps)
  let ?s = "resume_start\<lparr>ss_frames := q, ss_pin := Some pin_b, ss_records := new_records\<rparr>"
  obtain s1 where s1: "for_each (on_record sample_lib resume_env) (map JObj resume_records) ?s = (Inr (), s1)" "ss_handled s1 = ?hs"
    using resume_processed [of ?s] by (auto simp: resume_start_def)
  have "receive_body sample_lib resume_env resume_raw resume_start = (Inr (), s1)"
    using a s1 resume_delivered
    by (simp add: receive_body_def run_then_def need_def authority_def resume_start_def resume_env_def lift_frame_def change_def
        on_chunk_def query_def)
  then show ?thesis
    using poll_invariant.poll_step [OF keep s1(2), of sample_lib resume_env]
    by (auto simp: receive_def run_then_def resume_start_def split: prod.splits sum.splits)
qed

lemma resume_reachable: "session_reachable sample_lib resume_start" "resume_start\<lparr>ss_handled := []\<rparr> = resume_start"
  using resume_opened by (auto intro: session_reachable.opened) (simp add: resume_start_def)

theorem application_only_for_trusted_witness:
  "\<exists>s1 role pin. snd (receive sample_lib resume_env resume_raw resume_start) = s1 \<and>
    ss_handled s1 = [(id_b, [(''type'', JStr ''ping'')])] \<and> ss_stage s1 = ActiveStage \<and> ss_peer s1 = Some id_b \<and>
    ss_role s1 = Some role \<and> ss_pin s1 = Some pin \<and> authenticate id_b pin role (ss_registry s1) = Inr ()"
proof -
  obtain res s1 where r: "receive sample_lib resume_env resume_raw resume_start = (res, s1)" by (metis surj_pair)
  have h: "ss_handled s1 = [(id_b, [(''type'', JStr ''ping'')])]"
    using resume_handled by (simp add: r resume_records_def)
  from application_only_for_trusted [OF resume_reachable(1), of resume_env resume_raw res s1 id_b "[(''type'', JStr ''ping'')]"] h r
  show ?thesis by (auto simp: resume_reachable(2))
qed

text \<open>The same session after the user revoked the device.\<close>
definition revoked_session :: session where
  "revoked_session = (snd (receive sample_lib resume_env resume_raw resume_start))\<lparr>ss_registry := revoked_a, ss_invitation := None\<rparr>"

lemma revoked_session_state: "session_reachable sample_lib revoked_session" "ss_stage revoked_session = ActiveStage"
    "ss_peer revoked_session = Some id_b"
proof -
  let ?s = "snd (receive sample_lib resume_env resume_raw resume_start)"
  have "session_reachable sample_lib ?s"
    using session_reachable.received [OF resume_reachable(1), of resume_env resume_raw] by (simp only: resume_reachable(2))
  then show "session_reachable sample_lib revoked_session"
    unfolding revoked_session_def by (rule session_reachable.elsewhere)
  have "safe ?s" using receive_safe [OF reachable_idle [OF resume_reachable(1)]] by (simp only: resume_reachable(2))
  then show "ss_stage revoked_session = ActiveStage" "ss_peer revoked_session = Some id_b"
    using resume_handled by (simp_all add: safe_def revoked_session_def)
qed


end
