(* ===== verification/Admission.thy ===== *)
theory Admission
  imports Json
begin

text \<open>
  Admission of connections in \<^verbatim>\<open>devices/service.py\<close> (\<^verbatim>\<open>DeviceListener._allow\<close>): a token bucket for all
  hosts together and one per host, in a table of at most 256 hosts.
\<close>

record admission =
  ad_global :: rat
  ad_updated :: rat
  ad_attempts :: "(string, rat \<times> rat) dict"

definition new_admission :: "rat \<Rightarrow> admission" where
  "new_admission now = \<lparr>ad_global = 32, ad_updated = now, ad_attempts = []\<rparr>"

text \<open>
  \<^verbatim>\<open>_allow\<close>; \<open>conns\<close> is the number of open connections. The table is an ordered dictionary: the host
  is moved to its end, and the oldest entries beyond 256 are dropped.
\<close>
definition allow :: "rat \<Rightarrow> nat \<Rightarrow> string \<Rightarrow> admission \<Rightarrow> bool \<times> admission" where
  "allow now conns host a =
     (let global = min 32 (ad_global a + (now - ad_updated a) / 2);
          (tokens0, updated) = (case dget (ad_attempts a) host of None \<Rightarrow> (5, now) | Some x \<Rightarrow> x);
          tokens = min 5 (tokens0 + (now - updated) / 10);
          allowed = (1 \<le> global \<and> 1 \<le> tokens \<and> conns < 16);
          table = ddel host (ad_attempts a) @ [(host, (if allowed then tokens - 1 else tokens, now))]
      in (allowed, \<lparr>ad_global = (if allowed then global - 1 else global), ad_updated = now,
           ad_attempts = drop (length table - 256) table\<rparr>))"

text \<open>The calls of a listener: the time, the number of open connections and the host of each.\<close>
fun allow_all :: "(rat \<times> nat \<times> string) list \<Rightarrow> admission \<Rightarrow> bool list \<times> admission" where
  "allow_all [] a = ([], a)"
| "allow_all ((now, conns, host) # calls) a =
     (case allow now conns host a of
        (ok, a1) \<Rightarrow> (case allow_all calls a1 of (oks, a2) \<Rightarrow> (ok # oks, a2)))"

text \<open>The clock is \<^verbatim>\<open>time.monotonic\<close>.\<close>
fun monotonic :: "rat \<Rightarrow> (rat \<times> nat \<times> string) list \<Rightarrow> bool" where
  "monotonic t [] = True"
| "monotonic t ((now, conns, host) # calls) = (t \<le> now \<and> monotonic now calls)"

definition host_entry :: "rat \<Rightarrow> string \<times> rat \<times> rat \<Rightarrow> bool" where
  "host_entry now = (\<lambda>(host, tokens, updated). 0 \<le> tokens \<and> tokens \<le> 5 \<and> updated \<le> now)"

definition admission_ok :: "admission \<Rightarrow> bool" where
  "admission_ok a \<longleftrightarrow> 0 \<le> ad_global a \<and> ad_global a \<le> 32 \<and> length (ad_attempts a) \<le> 256 \<and>
     (\<forall>e \<in> set (ad_attempts a). host_entry (ad_updated a) e)"

lemma admission_new: "admission_ok (new_admission t)"
  by (simp add: admission_ok_def new_admission_def)

text \<open>The bucket of a host before the call that is being decided.\<close>
lemma host_tokens:
  assumes "admission_ok a" and "ad_updated a \<le> now"
    and "(case dget (ad_attempts a) host of None \<Rightarrow> (5, now) | Some x \<Rightarrow> x) = (tokens, updated)"
  shows "0 \<le> tokens" and "updated \<le> now"
proof -
  have "host_entry (ad_updated a) (host, x)" if "dget (ad_attempts a) host = Some x" for x
    using assms(1) map_of_SomeD [OF that] by (auto simp: admission_ok_def)
  then have "0 \<le> tokens \<and> updated \<le> now"
    using assms(2,3) by (fastforce simp: host_entry_def split: option.splits)
  then show "0 \<le> tokens" and "updated \<le> now" by simp_all
qed

lemma allow_step:
  assumes ok: "admission_ok a" and now: "ad_updated a \<le> now" and a1: "allow now conns host a = (allowed, a1)"
  shows "admission_ok a1 \<and> ad_updated a1 = now \<and> (allowed \<longrightarrow> conns < 16) \<and>
    ad_global a1 + of_bool allowed \<le> ad_global a + (now - ad_updated a) / 2"
proof -
  obtain tokens updated where e: "(case dget (ad_attempts a) host of None \<Rightarrow> (5, now) | Some x \<Rightarrow> x) = (tokens, updated)"
    by (cases "case dget (ad_attempts a) host of None \<Rightarrow> (5, now) | Some x \<Rightarrow> x")
  note t = host_tokens [OF ok now e]
  have old: "host_entry now x" if "x \<in> set (ddel host (ad_attempts a))" for x
    using ok now that by (fastforce simp: AList.delete_eq admission_ok_def host_entry_def)
  define g where "g = min 32 (ad_global a + (now - ad_updated a) / 2)"
  define k where "k = min 5 (tokens + (now - updated) / 10)"
  define c where "c = (1 \<le> g \<and> 1 \<le> k \<and> conns < 16)"
  define table where "table = ddel host (ad_attempts a) @ [(host, (if c then k - 1 else k, now))]"
  have r: "allowed = c" "a1 = \<lparr>ad_global = (if c then g - 1 else g), ad_updated = now,
      ad_attempts = drop (length table - 256) table\<rparr>"
    using a1 [symmetric] unfolding allow_def Let_def e prod.case prod.inject g_def k_def c_def table_def by blast+
  have b: "0 \<le> k" "k \<le> 5" "0 \<le> g" "g \<le> 32" "g \<le> ad_global a + (now - ad_updated a) / 2"
    using ok now t by (simp_all add: admission_ok_def g_def k_def)
  have "\<forall>x \<in> set table. host_entry now x"
    using old b(1,2) by (auto simp: table_def host_entry_def c_def)
  then have "\<forall>x \<in> set (drop n table). host_entry now x" for n
    using in_set_dropD by metis
  with b show ?thesis by (auto simp: r admission_ok_def c_def)
qed

lemma allow_all_bounded:
  assumes "admission_ok a" and "monotonic (ad_updated a) calls" and "allow_all calls a = (oks, a1)"
  shows "admission_ok a1 \<and> ad_updated a \<le> ad_updated a1 \<and>
    of_nat (count_list oks True) + ad_global a1 \<le> ad_global a + (ad_updated a1 - ad_updated a) / 2"
  using assms
proof (induction calls arbitrary: a oks)
  case (Cons c calls)
  obtain now conns host where c: "c = (now, conns, host)" by (cases c)
  obtain allowed b where b: "allow now conns host a = (allowed, b)" by fastforce
  obtain rest where rest: "allow_all calls b = (rest, a1)" "oks = allowed # rest"
    using Cons.prems(3) by (auto simp: c b split: prod.splits)
  note step = allow_step [OF Cons.prems(1) _ b]
  then have "admission_ok a1 \<and> ad_updated b \<le> ad_updated a1 \<and>
      of_nat (count_list rest True) + ad_global a1 \<le> ad_global b + (ad_updated a1 - ad_updated b) / 2"
    using Cons.prems(2) by (intro Cons.IH [OF _ _ rest(1)]) (auto simp: c)
  then show ?case
    using step Cons.prems(2) by (cases allowed) (auto simp: c rest(2) field_simps)
qed simp

text \<open>
  C38. The listener admits at most 32 connections at once and one more every two seconds, from all hosts
  together and in whatever order they call, and it never remembers more than 256 hosts.
\<close>
theorem admission_bounded:
  assumes "monotonic start calls" and "allow_all calls (new_admission start) = (oks, a)"
  shows "of_nat (count_list oks True) \<le> 32 + (ad_updated a - start) / 2 \<and> length (ad_attempts a) \<le> 256"
  using allow_all_bounded [OF admission_new, of start calls oks a] assms
  by (auto simp: new_admission_def admission_ok_def)

theorem admission_bounded_witness:
  "\<exists>oks a. allow_all (replicate 6 (1, 0, ''h'')) (new_admission 0) = (oks, a) \<and> count_list oks True = 5 \<and>
    rat_of_nat (count_list oks True) \<le> 32 + (ad_updated a - 0) / 2"
proof -
  obtain oks a where r: "allow_all (replicate 6 (1, 0, ''h'')) (new_admission 0) = (oks, a)" by fastforce
  have "count_list oks True = 5"
    using r by (auto simp: eval_nat_numeral new_admission_def allow_def Let_def)
  moreover have "monotonic 0 (replicate 6 (1, 0, ''h''))" by (simp add: eval_nat_numeral)
  from admission_bounded [OF this r] have "rat_of_nat (count_list oks True) \<le> 32 + (ad_updated a - 0) / 2" by simp
  ultimately show ?thesis using r by blast
qed

end
