(* ===== verification/Network_Policy.thy ===== *)
theory Network_Policy
  imports Prompt_Templates
begin

text \<open>
  \<^verbatim>\<open>core/network_policy.py\<close> and the reading of a response in \<^verbatim>\<open>core/http.py\<close>: which addresses a
  workflow's HTTP requests may reach. A host is checked, resolved, and resolved again for the
  connection; what matters is the address that is connected to in the end, whatever the two
  resolutions answer.
\<close>

section \<open>What is not part of the repository\<close>

text \<open>
  The splitting of URLs, the parsing and classification of addresses and networks (their tables
  differ between releases of Python), Unicode lower case and the resolver are parameters;
  \<open>'a\<close> is the type of addresses and \<open>'n\<close> that of networks.
\<close>
record split_url =
  su_scheme :: string
  su_hostname :: "string option"
  su_port :: "nat option"

record address_flags =
  af_loopback :: bool
  af_global :: bool
  af_link_local :: bool
  af_multicast :: bool
  af_reserved :: bool
  af_unspecified :: bool

record ('a, 'n) net_lib =
  net_split :: "string \<Rightarrow> split_url option"
  net_lower :: "string \<Rightarrow> string"
  net_ip :: "string \<Rightarrow> 'a option"
  net_ip_text :: "'a \<Rightarrow> string"
  net_flags :: "'a \<Rightarrow> address_flags"
  net_network :: "string \<Rightarrow> 'n option"
  net_network_text :: "'n \<Rightarrow> string"
  net_in :: "'a \<Rightarrow> 'n \<Rightarrow> bool"

type_synonym resolver = "string \<Rightarrow> nat option \<Rightarrow> string list"

section \<open>Addresses and the allow list\<close>

definition metadata_hostnames :: "string list" where
  "metadata_hostnames = [''metadata'', ''metadata.google.internal'', ''metadata.azure.com'']"

text \<open>\<open>NetworkPolicyViolation reason url\<close>\<close>
datatype policy_violation = NetworkPolicyViolation string string

record policy_result =
  pr_url :: string
  pr_host :: string
  pr_port :: "nat option"
  pr_allowed_by :: "string option"

record policy_target = policy_result +
  pt_connect_host :: string
  pt_connect_port :: nat

datatype ('a, 'n) allow_entry = NetworkEntry 'n | AddressEntry 'a | HostEntry string

abbreviation quoted :: "string \<Rightarrow> string" where
  "quoted s \<equiv> CHR 0x27 # s @ [CHR 0x27]"

definition rstrip_dot :: "string \<Rightarrow> string" where
  "rstrip_dot s = rev (dropWhile (\<lambda>c. c = CHR ''.'') (rev s))"

definition strip_brackets :: "string \<Rightarrow> string" where
  "strip_brackets s =
     rev (dropWhile (\<lambda>c. c \<in> {CHR ''['', CHR '']''}) (rev (dropWhile (\<lambda>c. c \<in> {CHR ''['', CHR '']''}) s)))"

definition normalize_host :: "('a, 'n) net_lib \<Rightarrow> string \<Rightarrow> string" where
  "normalize_host lib host = net_lower lib (rstrip_dot (strip_brackets host))"

definition address_is_blocked :: "('a, 'n) net_lib \<Rightarrow> 'a \<Rightarrow> bool" where
  "address_is_blocked lib a \<longleftrightarrow>
     af_loopback (net_flags lib a) \<or> \<not> af_global (net_flags lib a) \<or> af_link_local (net_flags lib a) \<or>
     af_multicast (net_flags lib a) \<or> af_reserved (net_flags lib a) \<or> af_unspecified (net_flags lib a)"

definition parse_entry :: "('a, 'n) net_lib \<Rightarrow> string \<Rightarrow> ('a, 'n) allow_entry option" where
  "parse_entry lib raw =
     (let entry = net_lower lib (py_strip raw)
      in if entry = [] then None
         else case net_network lib entry of
           Some n \<Rightarrow> Some (NetworkEntry n)
         | None \<Rightarrow>
             (case net_ip lib entry of Some a \<Rightarrow> Some (AddressEntry a) | None \<Rightarrow> Some (HostEntry (rstrip_dot entry))))"

definition parse_allowlist :: "('a, 'n) net_lib \<Rightarrow> string list \<Rightarrow> ('a, 'n) allow_entry list" where
  "parse_allowlist lib entries = List.map_filter (parse_entry lib) entries"

definition ends_with :: "string \<Rightarrow> string \<Rightarrow> bool" where
  "ends_with suffix s \<longleftrightarrow> length suffix \<le> length s \<and> drop (length s - length suffix) s = suffix"

definition host_matches :: "string \<Rightarrow> string \<Rightarrow> bool" where
  "host_matches host pattern \<longleftrightarrow>
     starts_with ''*.'' pattern \<and> ends_with (drop 1 pattern) host \<or> host = pattern"

fun host_allowlist_match :: "string \<Rightarrow> ('a, 'n) allow_entry list \<Rightarrow> string option" where
  "host_allowlist_match host [] = None"
| "host_allowlist_match host (HostEntry p # es) = (if host_matches host p then Some p else host_allowlist_match host es)"
| "host_allowlist_match host (_ # es) = host_allowlist_match host es"

fun address_allowlist_match :: "('a, 'n) net_lib \<Rightarrow> 'a \<Rightarrow> ('a, 'n) allow_entry list \<Rightarrow> string option" where
  "address_allowlist_match lib a [] = None"
| "address_allowlist_match lib a (AddressEntry b # es) =
     (if a = b then Some (net_ip_text lib b) else address_allowlist_match lib a es)"
| "address_allowlist_match lib a (NetworkEntry n # es) =
     (if net_in lib a n then Some (net_network_text lib n) else address_allowlist_match lib a es)"
| "address_allowlist_match lib a (HostEntry p # es) = address_allowlist_match lib a es"

definition validate_address ::
  "('a, 'n) net_lib \<Rightarrow> string \<Rightarrow> string \<Rightarrow> string \<Rightarrow> nat option \<Rightarrow> 'a \<Rightarrow> ('a, 'n) allow_entry list \<Rightarrow> policy_violation + policy_result" where
  "validate_address lib url safe host port a entries =
     (case address_allowlist_match lib a entries of
        Some entry \<Rightarrow> Inr \<lparr>pr_url = url, pr_host = host, pr_port = port, pr_allowed_by = Some entry\<rparr>
      | None \<Rightarrow>
          if address_is_blocked lib a
          then Inl (NetworkPolicyViolation (''blocked private or local address '' @ quoted (net_ip_text lib a)) safe)
          else Inr \<lparr>pr_url = url, pr_host = host, pr_port = port, pr_allowed_by = None\<rparr>)"

section \<open>Checking a URL\<close>

definition parse_http_request_url :: "('a, 'n) net_lib \<Rightarrow> string \<Rightarrow> policy_violation + split_url" where
  "parse_http_request_url lib url =
     (case net_split lib url of
        None \<Rightarrow> Inl (NetworkPolicyViolation ''invalid URL authority'' ''<invalid-url>'')
      | Some u \<Rightarrow> Inr u)"

text \<open>\<^verbatim>\<open>urlunsplit((scheme, netloc, "/", "", ""))\<close> with a netloc that is never empty\<close>
definition safe_url_for_error :: "split_url \<Rightarrow> string" where
  "safe_url_for_error u =
     (let host = (case su_hostname u of None \<Rightarrow> ''<missing-host>'' | Some h \<Rightarrow> h);
          bracketed = (if CHR '':'' \<in> set host then ''['' @ host @ '']'' else host);
          netloc = (case su_port u of None \<Rightarrow> bracketed | Some p \<Rightarrow> bracketed @ '':'' @ show_nat p)
      in (if su_scheme u = [] then [] else su_scheme u @ '':'') @ ''//'' @ netloc @ ''/'')"

fun check_resolved ::
  "('a, 'n) net_lib \<Rightarrow> string \<Rightarrow> string \<Rightarrow> string \<Rightarrow> nat option \<Rightarrow> ('a, 'n) allow_entry list \<Rightarrow> string list \<Rightarrow> policy_violation + unit" where
  "check_resolved lib url safe host port entries [] = Inr ()"
| "check_resolved lib url safe host port entries (t # ts) =
     (case net_ip lib t of
        None \<Rightarrow> check_resolved lib url safe host port entries ts
      | Some a \<Rightarrow>
          andThen (validate_address lib url safe host port a entries) (\<lambda>_.
            check_resolved lib url safe host port entries ts))"

definition validate_http_request_url ::
  "('a, 'n) net_lib \<Rightarrow> resolver \<Rightarrow> string \<Rightarrow> string list \<Rightarrow> policy_violation + policy_result" where
  "validate_http_request_url lib resolve url allowlist =
     andThen (parse_http_request_url lib url) (\<lambda>u.
     let safe = safe_url_for_error u; scheme = net_lower lib (su_scheme u)
     in if scheme \<notin> {''http'', ''https''} then
          Inl (NetworkPolicyViolation (''unsupported URL scheme '' @
            quoted (if su_scheme u = [] then ''<missing>'' else su_scheme u)) safe)
        else case su_hostname u of
          None \<Rightarrow> Inl (NetworkPolicyViolation ''missing URL host'' safe)
        | Some host \<Rightarrow>
            if host = [] then Inl (NetworkPolicyViolation ''missing URL host'' safe)
            else
              (let normalized = normalize_host lib host; entries = parse_allowlist lib allowlist
               in case host_allowlist_match normalized entries of
                    Some entry \<Rightarrow> Inr \<lparr>pr_url = url, pr_host = host, pr_port = su_port u, pr_allowed_by = Some entry\<rparr>
                  | None \<Rightarrow>
                      if normalized \<in> set metadata_hostnames
                      then Inl (NetworkPolicyViolation (''metadata host '' @ quoted normalized @ '' is blocked'') safe)
                      else case net_ip lib normalized of
                        Some a \<Rightarrow> validate_address lib url safe host (su_port u) a entries
                      | None \<Rightarrow>
                          andThen (check_resolved lib url safe host (su_port u) entries (resolve host (su_port u))) (\<lambda>_.
                            Inr \<lparr>pr_url = url, pr_host = host, pr_port = su_port u, pr_allowed_by = None\<rparr>)))"

definition connect_to :: "('a, 'n) net_lib \<Rightarrow> policy_result \<Rightarrow> string option \<Rightarrow> nat \<Rightarrow> 'a \<Rightarrow> policy_target" where
  "connect_to lib res allowed_by port a =
     \<lparr>pr_url = pr_url res, pr_host = pr_host res, pr_port = pr_port res, pr_allowed_by = allowed_by,
      pt_connect_host = net_ip_text lib a, pt_connect_port = port\<rparr>"

text \<open>The addresses among the texts, in order.\<close>
definition parsed_addresses :: "('a, 'n) net_lib \<Rightarrow> string list \<Rightarrow> 'a list" where
  "parsed_addresses lib ts = List.map_filter (net_ip lib) ts"

text \<open>
  \<^verbatim>\<open>resolve_http_request_target\<close>; \<open>resolve\<close> answers during the check and \<open>resolve'\<close> when the
  connection is made. Both loops return for the first text that parses as an address.
\<close>
definition resolve_http_request_target ::
  "('a, 'n) net_lib \<Rightarrow> resolver \<Rightarrow> resolver \<Rightarrow> string \<Rightarrow> string list \<Rightarrow> policy_violation + policy_target" where
  "resolve_http_request_target lib resolve resolve' url allowlist =
     andThen (parse_http_request_url lib url) (\<lambda>u.
     andThen (validate_http_request_url lib resolve url allowlist) (\<lambda>res.
     let port = (case pr_port res of
           None \<Rightarrow> if net_lower lib (su_scheme u) = ''http'' then 80 else 443
         | Some p \<Rightarrow> if p = 0 then (if net_lower lib (su_scheme u) = ''http'' then 80 else 443) else p);
         normalized = normalize_host lib (pr_host res)
     in case net_ip lib normalized of
          Some a \<Rightarrow> Inr (connect_to lib res (pr_allowed_by res) port a)
        | None \<Rightarrow>
            (let addresses = parsed_addresses lib (resolve' (pr_host res) (pr_port res));
                 entries = parse_allowlist lib allowlist
             in case addresses of
                  [] \<Rightarrow> Inl (NetworkPolicyViolation
                    (''host '' @ quoted normalized @ '' did not resolve to a usable address'') (safe_url_for_error u))
                | a # _ \<Rightarrow>
                    if pr_allowed_by res \<noteq> None then Inr (connect_to lib res (pr_allowed_by res) port a)
                    else
                      andThen (validate_address lib url (safe_url_for_error u) (pr_host res) (pr_port res) a entries) (\<lambda>v.
                        Inr (connect_to lib res (pr_allowed_by v) port a)))))"

text \<open>\<^verbatim>\<open>str(exc)\<close> of a violation\<close>
definition violation_text :: "policy_violation \<Rightarrow> string" where
  "violation_text v = (case v of NetworkPolicyViolation reason url \<Rightarrow>
     ''HTTP request blocked by network policy: '' @ reason @ '' ('' @ url @ '')'')"

definition network_policy_warnings :: "('a, 'n) net_lib \<Rightarrow> string \<Rightarrow> string list \<Rightarrow> string list" where
  "network_policy_warnings lib url allowlist =
     (if str_in ''{{'' url \<and> str_in ''}}'' url then []
      else case validate_http_request_url lib (\<lambda>_ _. []) url allowlist of
        Inl v \<Rightarrow> [violation_text v]
      | Inr _ \<Rightarrow> [])"

section \<open>Reading a response\<close>

definition http_response_max_bytes :: nat where
  "http_response_max_bytes = 16 * 1024 * 1024"

datatype http_error = TooLarge | DeadlineExceeded | IncompleteRead

text \<open>
  What one turn of the loop meets: whether the request was closed or its deadline has passed, and
  the chunk \<^verbatim>\<open>read1\<close> returns for a requested size (empty at the end of the stream).
\<close>
record read_turn =
  turn_stopped :: bool
  turn_read :: "nat \<Rightarrow> string"

text \<open>\<open>left\<close> is \<^verbatim>\<open>response.length\<close> at the end of the stream: the bytes still announced, if any are known.\<close>
fun read_body :: "read_turn list \<Rightarrow> nat option \<Rightarrow> string \<Rightarrow> (http_error + string) option" where
  "read_body [] left body = None"
| "read_body (t # ts) left body =
     (if turn_stopped t then Some (Inl DeadlineExceeded)
      else
        (let chunk = turn_read t (min (64 * 1024) (http_response_max_bytes + 1 - length body))
         in if chunk = [] then
              (case left of
                 Some n \<Rightarrow> if n \<noteq> 0 then Some (Inl IncompleteRead) else Some (Inr body)
               | None \<Rightarrow> Some (Inr body))
            else if http_response_max_bytes < length (body @ chunk) then Some (Inl TooLarge)
            else read_body ts left (body @ chunk)))"

definition read_response ::
  "nat option \<Rightarrow> read_turn list \<Rightarrow> nat option \<Rightarrow> bool \<Rightarrow> (http_error + string) option" where
  "read_response announced turns left stopped_at_end =
     (if (case announced of None \<Rightarrow> False | Some n \<Rightarrow> http_response_max_bytes < n) then Some (Inl TooLarge)
      else case read_body turns left [] of
        None \<Rightarrow> None
      | Some (Inl e) \<Rightarrow> Some (Inl e)
      | Some (Inr body) \<Rightarrow> Some (if stopped_at_end then Inl DeadlineExceeded else Inr body))"

section \<open>Where a request connects to\<close>

text \<open>What the policy means to allow: an address that is not blocked, or that the user listed, or any address of a listed host.\<close>
definition permitted :: "('a, 'n) net_lib \<Rightarrow> string list \<Rightarrow> string \<Rightarrow> 'a \<Rightarrow> bool" where
  "permitted lib allowlist host a \<longleftrightarrow>
     \<not> address_is_blocked lib a \<or>
     address_allowlist_match lib a (parse_allowlist lib allowlist) \<noteq> None \<or>
     host_allowlist_match (normalize_host lib host) (parse_allowlist lib allowlist) \<noteq> None"

lemma validate_address_permitted:
  "validate_address lib url safe host port a entries = Inr v \<Longrightarrow>
     \<not> address_is_blocked lib a \<or> address_allowlist_match lib a entries \<noteq> None"
  by (auto simp: validate_address_def split: option.splits if_splits)

lemma validate_address_result:
  "validate_address lib url safe host port a entries = Inr v \<Longrightarrow> pr_host v = host \<and> pr_port v = port \<and> pr_url v = url"
  by (auto simp: validate_address_def split: option.splits if_splits)

text \<open>The ways in which a URL passes: by its host, as an address, or by what it resolves to.\<close>
lemma validate_url_cases:
  assumes "validate_http_request_url lib resolve url allowlist = Inr res" and "parse_http_request_url lib url = Inr u"
  obtains (scheme_host) host where "su_hostname u = Some host" and "net_lower lib (su_scheme u) \<in> {''http'', ''https''}"
    and "(\<exists>e. host_allowlist_match (normalize_host lib host) (parse_allowlist lib allowlist) = Some e \<and>
            res = \<lparr>pr_url = url, pr_host = host, pr_port = su_port u, pr_allowed_by = Some e\<rparr>) \<or>
         normalize_host lib host \<notin> set metadata_hostnames \<and>
         ((\<exists>a. net_ip lib (normalize_host lib host) = Some a \<and>
             validate_address lib url (safe_url_for_error u) host (su_port u) a (parse_allowlist lib allowlist) = Inr res) \<or>
          net_ip lib (normalize_host lib host) = None \<and>
             res = \<lparr>pr_url = url, pr_host = host, pr_port = su_port u, pr_allowed_by = None\<rparr>)"
  using assms by (auto simp: validate_http_request_url_def Let_def andThen_eq_Inr split: option.splits if_splits)

lemma validated_host:
  assumes "validate_http_request_url lib resolve url allowlist = Inr res" and "parse_http_request_url lib url = Inr u"
  shows "su_hostname u = Some (pr_host res) \<and> net_lower lib (su_scheme u) \<in> {''http'', ''https''} \<and>
    pr_port res = su_port u \<and> pr_url res = url \<and>
    (\<forall>a. net_ip lib (normalize_host lib (pr_host res)) = Some a \<longrightarrow> permitted lib allowlist (pr_host res) a) \<and>
    (net_ip lib (normalize_host lib (pr_host res)) = None \<and> pr_allowed_by res \<noteq> None \<or>
     normalize_host lib (pr_host res) \<in> set metadata_hostnames \<longrightarrow>
       host_allowlist_match (normalize_host lib (pr_host res)) (parse_allowlist lib allowlist) \<noteq> None)"
proof (rule validate_url_cases [OF assms], elim disjE conjE exE)
  fix host a
  assume "su_hostname u = Some host" "net_lower lib (su_scheme u) \<in> {''http'', ''https''}"
    and n: "normalize_host lib host \<notin> set metadata_hostnames" "net_ip lib (normalize_host lib host) = Some a"
    and v: "validate_address lib url (safe_url_for_error u) host (su_port u) a (parse_allowlist lib allowlist) = Inr res"
  moreover have "pr_host res = host" "pr_port res = su_port u" "pr_url res = url"
    using validate_address_result [OF v] by simp_all
  ultimately show ?thesis using validate_address_permitted [OF v] by (simp add: permitted_def)
qed (simp_all add: permitted_def)

text \<open>
  C12. A request only connects where the policy allows it: the address that the connection is made
  to, chosen by a second resolution that may answer differently from the one that was checked, is
  not a private, local, shared or otherwise blocked address, unless the user's list names the
  address, its network or the host. The scheme is HTTP or HTTPS, and the names of cloud metadata
  services are reached only when they are listed.
\<close>
theorem connects_only_where_allowed:
  assumes "resolve_http_request_target lib resolve resolve' url allowlist = Inr target"
  shows "\<exists>u a. net_split lib url = Some u \<and> su_hostname u = Some (pr_host target) \<and>
    pt_connect_host target = net_ip_text lib a \<and> permitted lib allowlist (pr_host target) a \<and>
    net_lower lib (su_scheme u) \<in> {''http'', ''https''} \<and>
    (normalize_host lib (pr_host target) \<in> set metadata_hostnames \<longrightarrow>
      host_allowlist_match (normalize_host lib (pr_host target)) (parse_allowlist lib allowlist) \<noteq> None)"
proof -
  obtain u res where u: "parse_http_request_url lib url = Inr u"
    and res: "validate_http_request_url lib resolve url allowlist = Inr res"
    using assms by (auto simp: resolve_http_request_target_def andThen_eq_Inr)
  note v = validated_host [OF res u]
  have "\<exists>a port by. target = connect_to lib res by port a \<and> permitted lib allowlist (pr_host res) a"
  proof (cases "net_ip lib (normalize_host lib (pr_host res))")
    case (Some a)
    with assms u res have "\<exists>port. target = connect_to lib res (pr_allowed_by res) port a"
      by (auto simp: resolve_http_request_target_def Let_def)
    with v Some show ?thesis by blast
  next
    case None
    then obtain a as where as: "parsed_addresses lib (resolve' (pr_host res) (pr_port res)) = a # as"
      using assms u res by (auto simp: resolve_http_request_target_def Let_def split: list.splits)
    show ?thesis
    proof (cases "pr_allowed_by res = None")
      case True
      with None as assms u res obtain w port where
        w: "validate_address lib url (safe_url_for_error u) (pr_host res) (pr_port res) a (parse_allowlist lib allowlist) = Inr w"
        and t: "target = connect_to lib res (pr_allowed_by w) port a"
        by (auto simp: resolve_http_request_target_def Let_def andThen_eq_Inr)
      have "permitted lib allowlist (pr_host res) a"
        using validate_address_permitted [OF w] by (auto simp: permitted_def)
      with t show ?thesis by blast
    next
      case False
      with None as assms u res have "\<exists>port. target = connect_to lib res (pr_allowed_by res) port a"
        by (auto simp: resolve_http_request_target_def Let_def)
      moreover have "permitted lib allowlist (pr_host res) a" using v None False by (simp add: permitted_def)
      ultimately show ?thesis by blast
    qed
  qed
  then obtain a where "pt_connect_host target = net_ip_text lib a" "pr_host target = pr_host res"
    "permitted lib allowlist (pr_host res) a" by (auto simp: connect_to_def)
  moreover have "net_split lib url = Some u" using u by (simp add: parse_http_request_url_def split: option.splits)
  ultimately show ?thesis using v by auto
qed

section \<open>How much is read\<close>

lemma read_body_grows: "read_body turns left body = Some (Inr all) \<Longrightarrow> \<exists>rest. all = body @ rest"
  by (induction turns arbitrary: body) (auto simp: Let_def split: if_splits option.splits, fastforce)

lemma read_body_bound:
  "read_body turns left body = Some (Inr all) \<Longrightarrow> length body \<le> http_response_max_bytes \<Longrightarrow>
     length all \<le> http_response_max_bytes \<and> (left = None \<or> left = Some 0)"
  by (induction turns arbitrary: body) (auto simp: Let_def split: if_splits option.splits)

lemma read_body_ends:
  "length body \<le> http_response_max_bytes \<Longrightarrow> http_response_max_bytes + 1 < length turns + length body \<Longrightarrow>
     read_body turns left body \<noteq> None"
proof (induction turns arbitrary: body)
  case (Cons t ts)
  let ?chunk = "turn_read t (min (64 * 1024) (http_response_max_bytes + 1 - length body))"
  show ?case
  proof (cases "turn_stopped t \<or> ?chunk = [] \<or> http_response_max_bytes < length (body @ ?chunk)")
    case True
    then show ?thesis by (auto simp: Let_def split: option.splits)
  next
    case False
    then have "read_body ts left (body @ ?chunk) \<noteq> None"
      using Cons.prems by (intro Cons.IH) (auto simp: Suc_le_eq length_greater_0_conv [symmetric] simp del: length_greater_0_conv)
    with False show ?thesis by (simp add: Let_def)
  qed
qed simp

text \<open>
  Reading a response ends and is bounded: after at most 16 MiB and one chunk more the loop has a
  result, however the server sends its data; a body that is handed on has at most 16 MiB, and
  only when nothing that was announced is missing.
\<close>
theorem response_bounded:
  assumes "http_response_max_bytes + 1 < length turns"
  shows "\<exists>res. read_response announced turns left stopped = Some res \<and>
    (case res of Inl _ \<Rightarrow> True | Inr body \<Rightarrow> length body \<le> http_response_max_bytes \<and> (left = None \<or> left = Some 0))"
proof -
  have "read_body turns left [] \<noteq> None" using assms by (intro read_body_ends) simp_all
  then obtain x where x: "read_body turns left [] = Some x" by blast
  show ?thesis
  proof (cases x)
    case (Inr body)
    with x read_body_bound [of turns left "[]" body] show ?thesis by (auto simp: read_response_def)
  qed (use x in \<open>auto simp: read_response_def\<close>)
qed

section \<open>A small network\<close>

definition sample_net :: "(string, string) net_lib" where
  "sample_net = \<lparr>net_split = (\<lambda>s. Some \<lparr>su_scheme = ''https'', su_hostname = Some ''example.org'', su_port = None\<rparr>),
     net_lower = (\<lambda>s. map ascii_lower s),
     net_ip = (\<lambda>s. if s \<in> {''93.184.216.34'', ''10.0.0.1''} then Some s else None), net_ip_text = (\<lambda>a. a),
     net_flags = (\<lambda>a. \<lparr>af_loopback = False, af_global = (a = ''93.184.216.34''), af_link_local = False, af_multicast = False,
       af_reserved = False, af_unspecified = False\<rparr>),
     net_network = (\<lambda>s. None), net_network_text = (\<lambda>n. n), net_in = (\<lambda>a n. False)\<rparr>"

definition sample_target :: policy_target where
  "sample_target = \<lparr>pr_url = ''https://example.org/'', pr_host = ''example.org'', pr_port = None, pr_allowed_by = None,
     pt_connect_host = ''93.184.216.34'', pt_connect_port = 443\<rparr>"

lemma sample_resolved:
  "resolve_http_request_target sample_net (\<lambda>_ _. [''93.184.216.34'']) (\<lambda>_ _. [''93.184.216.34'']) ''https://example.org/'' []
     = Inr sample_target"
  by code_simp

text \<open>A name that resolves to a public address for the check and to a private one for the connection is refused.\<close>
theorem connects_only_where_allowed_witness:
  "(\<exists>u a. net_split sample_net ''https://example.org/'' = Some u \<and> su_hostname u = Some (pr_host sample_target) \<and>
     pt_connect_host sample_target = net_ip_text sample_net a \<and>
     permitted sample_net [] (pr_host sample_target) a) \<and>
   isl (resolve_http_request_target sample_net (\<lambda>_ _. [''93.184.216.34'']) (\<lambda>_ _. [''10.0.0.1'']) ''https://example.org/'' [])"
proof -
  have "isl (resolve_http_request_target sample_net (\<lambda>_ _. [''93.184.216.34'']) (\<lambda>_ _. [''10.0.0.1'']) ''https://example.org/'' [])"
    by code_simp
  with connects_only_where_allowed [OF sample_resolved] show ?thesis by blast
qed

theorem response_bounded_witness:
  "\<exists>res. read_response None (replicate (http_response_max_bytes + 2) \<lparr>turn_stopped = False, turn_read = (\<lambda>n. [])\<rparr>) (Some 0) False = Some res"
  using response_bounded [of "replicate (http_response_max_bytes + 2) \<lparr>turn_stopped = False, turn_read = (\<lambda>n. [])\<rparr>" None "Some 0" False]
  by (auto simp del: replicate.simps)

end
