(* ===== verification/Device_Files.thy ===== *)
theory Device_Files
  imports Pairing
begin

text \<open>
  \<^verbatim>\<open>devices/files.py\<close>: files that a paired device sends in chunks. The table has one row per transfer; the
  bytes are kept on disk as records of 16 KiB, each sealed under the peer, the file and its index, and
  the last record is rewritten as more bytes arrive. The database is transactional and the disk is not:
  a call that raises leaves the rows as they were and the disk as the call had changed it.

  Chunks and offers have passed the event schema before they arrive here, so their members are typed.
  The migration of files from earlier versions and the walk through the directories of a snapshot's
  source are not modelled.
\<close>

section \<open>Constants and state\<close>

definition max_file :: int where "max_file = 10 * 1024 * 1024"
definition max_total :: int where "max_total = 4000000000"
definition max_files :: nat where "max_files = 128"
definition chunk_size :: nat where "chunk_size = 16 * 1024"
definition free_space_margin :: int where "free_space_margin = 256 * 1024 * 1024"
definition nonce_size :: nat where "nonce_size = 12"
definition tag_size :: nat where "tag_size = 16"
definition record_size :: nat where "record_size = nonce_size + chunk_size + tag_size"

lemmas file_limits = max_file_def max_total_def max_files_def chunk_size_def free_space_margin_def nonce_size_def tag_size_def
  record_size_def

definition stored_size :: "int \<Rightarrow> int" where
  "stored_size n_bytes = (let count = - ((- n_bytes) div int chunk_size) in count * int (nonce_size + tag_size) + n_bytes)"

datatype transfer_state = Receiving | Available | Failed

text \<open>One row of \<^verbatim>\<open>device_files\<close>, without the columns of the older formats.\<close>
record file_row =
  fr_peer :: string
  fr_id :: string
  fr_thread :: string
  fr_offer :: string
  fr_size :: int
  fr_expires :: rat
  fr_state :: transfer_state
  fr_received :: nat

text \<open>The table, and the directory of record files by name.\<close>
record file_store =
  fs_rows :: "file_row list"
  fs_disk :: "(string, string) dict"

record file_offer =
  fo_id :: string
  fo_name :: string
  fo_mime :: string
  fo_size :: int
  fo_sha256 :: string
  fo_expires :: int

record file_chunk =
  fc_id :: string
  fc_offset :: int
  fc_data :: string
  fc_eof :: bool

text \<open>What a call reads from outside: the clock, three times, the free space and the random nonces.\<close>
record file_env =
  fe_unlink :: rat
  fe_delete :: rat
  fe_clock :: rat
  fe_free :: int
  fe_nonce :: "nat \<Rightarrow> string"

section \<open>Records on disk\<close>

definition file_path :: "device_lib \<Rightarrow> string \<Rightarrow> string \<Rightarrow> string" where
  "file_path lib p i = lib_sha256 lib (p @ CHR 0x00 # i) @ ''.bin''"

definition record_aad :: "string \<Rightarrow> string \<Rightarrow> nat \<Rightarrow> string" where
  "record_aad p i k = p @ '':file:'' @ i @ '':record:'' @ show_nat k"

text \<open>\<^verbatim>\<open>os.pwrite\<close> fills a gap with zero bytes, and so does \<^verbatim>\<open>os.ftruncate\<close> when it extends a file.\<close>
definition padded :: "nat \<Rightarrow> string \<Rightarrow> string" where
  "padded n f = f @ replicate (n - length f) (CHR 0x00)"

definition pwrite :: "string \<Rightarrow> nat \<Rightarrow> string \<Rightarrow> string" where
  "pwrite data off f = take off (padded off f) @ data @ drop (off + length data) f"

definition ftruncate :: "nat \<Rightarrow> string \<Rightarrow> string" where
  "ftruncate n f = take n (padded n f)"

definition write_record :: "device_lib \<Rightarrow> string \<Rightarrow> string \<Rightarrow> string \<Rightarrow> nat \<Rightarrow> string \<Rightarrow> string \<Rightarrow> string" where
  "write_record lib nonce p i k raw f =
     (let sealed = nonce @ lib_encrypt lib nonce raw (record_aad p i k)
      in ftruncate (k * record_size + length sealed) (pwrite sealed (k * record_size) f))"

definition read_record :: "device_lib \<Rightarrow> string \<Rightarrow> string \<Rightarrow> string \<Rightarrow> nat \<Rightarrow> nat \<Rightarrow> registry_error + string" where
  "read_record lib p i f k n =
     (let sealed = take record_size (drop (k * record_size) f)
      in case lib_decrypt lib (take nonce_size sealed) (drop nonce_size sealed) (record_aad p i k) of
        None \<Rightarrow> Inl (PairingError ''file_integrity'')
      | Some raw \<Rightarrow> if length raw < n then Inl (PairingError ''file_integrity'') else Inr (take n raw))"

text \<open>The records \<open>ks\<close> of a file that holds \<open>n_bytes\<close> bytes.\<close>
fun read_range :: "device_lib \<Rightarrow> string \<Rightarrow> string \<Rightarrow> string \<Rightarrow> nat \<Rightarrow> nat list \<Rightarrow> registry_error + string" where
  "read_range lib p i f n_bytes [] = Inr []"
| "read_range lib p i f n_bytes (k # ks) =
     andThen (read_record lib p i f k (min chunk_size (n_bytes - k * chunk_size))) (\<lambda>x.
     andThen (read_range lib p i f n_bytes ks) (\<lambda>y. Inr (x @ y)))"

text \<open>The number of records of \<open>n\<close> bytes, \<^verbatim>\<open>-(-n // CHUNK)\<close>\<close>
definition record_count :: "nat \<Rightarrow> nat" where
  "record_count n = (n + chunk_size - 1) div chunk_size"

definition read_records :: "device_lib \<Rightarrow> string \<Rightarrow> string \<Rightarrow> string \<Rightarrow> nat \<Rightarrow> registry_error + string" where
  "read_records lib p i f n_bytes = read_range lib p i f n_bytes [0..<record_count n_bytes]"

definition digest_records :: "device_lib \<Rightarrow> string \<Rightarrow> string \<Rightarrow> string \<Rightarrow> nat \<Rightarrow> registry_error + string" where
  "digest_records lib p i f n_bytes = andThen (read_records lib p i f n_bytes) (\<lambda>bytes. Inr (lib_sha256 lib bytes))"

definition open_records :: "device_lib \<Rightarrow> string \<Rightarrow> string \<Rightarrow> (string, string) dict \<Rightarrow> registry_error + string" where
  "open_records lib p i disk =
     (case dget disk (file_path lib p i) of None \<Rightarrow> Inl (Uncaught ''FileNotFoundError'') | Some f \<Rightarrow> Inr f)"

definition slice_records ::
  "device_lib \<Rightarrow> string \<Rightarrow> string \<Rightarrow> (string, string) dict \<Rightarrow> nat \<Rightarrow> nat \<Rightarrow> nat \<Rightarrow> registry_error + string" where
  "slice_records lib p i disk committed off n =
     (if n = 0 then Inr []
      else
        andThen (open_records lib p i disk) (\<lambda>f.
        andThen (read_range lib p i f committed [off div chunk_size..<(off + n - 1) div chunk_size + 1]) (\<lambda>bytes.
          Inr (take n (drop (off - off div chunk_size * chunk_size) bytes)))))"

function write_records :: "device_lib \<Rightarrow> (nat \<Rightarrow> string) \<Rightarrow> string \<Rightarrow> string \<Rightarrow> nat \<Rightarrow> string \<Rightarrow> string \<Rightarrow> string" where
  "write_records lib nonce p i k pending f =
     (if pending = [] then f
      else write_records lib nonce p i (k + 1) (drop chunk_size pending)
             (write_record lib (nonce k) p i k (take chunk_size pending) f))"
  by pat_completeness auto
termination
  by (relation "measure (\<lambda>(_, _, _, _, _, pending, _). length pending)") (auto simp: chunk_size_def)

declare write_records.simps [simp del]

section \<open>Offers\<close>

definition offer_aad :: "string \<Rightarrow> string \<Rightarrow> string" where
  "offer_aad p i = p @ '':file:'' @ i"

definition offer_members :: "file_offer \<Rightarrow> (string \<times> json) list" where
  "offer_members o1 =
     [(''file_id'', JStr (fo_id o1)), (''name'', JStr (fo_name o1)), (''mime'', JStr (fo_mime o1)), (''size'', JInt (fo_size o1)),
      (''sha256'', JStr (fo_sha256 o1)), (''expires_at'', JInt (fo_expires o1))]"

definition offer_text :: "device_lib \<Rightarrow> file_offer \<Rightarrow> string" where
  "offer_text lib o1 = dumps_flat (lib_io lib) esc_ascii (sort_key fst (offer_members o1))"

definition seal_offer :: "device_lib \<Rightarrow> string \<Rightarrow> string \<Rightarrow> string \<Rightarrow> string \<Rightarrow> string" where
  "seal_offer lib nonce p i raw = nonce @ lib_encrypt lib nonce raw (offer_aad p i)"

text \<open>A wrong tag is an exception of the cipher that nothing here catches.\<close>
definition open_offer :: "device_lib \<Rightarrow> string \<Rightarrow> string \<Rightarrow> string \<Rightarrow> registry_error + string" where
  "open_offer lib p i blob =
     (case lib_decrypt lib (take 12 blob) (drop 12 blob) (offer_aad p i) of
        None \<Rightarrow> Inl (Uncaught ''InvalidTag'') | Some raw \<Rightarrow> Inr raw)"

definition load_offer :: "device_lib \<Rightarrow> file_row \<Rightarrow> registry_error + json" where
  "load_offer lib row =
     andThen (open_offer lib (fr_peer row) (fr_id row) (fr_offer row)) (\<lambda>raw.
       case loads (lib_io lib) False raw of None \<Rightarrow> Inl (Uncaught ''JSONDecodeError'') | Some v \<Rightarrow> Inr v)"

section \<open>The table\<close>

definition row_path :: "device_lib \<Rightarrow> file_row \<Rightarrow> string" where
  "row_path lib row = file_path lib (fr_peer row) (fr_id row)"

definition find_file :: "string \<Rightarrow> string \<Rightarrow> file_row list \<Rightarrow> file_row option" where
  "find_file p i rows = find (\<lambda>row. fr_peer row = p \<and> fr_id row = i) rows"

text \<open>\<^verbatim>\<open>WHERE peer=? AND id=? AND thread=?\<close>, where at most one row has the peer and the identifier\<close>
definition find_in_thread :: "string \<Rightarrow> string \<Rightarrow> string \<Rightarrow> file_row list \<Rightarrow> file_row option" where
  "find_in_thread p thread i rows =
     find (\<lambda>row. fr_peer row = p \<and> fr_id row = i \<and> fr_thread row = thread) rows"

definition update_file :: "string \<Rightarrow> string \<Rightarrow> (file_row \<Rightarrow> file_row) \<Rightarrow> file_row list \<Rightarrow> file_row list" where
  "update_file p i g rows = map (\<lambda>row. if fr_peer row = p \<and> fr_id row = i then g row else row) rows"

text \<open>
  \<^verbatim>\<open>_expire\<close> with \<^verbatim>\<open>_sweep\<close>: the files of the rows that have expired by the first reading of the clock are
  removed, then the rows that have expired by the second one, then every file that no row names.
\<close>
definition expire :: "device_lib \<Rightarrow> file_env \<Rightarrow> file_store \<Rightarrow> file_store" where
  "expire lib env st =
     (let gone = map (row_path lib) (filter (\<lambda>row. fr_expires row \<le> fe_unlink env) (fs_rows st));
          rows = filter (\<lambda>row. \<not> fr_expires row \<le> fe_delete env) (fs_rows st)
      in \<lparr>fs_rows = rows,
          fs_disk = filter (\<lambda>(name, f). name \<notin> set gone \<and> name \<in> set (map (row_path lib) rows)) (fs_disk st)\<rparr>)"

definition reserve :: "file_env \<Rightarrow> int \<Rightarrow> file_row list \<Rightarrow> registry_error + unit" where
  "reserve env n_bytes rows =
     andThen (need (\<not> (max_files \<le> length rows \<or> max_total < sum_list (map fr_size rows) + n_bytes)) (PairingError ''file_quota'')) (\<lambda>_.
       need (\<not> fe_free env < stored_size n_bytes + free_space_margin) (PairingError ''file_disk_full''))"

section \<open>Operations\<close>

type_synonym 'a file_op = "file_store \<Rightarrow> (registry_error + 'a) \<times> file_store"

definition new_row :: "device_lib \<Rightarrow> string \<Rightarrow> string \<Rightarrow> string \<Rightarrow> file_offer \<Rightarrow> transfer_state \<Rightarrow> nat \<Rightarrow> file_row" where
  "new_row lib nonce p thread o1 state got =
     \<lparr>fr_peer = p, fr_id = fo_id o1, fr_thread = thread, fr_offer = seal_offer lib nonce p (fo_id o1) (offer_text lib o1),
      fr_size = fo_size o1, fr_expires = of_int (fo_expires o1), fr_state = state, fr_received = got\<rparr>"

definition offer_bounds :: "file_env \<Rightarrow> int \<Rightarrow> file_offer \<Rightarrow> bool" where
  "offer_bounds env limit o1 \<longleftrightarrow>
     fe_clock env < of_int (fo_expires o1) \<and> of_int (fo_expires o1) \<le> fe_clock env + 86400 \<and>
     0 \<le> fo_size o1 \<and> fo_size o1 \<le> limit"

text \<open>The checks of \<^verbatim>\<open>offer\<close>; the result says whether the file is new.\<close>
definition check_offer ::
  "device_lib \<Rightarrow> file_env \<Rightarrow> string \<Rightarrow> string \<Rightarrow> file_offer \<Rightarrow> int \<Rightarrow> file_row list \<Rightarrow> registry_error + bool" where
  "check_offer lib env p thread o1 limit rows =
     (case find_file p (fo_id o1) rows of
        Some row \<Rightarrow>
          if fr_thread row \<noteq> thread then Inl (PairingError ''file_offer_conflict'')
          else andThen (open_offer lib p (fo_id o1) (fr_offer row)) (\<lambda>raw.
            if raw \<noteq> offer_text lib o1 then Inl (PairingError ''file_offer_conflict'') else Inr False)
      | None \<Rightarrow>
          andThen (need (offer_bounds env limit o1) (PairingError ''file_offer_bounds'')) (\<lambda>_.
          andThen (reserve env (fo_size o1) rows) (\<lambda>_. Inr True)))"

definition offer_file :: "device_lib \<Rightarrow> file_env \<Rightarrow> string \<Rightarrow> string \<Rightarrow> file_offer \<Rightarrow> int \<Rightarrow> unit file_op" where
  "offer_file lib env p thread o1 limit st0 =
     (let st = expire lib env st0
      in case check_offer lib env p thread o1 limit (fs_rows st) of
        Inl e \<Rightarrow> (Inl e, st)
      | Inr False \<Rightarrow> (Inr (), st)
      | Inr True \<Rightarrow>
          (Inr (), \<lparr>fs_rows = fs_rows st @ [new_row lib (fe_nonce env 0) p thread o1 Receiving 0],
                    fs_disk = dset (file_path lib p (fo_id o1)) [] (fs_disk st)\<rparr>))"

definition chunk_bytes :: "string \<Rightarrow> registry_error + string" where
  "chunk_bytes encoded =
     (case b64_decode encoded of
        None \<Rightarrow> Inl (PairingError ''file_chunk_encoding'')
      | Some raw \<Rightarrow>
          if chunk_size < length raw \<or> b64_encode raw \<noteq> encoded then Inl (PairingError ''file_chunk_encoding'') else Inr raw)"

text \<open>A retransmission must match what was already committed.\<close>
definition check_repeated :: "device_lib \<Rightarrow> file_row \<Rightarrow> int \<Rightarrow> string \<Rightarrow> (string, string) dict \<Rightarrow> registry_error + unit" where
  "check_repeated lib row off raw disk =
     andThen (need (0 \<le> off \<and> off \<le> int (fr_received row) \<and> off + int (length raw) \<le> int (fr_received row))
       (PairingError ''file_chunk_conflict'')) (\<lambda>_.
     andThen (slice_records lib (fr_peer row) (fr_id row) disk (fr_received row) (nat off) (length raw)) (\<lambda>bytes.
       need (bytes = raw) (PairingError ''file_chunk_conflict'')))"

text \<open>The last partial record is read back and rewritten together with the new bytes.\<close>
definition append_bytes :: "device_lib \<Rightarrow> file_env \<Rightarrow> file_row \<Rightarrow> string \<Rightarrow> string \<Rightarrow> registry_error + string" where
  "append_bytes lib env row raw f =
     (let k = fr_received row div chunk_size; start = fr_received row mod chunk_size
      in andThen (if start = 0 then Inr [] else read_record lib (fr_peer row) (fr_id row) f k start) (\<lambda>tail.
           Inr (write_records lib (fe_nonce env) (fr_peer row) (fr_id row) k (tail @ raw) f)))"

text \<open>What \<^verbatim>\<open>eof\<close> demands of the records.\<close>
definition check_complete :: "device_lib \<Rightarrow> file_row \<Rightarrow> nat \<Rightarrow> string \<Rightarrow> registry_error + unit" where
  "check_complete lib row got f =
     andThen (load_offer lib row) (\<lambda>v.
     andThen (need (int got = fr_size row) (PairingError ''file_integrity'')) (\<lambda>_.
     andThen (digest_records lib (fr_peer row) (fr_id row) f got) (\<lambda>d.
       case jget v ''sha256'' of
         None \<Rightarrow> Inl (Uncaught ''KeyError'')
       | Some w \<Rightarrow> need (JStr d = w) (PairingError ''file_integrity''))))"

text \<open>The chunk is the next one: its bytes are appended.\<close>
definition receive_next ::
  "device_lib \<Rightarrow> file_env \<Rightarrow> file_row \<Rightarrow> file_chunk \<Rightarrow> string \<Rightarrow> (transfer_state \<times> nat) file_op" where
  "receive_next lib env row c raw st =
     (case andThen (open_records lib (fr_peer row) (fr_id row) (fs_disk st)) (append_bytes lib env row raw) of
        Inl e \<Rightarrow> (Inl e, st)
      | Inr f \<Rightarrow>
          (let disk = dset (row_path lib row) f (fs_disk st);
               got = fr_received row + length raw;
               state = (if fc_eof c then Available else Receiving)
           in case (if fc_eof c then check_complete lib row got f else Inr ()) of
                Inl e \<Rightarrow> (Inl e, st\<lparr>fs_disk := disk\<rparr>)
              | Inr _ \<Rightarrow>
                  (Inr (state, got),
                   \<lparr>fs_rows = update_file (fr_peer row) (fr_id row) (\<lambda>y. y\<lparr>fr_state := state, fr_received := got\<rparr>) (fs_rows st),
                    fs_disk = disk\<rparr>)))"

definition receive_row :: "device_lib \<Rightarrow> file_env \<Rightarrow> file_row \<Rightarrow> file_chunk \<Rightarrow> string \<Rightarrow> (transfer_state \<times> nat) file_op" where
  "receive_row lib env row c raw st =
     (if fr_state row = Available \<or> fc_offset c < int (fr_received row)
      then (andThen (check_repeated lib row (fc_offset c) raw (fs_disk st)) (\<lambda>_. Inr (fr_state row, fr_received row)), st)
      else if fr_state row \<noteq> Receiving \<or> fc_offset c \<noteq> int (fr_received row) \<or>
        fr_size row < fc_offset c + int (length raw) \<or> raw = [] \<and> \<not> fc_eof c
      then (Inl (PairingError ''file_chunk_offset''), st)
      else receive_next lib env row c raw st)"

definition receive_file :: "device_lib \<Rightarrow> file_env \<Rightarrow> string \<Rightarrow> string \<Rightarrow> file_chunk \<Rightarrow> (transfer_state \<times> nat) file_op" where
  "receive_file lib env p thread c st0 =
     (let st = expire lib env st0
      in case find_in_thread p thread (fc_id c) (fs_rows st) of
        None \<Rightarrow> (Inl (PairingError ''file_unavailable''), st)
      | Some row \<Rightarrow>
          (case chunk_bytes (fc_data c) of
             Inl e \<Rightarrow> (Inl e, st) | Inr raw \<Rightarrow> receive_row lib env row c raw st))"

text \<open>The transaction around a call: an exception undoes the changes to the table.\<close>
definition transact :: "'a file_op \<Rightarrow> 'a file_op" where
  "transact op st = (case op st of (Inl e, st1) \<Rightarrow> (Inl e, st1\<lparr>fs_rows := fs_rows st\<rparr>) | (Inr x, st1) \<Rightarrow> (Inr x, st1))"

definition available :: "device_lib \<Rightarrow> file_env \<Rightarrow> string \<Rightarrow> string \<Rightarrow> string \<Rightarrow> file_row file_op" where
  "available lib env p thread i st0 =
     (let st = expire lib env st0
      in case find (\<lambda>row. fr_peer row = p \<and> fr_id row = i \<and> fr_thread row = thread \<and> fr_state row = Available) (fs_rows st) of
        None \<Rightarrow> (Inl (PairingError ''file_unavailable''), st)
      | Some row \<Rightarrow> (Inr row, st))"

definition metadata :: "device_lib \<Rightarrow> file_env \<Rightarrow> string \<Rightarrow> string \<Rightarrow> string \<Rightarrow> json file_op" where
  "metadata lib env p thread i st0 =
     (case available lib env p thread i st0 of
        (Inl e, st) \<Rightarrow> (Inl e, st) | (Inr row, st) \<Rightarrow> (load_offer lib row, st))"

text \<open>One wire chunk of a complete file.\<close>
definition chunk_of :: "device_lib \<Rightarrow> file_env \<Rightarrow> string \<Rightarrow> string \<Rightarrow> string \<Rightarrow> int \<Rightarrow> (json \<times> string) file_op" where
  "chunk_of lib env p thread i off st0 =
     (case available lib env p thread i st0 of
        (Inl e, st) \<Rightarrow> (Inl e, st)
      | (Inr row, st) \<Rightarrow>
          (andThen (need (0 \<le> off \<and> off \<le> fr_size row) (PairingError ''file_chunk_offset'')) (\<lambda>_.
           andThen (load_offer lib row) (\<lambda>v.
           andThen (slice_records lib p i (fs_disk st) (nat (fr_size row)) (nat off) (min chunk_size (nat (fr_size row - off)))) (\<lambda>bytes.
             Inr (v, bytes)))), st))"

definition content_of :: "device_lib \<Rightarrow> file_env \<Rightarrow> string \<Rightarrow> string \<Rightarrow> string \<Rightarrow> int \<Rightarrow> (json \<times> string) file_op" where
  "content_of lib env p thread i limit st0 =
     (case available lib env p thread i st0 of
        (Inl e, st) \<Rightarrow> (Inl e, st)
      | (Inr row, st) \<Rightarrow>
          (andThen (need (\<not> limit < fr_size row) (PairingError ''file_too_large'')) (\<lambda>_.
           andThen (load_offer lib row) (\<lambda>v.
           andThen (andThen (open_records lib p i (fs_disk st)) (\<lambda>f. read_records lib p i f (nat (fr_size row)))) (\<lambda>bytes.
             case jget v ''sha256'' of
               None \<Rightarrow> Inl (Uncaught ''KeyError'')
             | Some w \<Rightarrow>
                 andThen (need (JStr (lib_sha256 lib bytes) = w) (PairingError ''file_integrity'')) (\<lambda>_. Inr (v, bytes))))), st))"

definition cancel_file :: "device_lib \<Rightarrow> file_env \<Rightarrow> string \<Rightarrow> string \<Rightarrow> string \<Rightarrow> unit file_op" where
  "cancel_file lib env p thread i st =
     (let hit = (\<lambda>row. fr_peer row = p \<and> fr_id row = i \<and> fr_thread row = thread)
      in (Inr (), expire lib env
            \<lparr>fs_rows = filter (\<lambda>row. \<not> hit row) (fs_rows st),
             fs_disk = (if list_ex hit (fs_rows st) then ddel (file_path lib p i) (fs_disk st) else fs_disk st)\<rparr>))"

end
