(* ===== verification/File_Records.thy ===== *)
theory File_Records
  imports Device_Files
begin

text \<open>
  The record file of a transfer holds a byte string: reading records yields its pieces, and appending
  leaves what was committed in place.
\<close>

text \<open>The documented behaviour of \<^verbatim>\<open>AESGCM\<close>, with its tag of sixteen bytes.\<close>
definition sealing_ok :: "device_lib \<Rightarrow> bool" where
  "sealing_ok lib \<longleftrightarrow> cipher_ok lib \<and> (\<forall>nonce text data. length (lib_encrypt lib nonce text data) = length text + tag_size)"

definition piece :: "nat \<Rightarrow> string \<Rightarrow> string" where
  "piece k data = take chunk_size (drop (k * chunk_size) data)"

text \<open>Every record that the bytes need is on disk, sealed under its index.\<close>
definition readable :: "device_lib \<Rightarrow> string \<Rightarrow> string \<Rightarrow> string \<Rightarrow> string \<Rightarrow> bool" where
  "readable lib p i f data \<longleftrightarrow>
     (\<forall>k. k * chunk_size < length data \<longrightarrow>
        (\<exists>nonce. length nonce = nonce_size \<and>
           take record_size (drop (k * record_size) f) = nonce @ lib_encrypt lib nonce (piece k data) (record_aad p i k)))"

lemma chunk_size_pos [simp]: "0 < chunk_size" "chunk_size \<noteq> 0"
  by (simp_all add: chunk_size_def)

lemma record_size_pos [simp]: "0 < record_size" "chunk_size < record_size"
  by (simp_all add: file_limits)

lemma length_piece: "length (piece k data) = min chunk_size (length data - k * chunk_size)"
  by (simp add: piece_def min.commute)

lemma piece_take: "n \<le> length data \<Longrightarrow> take (n - k * chunk_size) (piece k data) = piece k (take n data)"
  by (simp add: piece_def drop_take min.commute)

lemma concat_pieces: "concat (map (\<lambda>k. piece k data) [a..<b]) = take ((b - a) * chunk_size) (drop (a * chunk_size) data)"
proof (induction b)
  case (Suc b)
  show ?case
  proof (cases "a \<le> b")
    case True
    then have "(Suc b - a) * chunk_size = (b - a) * chunk_size + chunk_size" by (simp add: Suc_diff_le)
    moreover have "(b - a) * chunk_size + a * chunk_size = b * chunk_size"
      using True by (simp add: add_mult_distrib [symmetric])
    ultimately show ?thesis using True Suc by (simp add: piece_def take_add)
  qed simp
qed simp

lemma readable_full:
  assumes "readable lib p i f data" and "sealing_ok lib" and "k * chunk_size \<le> length data"
  shows "k * record_size \<le> length f"
proof (cases k)
  case (Suc j)
  then have "j * chunk_size + chunk_size \<le> length data" using assms(3) by simp
  then have j: "j * chunk_size < length data" "chunk_size \<le> length data - j * chunk_size"
    using chunk_size_pos(1) by linarith+
  obtain nonce where "length nonce = nonce_size"
    "take record_size (drop (j * record_size) f) = nonce @ lib_encrypt lib nonce (piece j data) (record_aad p i j)"
    using assms(1) j(1) unfolding readable_def by blast
  then have "length (take record_size (drop (j * record_size) f)) = record_size"
    using assms(2) j(2) by (simp add: sealing_ok_def length_piece record_size_def)
  then have "record_size \<le> length f - j * record_size" by (simp add: min_def split: if_splits)
  then have "j * record_size + record_size \<le> length f" using record_size_pos(1) by linarith
  then show ?thesis using Suc by simp
qed simp

lemma readable_prefix: "readable lib p i f data \<Longrightarrow> readable lib p i f (take (k * chunk_size) data)"
proof -
  assume r: "readable lib p i f data"
  have "piece j (take (k * chunk_size) data) = piece j data" if "j * chunk_size < k * chunk_size" for j
  proof -
    from that have "Suc j * chunk_size \<le> k * chunk_size" by (intro mult_le_mono1) simp
    then show ?thesis by (simp add: piece_def drop_take min_absorb1)
  qed
  with r show ?thesis unfolding readable_def by auto
qed

section \<open>Reading\<close>

lemma read_record_readable:
  assumes "readable lib p i f data" and "sealing_ok lib" and "k * chunk_size < length data" and "n \<le> length (piece k data)"
  shows "read_record lib p i f k n = Inr (take n (piece k data))"
proof -
  obtain nonce where "length nonce = nonce_size"
    "take record_size (drop (k * record_size) f) = nonce @ lib_encrypt lib nonce (piece k data) (record_aad p i k)"
    using assms(1,3) unfolding readable_def by blast
  then show ?thesis
    using assms(2,4) by (simp add: read_record_def sealing_ok_def cipher_ok_def)
qed

lemma read_range_readable:
  assumes "readable lib p i f data" and "sealing_ok lib" and "n \<le> length data" and "\<forall>k \<in> set ks. k * chunk_size < n"
  shows "read_range lib p i f n ks = Inr (concat (map (\<lambda>k. piece k (take n data)) ks))"
  using assms(4)
proof (induction ks)
  case (Cons k ks)
  then have k: "k * chunk_size < n" by simp
  have "min chunk_size (n - k * chunk_size) \<le> length (piece k data)"
    using assms(3) by (simp add: length_piece min.coboundedI2 diff_le_mono)
  then have "read_record lib p i f k (min chunk_size (n - k * chunk_size)) = Inr (piece k (take n data))"
    using assms(3) k read_record_readable [OF assms(1,2), of k]
    by (simp add: piece_def drop_take min.commute)
  with Cons show ?case by simp
qed simp

lemma record_count_bound: "k < record_count n \<Longrightarrow> k * chunk_size < n" "n \<le> record_count n * chunk_size"
proof -
  assume "k < record_count n"
  then have "Suc k \<le> (n + chunk_size - 1) div chunk_size" by (simp add: record_count_def)
  then have "Suc k * chunk_size \<le> n + chunk_size - 1"
    using less_eq_div_iff_mult_less_eq [of chunk_size "Suc k"] by simp
  then have "k * chunk_size + chunk_size \<le> n + chunk_size - 1" by simp
  then show "k * chunk_size < n" using chunk_size_pos(1) by linarith
next
  show "n \<le> record_count n * chunk_size"
    using dividend_less_div_times [of chunk_size "n + chunk_size - 1"] chunk_size_pos
    by (simp add: record_count_def)
qed

lemma read_records_readable:
  assumes "readable lib p i f data" and "sealing_ok lib" and "n \<le> length data"
  shows "read_records lib p i f n = Inr (take n data)"
  using read_range_readable [OF assms, of "[0..<record_count n]"] record_count_bound
  by (simp add: read_records_def concat_pieces min_absorb1)

lemma take_window:
  assumes "(a :: nat) \<le> off" and "off + n \<le> b" and "off + n \<le> c"
  shows "take n (drop (off - a) (take (b - a) (drop a (take c data)))) = take n (drop off data)"
  using assms by (simp add: drop_take min_absorb1)

lemma slice_records_readable:
  assumes "readable lib p i f data" and "sealing_ok lib" and "c \<le> length data" and "off + n \<le> c"
    and "n = 0 \<or> dget disk (file_path lib p i) = Some f"
  shows "slice_records lib p i disk c off n = Inr (take n (drop off data))"
proof (cases "n = 0")
  case False
  let ?a = "off div chunk_size" and ?b = "(off + n - 1) div chunk_size + 1"
  have last: "(off + n - 1) div chunk_size * chunk_size \<le> off + n - 1" "off + n \<le> ?b * chunk_size"
    using dividend_less_div_times [of chunk_size "off + n - 1"] False by simp_all
  have "k * chunk_size < c" if "k < ?b" for k
  proof -
    have "k * chunk_size \<le> (off + n - 1) div chunk_size * chunk_size" using that by (intro mult_le_mono1) simp
    with last(1) show ?thesis using assms(4) False by linarith
  qed
  then have "read_range lib p i f c [?a..<?b] = Inr (take ((?b - ?a) * chunk_size) (drop (?a * chunk_size) (take c data)))"
    using read_range_readable [OF assms(1-3), of "[?a..<?b]"] unfolding concat_pieces set_upt by simp
  moreover have "take n (drop (off - ?a * chunk_size) (take ((?b - ?a) * chunk_size) (drop (?a * chunk_size) (take c data)))) =
      take n (drop off data)"
    unfolding diff_mult_distrib by (rule take_window) (use last(2) assms(4) in simp_all)
  ultimately show ?thesis using False assms(5) by (simp add: slice_records_def open_records_def)
qed (simp add: slice_records_def)

section \<open>Writing\<close>

lemma write_record_eq:
  "k * record_size \<le> length f \<Longrightarrow>
   write_record lib nonce p i k raw f = take (k * record_size) f @ nonce @ lib_encrypt lib nonce raw (record_aad p i k)"
  by (simp add: write_record_def Let_def ftruncate_def pwrite_def padded_def)

lemma readable_write:
  assumes "readable lib p i f data" and "sealing_ok lib" and "k * chunk_size \<le> length data"
    and "length raw \<le> chunk_size" and "length nonce = nonce_size"
  shows "readable lib p i (write_record lib nonce p i k raw f) (take (k * chunk_size) data @ raw)"
  unfolding readable_def
proof (intro allI impI)
  fix j
  let ?data = "take (k * chunk_size) data @ raw"
  let ?f = "write_record lib nonce p i k raw f"
  assume j: "j * chunk_size < length ?data"
  have full: "k * record_size \<le> length f" by (rule readable_full [OF assms(1-3)])
  note f = write_record_eq [OF full, of lib nonce p i raw]
  have "j * chunk_size < Suc k * chunk_size" using j assms(3,4) by simp
  then have "j < Suc k" unfolding mult_less_cancel2 by simp
  then consider "j < k" | "j = k" by linarith
  then show "\<exists>nonce. length nonce = nonce_size \<and>
      take record_size (drop (j * record_size) ?f) = nonce @ lib_encrypt lib nonce (piece j ?data) (record_aad p i j)"
  proof cases
    case 1
    then have c: "j * chunk_size + chunk_size \<le> k * chunk_size" "j * record_size + record_size \<le> k * record_size"
      using mult_le_mono1 [of "Suc j" k chunk_size] mult_le_mono1 [of "Suc j" k record_size] by simp_all
    have "piece j ?data = piece j data"
      using c(1) assms(3) by (simp add: piece_def drop_take min_absorb1 min_absorb2)
    moreover have "take record_size (drop (j * record_size) ?f) = take record_size (drop (j * record_size) f)"
      using c(2) full unfolding f by (simp add: drop_take min_absorb1 min_absorb2)
    moreover have "j * chunk_size < length data" using c(1) assms(3) chunk_size_pos(1) by linarith
    ultimately show ?thesis using assms(1) unfolding readable_def by simp
  next
    case 2
    have "piece j ?data = raw" using 2 assms(3,4) by (simp add: piece_def min_absorb2)
    moreover have "take record_size (drop (j * record_size) ?f) = nonce @ lib_encrypt lib nonce raw (record_aad p i j)"
      using 2 full assms(2,4,5) unfolding f by (simp add: sealing_ok_def record_size_def min_absorb2)
    ultimately show ?thesis using assms(5) by auto
  qed
qed

lemma readable_write_records:
  assumes "sealing_ok lib" and "\<forall>k. length (nonce k) = nonce_size"
    and "readable lib p i f data" and "k * chunk_size \<le> length data"
  shows "readable lib p i (write_records lib nonce p i k pending f) (take (k * chunk_size) data @ pending)"
  using assms(3,4)
proof (induction "length pending" arbitrary: k f data pending rule: less_induct)
  case less
  show ?case
  proof (cases "pending = []")
    case True
    then show ?thesis using readable_prefix [OF less.prems(1)] by (simp add: write_records.simps)
  next
    case False
    let ?f = "write_record lib (nonce k) p i k (take chunk_size pending) f"
    let ?data = "take (k * chunk_size) data @ take chunk_size pending"
    have r: "readable lib p i ?f ?data"
      by (rule readable_write) (use assms less.prems in simp_all)
    show ?thesis
    proof (cases "chunk_size < length pending")
      case True
      then have len: "length ?data = (k + 1) * chunk_size" using less.prems(2) by simp
      have shorter: "length (drop chunk_size pending) < length pending"
        using True chunk_size_pos(1) unfolding length_drop by linarith
      have "readable lib p i (write_records lib nonce p i (k + 1) (drop chunk_size pending) ?f)
          (take ((k + 1) * chunk_size) ?data @ drop chunk_size pending)"
        by (rule less.hyps [OF shorter r]) (simp only: len)
      moreover have "take ((k + 1) * chunk_size) ?data @ drop chunk_size pending = take (k * chunk_size) data @ pending"
        unfolding len [symmetric] take_all [OF order_refl] append_assoc append_take_drop_id ..
      ultimately show ?thesis using False by (simp add: write_records.simps [of _ _ _ _ k])
    next
      case small: False
      then show ?thesis using False r by (simp add: write_records.simps [of _ _ _ _ k] write_records.simps [of _ _ _ _ "Suc k"])
    qed
  qed
qed

lemma append_bytes_readable:
  assumes "readable lib (fr_peer row) (fr_id row) f data" and "sealing_ok lib" and "\<forall>k. length (fe_nonce env k) = nonce_size"
    and "fr_received row \<le> length data"
  shows "\<exists>f1. append_bytes lib env row raw f = Inr f1 \<and>
    readable lib (fr_peer row) (fr_id row) f1 (take (fr_received row) data @ raw)"
proof -
  let ?n = "fr_received row"
  define k where "k = ?n div chunk_size"
  define start where "start = ?n mod chunk_size"
  have n: "?n = k * chunk_size + start" by (simp add: k_def start_def)
  have le: "k * chunk_size \<le> length data" using n assms(4) by simp
  let ?tail = "take start (drop (k * chunk_size) data)"
  have tail: "(if start = 0 then Inr [] else read_record lib (fr_peer row) (fr_id row) f k start) = Inr ?tail"
  proof (cases "start = 0")
    case False
    have start: "start < chunk_size" by (simp add: start_def)
    have "start \<le> length (piece k data)" "k * chunk_size < length data"
      using assms(4) n False start by (simp_all add: length_piece)
    then have "read_record lib (fr_peer row) (fr_id row) f k start = Inr (take start (piece k data))"
      by (intro read_record_readable [OF assms(1,2)])
    with False start show ?thesis by (simp add: piece_def min_absorb1)
  qed simp
  have "readable lib (fr_peer row) (fr_id row)
      (write_records lib (fe_nonce env) (fr_peer row) (fr_id row) k (?tail @ raw) f) (take (k * chunk_size) data @ ?tail @ raw)"
    by (rule readable_write_records [OF assms(2,3,1) le])
  moreover have "take (k * chunk_size) data @ ?tail @ raw = take ?n data @ raw" unfolding n by (simp add: take_add)
  ultimately show ?thesis
    unfolding append_bytes_def Let_def k_def [symmetric] start_def [symmetric] tail by simp
qed

end
