(* ===== verification/File_Transfer.thy ===== *)
theory File_Transfer
  imports File_Records
begin

text \<open>
  The invariant of the file store, kept by every operation although the database rolls back and the
  disk does not, and the refinement of a transfer to the byte string it has received so far.
\<close>

section \<open>What is assumed of hashing and of the inputs\<close>

text \<open>No two transfers share the name of their record file; peers and file identifiers are UUIDs.\<close>
definition names_ok :: "device_lib \<Rightarrow> bool" where
  "names_ok lib \<longleftrightarrow> (\<forall>p i q j. is_uuid p \<and> is_uuid i \<and> is_uuid q \<and> is_uuid j \<and> file_path lib p i = file_path lib q j \<longrightarrow> p = q \<and> i = j)"

definition files_lib_ok :: "device_lib \<Rightarrow> bool" where
  "files_lib_ok lib \<longleftrightarrow> sealing_ok lib \<and> names_ok lib"

definition offer_ok :: "device_lib \<Rightarrow> file_offer \<Rightarrow> bool" where
  "offer_ok lib o1 \<longleftrightarrow> is_uuid (fo_id o1) \<and> printable (lib_io lib) (JObj (offer_members o1))"

text \<open>The clock does not run backwards, from the time \<open>t\<close> of the last call on.\<close>
definition file_env_ok :: "rat \<Rightarrow> file_env \<Rightarrow> bool" where
  "file_env_ok t env \<longleftrightarrow> t \<le> fe_unlink env \<and> fe_unlink env \<le> fe_delete env \<and> fe_delete env \<le> fe_clock env \<and>
     (\<forall>k. length (fe_nonce env k) = nonce_size)"

section \<open>The invariant\<close>

definition row_offered :: "device_lib \<Rightarrow> file_row \<Rightarrow> file_offer \<Rightarrow> bool" where
  "row_offered lib row o1 \<longleftrightarrow> offer_ok lib o1 \<and> is_uuid (fr_peer row) \<and> fo_id o1 = fr_id row \<and> fo_size o1 = fr_size row \<and>
     (\<exists>nonce. length nonce = 12 \<and> fr_offer row = seal_offer lib nonce (fr_peer row) (fr_id row) (offer_text lib o1))"

text \<open>The records hold the received bytes; a call that was rolled back may have left more behind them.\<close>
definition committed :: "device_lib \<Rightarrow> (string, string) dict \<Rightarrow> file_row \<Rightarrow> string \<Rightarrow> bool" where
  "committed lib disk row data \<longleftrightarrow> length data = fr_received row \<and>
     (\<exists>f extra. dget disk (row_path lib row) = Some f \<and> readable lib (fr_peer row) (fr_id row) f (data @ extra))"

definition live_ok :: "device_lib \<Rightarrow> (string, string) dict \<Rightarrow> file_row \<Rightarrow> bool" where
  "live_ok lib disk row \<longleftrightarrow>
     (\<exists>o1 data. row_offered lib row o1 \<and> committed lib disk row data \<and>
        (fr_state row = Available \<longrightarrow> int (length data) = fo_size o1 \<and> lib_sha256 lib data = fo_sha256 o1))"

abbreviation file_key :: "file_row \<Rightarrow> string \<times> string" where
  "file_key row \<equiv> (fr_peer row, fr_id row)"

definition row_bounds :: "device_lib \<Rightarrow> file_row \<Rightarrow> bool" where
  "row_bounds lib row \<longleftrightarrow> (\<exists>o1. row_offered lib row o1) \<and> 0 \<le> fr_size row \<and> int (fr_received row) \<le> fr_size row"

definition table_ok :: "device_lib \<Rightarrow> file_row list \<Rightarrow> bool" where
  "table_ok lib rows \<longleftrightarrow> distinct (map file_key rows) \<and> length rows \<le> max_files \<and> sum_list (map fr_size rows) \<le> max_total \<and>
     (\<forall>row \<in> set rows. row_bounds lib row)"

text \<open>A row that has expired by \<open>t\<close> may have lost its file.\<close>
definition store_ok :: "device_lib \<Rightarrow> rat \<Rightarrow> file_store \<Rightarrow> bool" where
  "store_ok lib t st \<longleftrightarrow> table_ok lib (fs_rows st) \<and>
     (\<forall>row \<in> set (fs_rows st). t < fr_expires row \<longrightarrow> live_ok lib (fs_disk st) row)"

section \<open>Offers and paths\<close>

lemma printable_sorted: "printable io (JObj ms) \<Longrightarrow> printable io (JObj (sort_key fst ms))"
  by (simp add: printable_members_iff distinct_map)

lemma offer_sha256: "dget (sort_key fst (offer_members o1)) ''sha256'' = Some (JStr (fo_sha256 o1))"
  by (rule map_of_is_SomeI) (simp_all add: offer_members_def)

lemma load_offer_row:
  assumes "sealing_ok lib" and "row_offered lib row o1"
  shows "load_offer lib row = Inr (JObj (sort_key fst (offer_members o1)))"
proof -
  obtain nonce where "length nonce = 12" and o: "fr_offer row = seal_offer lib nonce (fr_peer row) (fr_id row) (offer_text lib o1)"
    using assms(2) by (auto simp: row_offered_def)
  then have "open_offer lib (fr_peer row) (fr_id row) (fr_offer row) = Inr (offer_text lib o1)"
    using assms(1) by (simp add: open_offer_def seal_offer_def sealing_ok_def cipher_ok_def)
  moreover have "loads (lib_io lib) False (offer_text lib o1) = Some (JObj (sort_key fst (offer_members o1)))"
    unfolding offer_text_def
    by (rule ascii_escape.loads_flat) (use assms(2) printable_sorted in \<open>auto simp: row_offered_def offer_ok_def\<close>)
  ultimately show ?thesis by (simp add: load_offer_def)
qed

lemma row_path_inject:
  assumes "names_ok lib" and "row_bounds lib row" and "row_bounds lib row'" and "row_path lib row = row_path lib row'"
  shows "file_key row = file_key row'"
proof -
  have "is_uuid (fr_peer x) \<and> is_uuid (fr_id x)" if "row_bounds lib x" for x
    using that by (auto simp: row_bounds_def row_offered_def offer_ok_def)
  with assms show ?thesis unfolding names_ok_def row_path_def by blast
qed

lemma live_ok_disk:
  "dget disk' (row_path lib row) = dget disk (row_path lib row) \<Longrightarrow> live_ok lib disk row \<Longrightarrow> live_ok lib disk' row"
  by (simp add: live_ok_def committed_def)

lemma dget_filter_name: "Q k \<Longrightarrow> dget (filter (\<lambda>(name, f). Q name) d) k = dget d k"
  by (induction d) auto

lemma sum_list_filter_le: "\<forall>x \<in> set xs. 0 \<le> (g x :: int) \<Longrightarrow> sum_list (map g (filter Q xs)) \<le> sum_list (map g xs)"
  by (induction xs) auto

lemma table_ok_filter: "table_ok lib rows \<Longrightarrow> table_ok lib (filter Q rows)"
proof -
  assume t: "table_ok lib rows"
  then have "sum_list (map fr_size (filter Q rows)) \<le> sum_list (map fr_size rows)"
    by (intro sum_list_filter_le) (auto simp: table_ok_def row_bounds_def)
  moreover have "length (filter Q rows) \<le> max_files"
    using t length_filter_le [of Q rows] unfolding table_ok_def by linarith
  ultimately show ?thesis using t by (simp add: table_ok_def distinct_map_filter)
qed

lemma row_path_distinct:
  assumes "names_ok lib" and "table_ok lib rows" and "x \<in> set rows" and "y \<in> set rows" and "row_path lib x = row_path lib y"
  shows "x = y"
proof -
  have "file_key x = file_key y"
    using row_path_inject [OF assms(1) _ _ assms(5)] assms(2-4) by (auto simp: table_ok_def)
  then show ?thesis using assms(2-4) by (auto simp: table_ok_def distinct_map dest: inj_onD)
qed

section \<open>Expiry and rollback\<close>

lemma expire_rows: "fs_rows (expire lib env st) = filter (\<lambda>row. \<not> fr_expires row \<le> fe_delete env) (fs_rows st)"
  by (simp add: expire_def Let_def)

lemma expire_disk:
  assumes "names_ok lib" and "table_ok lib (fs_rows st)" and "file_env_ok t env"
    and "row \<in> set (fs_rows st)" and "fe_delete env < fr_expires row"
  shows "dget (fs_disk (expire lib env st)) (row_path lib row) = dget (fs_disk st) (row_path lib row)"
proof -
  have "row_path lib row \<notin> set (map (row_path lib) (filter (\<lambda>row. fr_expires row \<le> fe_unlink env) (fs_rows st)))"
    using row_path_distinct [OF assms(1,2,4)] assms(3,5) by (auto simp: file_env_ok_def)
  moreover have "row_path lib row \<in> set (map (row_path lib) (filter (\<lambda>row. \<not> fr_expires row \<le> fe_delete env) (fs_rows st)))"
    using assms(4,5) by auto
  ultimately show ?thesis unfolding expire_def Let_def file_store.select_convs by (intro dget_filter_name) blast
qed

lemma expire_live:
  assumes "files_lib_ok lib" and "store_ok lib t st" and "file_env_ok t env"
  shows "table_ok lib (fs_rows (expire lib env st))" and "\<forall>row \<in> set (fs_rows (expire lib env st)). live_ok lib (fs_disk (expire lib env st)) row"
proof -
  show "table_ok lib (fs_rows (expire lib env st))"
    using assms(2) by (simp add: store_ok_def expire_rows table_ok_filter)
  show "\<forall>row \<in> set (fs_rows (expire lib env st)). live_ok lib (fs_disk (expire lib env st)) row"
  proof
    fix row
    assume "row \<in> set (fs_rows (expire lib env st))"
    then have row: "row \<in> set (fs_rows st)" "fe_delete env < fr_expires row" by (simp_all add: expire_rows)
    have "t < fr_expires row" using row(2) assms(3) by (simp add: file_env_ok_def)
    with row assms(2) have "live_ok lib (fs_disk st) row" by (simp add: store_ok_def)
    then show "live_ok lib (fs_disk (expire lib env st)) row"
      using assms by (intro live_ok_disk [OF expire_disk [OF _ _ assms(3) row]]) (simp_all add: files_lib_ok_def store_ok_def)
  qed
qed

text \<open>
  The general rule for operations: each ends with the rows that had not expired or with other rows, and
  with a disk on which the rows that had not expired are intact.
\<close>
definition disk_kept :: "device_lib \<Rightarrow> file_env \<Rightarrow> file_store \<Rightarrow> (string, string) dict \<Rightarrow> bool" where
  "disk_kept lib env st disk \<longleftrightarrow> (\<forall>row \<in> set (fs_rows (expire lib env st)). live_ok lib disk row)"

lemma rolled_back_ok:
  assumes "store_ok lib t st" and "file_env_ok t env" and "disk_kept lib env st disk"
  shows "store_ok lib (fe_clock env) (st1\<lparr>fs_disk := disk, fs_rows := fs_rows st\<rparr>)"
proof -
  have "row \<in> set (fs_rows (expire lib env st))" if "row \<in> set (fs_rows st)" "fe_clock env < fr_expires row" for row
    using that assms(2) by (simp add: expire_rows file_env_ok_def)
  with assms(1,3) show ?thesis by (simp add: store_ok_def disk_kept_def)
qed

lemma all_live_ok: "table_ok lib (fs_rows st) \<Longrightarrow> \<forall>row \<in> set (fs_rows st). live_ok lib (fs_disk st) row \<Longrightarrow> store_ok lib t st"
  by (simp add: store_ok_def)

lemma disk_kept_expire: "files_lib_ok lib \<Longrightarrow> store_ok lib t st \<Longrightarrow> file_env_ok t env \<Longrightarrow> disk_kept lib env st (fs_disk (expire lib env st))"
  using expire_live by (simp add: disk_kept_def)

lemma expire_ok: "files_lib_ok lib \<Longrightarrow> store_ok lib t st \<Longrightarrow> file_env_ok t env \<Longrightarrow> store_ok lib s (expire lib env st)"
  using expire_live by (intro all_live_ok)

section \<open>Rows and their bytes\<close>

lemma find_file_set: "find_file p i rows = Some row \<Longrightarrow> row \<in> set rows \<and> file_key row = (p, i)"
  by (auto simp: find_file_def find_Some_iff in_set_conv_nth)

lemma find_file_key: "table_ok lib rows \<Longrightarrow> row \<in> set rows \<Longrightarrow> find_file (fr_peer row) (fr_id row) rows = Some row"
proof -
  assume "table_ok lib rows" "row \<in> set rows"
  then have "distinct (map file_key rows)" by (simp add: table_ok_def)
  then show ?thesis using \<open>row \<in> set rows\<close>
  proof (induction rows)
    case (Cons x rows)
    then show ?case by (auto simp: find_file_def image_iff)
  qed simp
qed

lemma find_in_thread_eq:
  assumes "table_ok lib rows"
  shows "find_in_thread p thread i rows =
    (case find_file p i rows of None \<Rightarrow> None | Some row \<Rightarrow> if fr_thread row = thread then Some row else None)"
proof (cases "find_in_thread p thread i rows")
  case None
  then have "\<not> (\<exists>row \<in> set rows. file_key row = (p, i) \<and> fr_thread row = thread)"
    by (auto simp: find_in_thread_def find_None_iff)
  then show ?thesis using None find_file_set [of p i rows] by (auto split: option.splits)
next
  case (Some row)
  then have "row \<in> set rows" "fr_peer row = p" "fr_id row = i" "fr_thread row = thread"
    by (auto simp: find_in_thread_def find_Some_iff)
  then show ?thesis using Some find_file_key [OF assms, of row] by simp
qed

lemma find_file_update:
  assumes "\<And>row. file_key (g row) = file_key row"
  shows "find_file q j (update_file p i g rows) =
    (if (q, j) = (p, i) then map_option g (find_file q j rows) else find_file q j rows)"
proof (induction rows)
  case (Cons row rows)
  then show ?case using assms [of row] by (auto simp: find_file_def update_file_def)
qed (simp add: find_file_def update_file_def)

lemma committed_bytes:
  assumes "sealing_ok lib" and "committed lib disk row data"
  shows "andThen (open_records lib (fr_peer row) (fr_id row) disk) (\<lambda>f. read_records lib (fr_peer row) (fr_id row) f (fr_received row)) = Inr data"
proof -
  obtain f extra where f: "dget disk (row_path lib row) = Some f" "readable lib (fr_peer row) (fr_id row) f (data @ extra)"
    and n: "length data = fr_received row" using assms(2) by (auto simp: committed_def)
  have "read_records lib (fr_peer row) (fr_id row) f (fr_received row) = Inr data"
    using read_records_readable [OF f(2) assms(1), of "fr_received row"] n by simp
  with f(1) show ?thesis by (simp add: open_records_def row_path_def)
qed

lemma slice_committed:
  assumes "sealing_ok lib" and "committed lib disk row data" and "off + n \<le> fr_received row"
  shows "slice_records lib (fr_peer row) (fr_id row) disk (fr_received row) off n = Inr (take n (drop off data))"
proof -
  obtain f extra where f: "dget disk (row_path lib row) = Some f" "readable lib (fr_peer row) (fr_id row) f (data @ extra)"
    and len: "length data = fr_received row" using assms(2) by (auto simp: committed_def)
  have "slice_records lib (fr_peer row) (fr_id row) disk (fr_received row) off n = Inr (take n (drop off (data @ extra)))"
    by (rule slice_records_readable [OF f(2) assms(1)]) (use len assms(3) f(1) in \<open>simp_all add: row_path_def\<close>)
  then show ?thesis using len assms(3) by (simp add: min_absorb2 drop_append)
qed

lemma check_repeated_eq:
  assumes "sealing_ok lib" and "committed lib disk row data"
  shows "check_repeated lib row off raw disk =
    need (0 \<le> off \<and> off + int (length raw) \<le> int (length data) \<and> take (length raw) (drop (nat off) data) = raw)
      (PairingError ''file_chunk_conflict'')"
proof -
  have n: "length data = fr_received row" using assms(2) by (simp add: committed_def)
  show ?thesis
  proof (cases "0 \<le> off \<and> off + int (length raw) \<le> int (length data)")
    case True
    then have "nat off + length raw \<le> fr_received row" "off \<le> int (fr_received row)" using n by linarith+
    then show ?thesis using True n slice_committed [OF assms, of "nat off" "length raw"] by (simp add: check_repeated_def need_def)
  next
    case False
    then show ?thesis using n by (auto simp: check_repeated_def need_def)
  qed
qed

lemma check_complete_eq:
  assumes "sealing_ok lib" and "row_offered lib row o1" and "readable lib (fr_peer row) (fr_id row) f bytes"
  shows "check_complete lib row (length bytes) f =
    need (int (length bytes) = fr_size row \<and> lib_sha256 lib bytes = fo_sha256 o1) (PairingError ''file_integrity'')"
proof -
  have "digest_records lib (fr_peer row) (fr_id row) f (length bytes) = Inr (lib_sha256 lib bytes)"
    using read_records_readable [OF assms(3,1), of "length bytes"] by (simp add: digest_records_def)
  then show ?thesis
    by (simp add: check_complete_def load_offer_row [OF assms(1,2)] offer_sha256 need_def)
qed

lemma append_committed:
  assumes "sealing_ok lib" and "committed lib disk row data" and "file_env_ok t env"
  shows "\<exists>f. andThen (open_records lib (fr_peer row) (fr_id row) disk) (append_bytes lib env row raw) = Inr f \<and>
    readable lib (fr_peer row) (fr_id row) f (data @ raw)"
proof -
  obtain f extra where f: "dget disk (row_path lib row) = Some f" "readable lib (fr_peer row) (fr_id row) f (data @ extra)"
    and n: "length data = fr_received row" using assms(2) by (auto simp: committed_def)
  have "\<exists>f1. append_bytes lib env row raw f = Inr f1 \<and>
      readable lib (fr_peer row) (fr_id row) f1 (take (fr_received row) (data @ extra) @ raw)"
    using assms(3) n by (intro append_bytes_readable [OF f(2) assms(1)]) (auto simp: file_env_ok_def)
  with f(1) n show ?thesis by (simp add: open_records_def row_path_def)
qed

lemma live_other:
  assumes "names_ok lib" and "table_ok lib rows" and "row \<in> set rows" and "x \<in> set rows" and "x \<noteq> row" and "live_ok lib disk x"
  shows "live_ok lib (dset (row_path lib row) f disk) x"
proof -
  have "row_path lib x \<noteq> row_path lib row" using row_path_distinct [OF assms(1,2,4,3)] assms(5) by blast
  then show ?thesis by (intro live_ok_disk [OF _ assms(6)]) (simp add: update_conv')
qed

lemma committed_write:
  "readable lib (fr_peer row) (fr_id row) f (data @ extra) \<Longrightarrow> length data = fr_received row \<Longrightarrow>
   committed lib (dset (row_path lib row) f disk) row data"
  by (auto simp: committed_def update_conv')

text \<open>The next chunk, whatever its outcome: the new disk holds the old bytes and the new ones.\<close>
lemma receive_next_result:
  assumes "sealing_ok lib" and "row_offered lib row o1" and "committed lib (fs_disk st) row data" and "file_env_ok t env"
  shows "\<exists>f. readable lib (fr_peer row) (fr_id row) f (data @ raw) \<and>
    receive_next lib env row c raw st =
     (let disk = dset (row_path lib row) f (fs_disk st); got = length (data @ raw);
          state = (if fc_eof c then Available else Receiving)
      in if fc_eof c \<and> \<not> (int got = fr_size row \<and> lib_sha256 lib (data @ raw) = fo_sha256 o1)
         then (Inl (PairingError ''file_integrity''), st\<lparr>fs_disk := disk\<rparr>)
         else (Inr (state, got),
               \<lparr>fs_rows = update_file (fr_peer row) (fr_id row) (\<lambda>y. y\<lparr>fr_state := state, fr_received := got\<rparr>) (fs_rows st),
                fs_disk = disk\<rparr>))"
proof -
  have n: "length data = fr_received row" using assms(3) by (simp add: committed_def)
  obtain f where f: "andThen (open_records lib (fr_peer row) (fr_id row) (fs_disk st)) (append_bytes lib env row raw) = Inr f"
    "readable lib (fr_peer row) (fr_id row) f (data @ raw)"
    using append_committed [OF assms(1,3,4)] by blast
  have "check_complete lib row (fr_received row + length raw) f =
      need (int (length (data @ raw)) = fr_size row \<and> lib_sha256 lib (data @ raw) = fo_sha256 o1) (PairingError ''file_integrity'')"
    using check_complete_eq [OF assms(1,2) f(2)] n by simp
  then show ?thesis
    using f n by (auto simp: receive_next_def Let_def need_def)
qed

section \<open>Operations keep the invariant\<close>

abbreviation live_store :: "device_lib \<Rightarrow> file_store \<Rightarrow> bool" where
  "live_store lib st \<equiv> table_ok lib (fs_rows st) \<and> (\<forall>row \<in> set (fs_rows st). live_ok lib (fs_disk st) row)"

text \<open>The outcome of an operation on a store whose rows are all alive.\<close>
definition outcome_ok :: "device_lib \<Rightarrow> file_store \<Rightarrow> file_store \<Rightarrow> bool" where
  "outcome_ok lib st st1 \<longleftrightarrow> live_store lib st1 \<and> (\<forall>row \<in> set (fs_rows st). live_ok lib (fs_disk st1) row)"

lemma update_file_set: "x \<in> set (update_file p i g rows) \<Longrightarrow> \<exists>row \<in> set rows. x = (if file_key row = (p, i) then g row else row)"
  by (auto simp: update_file_def)

lemma table_ok_update:
  assumes "table_ok lib rows" and "\<And>row. file_key (g row) = file_key row" and "\<And>row. fr_size (g row) = fr_size row"
    and "\<And>row. row \<in> set rows \<Longrightarrow> file_key row = (p, i) \<Longrightarrow> row_bounds lib (g row)"
  shows "table_ok lib (update_file p i g rows)"
proof -
  have "map file_key (update_file p i g rows) = map file_key rows" "map fr_size (update_file p i g rows) = map fr_size rows"
    "length (update_file p i g rows) = length rows"
    using assms(2,3) by (auto simp: update_file_def)
  moreover have "\<forall>x \<in> set (update_file p i g rows). row_bounds lib x"
  proof
    fix x
    assume "x \<in> set (update_file p i g rows)"
    then obtain row where "row \<in> set rows" "x = (if file_key row = (p, i) then g row else row)"
      using update_file_set by blast
    then show "row_bounds lib x" using assms(1,4) by (auto simp: table_ok_def)
  qed
  ultimately show ?thesis using assms(1) unfolding table_ok_def by metis
qed

lemma receive_next_outcome:
  assumes lib: "files_lib_ok lib" and live: "live_store lib st" and env: "file_env_ok t env"
    and row: "row \<in> set (fs_rows st)" "fr_state row = Receiving" and fits: "int (fr_received row + length raw) \<le> fr_size row"
  shows "outcome_ok lib st (snd (receive_next lib env row c raw st))"
proof -
  have sealing: "sealing_ok lib" and names: "names_ok lib" using lib by (simp_all add: files_lib_ok_def)
  obtain o1 data where o1: "row_offered lib row o1" and d: "committed lib (fs_disk st) row data"
    using live row(1) by (auto simp: live_ok_def)
  then have n: "length data = fr_received row" by (simp add: committed_def)
  obtain f where f: "readable lib (fr_peer row) (fr_id row) f (data @ raw)"
    and r: "receive_next lib env row c raw st =
     (let disk = dset (row_path lib row) f (fs_disk st); got = length (data @ raw);
          state = (if fc_eof c then Available else Receiving)
      in if fc_eof c \<and> \<not> (int got = fr_size row \<and> lib_sha256 lib (data @ raw) = fo_sha256 o1)
         then (Inl (PairingError ''file_integrity''), st\<lparr>fs_disk := disk\<rparr>)
         else (Inr (state, got),
               \<lparr>fs_rows = update_file (fr_peer row) (fr_id row) (\<lambda>y. y\<lparr>fr_state := state, fr_received := got\<rparr>) (fs_rows st),
                fs_disk = disk\<rparr>))"
    using receive_next_result [OF sealing o1 d env] by blast
  let ?disk = "dset (row_path lib row) f (fs_disk st)"
  have old: "live_ok lib ?disk x" if "x \<in> set (fs_rows st)" for x
  proof (cases "x = row")
    case True
    then show ?thesis using row(2) o1 committed_write [OF f n] by (auto simp: live_ok_def)
  next
    case False
    then show ?thesis using live_other [OF names _ row(1) that] live that by blast
  qed
  show ?thesis
  proof (cases "fc_eof c \<and> \<not> (int (length (data @ raw)) = fr_size row \<and> lib_sha256 lib (data @ raw) = fo_sha256 o1)")
    case True
    then have "snd (receive_next lib env row c raw st) = st\<lparr>fs_disk := ?disk\<rparr>" unfolding r Let_def by simp
    then show ?thesis using old live by (simp add: outcome_ok_def)
  next
    case False
    let ?g = "\<lambda>y. y\<lparr>fr_state := (if fc_eof c then Available else Receiving), fr_received := length (data @ raw)\<rparr>"
    let ?rows = "update_file (fr_peer row) (fr_id row) ?g (fs_rows st)"
    have same: "x = row" if "x \<in> set (fs_rows st)" "file_key x = file_key row" for x
      using live that row(1) by (auto simp: table_ok_def distinct_map dest: inj_onD)
    have g: "row_offered lib (?g row) o1" "row_path lib (?g row) = row_path lib row" "fr_peer (?g row) = fr_peer row" "fr_id (?g row) = fr_id row"
      using o1 by (simp_all add: row_offered_def row_path_def)
    have new: "live_ok lib ?disk (?g row)"
    proof -
      have "committed lib ?disk (?g row) (data @ raw)"
        using committed_write [of lib "?g row" f "data @ raw" "[]" "fs_disk st"] f g by simp
      then show ?thesis
        unfolding live_ok_def
        by (intro exI [of _ o1] exI [of _ "data @ raw"] conjI g(1)) (use False o1 in \<open>auto simp: row_offered_def\<close>)
    qed
    have "row_bounds lib (?g row)"
      using g(1) fits n live row(1) by (auto simp: row_bounds_def table_ok_def)
    then have "row_bounds lib (?g x)" if "x \<in> set (fs_rows st)" "file_key x = file_key row" for x
      using same [OF that] by simp
    then have "table_ok lib ?rows"
      using live by (intro table_ok_update) simp_all
    moreover have "live_ok lib ?disk x" if x: "x \<in> set ?rows" for x
    proof -
      obtain y where y: "y \<in> set (fs_rows st)" "x = (if file_key y = file_key row then ?g y else y)"
        using update_file_set [OF x] by blast
      then have "x = ?g row \<or> x = y" using same [OF y(1)] by metis
      then show ?thesis using old [OF y(1)] new by blast
    qed
    moreover have "snd (receive_next lib env row c raw st) = \<lparr>fs_rows = ?rows, fs_disk = ?disk\<rparr>"
      unfolding r Let_def if_not_P [OF False] snd_conv by (rule refl)
    ultimately show ?thesis using old by (simp add: outcome_ok_def)
  qed
qed

lemma outcome_same: "live_store lib st \<Longrightarrow> outcome_ok lib st st"
  by (simp add: outcome_ok_def)

lemma receive_outcome:
  assumes lib: "files_lib_ok lib" and st: "store_ok lib t st" and env: "file_env_ok t env"
  shows "outcome_ok lib (expire lib env st) (snd (receive_file lib env p thread c st))"
proof -
  let ?st = "expire lib env st"
  have live: "live_store lib ?st" using expire_live [OF lib st env] by blast
  have next_ok: "outcome_ok lib ?st (snd (receive_next lib env row c raw ?st))"
    if "find_in_thread p thread (fc_id c) (fs_rows ?st) = Some row"
      "\<not> (fr_state row \<noteq> Receiving \<or> fc_offset c \<noteq> int (fr_received row) \<or> fr_size row < fc_offset c + int (length raw) \<or> raw = [] \<and> \<not> fc_eof c)"
    for row raw
  proof (rule receive_next_outcome [OF lib live env])
    show "row \<in> set (fs_rows ?st)" using that(1) by (auto simp: find_in_thread_def find_Some_iff)
  qed (use that(2) in auto)
  show ?thesis
    using next_ok outcome_same [OF live] by (auto simp: receive_file_def receive_row_def Let_def split: option.split sum.split)
qed

lemma offer_outcome:
  assumes lib: "files_lib_ok lib" and st: "store_ok lib t st" and env: "file_env_ok t env" and o1: "offer_ok lib o1" "is_uuid p"
  shows "outcome_ok lib (expire lib env st) (snd (offer_file lib env p thread o1 limit st))"
proof -
  let ?st = "expire lib env st"
  let ?row = "new_row lib (fe_nonce env 0) p thread o1 Receiving 0"
  let ?new = "\<lparr>fs_rows = fs_rows ?st @ [?row], fs_disk = dset (file_path lib p (fo_id o1)) [] (fs_disk ?st)\<rparr>"
  have live: "live_store lib ?st" using expire_live [OF lib st env] by blast
  have "outcome_ok lib ?st ?new" if "check_offer lib env p thread o1 limit (fs_rows ?st) = Inr True"
  proof -
    have none: "find_file p (fo_id o1) (fs_rows ?st) = None" and b: "offer_bounds env limit o1"
      and r: "reserve env (fo_size o1) (fs_rows ?st) = Inr ()"
      using that by (auto simp: check_offer_def andThen_eq_Inr need_def split: option.splits if_splits)
    have offered: "row_offered lib ?row o1"
      using o1 env by (auto simp: row_offered_def new_row_def file_env_ok_def nonce_size_def)
    have bounds: "row_bounds lib ?row" using offered b by (auto simp: row_bounds_def new_row_def offer_bounds_def)
    have key: "file_key x \<noteq> (p, fo_id o1)" if "x \<in> set (fs_rows ?st)" for x
      using none that by (auto simp: find_file_def find_None_iff)
    then have "(p, fo_id o1) \<notin> file_key ` set (fs_rows ?st)" by (metis (no_types, lifting) imageE)
    moreover have "file_key ?row = (p, fo_id o1)" "fr_size ?row = fo_size o1" by (simp_all add: new_row_def)
    moreover have "Suc (length (fs_rows ?st)) \<le> max_files" "sum_list (map fr_size (fs_rows ?st)) + fo_size o1 \<le> max_total"
      using r by (auto simp: reserve_def andThen_eq_Inr need_def split: if_splits)
    ultimately have table: "table_ok lib (fs_rows ?new)"
      using live bounds by (simp add: table_ok_def)
    have path: "row_path lib ?row = file_path lib p (fo_id o1)" by (simp add: row_path_def new_row_def)
    have "live_ok lib (fs_disk ?new) x" if "x \<in> set (fs_rows ?st)" for x
    proof -
      have "x \<noteq> ?row" using key [OF that] by (auto simp: new_row_def)
      then have "live_ok lib (dset (row_path lib ?row) [] (fs_disk ?st)) x"
        using that live lib by (intro live_other [OF _ table]) (auto simp: files_lib_ok_def)
      then show ?thesis by (simp add: path)
    qed
    moreover have "live_ok lib (fs_disk ?new) ?row"
      unfolding live_ok_def
    proof (intro exI conjI)
      show "committed lib (fs_disk ?new) ?row []"
        using committed_write [of lib ?row "[]" "[]" "[]"] path by (simp add: readable_def new_row_def)
    qed (use offered in \<open>auto simp: new_row_def\<close>)
    ultimately show ?thesis using table by (auto simp: outcome_ok_def)
  qed
  then show ?thesis
    using outcome_same [OF live] by (auto simp: offer_file_def Let_def split: sum.split bool.split)
qed

lemma cancel_outcome:
  assumes lib: "files_lib_ok lib" and st: "store_ok lib t st" and env: "file_env_ok t env"
  shows "live_store lib (snd (cancel_file lib env p thread i st))"
proof -
  let ?hit = "\<lambda>row. fr_peer row = p \<and> fr_id row = i \<and> fr_thread row = thread"
  let ?st = "\<lparr>fs_rows = filter (\<lambda>row. \<not> ?hit row) (fs_rows st),
    fs_disk = (if list_ex ?hit (fs_rows st) then ddel (file_path lib p i) (fs_disk st) else fs_disk st)\<rparr>"
  have table: "table_ok lib (fs_rows st)" using st by (simp add: store_ok_def)
  have "live_ok lib (fs_disk ?st) row" if row: "row \<in> set (fs_rows st)" "\<not> ?hit row" "t < fr_expires row" for row
  proof -
    have "row_path lib row \<noteq> file_path lib p i" if hit: "list_ex ?hit (fs_rows st)"
    proof
      assume eq: "row_path lib row = file_path lib p i"
      obtain x where "x \<in> set (fs_rows st)" "?hit x" using hit by (auto simp: list_ex_iff)
      then have "row = x"
        using row_path_distinct [of lib "fs_rows st" row x] lib table row(1) eq by (auto simp: files_lib_ok_def row_path_def)
      with \<open>?hit x\<close> row(2) show False by simp
    qed
    then have "dget (fs_disk ?st) (row_path lib row) = dget (fs_disk st) (row_path lib row)"
      by (simp add: delete_conv')
    moreover have "live_ok lib (fs_disk st) row" using st row(1,3) by (simp add: store_ok_def)
    ultimately show ?thesis by (rule live_ok_disk)
  qed
  then have "store_ok lib t ?st" using table_ok_filter [OF table] by (simp add: store_ok_def)
  then show ?thesis
    using expire_live [OF lib _ env] unfolding cancel_file_def Let_def snd_conv by blast
qed

end
