(* ===== verification/File_Properties.thy ===== *)
theory File_Properties
  imports File_Transfer
begin

text \<open>
  The file store over any sequence of calls: what a transfer has received refines to a byte string, a
  complete file is served as it was offered, and the quotas hold.
\<close>

section \<open>Sequences of calls\<close>

datatype file_request =
  OfferFile string string file_offer int
| ReceiveChunk string string file_chunk
| CancelFile string string string
| ServeFile string string string

text \<open>The peer of a session has been authenticated, and offers have passed the event schema.\<close>
fun request_ok :: "device_lib \<Rightarrow> file_request \<Rightarrow> bool" where
  "request_ok lib (OfferFile p thread o1 limit) = (is_uuid p \<and> offer_ok lib o1)"
| "request_ok lib _ = True"

fun perform_file :: "device_lib \<Rightarrow> file_env \<Rightarrow> file_request \<Rightarrow> unit file_op" where
  "perform_file lib env (OfferFile p thread o1 limit) st = offer_file lib env p thread o1 limit st"
| "perform_file lib env (ReceiveChunk p thread c) st =
     (case receive_file lib env p thread c st of (res, st1) \<Rightarrow> (andThen res (\<lambda>_. Inr ()), st1))"
| "perform_file lib env (CancelFile p thread i) st = cancel_file lib env p thread i st"
| "perform_file lib env (ServeFile p thread i) st =
     (case available lib env p thread i st of (res, st1) \<Rightarrow> (andThen res (\<lambda>_. Inr ()), st1))"

text \<open>
  A call that raises is rolled back. So may be one that succeeds, when the handler around it fails later;
  a cancellation is excluded here, since it removes the records at once.
\<close>
inductive file_reachable :: "device_lib \<Rightarrow> rat \<Rightarrow> file_store \<Rightarrow> bool" for lib where
  start: "file_reachable lib t \<lparr>fs_rows = [], fs_disk = []\<rparr>"
| called: "file_reachable lib t st \<Longrightarrow> file_env_ok t env \<Longrightarrow> request_ok lib q \<Longrightarrow>
    file_reachable lib (fe_clock env) (snd (transact (perform_file lib env q) st))"
| undone: "file_reachable lib t st \<Longrightarrow> file_env_ok t env \<Longrightarrow> request_ok lib q \<Longrightarrow> \<forall>p thread i. q \<noteq> CancelFile p thread i \<Longrightarrow>
    file_reachable lib (fe_clock env) ((snd (perform_file lib env q st))\<lparr>fs_rows := fs_rows st\<rparr>)"

lemma perform_outcome:
  assumes "files_lib_ok lib" and "store_ok lib t st" and "file_env_ok t env" and "request_ok lib q"
    and "\<forall>p thread i. q \<noteq> CancelFile p thread i"
  shows "outcome_ok lib (expire lib env st) (snd (perform_file lib env q st))"
proof (cases q)
  case (OfferFile p thread o1 limit)
  then show ?thesis using offer_outcome [OF assms(1-3)] assms(4) by simp
next
  case (ReceiveChunk p thread c)
  then show ?thesis using receive_outcome [OF assms(1-3), of p thread c] by (simp add: case_prod_beta)
next
  case (ServeFile p thread i)
  have "snd (available lib env p thread i st) = expire lib env st" by (simp add: available_def Let_def split: option.split)
  then show ?thesis using ServeFile expire_live [OF assms(1-3)] by (simp add: outcome_ok_def case_prod_beta)
qed (use assms(5) in blast)

lemma outcome_undone:
  assumes "store_ok lib t st" and "file_env_ok t env" and "outcome_ok lib (expire lib env st) st1"
  shows "store_ok lib (fe_clock env) (st1\<lparr>fs_rows := fs_rows st\<rparr>)"
proof -
  have "disk_kept lib env st (fs_disk st1)" using assms(3) by (simp add: disk_kept_def outcome_ok_def)
  from rolled_back_ok [OF assms(1,2) this, of st1] show ?thesis by simp
qed

lemma store_invariant: "file_reachable lib t st \<Longrightarrow> files_lib_ok lib \<Longrightarrow> store_ok lib t st"
proof (induction rule: file_reachable.induct)
  case (start t)
  then show ?case by (simp add: store_ok_def table_ok_def file_limits)
next
  case (undone t st env q)
  then show ?case by (intro outcome_undone [OF _ undone.hyps(2)] perform_outcome) auto
next
  case (called t st env q)
  then have ok: "store_ok lib t st" by blast
  show ?case
  proof (cases "\<exists>p thread i. q = CancelFile p thread i")
    case True
    then show ?thesis
      using cancel_outcome [OF called.prems ok called.hyps(2)]
      by (auto simp: transact_def cancel_file_def Let_def intro: all_live_ok)
  next
    case False
    then have out: "outcome_ok lib (expire lib env st) (snd (perform_file lib env q st))"
      using perform_outcome [OF called.prems ok called.hyps(2,3)] by blast
    then show ?thesis
      using outcome_undone [OF ok called.hyps(2) out]
      by (auto simp: transact_def outcome_ok_def split: prod.split sum.split intro: all_live_ok)
  qed
qed

section \<open>A transfer as a byte string\<close>

record transfer =
  tr_thread :: string
  tr_expires :: rat
  tr_size :: int
  tr_sha256 :: string
  tr_state :: transfer_state
  tr_data :: string

text \<open>The view of a row: its digest is read from the sealed offer and its bytes from the records.\<close>
definition view_row :: "device_lib \<Rightarrow> (string, string) dict \<Rightarrow> file_row \<Rightarrow> transfer" where
  "view_row lib disk row =
     \<lparr>tr_thread = fr_thread row, tr_expires = fr_expires row, tr_size = fr_size row,
      tr_sha256 = (case load_offer lib row of
          Inr v \<Rightarrow> (case jget v ''sha256'' of Some (JStr s) \<Rightarrow> s | _ \<Rightarrow> []) | Inl _ \<Rightarrow> []),
      tr_state = fr_state row,
      tr_data = (case andThen (open_records lib (fr_peer row) (fr_id row) disk)
          (\<lambda>f. read_records lib (fr_peer row) (fr_id row) f (fr_received row)) of Inr d \<Rightarrow> d | Inl _ \<Rightarrow> [])\<rparr>"

text \<open>The transfers that have not expired at a time.\<close>
definition view :: "device_lib \<Rightarrow> rat \<Rightarrow> file_store \<Rightarrow> string \<Rightarrow> string \<Rightarrow> transfer option" where
  "view lib now st p i =
     map_option (view_row lib (fs_disk st)) (find_file p i (filter (\<lambda>row. \<not> fr_expires row \<le> now) (fs_rows st)))"

text \<open>What a chunk does to a transfer.\<close>
definition accept_chunk :: "device_lib \<Rightarrow> string \<Rightarrow> file_chunk \<Rightarrow> transfer \<Rightarrow> registry_error + transfer" where
  "accept_chunk lib thread c t =
     andThen (need (tr_thread t = thread) (PairingError ''file_unavailable'')) (\<lambda>_.
     andThen (chunk_bytes (fc_data c)) (\<lambda>raw.
       if tr_state t = Available \<or> fc_offset c < int (length (tr_data t))
       then andThen (need (0 \<le> fc_offset c \<and> fc_offset c + int (length raw) \<le> int (length (tr_data t)) \<and>
           take (length raw) (drop (nat (fc_offset c)) (tr_data t)) = raw) (PairingError ''file_chunk_conflict'')) (\<lambda>_. Inr t)
       else if tr_state t \<noteq> Receiving \<or> fc_offset c \<noteq> int (length (tr_data t)) \<or>
         tr_size t < fc_offset c + int (length raw) \<or> raw = [] \<and> \<not> fc_eof c
       then Inl (PairingError ''file_chunk_offset'')
       else if fc_eof c
       then andThen (need (int (length (tr_data t @ raw)) = tr_size t \<and> lib_sha256 lib (tr_data t @ raw) = tr_sha256 t)
           (PairingError ''file_integrity'')) (\<lambda>_. Inr (t\<lparr>tr_state := Available, tr_data := tr_data t @ raw\<rparr>))
       else Inr (t\<lparr>tr_data := tr_data t @ raw\<rparr>)))"

lemma view_row_eq:
  assumes "sealing_ok lib" and "row_offered lib row o1" and "committed lib disk row data"
  shows "view_row lib disk row = \<lparr>tr_thread = fr_thread row, tr_expires = fr_expires row, tr_size = fr_size row, tr_sha256 = fo_sha256 o1,
    tr_state = fr_state row, tr_data = data\<rparr>"
  by (simp add: view_row_def load_offer_row [OF assms(1,2)] offer_sha256 committed_bytes [OF assms(1,3)])

lemma committed_unique: "sealing_ok lib \<Longrightarrow> committed lib disk row d1 \<Longrightarrow> committed lib disk row d2 \<Longrightarrow> d1 = d2"
  by (metis committed_bytes sum.inject(2))

lemma view_row_disk: "dget disk' (row_path lib row) = dget disk (row_path lib row) \<Longrightarrow> view_row lib disk' row = view_row lib disk row"
  by (simp add: view_row_def open_records_def row_path_def)

definition rows_view :: "device_lib \<Rightarrow> (string, string) dict \<Rightarrow> file_row list \<Rightarrow> string \<Rightarrow> string \<Rightarrow> transfer option" where
  "rows_view lib disk rows p i = map_option (view_row lib disk) (find_file p i rows)"

lemma rows_view_cong:
  "(\<And>row. row \<in> set rows \<Longrightarrow> view_row lib disk' row = view_row lib disk row) \<Longrightarrow> rows_view lib disk' rows = rows_view lib disk rows"
  by (auto simp: rows_view_def fun_eq_iff dest!: find_file_set intro!: option.map_cong)

lemma view_before:
  assumes "names_ok lib" and "table_ok lib (fs_rows st)" and "file_env_ok t env"
  shows "view lib (fe_delete env) st = rows_view lib (fs_disk (expire lib env st)) (fs_rows (expire lib env st))"
proof -
  have "rows_view lib (fs_disk (expire lib env st)) (fs_rows (expire lib env st)) = rows_view lib (fs_disk st) (fs_rows (expire lib env st))"
    using expire_disk [OF assms] by (intro rows_view_cong view_row_disk) (auto simp: expire_rows)
  then show ?thesis by (simp add: view_def rows_view_def fun_eq_iff expire_rows)
qed

lemma view_undone: "view lib (fe_delete env) (st1\<lparr>fs_rows := fs_rows st\<rparr>) = rows_view lib (fs_disk st1) (fs_rows (expire lib env st))"
  by (simp add: view_def rows_view_def fun_eq_iff expire_rows)

lemma view_after:
  "\<forall>row \<in> set (fs_rows st1). now < fr_expires row \<Longrightarrow> view lib now st1 = rows_view lib (fs_disk st1) (fs_rows st1)"
proof -
  assume "\<forall>row \<in> set (fs_rows st1). now < fr_expires row"
  then have "filter (\<lambda>row. \<not> fr_expires row \<le> now) (fs_rows st1) = fs_rows st1" by (simp add: filter_id_conv not_le)
  then show ?thesis by (simp add: view_def rows_view_def fun_eq_iff)
qed

text \<open>Writing to the records of one row.\<close>
lemma view_written:
  assumes "sealing_ok lib" and "names_ok lib" and "live_store lib st" and "row \<in> set (fs_rows st)" and "row_offered lib row o1"
    and "readable lib (fr_peer row) (fr_id row) f (data @ raw)" and "committed lib (fs_disk st) row data"
  shows "x \<in> set (fs_rows st) \<Longrightarrow> view_row lib (dset (row_path lib row) f (fs_disk st)) x = view_row lib (fs_disk st) x"
proof (cases "x = row")
  case True
  have "committed lib (dset (row_path lib row) f (fs_disk st)) row data"
    using assms(6,7) by (intro committed_write) (auto simp: committed_def)
  then show ?thesis unfolding True using view_row_eq [OF assms(1,5)] assms(7) by simp
next
  case False
  assume "x \<in> set (fs_rows st)"
  with False have "row_path lib x \<noteq> row_path lib row"
    using row_path_distinct [OF assms(2), of "fs_rows st" x row] assms(3,4) by blast
  then show ?thesis by (intro view_row_disk) (simp add: update_conv')
qed

definition received_row :: "transfer_state \<Rightarrow> nat \<Rightarrow> file_row \<Rightarrow> file_row" where
  "received_row state got y = y\<lparr>fr_state := state, fr_received := got\<rparr>"

lemma view_received:
  assumes "sealing_ok lib" and "names_ok lib" and "live_store lib st" and "row \<in> set (fs_rows st)" and "row_offered lib row o1"
    and "readable lib (fr_peer row) (fr_id row) f (data @ raw)" and "committed lib (fs_disk st) row data"
  shows "rows_view lib (dset (row_path lib row) f (fs_disk st))
      (update_file (fr_peer row) (fr_id row) (received_row state (length (data @ raw))) (fs_rows st)) =
    (\<lambda>q j. if (q, j) = file_key row
       then Some \<lparr>tr_thread = fr_thread row, tr_expires = fr_expires row, tr_size = fr_size row, tr_sha256 = fo_sha256 o1, tr_state = state, tr_data = data @ raw\<rparr>
       else rows_view lib (fs_disk st) (fs_rows st) q j)" (is "rows_view lib ?disk ?rows = ?new")
proof (intro ext)
  fix q j
  let ?g = "received_row state (length (data @ raw))"
  have g: "fr_peer (?g y) = fr_peer y" "fr_id (?g y) = fr_id y" for y by (simp_all add: received_row_def)
  have upd: "find_file q j ?rows = (if (q, j) = file_key row then map_option ?g (find_file q j (fs_rows st)) else find_file q j (fs_rows st))"
    using find_file_update [of ?g] g by simp
  show "rows_view lib ?disk ?rows q j = ?new q j"
  proof (cases "(q, j) = file_key row")
    case True
    then have "find_file q j (fs_rows st) = Some row" using find_file_key assms(3,4) by blast
    moreover have "row_offered lib (?g row) o1" using assms(5) by (simp add: row_offered_def received_row_def)
    moreover have "committed lib ?disk (?g row) (data @ raw)"
      using committed_write [of lib "?g row" f "data @ raw" "[]" "fs_disk st"] assms(6)
      by (simp add: received_row_def row_path_def)
    ultimately show ?thesis
      using True upd view_row_eq [OF assms(1), of "?g row" o1 ?disk "data @ raw"] by (simp add: rows_view_def received_row_def)
  next
    case False
    have "rows_view lib ?disk (fs_rows st) = rows_view lib (fs_disk st) (fs_rows st)"
      using view_written [OF assms] by (intro rows_view_cong)
    then show ?thesis using False upd by (auto simp: rows_view_def fun_eq_iff)
  qed
qed

text \<open>The next chunk, seen from the transfer; \<open>st\<close> is the store after expiry.\<close>
lemma receive_next_view:
  assumes lib: "sealing_ok lib" "names_ok lib" and live: "live_store lib st" and env: "file_env_ok t env"
    and row: "row \<in> set (fs_rows st)" "row_offered lib row o1" "committed lib (fs_disk st) row data"
    and r: "receive_next lib env row c raw st = (res, st1)"
  shows "if fc_eof c \<and> \<not> (int (length (data @ raw)) = fr_size row \<and> lib_sha256 lib (data @ raw) = fo_sha256 o1)
    then res = Inl (PairingError ''file_integrity'') \<and> rows_view lib (fs_disk st1) (fs_rows st) = rows_view lib (fs_disk st) (fs_rows st)
    else res = Inr (if fc_eof c then Available else Receiving, length (data @ raw)) \<and>
      map fr_expires (fs_rows st1) = map fr_expires (fs_rows st) \<and>
      rows_view lib (fs_disk st1) (fs_rows st1) = (\<lambda>q j. if (q, j) = file_key row
       then Some \<lparr>tr_thread = fr_thread row, tr_expires = fr_expires row, tr_size = fr_size row, tr_sha256 = fo_sha256 o1,
              tr_state = (if fc_eof c then Available else Receiving), tr_data = data @ raw\<rparr>
       else rows_view lib (fs_disk st) (fs_rows st) q j)"
    (is "if ?bad then _ else _")
proof -
  obtain f where f: "readable lib (fr_peer row) (fr_id row) f (data @ raw)"
    and eq: "(res, st1) = (let disk = dset (row_path lib row) f (fs_disk st); got = length (data @ raw);
          state = (if fc_eof c then Available else Receiving)
      in if ?bad then (Inl (PairingError ''file_integrity''), st\<lparr>fs_disk := disk\<rparr>)
         else (Inr (state, got),
               \<lparr>fs_rows = update_file (fr_peer row) (fr_id row) (received_row state got) (fs_rows st), fs_disk = disk\<rparr>))"
    using receive_next_result [OF lib(1) row(2,3) env] r unfolding received_row_def by metis
  let ?disk = "dset (row_path lib row) f (fs_disk st)" and ?state = "if fc_eof c then Available else Receiving"
  note facts = lib live row(1,2) f row(3)
  show ?thesis
  proof (cases ?bad)
    case True
    then have "res = Inl (PairingError ''file_integrity'')" "fs_disk st1 = ?disk"
      using eq unfolding Let_def if_P [OF True] by auto
    moreover have "rows_view lib ?disk (fs_rows st) = rows_view lib (fs_disk st) (fs_rows st)"
      using view_written [OF facts] by (intro rows_view_cong)
    ultimately show ?thesis unfolding if_P [OF True] by simp
  next
    case False
    have "res = Inr (?state, length (data @ raw))" "fs_disk st1 = ?disk"
      "fs_rows st1 = update_file (fr_peer row) (fr_id row) (received_row ?state (length (data @ raw))) (fs_rows st)"
      using eq unfolding Let_def if_not_P [OF False] by auto
    then show ?thesis
      unfolding if_not_P [OF False] using view_received [OF facts, of ?state] by (simp add: update_file_def received_row_def)
  qed
qed

text \<open>A decoded chunk for a row, seen from the transfer.\<close>
definition refines_chunk :: "device_lib \<Rightarrow> registry_error + transfer \<Rightarrow> string \<Rightarrow> string \<Rightarrow> (registry_error + transfer_state \<times> nat) \<Rightarrow> file_store \<Rightarrow> file_store \<Rightarrow> bool" where
  "refines_chunk lib spec p i res st st1 \<longleftrightarrow>
     (case spec of
        Inl e \<Rightarrow> res = Inl e \<and> rows_view lib (fs_disk st1) (fs_rows st) = rows_view lib (fs_disk st) (fs_rows st)
      | Inr t1 \<Rightarrow> res = Inr (tr_state t1, length (tr_data t1)) \<and> map fr_expires (fs_rows st1) = map fr_expires (fs_rows st) \<and>
          rows_view lib (fs_disk st1) (fs_rows st1) =
            (\<lambda>q j. if (q, j) = (p, i) then Some t1 else rows_view lib (fs_disk st) (fs_rows st) q j))"

lemma refines_error: "refines_chunk lib (Inl e) p i (Inl e) st st"
  by (simp add: refines_chunk_def)

lemma receive_row_view:
  assumes lib: "sealing_ok lib" "names_ok lib" and live: "live_store lib st" and env: "file_env_ok t env"
    and row: "row \<in> set (fs_rows st)" "row_offered lib row o1" "committed lib (fs_disk st) row data"
    and raw: "chunk_bytes (fc_data c) = Inr raw" and r: "receive_row lib env row c raw st = (res, st1)"
  shows "refines_chunk lib (accept_chunk lib (fr_thread row) c (view_row lib (fs_disk st) row)) (fr_peer row) (fr_id row) res st st1"
proof -
  have n: "length data = fr_received row" using row(3) by (simp add: committed_def)
  note v = view_row_eq [OF lib(1) row(2,3)]
  have old: "rows_view lib (fs_disk st) (fs_rows st) (fr_peer row) (fr_id row) = Some (view_row lib (fs_disk st) row)"
    using find_file_key [of lib "fs_rows st" row] live row(1) by (simp add: rows_view_def)
  let ?again = "fr_state row = Available \<or> fc_offset c < int (length data)"
  let ?wrong = "fr_state row \<noteq> Receiving \<or> fc_offset c \<noteq> int (length data) \<or> fr_size row < fc_offset c + int (length raw) \<or> raw = [] \<and> \<not> fc_eof c"
  let ?same = "0 \<le> fc_offset c \<and> fc_offset c + int (length raw) \<le> int (length data) \<and> take (length raw) (drop (nat (fc_offset c)) data) = raw"
  have again: "?thesis" if ?again
  proof -
    have "accept_chunk lib (fr_thread row) c (view_row lib (fs_disk st) row) =
        andThen (need ?same (PairingError ''file_chunk_conflict'')) (\<lambda>_. Inr (view_row lib (fs_disk st) row))"
      using that by (simp add: accept_chunk_def need_def v raw)
    moreover have "res = andThen (need ?same (PairingError ''file_chunk_conflict'')) (\<lambda>_. Inr (fr_state row, fr_received row))" "st1 = st"
      using r that n unfolding receive_row_def check_repeated_eq [OF lib(1) row(3)] by simp_all
    ultimately show ?thesis using n old by (cases ?same) (auto simp: need_def refines_chunk_def v fun_eq_iff)
  qed
  have wrong: "?thesis" if "\<not> ?again" ?wrong
  proof -
    have "accept_chunk lib (fr_thread row) c (view_row lib (fs_disk st) row) = Inl (PairingError ''file_chunk_offset'')"
      using that raw by (simp add: accept_chunk_def need_def v)
    moreover have "res = Inl (PairingError ''file_chunk_offset'')" "st1 = st" using r that n unfolding receive_row_def by simp_all
    ultimately show ?thesis by (simp add: refines_error)
  qed
  show ?thesis
  proof (cases "?again \<or> ?wrong")
    case True
    then show ?thesis using again wrong by blast
  next
    case False
    then have r1: "receive_next lib env row c raw st = (res, st1)" using r n unfolding receive_row_def by auto
    have acc: "accept_chunk lib (fr_thread row) c (view_row lib (fs_disk st) row) =
       (if fc_eof c \<and> \<not> (int (length (data @ raw)) = fr_size row \<and> lib_sha256 lib (data @ raw) = fo_sha256 o1)
        then Inl (PairingError ''file_integrity'')
        else Inr ((view_row lib (fs_disk st) row)\<lparr>tr_state := (if fc_eof c then Available else Receiving), tr_data := data @ raw\<rparr>))"
      using False raw by (auto simp: accept_chunk_def need_def v)
    show ?thesis
      using receive_next_view [OF lib live env row r1] unfolding acc
      by (auto simp: refines_chunk_def v split: if_split_asm)
  qed
qed

lemma receive_file_view:
  assumes lib: "sealing_ok lib" "names_ok lib" and live: "live_store lib (expire lib env st)" and env: "file_env_ok t env"
    and row: "find_file p (fc_id c) (fs_rows (expire lib env st)) = Some row"
    and r: "receive_file lib env p thread c st = (res, st1)"
  shows "refines_chunk lib (accept_chunk lib thread c (view_row lib (fs_disk (expire lib env st)) row)) p (fc_id c) res (expire lib env st) st1"
proof -
  let ?st = "expire lib env st"
  have key: "row \<in> set (fs_rows ?st)" "fr_peer row = p" "fr_id row = fc_id c" using find_file_set [OF row] by auto
  obtain o1 data where o1: "row_offered lib row o1" "committed lib (fs_disk ?st) row data"
    using live key(1) by (auto simp: live_ok_def)
  note v = view_row_eq [OF lib(1) o1]
  have found: "find_in_thread p thread (fc_id c) (fs_rows ?st) = (if fr_thread row = thread then Some row else None)"
    using find_in_thread_eq [of lib "fs_rows ?st"] live row by simp
  have spec: "accept_chunk lib thread c (view_row lib (fs_disk ?st) row) =
      andThen (need (fr_thread row = thread) (PairingError ''file_unavailable'')) (\<lambda>_.
      andThen (chunk_bytes (fc_data c)) (\<lambda>raw. accept_chunk lib thread c (view_row lib (fs_disk ?st) row)))"
    by (cases "chunk_bytes (fc_data c)"; cases "fr_thread row = thread") (simp_all add: accept_chunk_def need_def v)
  consider (thread) "fr_thread row \<noteq> thread" | (coding) e where "fr_thread row = thread" "chunk_bytes (fc_data c) = Inl e"
    | (decoded) raw where "fr_thread row = thread" "chunk_bytes (fc_data c) = Inr raw"
    by (cases "chunk_bytes (fc_data c)") auto
  then show ?thesis
  proof cases
    case thread
    then show ?thesis using r spec unfolding receive_file_def Let_def found by (auto simp: need_def refines_error)
  next
    case coding
    then show ?thesis using r spec unfolding receive_file_def Let_def found by (auto simp: need_def refines_error)
  next
    case decoded
    then have "receive_row lib env row c raw ?st = (res, st1)" using r unfolding receive_file_def Let_def found by simp
    from receive_row_view [OF lib live env key(1) o1 decoded(2) this] show ?thesis using decoded(1) key by simp
  qed
qed

lemma receive_refinement:
  assumes "files_lib_ok lib" and "file_reachable lib t st" and "file_env_ok t env"
    and "transact (receive_file lib env p thread c) st = (res, st1)"
  shows "case view lib (fe_delete env) st p (fc_id c) of
      None \<Rightarrow> res = Inl (PairingError ''file_unavailable'') \<and> view lib (fe_delete env) st1 = view lib (fe_delete env) st
    | Some tr \<Rightarrow>
        (case accept_chunk lib thread c tr of
           Inl e \<Rightarrow> res = Inl e \<and> view lib (fe_delete env) st1 = view lib (fe_delete env) st
         | Inr tr1 \<Rightarrow> res = Inr (tr_state tr1, length (tr_data tr1)) \<and>
             view lib (fe_delete env) st1 =
               (\<lambda>q j. if (q, j) = (p, fc_id c) then Some tr1 else view lib (fe_delete env) st q j))"
proof -
  let ?st = "expire lib env st" and ?now = "fe_delete env"
  have lib: "sealing_ok lib" "names_ok lib" using assms(1) by (simp_all add: files_lib_ok_def)
  have ok: "store_ok lib t st" by (rule store_invariant [OF assms(2,1)])
  have live: "live_store lib ?st" using expire_live [OF assms(1) ok assms(3)] by blast
  have before: "view lib ?now st = rows_view lib (fs_disk ?st) (fs_rows ?st)"
    using ok by (intro view_before [OF lib(2) _ assms(3)]) (simp add: store_ok_def)
  obtain s1 where s1: "receive_file lib env p thread c st = (res, s1)"
    "st1 = (case res of Inl _ \<Rightarrow> s1\<lparr>fs_rows := fs_rows st\<rparr> | Inr _ \<Rightarrow> s1)"
    using assms(4) by (auto simp: transact_def split: prod.splits sum.splits)
  have alive: "\<forall>row \<in> set (fs_rows s1). ?now < fr_expires row" if "map fr_expires (fs_rows s1) = map fr_expires (fs_rows ?st)"
  proof -
    have "fr_expires ` set (fs_rows s1) = fr_expires ` set (fs_rows ?st)" using arg_cong [OF that, of set] by simp
    moreover have "\<forall>e \<in> fr_expires ` set (fs_rows ?st). ?now < e" by (auto simp: expire_rows)
    ultimately show ?thesis by (metis image_eqI)
  qed
  show ?thesis
  proof (cases "find_file p (fc_id c) (fs_rows ?st)")
    case None
    then have "find_in_thread p thread (fc_id c) (fs_rows ?st) = None" using find_in_thread_eq [of lib "fs_rows ?st"] live by simp
    then have "res = Inl (PairingError ''file_unavailable'')" "s1 = ?st" using s1(1) by (auto simp: receive_file_def Let_def)
    then have "view lib ?now st1 = view lib ?now st" using s1(2) by (simp add: before view_undone)
    moreover have "view lib ?now st p (fc_id c) = None" using None by (simp add: before rows_view_def)
    ultimately show ?thesis using \<open>res = _\<close> by simp
  next
    case (Some row)
    then have tr: "view lib ?now st p (fc_id c) = Some (view_row lib (fs_disk ?st) row)" by (simp add: before rows_view_def)
    from receive_file_view [OF lib live assms(3) Some s1(1)] show ?thesis
      unfolding tr refines_chunk_def unfolding before using s1(2) alive view_after [of s1 ?now lib]
      by (auto simp: view_undone split: sum.split_asm)
  qed
qed


section \<open>Complete files\<close>

lemma view_live:
  assumes "files_lib_ok lib" and "file_reachable lib t st" and "file_env_ok t env" and "view lib (fe_delete env) st p i = Some tr"
  shows "\<exists>row o1. find_file p i (fs_rows (expire lib env st)) = Some row \<and> row_offered lib row o1 \<and>
    committed lib (fs_disk (expire lib env st)) row (tr_data tr) \<and> fr_thread row = tr_thread tr \<and> fr_state row = tr_state tr \<and>
    fr_size row = tr_size tr \<and> fo_sha256 o1 = tr_sha256 tr \<and> fr_expires row = tr_expires tr \<and>
    (tr_state tr = Available \<longrightarrow> int (length (tr_data tr)) = tr_size tr \<and> lib_sha256 lib (tr_data tr) = tr_sha256 tr)"
proof -
  let ?st = "expire lib env st"
  have lib: "sealing_ok lib" "names_ok lib" using assms(1) by (simp_all add: files_lib_ok_def)
  have ok: "store_ok lib t st" by (rule store_invariant [OF assms(2,1)])
  have live: "live_store lib ?st" using expire_live [OF assms(1) ok assms(3)] by blast
  have before: "view lib (fe_delete env) st = rows_view lib (fs_disk ?st) (fs_rows ?st)"
    using ok by (intro view_before [OF lib(2) _ assms(3)]) (simp add: store_ok_def)
  then obtain row where row: "find_file p i (fs_rows ?st) = Some row" "tr = view_row lib (fs_disk ?st) row"
    using assms(4) by (auto simp: rows_view_def)
  then have "live_ok lib (fs_disk ?st) row" using live find_file_set by blast
  then obtain o1 data where o1: "row_offered lib row o1" and d: "committed lib (fs_disk ?st) row data"
    and av: "fr_state row = Available \<longrightarrow> int (length data) = fo_size o1 \<and> lib_sha256 lib data = fo_sha256 o1"
    unfolding live_ok_def by blast
  have size: "fo_size o1 = fr_size row" using o1 by (simp add: row_offered_def)
  show ?thesis
    by (intro exI [of _ row] exI [of _ o1]) (use row o1 d av size view_row_eq [OF lib(1) o1 d] in simp)
qed


text \<open>
  C39. The quotas hold at all times: at most 128 transfers with at most four billion bytes announced in
  total, no two of them for the same device and file, and none has received more than it announced.
\<close>
theorem file_quotas:
  assumes "files_lib_ok lib" and "file_reachable lib t st"
  shows "length (fs_rows st) \<le> max_files \<and> sum_list (map fr_size (fs_rows st)) \<le> max_total \<and>
    distinct (map (\<lambda>row. (fr_peer row, fr_id row)) (fs_rows st)) \<and>
    (\<forall>row \<in> set (fs_rows st). int (fr_received row) \<le> fr_size row)"
  using store_invariant [OF assms(2,1)] by (auto simp: store_ok_def table_ok_def row_bounds_def)

section \<open>A whole transfer\<close>

text \<open>The chunks of a file that is sent in pieces, from an offset on.\<close>
fun as_chunks :: "string \<Rightarrow> nat \<Rightarrow> string list \<Rightarrow> file_chunk list" where
  "as_chunks i off [] = []"
| "as_chunks i off (x # xs) =
     \<lparr>fc_id = i, fc_offset = int off, fc_data = b64_encode x, fc_eof = (xs = [])\<rparr> # as_chunks i (off + length x) xs"

fun receive_all :: "device_lib \<Rightarrow> string \<Rightarrow> string \<Rightarrow> (file_env \<times> file_chunk) list \<Rightarrow> file_store \<Rightarrow>
    (registry_error + transfer_state \<times> nat) list \<times> file_store" where
  "receive_all lib p thread [] st = ([], st)"
| "receive_all lib p thread ((env, c) # calls) st =
     (case transact (receive_file lib env p thread c) st of
        (res, st1) \<Rightarrow> (case receive_all lib p thread calls st1 of (results, st2) \<Rightarrow> (res # results, st2)))"

text \<open>Each call happens after the one before it, and all of them before \<open>limit\<close>.\<close>
fun env_chain :: "rat \<Rightarrow> rat \<Rightarrow> file_env list \<Rightarrow> bool" where
  "env_chain t limit [] = True"
| "env_chain t limit (env # envs) = (file_env_ok t env \<and> fe_clock env < limit \<and> env_chain (fe_clock env) limit envs)"

lemma receive_reachable:
  assumes "file_reachable lib t st" and "file_env_ok t env"
  shows "file_reachable lib (fe_clock env) (snd (transact (receive_file lib env p thread c) st))"
proof -
  have "snd (transact (perform_file lib env (ReceiveChunk p thread c)) st) = snd (transact (receive_file lib env p thread c) st)"
    by (auto simp: transact_def split: prod.split sum.split)
  with file_reachable.called [OF assms, of "ReceiveChunk p thread c"] show ?thesis by simp
qed

lemma view_later:
  assumes "table_ok lib (fs_rows st)" and "view lib now st p i = Some tr" and "later < tr_expires tr"
  shows "view lib later st p i = Some tr"
proof -
  obtain row where row: "find_file p i (filter (\<lambda>row. \<not> fr_expires row \<le> now) (fs_rows st)) = Some row"
    and tr: "tr = view_row lib (fs_disk st) row" using assms(2) by (auto simp: view_def)
  from find_file_set [OF row] have "row \<in> set (filter (\<lambda>row. \<not> fr_expires row \<le> later) (fs_rows st))" "fr_peer row = p" "fr_id row = i"
    using assms(3) by (auto simp: tr view_row_def)
  then show ?thesis
    using find_file_key [OF table_ok_filter [OF assms(1)]] by (auto simp: view_def tr)
qed

lemma chunk_bytes_encoded: "length x \<le> chunk_size \<Longrightarrow> chunk_bytes (b64_encode x) = Inr x"
  by (simp add: chunk_bytes_def b64_decode_encode)

lemma accept_next:
  assumes "tr_state tr = Receiving" and "length x \<le> chunk_size" and "x \<noteq> [] \<or> xs = []"
    and "int (length (tr_data tr @ x @ concat xs)) = tr_size tr" and "lib_sha256 lib (tr_data tr @ x @ concat xs) = tr_sha256 tr"
  shows "accept_chunk lib (tr_thread tr) (hd (as_chunks i (length (tr_data tr)) (x # xs))) tr =
    Inr (tr\<lparr>tr_state := (if xs = [] then Available else Receiving), tr_data := tr_data tr @ x\<rparr>)"
proof -
  have "\<not> tr_size tr < int (length (tr_data tr)) + int (length x)" using assms(4) by simp
  then show ?thesis
    using assms chunk_bytes_encoded [OF assms(2)] by (cases tr) (auto simp: accept_chunk_def need_def)
qed

lemma transfer_run:
  assumes "files_lib_ok lib" and "file_reachable lib t st" and "env_chain t (tr_expires tr) envs" and "length envs = length xs" and "xs \<noteq> []"
    and "view lib t st p i = Some tr" and "tr_state tr = Receiving" and "\<forall>x \<in> set xs. length x \<le> chunk_size" and "\<forall>x \<in> set (butlast xs). x \<noteq> []"
    and "int (length (tr_data tr @ concat xs)) = tr_size tr" and "lib_sha256 lib (tr_data tr @ concat xs) = tr_sha256 tr"
    and "receive_all lib p (tr_thread tr) (zip envs (as_chunks i (length (tr_data tr)) xs)) st = (results, st1)"
  shows "(\<forall>res \<in> set results. \<exists>state n. res = Inr (state, n)) \<and>
    view lib (fe_clock (last envs)) st1 p i = Some (tr\<lparr>tr_state := Available, tr_data := tr_data tr @ concat xs\<rparr>)"
  using assms(2-)
proof (induction xs arbitrary: t st tr envs results)
  case (Cons x xs)
  obtain env envs' where envs: "envs = env # envs'" using Cons.prems(3) by (cases envs) auto
  let ?c = "hd (as_chunks i (length (tr_data tr)) (x # xs))"
  let ?tr = "tr\<lparr>tr_state := (if xs = [] then Available else Receiving), tr_data := tr_data tr @ x\<rparr>"
  have env: "file_env_ok t env" "fe_clock env < tr_expires tr" "fe_delete env \<le> fe_clock env"
    using Cons.prems(2) by (auto simp: envs file_env_ok_def)
  obtain res s1 where s1: "transact (receive_file lib env p (tr_thread tr) ?c) st = (res, s1)" by fastforce
  have c: "fc_id ?c = i" by simp
  have tables: "table_ok lib (fs_rows st)" using store_invariant [OF Cons.prems(1) assms(1)] by (simp add: store_ok_def)
  have now: "view lib (fe_delete env) st p i = Some tr"
    by (rule view_later [OF tables Cons.prems(5)]) (use env(2,3) in simp)
  have acc: "accept_chunk lib (tr_thread tr) ?c tr = Inr ?tr"
  proof (rule accept_next [OF Cons.prems(6)])
    show "length x \<le> chunk_size" using Cons.prems(7) by simp
    show "x \<noteq> [] \<or> xs = []" using Cons.prems(8) by (cases "xs = []") simp_all
  qed (use Cons.prems(9,10) in simp_all)
  have step: "res = Inr (tr_state ?tr, length (tr_data ?tr))" "view lib (fe_delete env) s1 p i = Some ?tr"
    using receive_refinement [OF assms(1) Cons.prems(1) env(1) s1] unfolding c now option.case acc sum.case by auto
  have reach: "file_reachable lib (fe_clock env) s1" using receive_reachable [OF Cons.prems(1) env(1), of p "tr_thread tr" ?c] s1 by simp
  then have tables1: "table_ok lib (fs_rows s1)" using store_invariant [OF reach assms(1)] by (simp add: store_ok_def)
  have after: "view lib (fe_clock env) s1 p i = Some ?tr" by (rule view_later [OF tables1 step(2)]) (use env(2) in simp)
  have "receive_all lib p (tr_thread tr) ((env, ?c) # zip envs' (as_chunks i (length (tr_data tr) + length x) xs)) st = (results, st1)"
    using Cons.prems(11) by (simp only: envs as_chunks.simps list.sel(1) zip_Cons_Cons)
  then obtain rest where rest: "receive_all lib p (tr_thread tr) (zip envs' (as_chunks i (length (tr_data tr) + length x) xs)) s1 = (rest, st1)"
    "results = res # rest"
    unfolding receive_all.simps s1 prod.case by (auto split: prod.splits)
  show ?case
  proof (cases "xs = []")
    case True
    then show ?thesis using rest step(1) after Cons.prems(3) by (auto simp: envs)
  next
    case False
    have "(\<forall>res \<in> set rest. \<exists>state n. res = Inr (state, n)) \<and>
        view lib (fe_clock (last envs')) st1 p i = Some (?tr\<lparr>tr_state := Available, tr_data := tr_data ?tr @ concat xs\<rparr>)"
      by (rule Cons.IH [OF reach _ _ False after]) (use Cons.prems False rest(1) in \<open>auto simp: envs\<close>)
    moreover have "last envs = last envs'" using False Cons.prems(3) by (auto simp: envs)
    ultimately show ?thesis using rest(2) step(1) by auto
  qed
qed simp

lemma offered_view:
  assumes "files_lib_ok lib" and "file_reachable lib t st" and "file_env_ok t env" and "is_uuid p" and "offer_ok lib o1"
    and new: "find_file p (fo_id o1) (fs_rows (expire lib env st)) = None"
    and r: "transact (offer_file lib env p thread o1 limit) st = (Inr (), st1)"
  shows "file_reachable lib (fe_clock env) st1" and "view lib (fe_clock env) st1 p (fo_id o1) = Some
    \<lparr>tr_thread = thread, tr_expires = of_int (fo_expires o1), tr_size = fo_size o1, tr_sha256 = fo_sha256 o1, tr_state = Receiving, tr_data = []\<rparr>"
proof -
  let ?st = "expire lib env st"
  let ?row = "new_row lib (fe_nonce env 0) p thread o1 Receiving 0"
  have r1: "offer_file lib env p thread o1 limit st = (Inr (), st1)" using r by (auto simp: transact_def split: prod.splits sum.splits)
  show reach: "file_reachable lib (fe_clock env) st1"
    using file_reachable.called [OF assms(2,3), of "OfferFile p thread o1 limit"] assms(4,5) r by (simp add: transact_def)
  have rows: "fs_rows st1 = fs_rows ?st @ [?row]" and bounds: "fe_clock env < of_int (fo_expires o1)"
    using r1 new by (auto simp: offer_file_def Let_def check_offer_def andThen_def need_def offer_bounds_def split: sum.splits bool.splits if_splits)
  have "outcome_ok lib ?st st1"
    using offer_outcome [OF assms(1) store_invariant [OF assms(2,1)] assms(3,5,4), of thread limit] by (simp add: r1)
  then have live: "table_ok lib (fs_rows st1)" "live_ok lib (fs_disk st1) ?row" by (simp_all add: outcome_ok_def rows)
  then obtain data where "committed lib (fs_disk st1) ?row data" by (auto simp: live_ok_def)
  then have c: "committed lib (fs_disk st1) ?row []" by (auto simp: committed_def new_row_def)
  have o1: "row_offered lib ?row o1" using assms(3-5) by (auto simp: row_offered_def new_row_def file_env_ok_def nonce_size_def)
  have f: "fr_peer ?row = p" "fr_id ?row = fo_id o1" "fr_expires ?row = of_int (fo_expires o1)" by (simp_all add: new_row_def)
  have "?row \<in> set (filter (\<lambda>row. \<not> fr_expires row \<le> fe_clock env) (fs_rows st1))" using bounds f(3) by (simp add: rows)
  then have "find_file p (fo_id o1) (filter (\<lambda>row. \<not> fr_expires row \<le> fe_clock env) (fs_rows st1)) = Some ?row"
    using find_file_key [OF table_ok_filter [OF live(1)]] f by metis
  then show "view lib (fe_clock env) st1 p (fo_id o1) = Some
    \<lparr>tr_thread = thread, tr_expires = of_int (fo_expires o1), tr_size = fo_size o1, tr_sha256 = fo_sha256 o1, tr_state = Receiving, tr_data = []\<rparr>"
    using view_row_eq [OF _ o1 c] assms(1) by (simp add: view_def files_lib_ok_def new_row_def)
qed

text \<open>
  C11. A transfer succeeds: when a new file has been offered and accepted, and its bytes are sent in pieces of
  at most 16 KiB, in order and before the offer expires, every chunk is accepted and the file is
  available with exactly these bytes in the end.
\<close>
theorem transfer_completes:
  assumes lib: "files_lib_ok lib" and st: "file_reachable lib t st" and env: "file_env_ok t env" and o1: "is_uuid p" "offer_ok lib o1"
    and new: "find_file p (fo_id o1) (fs_rows (expire lib env st)) = None"
    and r: "transact (offer_file lib env p thread o1 limit) st = (Inr (), st1)"
    and envs: "env_chain (fe_clock env) (of_int (fo_expires o1)) envs" "length envs = length xs" "xs \<noteq> []"
    and xs: "\<forall>x \<in> set xs. length x \<le> chunk_size" "\<forall>x \<in> set (butlast xs). x \<noteq> []"
    and data: "int (length (concat xs)) = fo_size o1" "lib_sha256 lib (concat xs) = fo_sha256 o1"
    and run: "receive_all lib p thread (zip envs (as_chunks (fo_id o1) 0 xs)) st1 = (results, st2)"
  shows "(\<forall>res \<in> set results. \<exists>state n. res = Inr (state, n)) \<and>
    (\<exists>tr. view lib (fe_clock (last envs)) st2 p (fo_id o1) = Some tr \<and> tr_state tr = Available \<and> tr_data tr = concat xs)"
proof -
  note start = offered_view [OF lib st env o1 new r]
  from transfer_run [OF lib start(1) _ envs(2,3) start(2)] envs(1) xs data run show ?thesis by simp
qed

section \<open>A cancellation that is undone\<close>

lemma dget_filter_other: "dget d k = None \<Longrightarrow> dget (filter Q d) k = None"
  by (auto simp: map_of_eq_None_iff)

text \<open>
  C40. \<^verbatim>\<open>cancel\<close> removes the record file before its transaction commits. When the handler around it fails
  afterwards (its answer does not fit into the outbox, say) the row comes back without its file, and
  the next chunk of the transfer raises \<^verbatim>\<open>FileNotFoundError\<close>, which is none of the refusals of this module.
\<close>
theorem undone_cancel_loses_file:
  assumes "files_lib_ok lib" and "file_reachable lib t st" and "file_env_ok t env" and "file_env_ok (fe_clock env) later"
    and row: "find_in_thread p thread (fc_id c) (fs_rows st) = Some row" "fr_state row = Receiving" "fe_delete later < fr_expires row"
    and c: "fc_offset c = int (fr_received row)" "chunk_bytes (fc_data c) = Inr raw" "raw \<noteq> []" "fc_offset c + int (length raw) \<le> fr_size row"
  shows "fst (receive_file lib later p thread c ((snd (cancel_file lib env p thread (fc_id c) st))\<lparr>fs_rows := fs_rows st\<rparr>)) =
    Inl (Uncaught ''FileNotFoundError'')"
proof -
  let ?st = "(snd (cancel_file lib env p thread (fc_id c) st))\<lparr>fs_rows := fs_rows st\<rparr>"
  have key: "row \<in> set (fs_rows st)" "fr_peer row = p" "fr_id row = fc_id c" "fr_thread row = thread"
    using row(1) by (auto simp: find_in_thread_def find_Some_iff)
  then have hit: "list_ex (\<lambda>row. fr_peer row = p \<and> fr_id row = fc_id c \<and> fr_thread row = thread) (fs_rows st)"
    by (auto simp: list_ex_iff)
  have gone: "dget (fs_disk ?st) (file_path lib p (fc_id c)) = None"
    by (simp add: cancel_file_def Let_def hit expire_def dget_filter_other delete_conv')
  then have disk: "dget (fs_disk (expire lib later ?st)) (file_path lib p (fc_id c)) = None"
    unfolding expire_def Let_def file_store.select_convs by (rule dget_filter_other)
  have table: "table_ok lib (fs_rows st)" using store_invariant [OF assms(2,1)] by (simp add: store_ok_def)
  have "find_file (fr_peer row) (fr_id row) (fs_rows (expire lib later ?st)) = Some row"
    using key(1) row(3) table by (intro find_file_key [of lib]) (simp_all add: expire_rows table_ok_filter)
  then have "find_in_thread p thread (fc_id c) (fs_rows (expire lib later ?st)) = Some row"
    using table key by (subst find_in_thread_eq [of lib]) (simp_all add: expire_rows table_ok_filter)
  then show ?thesis
    using row(2) c disk by (simp add: receive_file_def Let_def receive_row_def receive_next_def open_records_def key)
qed

end
