(* ===== verification/File_Sample.thy ===== *)
theory File_Sample
  imports File_Properties Device_Sample
begin

text \<open>
  A file of two bytes that is offered and sent in two chunks: the hypotheses of the file theorems can
  hold. The cipher of the sample appends an empty tag, and its digest is the text itself.
\<close>

definition files_lib :: device_lib where
  "files_lib = sample_lib\<lparr>lib_sha256 := (\<lambda>s. s), lib_encrypt := (\<lambda>nonce text data. text @ replicate 16 (CHR 0x00)),
     lib_decrypt := (\<lambda>nonce text data. if length text < 16 then None else Some (take (length text - 16) text))\<rparr>"

definition small_file :: file_offer where
  "small_file = \<lparr>fo_id = id_b, fo_name = ''n'', fo_mime = ''m'', fo_size = 2, fo_sha256 = ''hi'', fo_expires = 100\<rparr>"

definition env_at :: "rat \<Rightarrow> file_env" where
  "env_at t = \<lparr>fe_unlink = t, fe_delete = t, fe_clock = t, fe_free = 1000000000, fe_nonce = (\<lambda>k. replicate 12 (CHR ''n''))\<rparr>"

definition no_files :: file_store where
  "no_files = \<lparr>fs_rows = [], fs_disk = []\<rparr>"

definition offered_store :: file_store where
  "offered_store = snd (transact (offer_file files_lib (env_at 1) id_a ''thread'' small_file max_file) no_files)"

lemma files_lib_io [simp]: "lib_io files_lib = no_floats" "lib_sha256 files_lib s = s"
  by (simp_all add: files_lib_def)

lemma files_lib_fits: "files_lib_ok files_lib"
proof -
  have "sealing_ok files_lib" by (simp add: sealing_ok_def cipher_ok_def files_lib_def tag_size_def)
  moreover have "length s = 36" if "is_uuid s" for s using uuid_text [OF that] by simp
  then have "names_ok files_lib" by (auto simp: names_ok_def file_path_def)
  ultimately show ?thesis by (simp add: files_lib_ok_def)
qed

lemma env_at_ok: "s \<le> t \<Longrightarrow> file_env_ok s (env_at t)"
  by (simp add: file_env_ok_def env_at_def nonce_size_def)

lemma small_file_ok: "offer_ok files_lib small_file"
proof -
  have "length (show_nat 2) \<le> Suc 2" "length (show_nat 100) \<le> Suc 2" by (rule length_show_nat, simp)+
  then show ?thesis
    by (simp add: offer_ok_def small_file_def offer_members_def ids utf8_ok_ascii utf8_ok_plain [OF uuid_text [OF ids(2), THEN conjunct1]])
qed

lemma no_files_reachable: "file_reachable files_lib 0 no_files"
  unfolding no_files_def by (rule file_reachable.start)

lemma expire_no_files: "expire lib env no_files = no_files"
  by (simp add: expire_def no_files_def)

lemma small_file_new: "find_file id_a (fo_id small_file) (fs_rows (expire files_lib (env_at 1) no_files)) = None"
  unfolding expire_no_files by (simp add: no_files_def find_file_def)

lemma small_file_checked: "check_offer files_lib (env_at 1) id_a ''thread'' small_file max_file (fs_rows no_files) = Inr True"
proof -
  have "stored_size 2 \<le> 100" by (simp add: stored_size_def file_limits)
  then show ?thesis
    by (simp add: check_offer_def no_files_def find_file_def need_def reserve_def offer_bounds_def small_file_def env_at_def file_limits)
qed

lemma small_file_offered: "transact (offer_file files_lib (env_at 1) id_a ''thread'' small_file max_file) no_files = (Inr (), offered_store)"
  by (simp add: offered_store_def transact_def offer_file_def Let_def expire_no_files small_file_checked)

lemma env_at_sel [simp]: "fe_clock (env_at t) = t" "fe_delete (env_at t) = t"
  by (simp_all add: env_at_def)

lemma small_file_sel [simp]: "fo_id small_file = id_b" "fo_expires small_file = 100" "fo_size small_file = 2" "fo_sha256 small_file = ''hi''"
  by (simp_all add: small_file_def)

lemmas small_start = offered_view [OF files_lib_fits no_files_reachable env_at_ok ids(1) small_file_ok small_file_new small_file_offered, simplified]


section \<open>Witnesses\<close>

definition first_chunk :: file_chunk where
  "first_chunk = hd (as_chunks id_b 0 [''h'', ''i''])"

definition small_run :: "(registry_error + transfer_state \<times> nat) list \<times> file_store" where
  "small_run = receive_all files_lib id_a ''thread'' (zip [env_at 2, env_at 3] (as_chunks id_b 0 [''h'', ''i''])) offered_store"

lemma small_times: "env_chain 1 100 [env_at 2, env_at 3]"
  by (simp add: env_at_ok)

lemma two_bytes: "\<forall>x \<in> set [''h'', ''i'']. length x \<le> chunk_size" "\<forall>x \<in> set (butlast [''h'', ''i'']). x \<noteq> []"
  by (simp_all add: chunk_size_def)

theorem file_quotas_witness:
  "length (fs_rows offered_store) \<le> max_files \<and> sum_list (map fr_size (fs_rows offered_store)) \<le> max_total"
  using file_quotas [OF files_lib_fits small_start(1)] by simp


theorem transfer_completes_witness:
  "list_all (\<lambda>res. \<exists>state n. res = Inr (state, n)) (fst small_run) \<and>
    (\<exists>tr. view files_lib 3 (snd small_run) id_a id_b = Some tr \<and> tr_state tr = Available \<and> tr_data tr = ''hi'')"
  using transfer_completes [OF files_lib_fits no_files_reachable env_at_ok ids(1) small_file_ok small_file_new small_file_offered
      _ _ _ two_bytes _ _ _, of "[env_at 2, env_at 3]" "fst small_run" "snd small_run"] small_times
  by (simp add: small_run_def list_all_iff)

lemma receive_all_reachable:
  "file_reachable lib t st \<Longrightarrow> env_chain t limit envs \<Longrightarrow> length envs = length cs \<Longrightarrow> envs \<noteq> [] \<Longrightarrow>
    file_reachable lib (fe_clock (last envs)) (snd (receive_all lib p thread (zip envs cs) st))"
proof (induction envs arbitrary: cs t st)
  case (Cons env envs)
  obtain c cs' where cs: "cs = c # cs'" using Cons.prems(3) by (cases cs) auto
  have "file_reachable lib (fe_clock env) (snd (transact (receive_file lib env p thread c) st))"
    using receive_reachable Cons.prems(1,2) by simp
  then show ?case using Cons.IH [of "fe_clock env" _ cs'] Cons.prems(2,3)
    by (cases "envs = []") (simp_all add: cs case_prod_beta)
qed simp


theorem undone_cancel_loses_file_witness:
  "fst (receive_file files_lib (env_at 3) id_a ''thread'' first_chunk
     ((snd (cancel_file files_lib (env_at 2) id_a ''thread'' id_b offered_store))\<lparr>fs_rows := fs_rows offered_store\<rparr>)) =
    Inl (Uncaught ''FileNotFoundError'')"
proof -
  let ?row = "new_row files_lib (fe_nonce (env_at 1) 0) id_a ''thread'' small_file Receiving 0"
  have rows: "fs_rows offered_store = [?row]"
    by (simp add: offered_store_def transact_def offer_file_def Let_def expire_no_files small_file_checked) (simp add: no_files_def)
  have c: "fc_id first_chunk = id_b" "fc_offset first_chunk = 0" "chunk_bytes (fc_data first_chunk) = Inr ''h''"
    using chunk_bytes_encoded [of "''h''"] by (simp_all add: first_chunk_def chunk_size_def)
  have f: "fr_peer ?row = id_a" "fr_id ?row = id_b" "fr_thread ?row = ''thread''" "fr_state ?row = Receiving" "fr_expires ?row = 100"
    "fr_received ?row = 0" "fr_size ?row = 2"
    by (simp_all add: new_row_def)
  have row: "find_in_thread id_a ''thread'' (fc_id first_chunk) (fs_rows offered_store) = Some ?row"
    by (simp add: find_in_thread_def rows f c)
  show ?thesis
    using undone_cancel_loses_file [OF files_lib_fits small_start(1) env_at_ok [of 1 2] env_at_ok [of _ 3] row f(4)] c f by simp
qed

end
