(* ===== verification/Mailbox.thy ===== *)
theory Mailbox
  imports Device_Files Actions
begin

text \<open>
  \<^verbatim>\<open>devices/application.py\<close>: the durable inbox and outbox of every paired device, and the work that its
  requests start. Each request of a device arrives as an event with an identifier and a number; it is
  recorded in the inbox, carried out, and answered by events in the outbox, all in one transaction.

  The tables are lists of rows in the order of \<^verbatim>\<open>rowid\<close>. Values that the code stores encrypted are stored
  encrypted here too. The handlers of \<^verbatim>\<open>workspace.py\<close>, \<^verbatim>\<open>remote_control.py\<close> and \<^verbatim>\<open>desktop_control.py\<close> and the
  branches for new threads and for the fleet are parameters: they refuse, or answer with events and change grants,
  names and files. Every event they answer with goes through \<^verbatim>\<open>_emit\<close>, and they write none of the other tables.
\<close>

section \<open>Tables\<close>

datatype work_state = WorkAccepted | WorkRunning | WorkCompleted | WorkFailed | WorkCancelled | WorkUnknown

fun work_text :: "work_state \<Rightarrow> string" where
  "work_text WorkAccepted = ''accepted''"
| "work_text WorkRunning = ''running''"
| "work_text WorkCompleted = ''completed''"
| "work_text WorkFailed = ''failed''"
| "work_text WorkCancelled = ''cancelled''"
| "work_text WorkUnknown = ''outcome_unknown''"

record grant_row =
  gr_peer :: string
  gr_thread :: string
  gr_context :: string

record inbox_row =
  in_peer :: string
  in_id :: string
  in_digest :: string
  in_sequence :: int

record outbox_row =
  ob_sequence :: int
  ob_peer :: string
  ob_event :: string

record work_row =
  wk_peer :: string
  wk_request :: string
  wk_thread :: string
  wk_event :: string
  wk_state :: work_state
  wk_turn :: string

record transcript_row =
  ts_peer :: string
  ts_request :: string
  ts_thread :: string
  ts_result :: string

record receipt_row =
  rc_peer :: string
  rc_id :: string
  rc_sequence :: int
  rc_end :: int

record job_row =
  jb_peer :: string
  jb_id :: string
  jb_request :: string
  jb_digest :: string

record send_row =
  sd_peer :: string
  sd_id :: string
  sd_thread :: string
  sd_request :: json

record request_row =
  rq_peer :: string
  rq_request :: string
  rq_event :: string
  rq_state :: string

record result_row =
  rs_peer :: string
  rs_id :: string
  rs_event :: string

record snapshot_row =
  sn_peer :: string
  sn_kind :: string
  sn_sequence :: int
  sn_event :: string

record app_db =
  db_registry :: registry
  db_files :: "file_row list"
  db_grants :: "grant_row list"
  db_inbox :: "inbox_row list"
  db_reads :: "inbox_row list"
  db_work :: "work_row list"
  db_attachments :: "(string \<times> string, string) dict"
  db_transcript :: "transcript_row list"
  db_sequences :: "(string, int) dict"
  db_receipts :: "receipt_row list"
  db_jobs :: "job_row list"
  db_sends :: "send_row list"
  db_requests :: "request_row list"
  db_cancels :: "(string \<times> string, string) dict"
  db_results :: "result_row list"
  db_outbox :: "outbox_row list"
  db_hosts :: "string list"
  db_threads :: "(string \<times> string, string) dict"
  db_cursors :: "(string, int) dict"
  db_snapshots :: "snapshot_row list"

text \<open>The database, the directory of the files, and how many random values have been drawn.\<close>
record app =
  ap_db :: app_db
  ap_disk :: "(string, string) dict"
  ap_draws :: nat

section \<open>What a call reads from outside\<close>

text \<open>What a handler that is not modelled does: new grants, registry and files, and the events it emits.\<close>
record other_answer =
  oa_grants :: "grant_row list"
  oa_registry :: registry
  oa_files :: "file_row list"
  oa_disk :: "(string, string) dict"
  oa_emits :: "(json \<times> string \<times> (string \<times> json) list) list"

text \<open>
  The clock, random values (by the number of the draw), \<^verbatim>\<open>uuid5(NAMESPACE_URL, ...)\<close>, whether an event fits the JSON
  Schema of events, what the turns running in the desktop's own window are, and the modules named above.
\<close>
record app_env =
  ae_clock :: rat
  ae_nonce :: "nat \<Rightarrow> string"
  ae_uuid :: "nat \<Rightarrow> string"
  ae_uuid5 :: "string \<Rightarrow> string"
  ae_files :: "nat \<Rightarrow> file_env"
  ae_valid :: "json \<Rightarrow> bool"
  ae_local :: "string list option"
  ae_other :: "string \<Rightarrow> json \<Rightarrow> app \<Rightarrow> registry_error + other_answer option"
  ae_branch :: "string \<Rightarrow> json \<Rightarrow> app \<Rightarrow> registry_error + other_answer"
  ae_rem_files :: "string \<Rightarrow> string \<Rightarrow> app \<Rightarrow> bool"
  ae_details :: "string \<Rightarrow> string \<Rightarrow> json \<Rightarrow> bool \<Rightarrow> app \<Rightarrow> (string \<times> json) list"
  ae_connection :: "string \<Rightarrow> json \<Rightarrow> (string \<times> json) list"
  ae_deleting :: "string \<Rightarrow> string \<Rightarrow> app \<Rightarrow> bool"
  ae_named :: "string \<Rightarrow> string \<Rightarrow> json \<Rightarrow> app \<Rightarrow> registry_error + grant_row list"
  ae_finished :: "string \<Rightarrow> string \<Rightarrow> app \<Rightarrow> registry_error + (grant_row list \<times> (string \<times> json) list option) option"

type_synonym 'a mail = "(app, 'a) action"

definition db_query :: "(app_db \<Rightarrow> registry_error + 'a) \<Rightarrow> 'a mail" where
  "db_query f = query (\<lambda>s. f (ap_db s))"

definition db_change :: "(app_db \<Rightarrow> app_db) \<Rightarrow> unit mail" where
  "db_change f = change (\<lambda>s. s\<lparr>ap_db := f (ap_db s)\<rparr>)"

definition draw :: "(nat \<Rightarrow> 'a) \<Rightarrow> 'a mail" where
  "draw f = (\<lambda>s. (Inr (f (ap_draws s)), s\<lparr>ap_draws := ap_draws s + 1\<rparr>))"

text \<open>An exception restores the tables and nothing else.\<close>
definition transaction :: "'a mail \<Rightarrow> 'a mail" where
  "transaction m = (\<lambda>s. case m s of (Inl e, s1) \<Rightarrow> (Inl e, s1\<lparr>ap_db := ap_db s\<rparr>) | (Inr x, s1) \<Rightarrow> (Inr x, s1))"

definition file_call :: "app_env \<Rightarrow> (file_env \<Rightarrow> 'a file_op) \<Rightarrow> 'a mail" where
  "file_call env op =
     run_then (draw (ae_files env)) (\<lambda>fe s.
       case op fe \<lparr>fs_rows = db_files (ap_db s), fs_disk = ap_disk s\<rparr> of
         (res, st) \<Rightarrow> (res, s\<lparr>ap_db := (ap_db s)\<lparr>db_files := fs_rows st\<rparr>, ap_disk := fs_disk st\<rparr>))"

text \<open>\<^verbatim>\<open>d[k]\<close>, and the same for a text or a number that is bound to a column\<close>
definition item :: "json \<Rightarrow> string \<Rightarrow> registry_error + json" where
  "item v k = (case jget v k of None \<Rightarrow> Inl (Uncaught ''KeyError'') | Some w \<Rightarrow> Inr w)"

definition item_text :: "json \<Rightarrow> string \<Rightarrow> registry_error + string" where
  "item_text v k = andThen (item v k) (\<lambda>w. case w of JStr s \<Rightarrow> Inr s | _ \<Rightarrow> Inl (Uncaught ''TypeError''))"

definition item_int :: "json \<Rightarrow> string \<Rightarrow> registry_error + int" where
  "item_int v k = andThen (item v k) (\<lambda>w. case w of JInt n \<Rightarrow> Inr n | _ \<Rightarrow> Inl (Uncaught ''TypeError''))"

abbreviation lift :: "registry_error + 'a \<Rightarrow> 'a mail" where
  "lift r \<equiv> query (\<lambda>_. r)"

section \<open>Sealed values\<close>

definition app_aad :: "string \<Rightarrow> string" where
  "app_aad p = ''application:'' @ p"

definition seal_value :: "device_lib \<Rightarrow> app_env \<Rightarrow> string \<Rightarrow> json \<Rightarrow> string mail" where
  "seal_value lib env p v =
     run_then (draw (ae_nonce env)) (\<lambda>nonce.
       returns (nonce @ lib_encrypt lib nonce (dumps (lib_io lib) esc_ascii v) (app_aad p)))"

definition open_value :: "device_lib \<Rightarrow> string \<Rightarrow> string \<Rightarrow> registry_error + json" where
  "open_value lib p blob =
     (case lib_decrypt lib (take 12 blob) (drop 12 blob) (app_aad p) of
        None \<Rightarrow> Inl (Uncaught ''InvalidTag'')
      | Some raw \<Rightarrow> (case loads (lib_io lib) False raw of None \<Rightarrow> Inl (Uncaught ''JSONDecodeError'') | Some v \<Rightarrow> Inr v))"

fun open_all :: "device_lib \<Rightarrow> string \<Rightarrow> string list \<Rightarrow> registry_error + json list" where
  "open_all lib p [] = Inr []"
| "open_all lib p (b # bs) = andThen (open_value lib p b) (\<lambda>v. andThen (open_all lib p bs) (\<lambda>vs. Inr (v # vs)))"

definition check_trusted :: "string \<Rightarrow> app_db \<Rightarrow> registry_error + unit" where
  "check_trusted p db =
     andThen (peer_row p (db_registry db)) (\<lambda>x. need (peer_state x = Active) (PairingError ''peer_unavailable''))"

section \<open>The outbox\<close>

definition outbox_events :: nat where "outbox_events = 10000"
definition outbox_bytes :: nat where "outbox_bytes = 64 * 1024 * 1024"
definition retain_acknowledged :: nat where "retain_acknowledged = 400"
definition recent_reads :: nat where "recent_reads = 2048"

definition outbox_of :: "string \<Rightarrow> app_db \<Rightarrow> outbox_row list" where
  "outbox_of p db = filter (\<lambda>row. ob_peer row = p) (db_outbox db)"

definition used_bytes :: "string \<Rightarrow> app_db \<Rightarrow> nat" where
  "used_bytes p db = sum_list (map (\<lambda>row. length (ob_event row)) (outbox_of p db))"

definition next_number :: "string \<Rightarrow> app_db \<Rightarrow> int" where
  "next_number p db =
     max (foldr max (map ob_sequence (outbox_of p db)) 0)
       (max (dget_or 0 (db_sequences db) p) (int (length (filter (\<lambda>row. rq_peer row = p) (db_requests db))))) + 1"

definition next_outbound_sequence :: "string \<Rightarrow> int mail" where
  "next_outbound_sequence p =
     run_then (db_query (\<lambda>db. Inr (next_number p db))) (\<lambda>n.
     run_then (db_change (\<lambda>db. db\<lparr>db_sequences := dset p n (db_sequences db)\<rparr>)) (\<lambda>_. returns n))"

definition event_document :: "string \<Rightarrow> json \<Rightarrow> json \<Rightarrow> int \<Rightarrow> string \<Rightarrow> (string \<times> json) list \<Rightarrow> json" where
  "event_document i thread request n kind body =
     JObj [(''version'', JInt 2), (''id'', JStr i), (''thread_id'', thread), (''request_id'', request),
       (''sequence'', JInt n), (''type'', JStr kind), (''payload'', JObj body)]"

text \<open>\<^verbatim>\<open>_VALIDATOR.validate\<close>\<close>
definition validate_event :: "app_env \<Rightarrow> json \<Rightarrow> unit mail" where
  "validate_event env event = lift (need (ae_valid env event) (Uncaught ''ValidationError''))"

definition emit :: "device_lib \<Rightarrow> app_env \<Rightarrow> string \<Rightarrow> json \<Rightarrow> string \<Rightarrow> (string \<times> json) list \<Rightarrow> json mail" where
  "emit lib env p source kind body =
     run_then (db_query (\<lambda>db. need (length (outbox_of p db) < outbox_events) (PairingError ''outbox_quota''))) (\<lambda>_.
     run_then (draw (ae_uuid env)) (\<lambda>i.
     run_then (next_outbound_sequence p) (\<lambda>n.
     let event = event_document i (jget_or JNull source ''thread_id'') (jget_or JNull source ''request_id'') n kind body in
     run_then (validate_event env event) (\<lambda>_.
     run_then (seal_value lib env p event) (\<lambda>blob.
     run_then (db_query (\<lambda>db. need (used_bytes p db + length blob \<le> outbox_bytes) (PairingError ''outbox_byte_quota''))) (\<lambda>_.
     run_then (db_change (\<lambda>db. db\<lparr>db_outbox := db_outbox db @ [\<lparr>ob_sequence = n, ob_peer = p, ob_event = blob\<rparr>]\<rparr>)) (\<lambda>_.
       returns event)))))))"

definition status :: "device_lib \<Rightarrow> app_env \<Rightarrow> string \<Rightarrow> json \<Rightarrow> string \<Rightarrow> string \<Rightarrow> json mail" where
  "status lib env p source code detail =
     emit lib env p source ''request.status'' [(''status'', JStr code), (''detail'', JStr detail)]"

text \<open>\<^verbatim>\<open>ORDER BY sequence LIMIT ?\<close>\<close>
definition pending_rows :: "string \<Rightarrow> int \<Rightarrow> nat \<Rightarrow> app_db \<Rightarrow> outbox_row list" where
  "pending_rows p after limit db =
     take (min limit 100) (sort_key ob_sequence (filter (\<lambda>row. after < ob_sequence row) (outbox_of p db)))"

definition pending :: "device_lib \<Rightarrow> string \<Rightarrow> int \<Rightarrow> nat \<Rightarrow> json list mail" where
  "pending lib p after limit =
     db_query (\<lambda>db. andThen (check_trusted p db) (\<lambda>_. open_all lib p (map ob_event (pending_rows p after limit db))))"

text \<open>\<^verbatim>\<open>SELECT sequence ... ORDER BY sequence DESC LIMIT ?\<close>\<close>
definition newest :: "nat \<Rightarrow> int list \<Rightarrow> int list" where
  "newest n xs = take n (rev (sort xs))"

definition prune_outbox :: "string \<Rightarrow> int \<Rightarrow> app_db \<Rightarrow> app_db" where
  "prune_outbox p cursor db =
     (let kept = newest retain_acknowledged (map ob_sequence (outbox_of p db))
      in db\<lparr>db_outbox := filter (\<lambda>row. \<not> (ob_peer row = p \<and> ob_sequence row \<le> cursor \<and> ob_sequence row \<notin> set kept)) (db_outbox db)\<rparr>)"

definition prune_receipts :: "string \<Rightarrow> app_db \<Rightarrow> app_db" where
  "prune_receipts p db =
     db\<lparr>db_receipts := filter (\<lambda>row. \<not> (rc_peer row = p \<and> rc_sequence row \<notin> set (map ob_sequence (outbox_of p db)))) (db_receipts db)\<rparr>"

definition prune_acknowledged :: "string \<Rightarrow> int \<Rightarrow> unit mail" where
  "prune_acknowledged p cursor = db_change (\<lambda>db. prune_receipts p (prune_outbox p cursor db))"

end
