(* ===== verification/Device_Requests.thy ===== *)
theory Device_Requests
  imports Mailbox
begin

text \<open>
  \<^verbatim>\<open>devices/application.py\<close>: how an event of a paired device is admitted, carried out and answered
  (\<^verbatim>\<open>handle\<close>, \<^verbatim>\<open>_handle\<close>, \<^verbatim>\<open>_refuse\<close>).
\<close>

section \<open>The inbox\<close>

definition read_only_kinds :: "string list" where
  "read_only_kinds =
     [''sync.request'', ''catalog.request'', ''thread.history.request'', ''thread.search.request'', ''fleet.request'',
      ''swarm.request'', ''approval.request'', ''desktop.read'']"

definition read_only :: "json \<Rightarrow> bool" where
  "read_only event \<longleftrightarrow> (case jget event ''type'' of Some (JStr k) \<Rightarrow> k \<in> set read_only_kinds | _ \<Rightarrow> False)"

definition find_inbound :: "string \<Rightarrow> string \<Rightarrow> inbox_row list \<Rightarrow> inbox_row option" where
  "find_inbound p i rows = find (\<lambda>row. in_peer row = p \<and> in_id row = i) rows"

definition numbered :: "string \<Rightarrow> int \<Rightarrow> inbox_row list \<Rightarrow> bool" where
  "numbered p n rows \<longleftrightarrow> list_ex (\<lambda>row. in_peer row = p \<and> in_sequence row = n) rows"

definition insert_row :: "inbox_row \<Rightarrow> inbox_row list \<Rightarrow> registry_error + inbox_row list" where
  "insert_row row rows =
     (if find_inbound (in_peer row) (in_id row) rows \<noteq> None \<or> numbered (in_peer row) (in_sequence row) rows
      then Inl (Uncaught ''IntegrityError'') else Inr (rows @ [row]))"

text \<open>Only the most recent reads of a device are remembered.\<close>
definition trim_reads :: "string \<Rightarrow> inbox_row list \<Rightarrow> inbox_row list" where
  "trim_reads p rows =
     (let kept = newest recent_reads (map in_sequence (filter (\<lambda>row. in_peer row = p) rows))
      in filter (\<lambda>row. \<not> (in_peer row = p \<and> in_sequence row \<notin> set kept)) rows)"

definition store_inbound :: "bool \<Rightarrow> inbox_row \<Rightarrow> app_db \<Rightarrow> registry_error + app_db" where
  "store_inbound reading row db =
     (if reading
      then andThen (insert_row row (db_reads db)) (\<lambda>rows. Inr (db\<lparr>db_reads := trim_reads (in_peer row) rows\<rparr>))
      else andThen (insert_row row (db_inbox db)) (\<lambda>rows. Inr (db\<lparr>db_inbox := rows\<rparr>)))"

definition seen :: "rat \<Rightarrow> string \<Rightarrow> app_db \<Rightarrow> app_db" where
  "seen now p db = db\<lparr>db_registry := update_peer p (\<lambda>x. x\<lparr>peer_last_seen := Some now\<rparr>) (db_registry db)\<rparr>"

definition db_update :: "(app_db \<Rightarrow> registry_error + app_db) \<Rightarrow> unit mail" where
  "db_update f = run_then (db_query f) (\<lambda>db. db_change (\<lambda>_. db))"

definition record_inbound :: "app_env \<Rightarrow> string \<Rightarrow> json \<Rightarrow> string \<Rightarrow> unit mail" where
  "record_inbound env p event digest =
     run_then (lift (item_text event ''id'')) (\<lambda>i.
     run_then (lift (item_int event ''sequence'')) (\<lambda>n.
     run_then (db_update (store_inbound (read_only event)
       \<lparr>in_peer = p, in_id = i, in_digest = digest, in_sequence = n\<rparr>)) (\<lambda>_.
       db_change (seen (ae_clock env) p))))"

definition inbox_limit :: nat where "inbox_limit = 100000"

text \<open>The digest that an earlier delivery of the event left, looked for in both tables.\<close>
definition prior_digest :: "string \<Rightarrow> string \<Rightarrow> app_db \<Rightarrow> string option" where
  "prior_digest p i db =
     (case find_inbound p i (db_inbox db) of
        Some row \<Rightarrow> Some (in_digest row)
      | None \<Rightarrow> map_option in_digest (find_inbound p i (db_reads db)))"

definition inbox_room :: "string \<Rightarrow> json \<Rightarrow> app_db \<Rightarrow> registry_error + unit" where
  "inbox_room p event db =
     need (read_only event \<or> length (filter (\<lambda>row. in_peer row = p) (db_inbox db)) < inbox_limit) (PairingError ''inbox_quota'')"

definition number_free :: "string \<Rightarrow> int \<Rightarrow> app_db \<Rightarrow> registry_error + unit" where
  "number_free p n db =
     need (\<not> numbered p n (db_inbox db) \<and> \<not> numbered p n (db_reads db)) (PairingError ''sequence_conflict'')"

section \<open>Synchronisation\<close>

text \<open>\<^verbatim>\<open>json.dumps\<close> with its default separators\<close>
fun dumps_spaced :: "float_io \<Rightarrow> json \<Rightarrow> string"
  and dumps_spaced_list :: "float_io \<Rightarrow> json list \<Rightarrow> string"
  and dumps_spaced_members :: "float_io \<Rightarrow> (string \<times> json) list \<Rightarrow> string" where
  "dumps_spaced io (JList xs) = CHR ''['' # dumps_spaced_list io xs @ '']''"
| "dumps_spaced io (JObj ms) = CHR ''{'' # dumps_spaced_members io ms @ ''}''"
| "dumps_spaced io v = dumps io esc_ascii v"
| "dumps_spaced_list io [] = []"
| "dumps_spaced_list io (x # xs) = dumps_spaced io x @ (if xs = [] then [] else '', '' @ dumps_spaced_list io xs)"
| "dumps_spaced_members io [] = []"
| "dumps_spaced_members io ((k, v) # ms) =
     json_string esc_ascii k @ '': '' @ dumps_spaced io v @ (if ms = [] then [] else '', '' @ dumps_spaced_members io ms)"

definition is_true :: "json \<Rightarrow> string \<Rightarrow> bool" where
  "is_true v k \<longleftrightarrow> truthy (jget_or JNull v k)"

text \<open>What a phone learns about one of its threads; \<open>body\<close> is the payload of its request.\<close>
definition thread_entry :: "device_lib \<Rightarrow> app_env \<Rightarrow> string \<Rightarrow> json \<Rightarrow> app \<Rightarrow> grant_row \<Rightarrow> registry_error + json" where
  "thread_entry lib env p body s grant =
     andThen (open_value lib p (gr_context grant)) (\<lambda>context.
     andThen (item context ''provider'') (\<lambda>provider.
     andThen (item context ''model'') (\<lambda>model.
       Inr (JObj (dmerge (dmerge
         [(''thread_id'', JStr (gr_thread grant)), (''title'', jget_or (JStr ''Remote Rem'') context ''title''),
          (''revision'', jget_or (JInt 1) context ''revision''), (''project_id'', jget_or JNull context ''project_id''),
          (''resource_ids'', jget_or (JList []) context ''resource_ids''), (''provider'', provider), (''model'', model)]
         (if is_true body ''include_thread_details''
          then ae_details env p (gr_thread grant) context (jget body ''include_activity'' = Some (JBool True)) s else []))
         (if is_true body ''include_connection''
          then [(''can_create'', JBool (jget context ''allow_thread_create'' = Some (JBool True)))] else []))))))"

fun thread_entries :: "device_lib \<Rightarrow> app_env \<Rightarrow> string \<Rightarrow> json \<Rightarrow> app \<Rightarrow> grant_row list \<Rightarrow> registry_error + json list" where
  "thread_entries lib env p body s [] = Inr []"
| "thread_entries lib env p body s (g # gs) =
     andThen (thread_entry lib env p body s g) (\<lambda>v. andThen (thread_entries lib env p body s gs) (\<lambda>vs. Inr (v # vs)))"

definition grants_of :: "string \<Rightarrow> app_db \<Rightarrow> grant_row list" where
  "grants_of p db = sort_key gr_thread (filter (\<lambda>g. gr_peer g = p) (db_grants db))"

text \<open>The entries that fit into a page of 45000 bytes.\<close>
fun take_page :: "device_lib \<Rightarrow> nat \<Rightarrow> json list \<Rightarrow> json list" where
  "take_page lib used [] = []"
| "take_page lib used (c # cs) =
     (let n = length (dumps_spaced (lib_io lib) c)
      in if 45000 < used + n then [] else c # take_page lib (used + n) cs)"

definition sync_snapshot :: "device_lib \<Rightarrow> app_env \<Rightarrow> string \<Rightarrow> json \<Rightarrow> json list \<Rightarrow> json list \<Rightarrow> registry_error + (string \<times> json) list" where
  "sync_snapshot lib env p body events threads =
     andThen (if jget body ''threads_offset'' = None then Inr 0 else item_int body ''threads_offset'') (\<lambda>off.
     andThen (if events = [] then Inr (JInt 0) else item (last events) ''sequence'') (\<lambda>through.
       let page = take_page lib 0 (take 50 (drop (nat off) threads)); later = off + int (length page)
       in Inr ([(''revision'', JInt 1), (''through_sequence'', through), (''threads'', JList page)] @
          (if jget body ''threads_offset'' = None then []
           else [(''threads_offset'', JInt off),
             (''next_threads_offset'', if later < int (length threads) then JInt later else JNull)]) @
          (if is_true body ''include_connection'' then [(''connection'', JObj (ae_connection env p body))] else []))))"

definition on_sync :: "device_lib \<Rightarrow> app_env \<Rightarrow> string \<Rightarrow> json \<Rightarrow> json \<Rightarrow> json list mail" where
  "on_sync lib env p event body =
     run_then (lift (item body ''after_sequence'')) (\<lambda>cursor.
     run_then (lift (if cursor = JNull then Inr 0 else item_int body ''after_sequence'')) (\<lambda>after.
     run_then (if cursor = JNull then returns () else prune_acknowledged p after) (\<lambda>_.
     run_then (lift (item_int body ''limit'')) (\<lambda>limit.
     run_then (pending lib p after (nat limit)) (\<lambda>events.
     run_then (query (\<lambda>s. thread_entries lib env p body s (grants_of p (ap_db s)))) (\<lambda>threads.
     run_then (lift (sync_snapshot lib env p body events threads)) (\<lambda>answer.
     run_then (emit lib env p event ''sync.snapshot'' answer) (\<lambda>e.
       returns (events @ [e])))))))))"

section \<open>Files\<close>

text \<open>\<^verbatim>\<open>WHERE column=?\<close> is true of no row when the value is \<^verbatim>\<open>None\<close>.\<close>
definition sql_text :: "json \<Rightarrow> string option" where
  "sql_text v = (case v of JStr s \<Rightarrow> Some s | _ \<Rightarrow> None)"

definition has_grant :: "string \<Rightarrow> string \<Rightarrow> app_db \<Rightarrow> bool" where
  "has_grant p thread db \<longleftrightarrow> list_ex (\<lambda>g. gr_peer g = p \<and> gr_thread g = thread) (db_grants db)"

definition offer_payload :: "json \<Rightarrow> registry_error + file_offer" where
  "offer_payload body =
     andThen (item_text body ''file_id'') (\<lambda>i. andThen (item_text body ''name'') (\<lambda>name.
     andThen (item_text body ''mime'') (\<lambda>mime. andThen (item_int body ''size'') (\<lambda>n_bytes.
     andThen (item_text body ''sha256'') (\<lambda>sha. andThen (item_int body ''expires_at'') (\<lambda>expires.
       Inr \<lparr>fo_id = i, fo_name = name, fo_mime = mime, fo_size = n_bytes, fo_sha256 = sha, fo_expires = expires\<rparr>))))))"

definition chunk_payload :: "json \<Rightarrow> registry_error + file_chunk" where
  "chunk_payload body =
     andThen (item_text body ''file_id'') (\<lambda>i. andThen (item_int body ''offset'') (\<lambda>off.
     andThen (item_text body ''data'') (\<lambda>data. andThen (item body ''eof'') (\<lambda>eof.
       Inr \<lparr>fc_id = i, fc_offset = off, fc_data = data, fc_eof = truthy eof\<rparr>))))"

fun transfer_text :: "transfer_state \<Rightarrow> string" where
  "transfer_text Receiving = ''receiving''"
| "transfer_text Available = ''available''"
| "transfer_text Failed = ''failed''"

definition file_status :: "string \<Rightarrow> string \<Rightarrow> int \<Rightarrow> (string \<times> json) list" where
  "file_status i state got = [(''file_id'', JStr i), (''state'', JStr state), (''received_size'', JInt got)]"

definition sending :: "string \<Rightarrow> string \<Rightarrow> string \<Rightarrow> app_db \<Rightarrow> bool" where
  "sending p thread i db \<longleftrightarrow> list_ex (\<lambda>row. sd_peer row = p \<and> sd_id row = i \<and> sd_thread row = thread) (db_sends db)"

text \<open>The chunks of a file that are still in the outbox, up to an offset, are removed with their receipts.\<close>
definition drop_chunks :: "(receipt_row \<Rightarrow> bool) \<Rightarrow> string \<Rightarrow> app_db \<Rightarrow> app_db" where
  "drop_chunks done p db =
     (let gone = map rc_sequence (filter (\<lambda>row. rc_peer row = p \<and> done row) (db_receipts db))
      in db\<lparr>db_outbox := filter (\<lambda>row. \<not> (ob_peer row = p \<and> ob_sequence row \<in> set gone)) (db_outbox db),
           db_receipts := filter (\<lambda>row. \<not> (rc_peer row = p \<and> done row)) (db_receipts db)\<rparr>)"

definition finish_file_send :: "string \<Rightarrow> string \<Rightarrow> string \<Rightarrow> unit mail" where
  "finish_file_send p thread i =
     db_change (\<lambda>db. if sending p thread i db
        then (drop_chunks (\<lambda>row. rc_id row = i) p db)\<lparr>db_sends := filter (\<lambda>row. \<not> (sd_peer row = p \<and> sd_id row = i)) (db_sends db)\<rparr>
        else db)"

definition send_chunk :: "device_lib \<Rightarrow> app_env \<Rightarrow> string \<Rightarrow> json \<Rightarrow> string \<Rightarrow> string \<Rightarrow> int \<Rightarrow> json mail" where
  "send_chunk lib env p event thread i off =
     run_then (file_call env (\<lambda>fe. chunk_of lib fe p thread i off)) (\<lambda>(offer, bytes).
     run_then (lift (item offer ''size'')) (\<lambda>total.
     run_then (emit lib env p event ''file.chunk''
       [(''file_id'', JStr i), (''offset'', JInt off), (''data'', JStr (b64_encode bytes)),
        (''eof'', JBool (py_eq (JInt (off + int (length bytes))) total))]) (\<lambda>result.
     run_then (lift (item_int result ''sequence'')) (\<lambda>n.
     run_then (db_change (\<lambda>db. db\<lparr>db_receipts := db_receipts db @
         [\<lparr>rc_peer = p, rc_id = i, rc_sequence = n, rc_end = off + int (length bytes)\<rparr>]\<rparr>)) (\<lambda>_.
       returns result)))))"

definition on_offer :: "device_lib \<Rightarrow> app_env \<Rightarrow> string \<Rightarrow> json \<Rightarrow> string \<Rightarrow> json \<Rightarrow> json list mail" where
  "on_offer lib env p event thread body =
     run_then (lift (offer_payload body)) (\<lambda>o1.
     run_then (file_call env (\<lambda>fe. offer_file lib fe p thread o1 max_file)) (\<lambda>_.
     run_then (emit lib env p event ''file.status'' (file_status (fo_id o1) ''receiving'' 0)) (\<lambda>e. returns [e])))"

definition on_chunk_event :: "device_lib \<Rightarrow> app_env \<Rightarrow> string \<Rightarrow> json \<Rightarrow> string \<Rightarrow> json \<Rightarrow> json list mail" where
  "on_chunk_event lib env p event thread body =
     run_then (lift (chunk_payload body)) (\<lambda>c.
     run_then (file_call env (\<lambda>fe. receive_file lib fe p thread c)) (\<lambda>(state, got).
     run_then (emit lib env p event ''file.status'' (file_status (fc_id c) (transfer_text state) (int got))) (\<lambda>e. returns [e])))"

definition on_file_cancel :: "device_lib \<Rightarrow> app_env \<Rightarrow> string \<Rightarrow> json \<Rightarrow> string \<Rightarrow> json \<Rightarrow> json list mail" where
  "on_file_cancel lib env p event thread body =
     run_then (lift (item_text body ''file_id'')) (\<lambda>i.
     run_then (file_call env (\<lambda>fe. cancel_file lib fe p thread i)) (\<lambda>_.
     run_then (finish_file_send p thread i) (\<lambda>_.
     run_then (emit lib env p event ''file.status'' (file_status i ''cancelled'' 0)) (\<lambda>e. returns [e]))))"

definition on_file_request :: "device_lib \<Rightarrow> app_env \<Rightarrow> string \<Rightarrow> json \<Rightarrow> string \<Rightarrow> json \<Rightarrow> json list mail" where
  "on_file_request lib env p event thread body =
     run_then (lift (item_text body ''file_id'')) (\<lambda>i.
     run_then (lift (item event ''request_id'')) (\<lambda>request.
     run_then (db_change (\<lambda>db. db\<lparr>db_sends := filter (\<lambda>row. \<not> (sd_peer row = p \<and> sd_id row = i)) (db_sends db) @
         [\<lparr>sd_peer = p, sd_id = i, sd_thread = thread, sd_request = request\<rparr>]\<rparr>)) (\<lambda>_.
     run_then (send_chunk lib env p event thread i 0) (\<lambda>e. returns [e]))))"

text \<open>Status is an acknowledgment of chunks that were sent.\<close>
definition on_file_status :: "device_lib \<Rightarrow> app_env \<Rightarrow> string \<Rightarrow> json \<Rightarrow> string \<Rightarrow> json \<Rightarrow> json list mail" where
  "on_file_status lib env p event thread body =
     run_then (lift (item_text body ''file_id'')) (\<lambda>i.
     run_then (db_query (\<lambda>db. Inr (sending p thread i db))) (\<lambda>known.
       if \<not> known then returns []
       else
         run_then (lift (item_text body ''state'')) (\<lambda>state.
           if state = ''receiving'' then
             run_then (lift (item_int body ''received_size'')) (\<lambda>got.
             run_then (db_change (drop_chunks (\<lambda>row. rc_id row = i \<and> rc_end row \<le> got) p)) (\<lambda>_.
             run_then (send_chunk lib env p event thread i got) (\<lambda>e. returns [e])))
           else if state \<in> {''available'', ''cancelled'', ''failed''}
           then run_then (finish_file_send p thread i) (\<lambda>_. returns [])
           else returns [])))"

definition file_kinds :: "string list" where
  "file_kinds = [''file.offer'', ''file.chunk'', ''file.request'', ''file.status'', ''file.cancel'']"

definition on_file :: "device_lib \<Rightarrow> app_env \<Rightarrow> string \<Rightarrow> json \<Rightarrow> string \<Rightarrow> json \<Rightarrow> json list mail" where
  "on_file lib env p event kind body =
     run_then (lift (item event ''thread_id'')) (\<lambda>v.
     run_then (query (\<lambda>s. case sql_text v of
         None \<Rightarrow> Inl (PairingError ''file_thread_grant_required'')
       | Some thread \<Rightarrow>
           if has_grant p thread (ap_db s) \<or> ae_rem_files env p thread s then Inr thread
           else Inl (PairingError ''file_thread_grant_required''))) (\<lambda>thread.
       if kind = ''file.offer'' then on_offer lib env p event thread body
       else if kind = ''file.chunk'' then on_chunk_event lib env p event thread body
       else if kind = ''file.cancel'' then on_file_cancel lib env p event thread body
       else if kind = ''file.request'' then on_file_request lib env p event thread body
       else on_file_status lib env p event thread body))"

section \<open>Work\<close>

definition find_work :: "string \<Rightarrow> string \<Rightarrow> app_db \<Rightarrow> work_row option" where
  "find_work p request db = find (\<lambda>w. wk_peer w = p \<and> wk_request w = request) (db_work db)"

definition set_works :: "(work_row \<Rightarrow> bool) \<Rightarrow> work_state \<Rightarrow> app_db \<Rightarrow> app_db" where
  "set_works chosen state db = db\<lparr>db_work := map (\<lambda>w. if chosen w then w\<lparr>wk_state := state\<rparr> else w) (db_work db)\<rparr>"

definition set_work :: "string \<Rightarrow> string \<Rightarrow> work_state \<Rightarrow> app_db \<Rightarrow> app_db" where
  "set_work p request = set_works (\<lambda>w. wk_peer w = p \<and> wk_request w = request)"

definition open_state :: "work_state \<Rightarrow> bool" where
  "open_state st \<longleftrightarrow> st = WorkAccepted \<or> st = WorkRunning"

definition find_job :: "string \<Rightarrow> string \<Rightarrow> app_db \<Rightarrow> job_row option" where
  "find_job p i db = find (\<lambda>j. jb_peer j = p \<and> jb_id j = i) (db_jobs db)"

definition find_grant :: "string \<Rightarrow> string \<Rightarrow> app_db \<Rightarrow> grant_row option" where
  "find_grant p thread db = find (\<lambda>g. gr_peer g = p \<and> gr_thread g = thread) (db_grants db)"

definition role_of :: "string \<Rightarrow> app_db \<Rightarrow> registry_error + string" where
  "role_of p db = andThen (peer_row p (db_registry db)) (\<lambda>x. Inr (peer_role x))"

definition job_status :: "json \<Rightarrow> string \<Rightarrow> int \<Rightarrow> string \<Rightarrow> (string \<times> json) list \<Rightarrow> (string \<times> json) list" where
  "job_status job state revision detail extra =
     [(''job_id'', job), (''state'', JStr state), (''revision'', JInt revision), (''detail'', JStr detail)] @ extra"

text \<open>The work behind a job identifier, in the thread of the event.\<close>
definition job_work :: "string \<Rightarrow> json \<Rightarrow> json \<Rightarrow> app_db \<Rightarrow> work_row option" where
  "job_work p job thread db =
     (case (sql_text job, sql_text thread) of
        (Some i, Some t) \<Rightarrow>
          (case find_job p i db of
             None \<Rightarrow> None
           | Some j \<Rightarrow> (case find_work p (jb_request j) db of Some w \<Rightarrow> if wk_thread w = t then Some w else None | None \<Rightarrow> None))
      | _ \<Rightarrow> None)"

definition on_job :: "device_lib \<Rightarrow> app_env \<Rightarrow> string \<Rightarrow> json \<Rightarrow> string \<Rightarrow> json \<Rightarrow> json list mail" where
  "on_job lib env p event kind body =
     run_then (lift (item body ''job_id'')) (\<lambda>job.
     run_then (lift (item event ''thread_id'')) (\<lambda>thread.
     run_then (db_query (\<lambda>db. case job_work p job thread db of
         None \<Rightarrow> Inl (PairingError ''job_unavailable'')
       | Some w \<Rightarrow> andThen (role_of p db) (\<lambda>role. if role = ''desktop'' then Inr w else Inl (PairingError ''job_unavailable'')))) (\<lambda>w.
     let stop = (kind = ''job.cancel'' \<and> open_state (wk_state w)) in
     run_then (if stop then db_change (set_work p (wk_request w) WorkCancelled) else returns ()) (\<lambda>_.
     run_then (emit lib env p event ''job.status''
       (job_status job (if stop then ''cancel_requested'' else work_text (wk_state w)) 1 ''Target desktop job state'' [])) (\<lambda>e.
       returns [e])))))"

definition on_cancel :: "device_lib \<Rightarrow> app_env \<Rightarrow> string \<Rightarrow> json \<Rightarrow> json list mail" where
  "on_cancel lib env p event =
     run_then (lift (item event ''request_id'')) (\<lambda>request.
     run_then (lift (item event ''thread_id'')) (\<lambda>thread.
     run_then (db_query (\<lambda>db. case (sql_text request, sql_text thread) of
         (Some r, Some t) \<Rightarrow>
           (case find_work p r db of
              Some w \<Rightarrow> if wk_thread w = t then Inr w else Inl (PairingError ''request_unavailable'')
            | None \<Rightarrow> Inl (PairingError ''request_unavailable''))
       | _ \<Rightarrow> Inl (PairingError ''request_unavailable''))) (\<lambda>w.
       if open_state (wk_state w) then
         run_then (db_change (set_work p (wk_request w) WorkCancelled)) (\<lambda>_.
         run_then (status lib env p event ''cancel_requested'' ''Cancellation requested on desktop'') (\<lambda>e. returns [e]))
       else pending lib p 0 100)))"

text \<open>The checks of a delegated job: an answer ends the request, otherwise it is dispatched like a chat message.\<close>
definition job_accepted :: "string \<Rightarrow> json \<Rightarrow> json \<Rightarrow> app_db \<Rightarrow> registry_error + bool" where
  "job_accepted p body context db =
     andThen (role_of p db) (\<lambda>role.
     andThen (item body ''target_device_id'') (\<lambda>target.
     andThen (item body ''project_id'') (\<lambda>project.
     andThen (item body ''expected_policy_revision'') (\<lambda>revision.
     andThen (item body ''resource_ids'') (\<lambda>resources.
       Inr (role = ''desktop'' \<and> target = JStr (reg_id (db_registry db)) \<and> py_eq project (jget_or JNull context ''project_id'') \<and>
         py_eq revision (jget_or (JInt 1) context ''policy_revision'') \<and> \<not> truthy resources))))))"

definition thread_context :: "device_lib \<Rightarrow> string \<Rightarrow> json \<Rightarrow> app_db \<Rightarrow> registry_error + json" where
  "thread_context lib p thread db =
     (case (case sql_text thread of None \<Rightarrow> None | Some t \<Rightarrow> find_grant p t db) of
        None \<Rightarrow> Inr (JObj []) | Some g \<Rightarrow> open_value lib p (gr_context g))"

definition job_digest :: "device_lib \<Rightarrow> json \<Rightarrow> json \<Rightarrow> string" where
  "job_digest lib thread body =
     lib_sha256 lib (dumps_spaced (lib_io lib) (sort_json (JObj [(''thread'', thread), (''payload'', body)])))"

definition on_job_submit :: "device_lib \<Rightarrow> app_env \<Rightarrow> string \<Rightarrow> json \<Rightarrow> json \<Rightarrow> json list option mail" where
  "on_job_submit lib env p event body =
     run_then (lift (item event ''thread_id'')) (\<lambda>thread.
     run_then (db_query (thread_context lib p thread)) (\<lambda>context.
     run_then (lift (item body ''job_id'')) (\<lambda>job.
     run_then (db_query (job_accepted p body context)) (\<lambda>ok.
       if \<not> ok then
         run_then (emit lib env p event ''job.status''
           (job_status job ''rejected'' 1 ''Target desktop project grant required'' [])) (\<lambda>e. returns (Some [e]))
       else
         run_then (lift (item_text body ''job_id'')) (\<lambda>i.
         run_then (db_query (\<lambda>db. Inr (find_job p i db))) (\<lambda>prior.
         case prior of
           Some j \<Rightarrow>
             if jb_digest j \<noteq> job_digest lib thread body then lift (Inl (PairingError ''job_id_conflict''))
             else
               run_then (db_query (\<lambda>db. Inr (find_work p (jb_request j) db))) (\<lambda>work.
               run_then (emit lib env p event ''job.status''
                 (job_status job (case work of Some w \<Rightarrow> work_text (wk_state w) | None \<Rightarrow> ''outcome_unknown'') 1
                   ''Existing job; not dispatched twice'' [])) (\<lambda>e. returns (Some [e])))
         | None \<Rightarrow>
             run_then (lift (item_text event ''request_id'')) (\<lambda>request.
             run_then (db_change (\<lambda>db. db\<lparr>db_jobs := db_jobs db @
                 [\<lparr>jb_peer = p, jb_id = i, jb_request = request, jb_digest = job_digest lib thread body\<rparr>]\<rparr>)) (\<lambda>_.
               returns None))))))))"

text \<open>Whether the thread of a submission may be used.\<close>
definition thread_usable :: "app_env \<Rightarrow> string \<Rightarrow> json \<Rightarrow> json \<Rightarrow> app \<Rightarrow> registry_error + bool" where
  "thread_usable env p thread context s =
     (case sql_text thread of
        None \<Rightarrow> Inr False
      | Some t \<Rightarrow>
          if ae_deleting env p t s \<or> \<not> has_grant p t (ap_db s) then Inr False
          else if \<not> is_true context ''desktop_thread_id'' then Inr True
          else if \<not> is_true context ''project_path'' then Inr False
          else case py_in (jget_or (JObj []) context ''provider_permissions'') (jget_or JNull context ''provider'') of
              None \<Rightarrow> Inl (Uncaught ''TypeError'') | Some b \<Rightarrow> Inr b)"

definition attachment_entry :: "json \<Rightarrow> string \<Rightarrow> registry_error + json" where
  "attachment_entry offer i =
     andThen (item offer ''name'') (\<lambda>name. andThen (item offer ''size'') (\<lambda>n. andThen (item offer ''mime'') (\<lambda>mime.
       Inr (JObj [(''id'', JStr i), (''name'', name), (''size'', n), (''mime'', mime), (''type'', mime)]))))"

text \<open>The metadata of the attached files, which must all be complete.\<close>
definition attachments :: "device_lib \<Rightarrow> app_env \<Rightarrow> string \<Rightarrow> string \<Rightarrow> json \<Rightarrow> json list mail" where
  "attachments lib env p thread body =
     collect (\<lambda>v.
       run_then (lift (case v of JStr i \<Rightarrow> Inr i | _ \<Rightarrow> Inl (Uncaught ''TypeError''))) (\<lambda>i.
       run_then (file_call env (\<lambda>fe. metadata lib fe p thread i)) (\<lambda>offer. lift (attachment_entry offer i))))
     (elements (jget_or (JList []) body ''attachment_ids''))"

definition work_limit :: nat where "work_limit = 100"
definition attachment_limit :: nat where "attachment_limit = 32 * 1024 * 1024"

definition save_attachments :: "device_lib \<Rightarrow> app_env \<Rightarrow> string \<Rightarrow> string \<Rightarrow> json list \<Rightarrow> unit mail" where
  "save_attachments lib env p request files =
     (if files = [] then returns ()
      else
        run_then (seal_value lib env p (JObj [(''attachments'', JList files)])) (\<lambda>blob.
        run_then (db_query (\<lambda>db. need (sum_list (map (length \<circ> snd) (filter (\<lambda>row. fst (fst row) = p) (db_attachments db))) + length blob
            \<le> attachment_limit) (PairingError ''attachment_history_quota''))) (\<lambda>_.
        run_then (db_query (\<lambda>db. need (dget (db_attachments db) (p, request) = None) (Uncaught ''IntegrityError''))) (\<lambda>_.
          db_change (\<lambda>db. db\<lparr>db_attachments := dset (p, request) blob (db_attachments db)\<rparr>)))))"

text \<open>A message or job that is new becomes work.\<close>
definition accept_work :: "device_lib \<Rightarrow> app_env \<Rightarrow> string \<Rightarrow> json \<Rightarrow> string \<Rightarrow> json \<Rightarrow> string \<Rightarrow> string \<Rightarrow> json list mail" where
  "accept_work lib env p event kind body thread request =
     run_then (attachments lib env p thread body) (\<lambda>files.
     run_then (db_query (\<lambda>db. need (length (filter (\<lambda>w. wk_peer w = p \<and> open_state (wk_state w)) (db_work db)) < work_limit)
         (PairingError ''work_quota''))) (\<lambda>_.
     run_then (seal_value lib env p event) (\<lambda>blob.
     run_then (draw (ae_uuid env)) (\<lambda>turn.
     run_then (db_change (\<lambda>db. db\<lparr>db_work := db_work db @
         [\<lparr>wk_peer = p, wk_request = request, wk_thread = thread, wk_event = blob, wk_state = WorkAccepted, wk_turn = turn\<rparr>]\<rparr>)) (\<lambda>_.
     run_then (if kind = ''chat.submit''
       then run_then (query (ae_named env p thread (jget_or (JStr []) body ''text''))) (\<lambda>grants. db_change (\<lambda>db. db\<lparr>db_grants := grants\<rparr>))
       else returns ()) (\<lambda>_.
     run_then (save_attachments lib env p request files) (\<lambda>_.
     run_then (if kind = ''job.submit''
       then run_then (lift (item body ''job_id'')) (\<lambda>job.
         emit lib env p event ''job.status'' (job_status job ''accepted'' 1 ''Accepted by target desktop'' []))
       else emit lib env p event ''chat.accepted'' [(''message_id'', JStr request)]) (\<lambda>e.
       returns [e]))))))))"

definition error_payload :: "string \<Rightarrow> string \<Rightarrow> (string \<times> json) list" where
  "error_payload code detail = [(''code'', JStr code), (''retryable'', JBool False), (''detail'', JStr detail)]"

text \<open>A repeated submission of the same content is answered from the outbox.\<close>
definition same_submission :: "device_lib \<Rightarrow> string \<Rightarrow> json \<Rightarrow> json \<Rightarrow> work_row \<Rightarrow> registry_error + unit" where
  "same_submission lib p event body w =
     andThen (open_value lib p (wk_event w)) (\<lambda>old.
     andThen (item old ''thread_id'') (\<lambda>t. andThen (item event ''thread_id'') (\<lambda>t1. andThen (item old ''payload'') (\<lambda>b.
       need (py_eq t t1 \<and> py_eq b body) (PairingError ''request_id_conflict'')))))"

definition on_submit :: "device_lib \<Rightarrow> app_env \<Rightarrow> string \<Rightarrow> json \<Rightarrow> string \<Rightarrow> json \<Rightarrow> json list mail" where
  "on_submit lib env p event kind body =
     run_then (if kind = ''job.submit'' then on_job_submit lib env p event body else returns None) (\<lambda>early.
     case early of
       Some answer \<Rightarrow> returns answer
     | None \<Rightarrow>
         run_then (lift (item event ''thread_id'')) (\<lambda>thread.
         run_then (db_query (thread_context lib p thread)) (\<lambda>context.
         run_then (query (thread_usable env p thread context)) (\<lambda>usable.
           if \<not> usable then
             run_then (emit lib env p event ''error'' (error_payload ''unauthorized''
               ''This thread has no available desktop project or provider. Refresh, then choose a scope and provider in Thread settings.''))
               (\<lambda>e. returns [e])
           else
             run_then (lift (item_text event ''thread_id'')) (\<lambda>t.
             run_then (lift (item_text event ''request_id'')) (\<lambda>request.
             run_then (db_query (\<lambda>db. Inr (find_work p request db))) (\<lambda>previous.
             case previous of
               Some w \<Rightarrow> run_then (lift (same_submission lib p event body w)) (\<lambda>_. pending lib p 0 100)
             | None \<Rightarrow> accept_work lib env p event kind body t request)))))))"

section \<open>Dispatch\<close>

text \<open>What a handler of another module does.\<close>
definition other_effect :: "device_lib \<Rightarrow> app_env \<Rightarrow> string \<Rightarrow> other_answer \<Rightarrow> json list mail" where
  "other_effect lib env p a =
     run_then (change (\<lambda>s. s\<lparr>ap_db := (ap_db s)\<lparr>db_grants := oa_grants a, db_registry := oa_registry a, db_files := oa_files a\<rparr>,
         ap_disk := oa_disk a\<rparr>)) (\<lambda>_.
       collect (\<lambda>(source, kind, body). emit lib env p source kind body) (oa_emits a))"

definition dispatch_event :: "device_lib \<Rightarrow> app_env \<Rightarrow> string \<Rightarrow> json \<Rightarrow> json list mail" where
  "dispatch_event lib env p event =
     run_then (lift (item_text event ''type'')) (\<lambda>kind.
     run_then (lift (item event ''payload'')) (\<lambda>body.
     run_then (query (ae_other env p event)) (\<lambda>other.
     case other of
       Some a \<Rightarrow> other_effect lib env p a
     | None \<Rightarrow>
         if kind \<in> {''thread.create'', ''fleet.request''}
         then run_then (query (ae_branch env p event)) (other_effect lib env p)
         else if kind = ''sync.request'' then on_sync lib env p event body
         else if kind \<in> set file_kinds then on_file lib env p event kind body
         else if kind \<in> {''job.get'', ''job.cancel''} then on_job lib env p event kind body
         else if kind = ''request.cancel'' then on_cancel lib env p event
         else if kind \<in> {''chat.submit'', ''job.submit''} then on_submit lib env p event kind body
         else run_then (emit lib env p event ''error''
           (error_payload ''unsupported'' ''This application operation is not enabled'')) (\<lambda>e. returns [e]))))"

definition handle_event :: "device_lib \<Rightarrow> app_env \<Rightarrow> string \<Rightarrow> json \<Rightarrow> string \<Rightarrow> json list mail" where
  "handle_event lib env p event digest =
     transaction (
       run_then (db_query (check_trusted p)) (\<lambda>_.
       run_then (lift (item_text event ''id'')) (\<lambda>i.
       run_then (lift (item_int event ''sequence'')) (\<lambda>n.
       run_then (db_query (\<lambda>db. Inr (prior_digest p i db))) (\<lambda>prior.
       case prior of
         Some d \<Rightarrow> if d \<noteq> digest then lift (Inl (PairingError ''event_id_conflict'')) else pending lib p 0 100
       | None \<Rightarrow>
           run_then (db_query (inbox_room p event)) (\<lambda>_.
           run_then (db_query (number_free p n)) (\<lambda>_.
           run_then (record_inbound env p event digest) (\<lambda>_.
             dispatch_event lib env p event))))))))"

section \<open>Refusals\<close>

definition session_ending :: "string list" where
  "session_ending = [''peer_unavailable'', ''outbox_quota'', ''outbox_byte_quota'']"

definition unrecorded :: "string list" where
  "unrecorded = [''event_id_conflict'', ''sequence_conflict'', ''inbox_quota'', ''invalid_application_event'']"

definition not_allowed :: "string list" where
  "not_allowed = [''mobile_is_not_worker'', ''originating_request_not_authorized'', ''project_not_open'',
     ''file_not_in_open_desktop_project'', ''thread_hosting_disabled'', ''workspace_sharing_disabled'']"

definition malformed :: "string list" where
  "malformed = [''file_chunk_encoding'', ''file_chunk_offset'', ''file_offer_bounds'', ''file_integrity'']"

definition refusal :: "string \<Rightarrow> string \<times> string" where
  "refusal reason =
     (let ends = (\<lambda>x. starts_with (rev x) (rev reason)) in
      if reason = ''invalid_application_event''
      then (''unsupported'', ''This desktop can't handle that request. Update Raticode on your computer, then try again.'')
      else if reason \<in> {''event_id_conflict'', ''sequence_conflict''}
      then (''conflict'', ''The desktop already has a different request with this number. Send it again.'')
      else if reason = ''file_unavailable''
      then (''not_found'', ''This file is no longer available on the desktop. Ask Rem to send it again.'')
      else if ends ''_conflict''
      then (''conflict'', ''This request conflicts with one the desktop already has. Refresh, then try again.'')
      else if ends ''_unavailable'' \<or> reason = ''work_not_running''
      then (''not_found'', ''The desktop no longer has what this request refers to. Refresh, then try again.'')
      else if ends ''_quota'' \<or> reason \<in> {''file_too_large'', ''file_disk_full''}
      then (''too_large'', ''The desktop has no room for this request. Free some space or let other work finish, then try again.'')
      else if ends ''_required'' \<or> reason \<in> set not_allowed
      then (''unauthorized'', ''This phone isn't allowed to do that. Check its access in Paired devices on your computer.'')
      else if starts_with ''invalid_'' reason \<or> reason \<in> set malformed
      then (''invalid_request'', ''The desktop couldn't use this request. Try again.'')
      else (''internal'', ''The desktop couldn't complete this request. Try again.''))"

text \<open>The answer to a refused request; without a digest nothing is recorded.\<close>
definition answer_refusal :: "device_lib \<Rightarrow> app_env \<Rightarrow> string \<Rightarrow> json \<Rightarrow> string \<Rightarrow> json list mail" where
  "answer_refusal lib env p event reason =
     (\<lambda>s. case emit lib env p event ''error'' (error_payload (fst (refusal reason)) (snd (refusal reason))) s of
        (Inl e, s1) \<Rightarrow> (Inl (if e = Uncaught ''ValidationError'' then PairingError reason else e), s1)
      | (Inr v, s1) \<Rightarrow> (Inr [v], s1))"

text \<open>
  The answer is preceded by a line in the log, for which \<^verbatim>\<open>event.get("type") in _EVENT_TYPES\<close> is evaluated: the type of an
  event that does not fit the schema may be a list or an object, which cannot be looked up in a set.
\<close>
definition hashable_type :: "json \<Rightarrow> bool" where
  "hashable_type event \<longleftrightarrow> (case jget event ''type'' of Some (JList _) \<Rightarrow> False | Some (JObj _) \<Rightarrow> False | _ \<Rightarrow> True)"

definition refuse :: "device_lib \<Rightarrow> app_env \<Rightarrow> string \<Rightarrow> json \<Rightarrow> string option \<Rightarrow> string \<Rightarrow> json list mail" where
  "refuse lib env p event digest reason =
     run_then (lift (need (hashable_type event) (Uncaught ''TypeError''))) (\<lambda>_.
     transaction (
       run_then (db_query (check_trusted p)) (\<lambda>_.
       case digest of
         Some d \<Rightarrow>
           if reason \<in> set unrecorded then answer_refusal lib env p event reason
           else
             run_then (lift (item_text event ''id'')) (\<lambda>i.
             run_then (db_query (\<lambda>db. Inr (prior_digest p i db))) (\<lambda>prior.
               if prior \<noteq> None then pending lib p 0 100
               else run_then (record_inbound env p event d) (\<lambda>_. answer_refusal lib env p event reason)))
       | None \<Rightarrow> answer_refusal lib env p event reason)))"

definition event_digest :: "device_lib \<Rightarrow> json \<Rightarrow> string" where
  "event_digest lib event = lib_sha256 lib (dumps (lib_io lib) esc_ascii (sort_json event))"

definition handle :: "device_lib \<Rightarrow> app_env \<Rightarrow> string \<Rightarrow> json \<Rightarrow> json list mail" where
  "handle lib env p event =
     (\<lambda>s. if \<not> ae_valid env event then refuse lib env p event None ''invalid_application_event'' s
        else let d = event_digest lib event in
          case handle_event lib env p event d s of
            (Inl (PairingError reason), s1) \<Rightarrow>
              if reason \<in> set session_ending then (Inl (PairingError reason), s1)
              else refuse lib env p event (Some d) reason s1
          | (Inl (Uncaught k), s1) \<Rightarrow>
              if k \<in> {''KeyError'', ''TypeError''} then refuse lib env p event (Some d) k s1 else (Inl (Uncaught k), s1)
          | out \<Rightarrow> out)"

end
