(* ===== verification/Device_Work.thy ===== *)
theory Device_Work
  imports Device_Requests
begin

text \<open>
  \<^verbatim>\<open>devices/application.py\<close>: the life of accepted work (\<^verbatim>\<open>claim\<close>, \<^verbatim>\<open>complete\<close>, the recovery at start), what the user decides
  locally (grants, hosting, removal of a device), and the requests this desktop sends to others. The
  messages that \<^verbatim>\<open>history\<close> adds to claimed work are not modelled.
\<close>

section \<open>Running work\<close>

definition active_peer :: "string \<Rightarrow> app_db \<Rightarrow> bool" where
  "active_peer p db \<longleftrightarrow> list_ex (\<lambda>x. peer_id x = p \<and> peer_state x = Active) (reg_peers (db_registry db))"

text \<open>The condition of the query: accepted, from a trusted device, in a granted thread that is not busy.\<close>
definition can_start :: "app_db \<Rightarrow> work_row \<Rightarrow> bool" where
  "can_start db w \<longleftrightarrow>
     wk_state w = WorkAccepted \<and> active_peer (wk_peer w) db \<and> has_grant (wk_peer w) (wk_thread w) db \<and>
     \<not> list_ex (\<lambda>busy. wk_thread busy = wk_thread w \<and> wk_state busy = WorkRunning) (db_work db)"

record claimed =
  cl_peer :: string
  cl_event :: json
  cl_turn :: string
  cl_context :: json
  cl_attachments :: "json list"

definition attachment :: "device_lib \<Rightarrow> app_env \<Rightarrow> string \<Rightarrow> string \<Rightarrow> string \<Rightarrow> json mail" where
  "attachment lib env p thread i =
     run_then (file_call env (\<lambda>fe. content_of lib fe p thread i max_file)) (\<lambda>(offer, data).
     run_then (lift (item offer ''name'')) (\<lambda>name.
     run_then (lift (item offer ''mime'')) (\<lambda>mime.
       returns (JObj [(''id'', JStr i), (''name'', name), (''mime'', mime), (''data'', JStr data)]))))"

definition work_attachments :: "device_lib \<Rightarrow> app_env \<Rightarrow> work_row \<Rightarrow> json \<Rightarrow> json list mail" where
  "work_attachments lib env w event =
     run_then (lift (item event ''payload'')) (\<lambda>body.
       collect (\<lambda>v.
         run_then (lift (case v of JStr i \<Rightarrow> Inr i | _ \<Rightarrow> Inl (Uncaught ''TypeError''))) (attachment lib env (wk_peer w) (wk_thread w)))
       (elements (jget_or (JList []) body ''attachment_ids'')))"

text \<open>\<^verbatim>\<open>event["payload"].setdefault("text", event["payload"].get("intent", ""))\<close>\<close>
definition with_text :: "json \<Rightarrow> json" where
  "with_text event =
     (case jget event ''payload'' of
        Some (JObj ms) \<Rightarrow> JObj (dset ''payload'' (JObj (dsetdefault ''text'' (jget_or (JStr []) (JObj ms) ''intent'') ms)) (members event))
      | _ \<Rightarrow> event)"

definition attachments_missing :: "device_lib \<Rightarrow> app_env \<Rightarrow> work_row \<Rightarrow> json \<Rightarrow> claimed option mail" where
  "attachments_missing lib env w event =
     run_then (db_change (set_work (wk_peer w) (wk_request w) WorkFailed)) (\<lambda>_.
     run_then (status lib env (wk_peer w) event ''failed'' ''Attachment expired or unavailable'') (\<lambda>_. returns None))"

definition start_work :: "device_lib \<Rightarrow> app_env \<Rightarrow> work_row \<Rightarrow> json \<Rightarrow> claimed option mail" where
  "start_work lib env w context =
     run_then (db_change (set_work (wk_peer w) (wk_request w) WorkRunning)) (\<lambda>_.
     run_then (lift (open_value lib (wk_peer w) (wk_event w))) (\<lambda>event s.
       case work_attachments lib env w event s of
         (Inl (PairingError _), s1) \<Rightarrow> attachments_missing lib env w event s1
       | (Inl e, s1) \<Rightarrow> (Inl e, s1)
       | (Inr files, s1) \<Rightarrow>
           run_then (status lib env (wk_peer w) (with_text event) ''running'' ''Rem dispatch started'') (\<lambda>_.
             returns (Some \<lparr>cl_peer = wk_peer w, cl_event = with_text event, cl_turn = wk_turn w, cl_context = context,
               cl_attachments = files\<rparr>)) s1))"

text \<open>A turn is running in the desktop's own window of the thread.\<close>
definition busy_locally :: "app_env \<Rightarrow> json \<Rightarrow> bool" where
  "busy_locally env context \<longleftrightarrow>
     (case (jget context ''desktop_thread_id'', ae_local env) of
        (Some v, Some threads) \<Rightarrow> truthy v \<and> list_ex (\<lambda>t. py_eq (JStr t) v) threads
      | _ \<Rightarrow> False)"

definition claim_work :: "device_lib \<Rightarrow> app_env \<Rightarrow> claimed option mail" where
  "claim_work lib env =
     transaction (
       run_then (db_query (\<lambda>db. Inr (find (can_start db) (db_work db)))) (\<lambda>found.
       case found of
         None \<Rightarrow> returns None
       | Some w \<Rightarrow>
           run_then (db_query (\<lambda>db. case find_grant (wk_peer w) (wk_thread w) db of
               None \<Rightarrow> Inl (Uncaught ''KeyError'') | Some g \<Rightarrow> open_value lib (wk_peer w) (gr_context g))) (\<lambda>context.
             if busy_locally env context then returns None else start_work lib env w context)))"

definition authorized :: "string \<Rightarrow> string \<Rightarrow> app_db \<Rightarrow> bool" where
  "authorized p thread db \<longleftrightarrow> has_grant p thread db \<and> active_peer p db"

definition runnable :: "string \<Rightarrow> string \<Rightarrow> app_db \<Rightarrow> bool" where
  "runnable p request db \<longleftrightarrow>
     list_ex (\<lambda>w. wk_peer w = p \<and> wk_request w = request \<and> wk_state w = WorkRunning \<and> has_grant p (wk_thread w) db) (db_work db) \<and>
     active_peer p db"

section \<open>Results\<close>

text \<open>\<^verbatim>\<open>range(0, max(1, len(text)), 4000)\<close> with the piece of text at each of them, in code points\<close>
definition text_pieces :: "string \<Rightarrow> (nat \<times> string \<times> bool) list" where
  "text_pieces text =
     (let cps = utf8_dec text; n = length cps
      in map (\<lambda>k. (k * 4000, utf8_encode (take 4000 (drop (k * 4000) cps)), n \<le> k * 4000 + 4000)) [0..<(max 1 n + 3999) div 4000])"

definition message_events :: "device_lib \<Rightarrow> app_env \<Rightarrow> string \<Rightarrow> json \<Rightarrow> string \<Rightarrow> string \<Rightarrow> json list mail" where
  "message_events lib env p event request text =
     collect (\<lambda>(start, piece, final). emit lib env p event ''chat.message''
       [(''message_id'', JStr (ae_uuid5 env (''raticode-message:reply-'' @ request @ '':'' @ show_nat start))),
        (''text'', JStr piece), (''attachment_ids'', JList []), (''final'', JBool final)]) (text_pieces text)"

definition transcript_limit :: nat where "transcript_limit = 64 * 1024 * 1024"

text \<open>The answers of the twenty latest requests of a thread are kept.\<close>
definition prune_transcript :: "string \<Rightarrow> string \<Rightarrow> app_db \<Rightarrow> app_db" where
  "prune_transcript p thread db =
     (let kept = map wk_request (take 20 (rev (filter (\<lambda>w. wk_peer w = p \<and> wk_thread w = thread) (db_work db))))
      in db\<lparr>db_transcript := filter (\<lambda>t. \<not> (ts_peer t = p \<and> ts_thread t = thread \<and> ts_request t \<notin> set kept)) (db_transcript db)\<rparr>)"

definition transcript_full :: "string \<Rightarrow> string \<Rightarrow> app_db \<Rightarrow> bool" where
  "transcript_full p text db \<longleftrightarrow>
     transcript_limit < sum_list (map (\<lambda>t. length (ts_result t)) (filter (\<lambda>t. ts_peer t = p) (db_transcript db))) + length text"

text \<open>The part of \<^verbatim>\<open>complete\<close> for a thread that is shared with the desktop's own window.\<close>
definition share_result :: "device_lib \<Rightarrow> app_env \<Rightarrow> string \<Rightarrow> string \<Rightarrow> json \<Rightarrow> unit mail" where
  "share_result lib env p thread event =
     run_then (query (ae_finished env p thread)) (\<lambda>shared.
     case shared of
       None \<Rightarrow> returns ()
     | Some (gs, snapshot) \<Rightarrow>
         run_then (db_change (\<lambda>db. db\<lparr>db_grants := gs\<rparr>)) (\<lambda>_.
         case snapshot of
           None \<Rightarrow> returns ()
         | Some body \<Rightarrow> run_then (emit lib env p event ''thread.snapshot'' body) (\<lambda>_. returns ())))"

definition store_answer :: "device_lib \<Rightarrow> app_env \<Rightarrow> string \<Rightarrow> work_row \<Rightarrow> json \<Rightarrow> string \<Rightarrow> unit mail" where
  "store_answer lib env p w event text =
     run_then (seal_value lib env p (JObj [(''text'', JStr text)])) (\<lambda>blob.
     run_then (db_change (\<lambda>db. db\<lparr>db_transcript :=
         filter (\<lambda>t. \<not> (ts_peer t = p \<and> ts_request t = wk_request w)) (db_transcript db) @
         [\<lparr>ts_peer = p, ts_request = wk_request w, ts_thread = wk_thread w, ts_result = blob\<rparr>]\<rparr>)) (\<lambda>_.
     run_then (share_result lib env p (wk_thread w) event) (\<lambda>_.
     run_then (message_events lib env p event (wk_request w) text) (\<lambda>_. returns ()))))"

definition result_state :: "string option \<Rightarrow> work_state" where
  "result_state error = (case error of None \<Rightarrow> WorkCompleted | Some e \<Rightarrow> if e = ''provider_stopped'' then WorkCancelled else WorkFailed)"

definition result_detail :: "string option \<Rightarrow> string" where
  "result_detail error =
     (case error of None \<Rightarrow> ''Rem completed''
      | Some e \<Rightarrow> if e = ''provider_stopped'' then ''Rem was stopped. You can send another message.''
          else ''Rem could not finish. Check the provider and thread settings on desktop.'')"

definition is_job :: "json \<Rightarrow> bool" where
  "is_job event \<longleftrightarrow> jget event ''type'' = Some (JStr ''job.submit'')"

definition managed :: "json \<Rightarrow> bool" where
  "managed event \<longleftrightarrow> is_job event \<and> is_true (jget_or JNull event ''payload'') ''organization''"

definition job_result :: "device_lib \<Rightarrow> app_env \<Rightarrow> string \<Rightarrow> json \<Rightarrow> string \<Rightarrow> string \<Rightarrow> (string \<times> json) list \<Rightarrow> unit mail" where
  "job_result lib env p event state detail extra =
     run_then (lift (andThen (item event ''payload'') (\<lambda>body. item body ''job_id''))) (\<lambda>job.
     run_then (emit lib env p event ''job.status'' (job_status job state 2 detail extra)) (\<lambda>_. returns ()))"

definition usage_member :: "json option \<Rightarrow> (string \<times> json) list" where
  "usage_member usage = (case usage of None \<Rightarrow> [] | Some u \<Rightarrow> [(''usage'', u)])"

definition finish_cancelled :: "device_lib \<Rightarrow> app_env \<Rightarrow> string \<Rightarrow> json \<Rightarrow> json option \<Rightarrow> unit mail" where
  "finish_cancelled lib env p event usage =
     run_then (if managed event
       then job_result lib env p event ''cancelled'' ''Managed job stopped after cancellation'' (usage_member usage) else returns ()) (\<lambda>_.
     run_then (status lib env p event ''cancelled'' ''Rem stopped after cancellation'') (\<lambda>_. returns ()))"

definition finish_running ::
  "device_lib \<Rightarrow> app_env \<Rightarrow> string \<Rightarrow> work_row \<Rightarrow> json \<Rightarrow> string \<Rightarrow> string option \<Rightarrow> json option \<Rightarrow> unit mail" where
  "finish_running lib env p w event text error usage =
     run_then (if error = None then db_change (prune_transcript p (wk_thread w)) else returns ()) (\<lambda>_.
     run_then (db_query (\<lambda>db. Inr (if error = None \<and> transcript_full p text db then Some ''transcript_quota'' else error))) (\<lambda>error1.
     run_then (if error1 = None then store_answer lib env p w event text else returns ()) (\<lambda>_.
     run_then (if is_job event
       then job_result lib env p event (work_text (result_state error1)) ''Target Rem finished'' (if managed event then usage_member usage else [])
       else returns ()) (\<lambda>_.
     run_then (status lib env p event (work_text (result_state error1)) (result_detail error1)) (\<lambda>_.
       db_change (set_work p (wk_request w) (result_state error1)))))))"

definition complete_work :: "device_lib \<Rightarrow> app_env \<Rightarrow> string \<Rightarrow> string \<Rightarrow> string \<Rightarrow> string option \<Rightarrow> json option \<Rightarrow> unit mail" where
  "complete_work lib env p request text error usage =
     transaction (
       run_then (db_query (check_trusted p)) (\<lambda>_.
       run_then (db_query (\<lambda>db. Inr (find_work p request db))) (\<lambda>found.
       case found of
         None \<Rightarrow> lift (Inl (PairingError ''work_not_running''))
       | Some w \<Rightarrow>
           if wk_state w \<notin> {WorkCancelled, WorkRunning} then lift (Inl (PairingError ''work_not_running''))
           else
             run_then (lift (open_value lib p (wk_event w))) (\<lambda>event.
               if wk_state w = WorkCancelled then finish_cancelled lib env p event usage
               else finish_running lib env p w event text error usage))))"

text \<open>At the start of the desktop, work that was running has an unknown outcome.\<close>
definition recover_work :: "device_lib \<Rightarrow> app_env \<Rightarrow> unit mail" where
  "recover_work lib env =
     transaction (
       run_then (db_query (\<lambda>db. Inr (filter (\<lambda>w. wk_state w = WorkRunning) (db_work db)))) (\<lambda>rows.
       run_then (collect (\<lambda>w.
           run_then (lift (open_value lib (wk_peer w) (wk_event w))) (\<lambda>event.
             status lib env (wk_peer w) event ''outcome_unknown'' ''Desktop stopped during dispatch; review locally before retrying'')) rows) (\<lambda>_.
         db_change (set_works (\<lambda>w. wk_state w = WorkRunning) WorkUnknown))))"

section \<open>Local decisions\<close>

fun child_threads :: "device_lib \<Rightarrow> string \<Rightarrow> string \<Rightarrow> grant_row list \<Rightarrow> registry_error + string list" where
  "child_threads lib p thread [] = Inr []"
| "child_threads lib p thread (g # gs) =
     andThen (open_value lib p (gr_context g)) (\<lambda>context.
     andThen (child_threads lib p thread gs) (\<lambda>rest.
       Inr (if jget context ''parent_thread'' = Some (JStr thread) then gr_thread g # rest else rest)))"

definition revoke_thread :: "string \<Rightarrow> string \<Rightarrow> app_db \<Rightarrow> app_db" where
  "revoke_thread p thread db =
     (set_works (\<lambda>w. wk_peer w = p \<and> wk_thread w = thread \<and> open_state (wk_state w)) WorkCancelled db)
       \<lparr>db_grants := filter (\<lambda>g. \<not> (gr_peer g = p \<and> gr_thread g = thread)) (db_grants db)\<rparr>"

definition revoke_thread_tree :: "device_lib \<Rightarrow> string \<Rightarrow> string \<Rightarrow> unit mail" where
  "revoke_thread_tree lib p thread =
     run_then (db_query (\<lambda>db. child_threads lib p thread (grants_of p db))) (\<lambda>children.
       for_each (\<lambda>t. db_change (revoke_thread p t)) (thread # children))"

definition put_grant :: "string \<Rightarrow> string \<Rightarrow> string \<Rightarrow> app_db \<Rightarrow> app_db" where
  "put_grant p thread blob db =
     db\<lparr>db_grants := filter (\<lambda>g. \<not> (gr_peer g = p \<and> gr_thread g = thread)) (db_grants db) @
       [\<lparr>gr_peer = p, gr_thread = thread, gr_context = blob\<rparr>]\<rparr>"

definition authorize :: "device_lib \<Rightarrow> app_env \<Rightarrow> string \<Rightarrow> string \<Rightarrow> json \<Rightarrow> unit mail" where
  "authorize lib env p thread context =
     run_then (lift (device_id (JStr thread))) (\<lambda>_.
     run_then (lift (case (jget context ''provider'', jget context ''model'') of
         (Some (JStr _), Some (JStr _)) \<Rightarrow> Inr () | _ \<Rightarrow> Inl (PairingError ''invalid_thread_context''))) (\<lambda>_.
     transaction (
       run_then (db_query (check_trusted p)) (\<lambda>_.
       run_then (revoke_thread_tree lib p thread) (\<lambda>_.
       run_then (seal_value lib env p context) (\<lambda>blob. db_change (put_grant p thread blob)))))))"

text \<open>The rows of a device in the tables of this theory; its work stays as a record of what ran.\<close>
definition forget_peer :: "string \<Rightarrow> app_db \<Rightarrow> app_db" where
  "forget_peer p db =
     (set_works (\<lambda>w. wk_peer w = p \<and> open_state (wk_state w)) WorkCancelled db)
       \<lparr>db_grants := filter (\<lambda>g. gr_peer g \<noteq> p) (db_grants db),
        db_inbox := filter (\<lambda>row. in_peer row \<noteq> p) (db_inbox db),
        db_reads := filter (\<lambda>row. in_peer row \<noteq> p) (db_reads db),
        db_transcript := filter (\<lambda>t. ts_peer t \<noteq> p) (db_transcript db),
        db_attachments := filter (\<lambda>row. fst (fst row) \<noteq> p) (db_attachments db),
        db_sequences := ddel p (db_sequences db),
        db_receipts := filter (\<lambda>row. rc_peer row \<noteq> p) (db_receipts db),
        db_sends := filter (\<lambda>row. sd_peer row \<noteq> p) (db_sends db),
        db_requests := filter (\<lambda>row. rq_peer row \<noteq> p) (db_requests db),
        db_cancels := filter (\<lambda>row. fst (fst row) \<noteq> p) (db_cancels db),
        db_results := filter (\<lambda>row. rs_peer row \<noteq> p) (db_results db),
        db_cursors := ddel p (db_cursors db),
        db_hosts := filter (\<lambda>q. q \<noteq> p) (db_hosts db),
        db_threads := filter (\<lambda>row. fst (fst row) \<noteq> p) (db_threads db),
        db_snapshots := filter (\<lambda>row. sn_peer row \<noteq> p) (db_snapshots db),
        db_outbox := filter (\<lambda>row. ob_peer row \<noteq> p) (db_outbox db),
        db_files := filter (\<lambda>row. fr_peer row \<noteq> p) (db_files db),
        db_registry := (db_registry db)\<lparr>reg_peers := filter (\<lambda>x. peer_id x \<noteq> p) (reg_peers (db_registry db)),
          reg_endpoints := ddel p (reg_endpoints (db_registry db)), reg_names := ddel p (reg_names (db_registry db)),
          reg_workspace := filter (\<lambda>q. q \<noteq> p) (reg_workspace (db_registry db))\<rparr>\<rparr>"

definition remove_peer :: "string \<Rightarrow> bool \<Rightarrow> unit mail" where
  "remove_peer p revoked_only =
     transaction (
       run_then (db_query (\<lambda>db. peer_row p (db_registry db))) (\<lambda>x.
       run_then (raise_unless (\<not> (revoked_only \<and> peer_state x \<noteq> Revoked)) ''revoked_peer_required'') (\<lambda>_.
       run_then (raise_unless (\<not> (\<not> revoked_only \<and> peer_state x = Revoked)) ''use_remove_revoked'') (\<lambda>_.
         db_change (forget_peer p)))))"

definition host_thread :: "app_env \<Rightarrow> string \<Rightarrow> string" where
  "host_thread env p = ae_uuid5 env (''raticode-thread-host:'' @ p)"

definition hosting :: "app_db \<Rightarrow> string list" where
  "hosting db = filter (\<lambda>p. active_peer p db) (db_hosts db)"

definition enable_hosting :: "device_lib \<Rightarrow> app_env \<Rightarrow> string \<Rightarrow> bool \<Rightarrow> unit mail" where
  "enable_hosting lib env p enabled =
     transaction (
       run_then (db_query (check_trusted p)) (\<lambda>_.
       run_then (db_query (\<lambda>db. andThen (role_of p db) (\<lambda>role. need (role = ''desktop'') (PairingError ''desktop_required'')))) (\<lambda>_.
         if enabled then db_change (\<lambda>db. if p \<in> set (db_hosts db) then db else db\<lparr>db_hosts := db_hosts db @ [p]\<rparr>)
         else run_then (db_change (\<lambda>db. db\<lparr>db_hosts := filter (\<lambda>q. q \<noteq> p) (db_hosts db)\<rparr>)) (\<lambda>_.
           revoke_thread_tree lib p (host_thread env p)))))"

definition host_template :: "device_lib \<Rightarrow> app_env \<Rightarrow> string \<Rightarrow> (string \<times> json) list \<Rightarrow> unit mail" where
  "host_template lib env p context =
     transaction (
       run_then (db_query (check_trusted p)) (\<lambda>_.
       run_then (db_query (\<lambda>db. need (p \<in> set (hosting db)) (PairingError ''thread_hosting_disabled''))) (\<lambda>_.
       run_then (seal_value lib env p (JObj (ddel ''desktop_thread_id'' (dmerge context
           [(''title'', JStr ''Threads from a paired desktop''), (''allow_thread_create'', JBool True), (''revision'', JInt 1)])))) (\<lambda>blob.
         db_change (put_grant p (host_thread env p) blob)))))"

definition remote_thread :: "string \<Rightarrow> string \<Rightarrow> app_db \<Rightarrow> string option" where
  "remote_thread p here db = dget (db_threads db) (p, here)"

definition save_remote_thread :: "string \<Rightarrow> string \<Rightarrow> string option \<Rightarrow> unit mail" where
  "save_remote_thread p here there =
     transaction (
       run_then (db_query (check_trusted p)) (\<lambda>_.
       case there of
         None \<Rightarrow> db_change (\<lambda>db. db\<lparr>db_threads := ddel (p, here) (db_threads db)\<rparr>)
       | Some t \<Rightarrow> run_then (lift (device_id (JStr t))) (\<lambda>t1. db_change (\<lambda>db. db\<lparr>db_threads := dset (p, here) t1 (db_threads db)\<rparr>))))"

definition record_attachments :: "device_lib \<Rightarrow> app_env \<Rightarrow> string \<Rightarrow> string \<Rightarrow> json list \<Rightarrow> unit mail" where
  "record_attachments lib env p request files =
     transaction (
       run_then (db_query (check_trusted p)) (\<lambda>_.
       run_then (seal_value lib env p (JObj [(''attachments'', JList files)])) (\<lambda>blob.
         db_change (\<lambda>db. db\<lparr>db_attachments := dset (p, request) blob (db_attachments db)\<rparr>))))"

text \<open>The tables of \<^verbatim>\<open>workspace.deny\<close> are not modelled.\<close>
definition revoke_grant :: "device_lib \<Rightarrow> string \<Rightarrow> string \<Rightarrow> unit mail" where
  "revoke_grant lib p thread = transaction (revoke_thread_tree lib p thread)"

section \<open>Actions of running work\<close>

text \<open>
  \<open>snapshot\<close> stands for \<^verbatim>\<open>validate_context\<close> and \<^verbatim>\<open>files.snapshot\<close>: it refuses, or copies the file to the
  disk, enters it into the table of files and yields the payload of the offer.
\<close>
definition offer_to :: "device_lib \<Rightarrow> app_env \<Rightarrow> string \<Rightarrow> string \<Rightarrow> string option \<Rightarrow>
    (json \<Rightarrow> app \<Rightarrow> registry_error + file_row list \<times> (string, string) dict \<times> (string \<times> json) list) \<Rightarrow> json mail" where
  "offer_to lib env p thread origin snapshot =
     transaction (
       run_then (db_query (check_trusted p)) (\<lambda>_.
       run_then (db_query (\<lambda>db. case find_grant p thread db of
           None \<Rightarrow> Inl (PairingError ''file_thread_grant_required'') | Some g \<Rightarrow> Inr g)) (\<lambda>g.
       run_then (db_query (\<lambda>db. case origin of
           None \<Rightarrow> Inr ()
         | Some request \<Rightarrow> need (map_option wk_thread (find_work p request db) = Some thread \<and> runnable p request db)
             (PairingError ''originating_request_not_authorized''))) (\<lambda>_.
       run_then (lift (open_value lib p (gr_context g))) (\<lambda>context.
       run_then (query (snapshot context)) (\<lambda>(rows, disk, offer).
       run_then (change (\<lambda>s. s\<lparr>ap_db := (ap_db s)\<lparr>db_files := rows\<rparr>, ap_disk := disk\<rparr>)) (\<lambda>_.
       run_then (draw (ae_uuid env)) (\<lambda>request.
         emit lib env p (JObj [(''thread_id'', JStr thread), (''request_id'', JStr request)]) ''file.offer'' offer))))))))"

definition thread_limit :: nat where "thread_limit = 10000"

definition child_request :: "app_env \<Rightarrow> string \<Rightarrow> string" where
  "child_request env origin = ae_uuid5 env (''raticode-child:'' @ origin)"

text \<open>The event of a child thread; its number is 0 as it never was sent.\<close>
definition child_event :: "string \<Rightarrow> string \<Rightarrow> string \<Rightarrow> json \<Rightarrow> json" where
  "child_event i request thread message =
     JObj [(''version'', JInt 2), (''id'', JStr i), (''request_id'', JStr request), (''thread_id'', JStr thread), (''sequence'', JInt 0),
       (''type'', JStr ''chat.submit''), (''payload'', JObj [(''text'', message), (''attachment_ids'', JList [])])]"

text \<open>The rows that a child thread adds.\<close>
definition insert_child :: "device_lib \<Rightarrow> app_env \<Rightarrow> string \<Rightarrow> string \<Rightarrow> string \<Rightarrow> json \<Rightarrow> json \<Rightarrow> unit mail" where
  "insert_child lib env p request thread context message =
     run_then (seal_value lib env p context) (\<lambda>blob.
     run_then (db_query (\<lambda>db. need (\<not> has_grant p thread db) (Uncaught ''IntegrityError''))) (\<lambda>_.
     run_then (db_change (put_grant p thread blob)) (\<lambda>_.
     run_then (draw (ae_uuid env)) (\<lambda>i.
     run_then (seal_value lib env p (child_event i request thread message)) (\<lambda>sealed.
     run_then (draw (ae_uuid env)) (\<lambda>turn.
     run_then (db_query (\<lambda>db. need (find_work p request db = None) (Uncaught ''IntegrityError''))) (\<lambda>_.
       db_change (\<lambda>db. db\<lparr>db_work := db_work db @
         [\<lparr>wk_peer = p, wk_request = request, wk_thread = thread, wk_event = sealed, wk_state = WorkAccepted, wk_turn = turn\<rparr>]\<rparr>))))))))"

text \<open>
  \<open>scoped\<close> stands for the table of creation requests, the choice of the project, \<^verbatim>\<open>workspace.scope_context\<close> and the check of the message
  (\<open>None\<close> when the child exists already), \<open>placed\<close> for the identifier and the metadata of the new thread.
\<close>
definition spawn_thread :: "device_lib \<Rightarrow> app_env \<Rightarrow> string \<Rightarrow> string \<Rightarrow> json \<Rightarrow> (json \<Rightarrow> app \<Rightarrow> registry_error + json option) \<Rightarrow>
    (json \<Rightarrow> app \<Rightarrow> registry_error + string \<times> json) \<Rightarrow> unit mail" where
  "spawn_thread lib env p origin message scoped placed =
     transaction (
       run_then (db_query (check_trusted p)) (\<lambda>_.
       run_then (db_query (\<lambda>db. need (runnable p origin db) (PairingError ''originating_request_not_authorized''))) (\<lambda>_.
       run_then (db_query (\<lambda>db. case find_work p origin db of
           None \<Rightarrow> Inl (Uncaught ''TypeError'')
         | Some w \<Rightarrow> (case find_grant p (wk_thread w) db of None \<Rightarrow> Inl (Uncaught ''TypeError'') | Some g \<Rightarrow> open_value lib p (gr_context g)))) (\<lambda>context.
       run_then (raise_unless (is_true context ''desktop_parity'' \<and> is_true context ''desktop_thread_id'') ''workspace_sharing_required'') (\<lambda>_.
       run_then (query (scoped context)) (\<lambda>scope.
       case scope of
         None \<Rightarrow> returns ()
       | Some chosen \<Rightarrow>
           run_then (db_query (\<lambda>db. need (length (filter (\<lambda>w. wk_peer w = p \<and> open_state (wk_state w)) (db_work db)) < work_limit)
             (PairingError ''work_quota''))) (\<lambda>_.
           run_then (db_query (\<lambda>db. need (length (filter (\<lambda>g. gr_peer g = p) (db_grants db)) < thread_limit) (PairingError ''thread_quota''))) (\<lambda>_.
           run_then (query (placed chosen)) (\<lambda>(thread, child).
             insert_child lib env p (child_request env origin) thread child message)))))))))"

end
