(* ===== verification/Device_Fleet.thy ===== *)
theory Device_Fleet
  imports Device_Work
begin

text \<open>
  \<^verbatim>\<open>devices/application.py\<close>: the requests this desktop sends to a paired desktop, and what comes back.
\<close>

section \<open>Requests to another desktop\<close>

definition remote_request_limit :: nat where "remote_request_limit = 100000"
definition remote_result_limit :: nat where "remote_result_limit = 10000"
definition remote_result_bytes :: nat where "remote_result_bytes = 64 * 1024 * 1024"
definition remote_result_keep :: nat where "remote_result_keep = 2000"

definition find_request :: "string \<Rightarrow> string \<Rightarrow> app_db \<Rightarrow> request_row option" where
  "find_request p request db = find (\<lambda>row. rq_peer row = p \<and> rq_request row = request) (db_requests db)"

text \<open>Whether a repeated call asks for the same as the queued one.\<close>
definition same_request :: "json \<Rightarrow> json \<Rightarrow> registry_error + bool" where
  "same_request old body =
     andThen (item old ''type'') (\<lambda>kind. andThen (item old ''thread_id'') (\<lambda>thread. andThen (item old ''payload'') (\<lambda>b.
     let same = (py_eq kind (jget_or (JStr ''chat.submit'') body ''kind'') \<and> py_eq thread (jget_or JNull body ''thread_id'') \<and>
       py_eq (jget_or (jget_or (JStr []) b ''intent'') b ''text'') (jget_or (JStr []) body ''text''))
     in if \<not> same then Inr False
        else if \<not> py_eq (jget_or (JStr ''chat.submit'') body ''kind'') (JStr ''job.submit'') then Inr True
        else andThen (item b ''project_id'') (\<lambda>project. andThen (item b ''expected_policy_revision'') (\<lambda>revision.
          Inr (py_eq project (jget_or JNull body ''project_id'') \<and>
            py_eq (jget_or JNull b ''organization'') (jget_or JNull body ''organization'') \<and>
            py_eq revision (jget_or (JInt 1) body ''policy_revision'')))))))"

definition remote_payload :: "string \<Rightarrow> string \<Rightarrow> json \<Rightarrow> json \<Rightarrow> (string \<times> json) list" where
  "remote_payload p request kind body =
     (if kind = JStr ''fleet.request'' then []
      else if kind = JStr ''job.submit'' then
        [(''job_id'', JStr request), (''target_device_id'', JStr p), (''project_id'', jget_or JNull body ''project_id''),
         (''resource_ids'', JList []), (''intent'', jget_or (JStr []) body ''text''),
         (''expected_policy_revision'', jget_or (JInt 1) body ''policy_revision'')] @
        (if is_true body ''organization'' then [(''organization'', jget_or JNull body ''organization'')] else [])
      else [(''text'', jget_or (JStr []) body ''text''), (''attachment_ids'', JList [])])"

definition new_request :: "device_lib \<Rightarrow> app_env \<Rightarrow> string \<Rightarrow> string \<Rightarrow> json \<Rightarrow> json mail" where
  "new_request lib env p request body =
     run_then (db_query (\<lambda>db. need (length (filter (\<lambda>row. rq_peer row = p) (db_requests db)) < remote_request_limit)
       (PairingError ''remote_request_quota''))) (\<lambda>_.
     run_then (next_outbound_sequence p) (\<lambda>n.
     run_then (draw (ae_uuid env)) (\<lambda>i.
     let kind = jget_or (JStr ''chat.submit'') body ''kind'';
         event = JObj [(''version'', JInt 2), (''id'', JStr i), (''thread_id'', jget_or JNull body ''thread_id''),
           (''request_id'', JStr request), (''sequence'', JInt n), (''type'', kind), (''payload'', JObj (remote_payload p request kind body))] in
     run_then (raise_unless (kind \<in> {JStr ''chat.submit'', JStr ''job.submit'', JStr ''fleet.request''} \<and> ae_valid env event)
       ''invalid_remote_request'') (\<lambda>_.
     run_then (seal_value lib env p event) (\<lambda>blob.
     run_then (db_change (\<lambda>db. db\<lparr>db_requests := db_requests db @
         [\<lparr>rq_peer = p, rq_request = request, rq_event = blob, rq_state = ''queued''\<rparr>]\<rparr>)) (\<lambda>_.
       returns event))))))"

definition queue_remote :: "device_lib \<Rightarrow> app_env \<Rightarrow> string \<Rightarrow> json \<Rightarrow> json mail" where
  "queue_remote lib env p body =
     transaction (
       run_then (db_query (check_trusted p)) (\<lambda>_.
       run_then (db_query (\<lambda>db. andThen (role_of p db) (\<lambda>role. need (role = ''desktop'') (PairingError ''mobile_is_not_worker'')))) (\<lambda>_.
       run_then (lift (device_id (jget_or JNull body ''request_id''))) (\<lambda>request.
       run_then (db_query (\<lambda>db. Inr (find_request p request db))) (\<lambda>existing.
       case existing of
         Some row \<Rightarrow>
           run_then (lift (open_value lib p (rq_event row))) (\<lambda>old.
           run_then (lift (same_request old body)) (\<lambda>same.
             if same then returns old else lift (Inl (PairingError ''request_id_conflict''))))
       | None \<Rightarrow> new_request lib env p request body)))))"

definition cancel_remote :: "device_lib \<Rightarrow> app_env \<Rightarrow> string \<Rightarrow> string \<Rightarrow> json mail" where
  "cancel_remote lib env p request =
     transaction (
       run_then (db_query (check_trusted p)) (\<lambda>_.
       run_then (db_query (\<lambda>db. Inr (dget (db_cancels db) (p, request)))) (\<lambda>existing.
       case existing of
         Some blob \<Rightarrow> lift (open_value lib p blob)
       | None \<Rightarrow>
           run_then (db_query (\<lambda>db. case find_request p request db of
               None \<Rightarrow> Inl (PairingError ''request_unavailable'') | Some row \<Rightarrow> open_value lib p (rq_event row))) (\<lambda>event.
           run_then (next_outbound_sequence p) (\<lambda>n.
           let cancellation = JObj (dmerge (members event)
             [(''id'', JStr (ae_uuid5 env (''raticode-cancel:'' @ request))), (''type'', JStr ''request.cancel''),
              (''payload'', JObj [(''reason'', JStr ''Organization execution stopped'')]), (''sequence'', JInt n)]) in
           run_then (seal_value lib env p cancellation) (\<lambda>blob.
           run_then (db_change (\<lambda>db. db\<lparr>db_cancels := dset (p, request) blob (db_cancels db)\<rparr>)) (\<lambda>_.
             returns cancellation)))))))"

section \<open>Answers of another desktop\<close>

definition set_request :: "string \<Rightarrow> json \<Rightarrow> string \<Rightarrow> app_db \<Rightarrow> app_db" where
  "set_request p request state db =
     db\<lparr>db_requests := map (\<lambda>row. if rq_peer row = p \<and> request = JStr (rq_request row) then row\<lparr>rq_state := state\<rparr> else row) (db_requests db)\<rparr>"

definition advance_cursor :: "string \<Rightarrow> int \<Rightarrow> app_db \<Rightarrow> app_db" where
  "advance_cursor p n db =
     db\<lparr>db_cursors := dset p (case dget (db_cursors db) p of None \<Rightarrow> n | Some m \<Rightarrow> max m n) (db_cursors db)\<rparr>"

text \<open>A status snapshot replaces an older one.\<close>
definition put_snapshot :: "snapshot_row \<Rightarrow> app_db \<Rightarrow> app_db" where
  "put_snapshot row db =
     (if list_ex (\<lambda>x. sn_peer x = sn_peer row \<and> sn_kind x = sn_kind row) (db_snapshots db)
      then db\<lparr>db_snapshots := map (\<lambda>x. if sn_peer x = sn_peer row \<and> sn_kind x = sn_kind row \<and> sn_sequence x \<le> sn_sequence row
        then row else x) (db_snapshots db)\<rparr>
      else db\<lparr>db_snapshots := db_snapshots db @ [row]\<rparr>)"

definition results_of :: "string \<Rightarrow> app_db \<Rightarrow> result_row list" where
  "results_of p db = filter (\<lambda>row. rs_peer row = p) (db_results db)"

definition result_bytes :: "string \<Rightarrow> app_db \<Rightarrow> nat" where
  "result_bytes p db = sum_list (map (\<lambda>row. length (rs_event row)) (results_of p db))"

text \<open>\<^verbatim>\<open>rowid NOT IN (... ORDER BY rowid DESC LIMIT 2000)\<close>: rows have distinct identifiers, and the last ones are kept.\<close>
definition trim_results :: "string \<Rightarrow> app_db \<Rightarrow> app_db" where
  "trim_results p db =
     (let kept = map rs_id (take remote_result_keep (rev (results_of p db)))
      in db\<lparr>db_results := filter (\<lambda>row. \<not> (rs_peer row = p \<and> rs_id row \<notin> set kept)) (db_results db)\<rparr>)"

definition result_room :: "string \<Rightarrow> app_db \<Rightarrow> registry_error + app_db" where
  "result_room p db =
     (if length (results_of p db) < remote_result_limit \<and> result_bytes p db < remote_result_bytes then Inr db
      else let db1 = trim_results p db
        in if result_bytes p db1 < remote_result_bytes then Inr db1 else Inl (PairingError ''remote_result_quota''))"

definition find_result :: "string \<Rightarrow> string \<Rightarrow> app_db \<Rightarrow> result_row option" where
  "find_result p i db = find (\<lambda>row. rs_peer row = p \<and> rs_id row = i) (db_results db)"

definition final_state :: "json \<Rightarrow> registry_error + string option" where
  "final_state event =
     andThen (item event ''type'') (\<lambda>kind.
     andThen (if kind = JStr ''request.status'' then andThen (item event ''payload'') (\<lambda>b. andThen (item b ''status'') (\<lambda>v. Inr (Some v)))
       else if kind = JStr ''job.status'' then andThen (item event ''payload'') (\<lambda>b. andThen (item b ''state'') (\<lambda>v. Inr (Some v)))
       else if kind = JStr ''error'' then Inr (Some (JStr ''failed'')) else Inr None) (\<lambda>terminal.
       Inr (case terminal of
         Some (JStr st) \<Rightarrow> if st \<in> {''completed'', ''failed'', ''cancelled'', ''outcome_unknown'', ''rejected''} then Some st else None
       | _ \<Rightarrow> None)))"

definition store_result :: "device_lib \<Rightarrow> app_env \<Rightarrow> string \<Rightarrow> json \<Rightarrow> unit mail" where
  "store_result lib env p event =
     run_then (db_update (result_room p)) (\<lambda>_.
     run_then (lift (item_text event ''id'')) (\<lambda>i.
     run_then (db_query (\<lambda>db. Inr (find_result p i db))) (\<lambda>prior.
     run_then (lift (case prior of None \<Rightarrow> Inr () | Some row \<Rightarrow>
       andThen (open_value lib p (rs_event row)) (\<lambda>old. need (py_eq old event) (PairingError ''remote_response_conflict'')))) (\<lambda>_.
     run_then (seal_value lib env p event) (\<lambda>blob.
     run_then (if prior = None then db_change (\<lambda>db. db\<lparr>db_results := db_results db @ [\<lparr>rs_peer = p, rs_id = i, rs_event = blob\<rparr>]\<rparr>)
       else returns ()) (\<lambda>_.
     run_then (lift (final_state event)) (\<lambda>final.
     case final of
       None \<Rightarrow> returns ()
     | Some st \<Rightarrow> run_then (lift (item event ''request_id'')) (\<lambda>request. db_change (set_request p request st)))))))))"

definition remote_result :: "device_lib \<Rightarrow> app_env \<Rightarrow> string \<Rightarrow> json \<Rightarrow> unit mail" where
  "remote_result lib env p event =
     run_then (raise_unless (ae_valid env event) ''invalid_remote_response'') (\<lambda>_.
     transaction (
       run_then (db_query (check_trusted p)) (\<lambda>_.
       run_then (lift (item_int event ''sequence'')) (\<lambda>n.
       run_then (db_change (\<lambda>db. seen (ae_clock env) p (advance_cursor p n db))) (\<lambda>_.
       run_then (lift (item_text event ''type'')) (\<lambda>kind.
         if kind \<in> {''catalog.snapshot'', ''thread.snapshot'', ''thread.history.snapshot''} then returns ()
         else if kind \<in> {''fleet.snapshot'', ''sync.snapshot''} then
           run_then (seal_value lib env p event) (\<lambda>blob.
           run_then (db_change (put_snapshot \<lparr>sn_peer = p, sn_kind = kind, sn_sequence = n, sn_event = blob\<rparr>)) (\<lambda>_.
             if kind = ''fleet.snapshot''
             then run_then (lift (item event ''request_id'')) (\<lambda>request. db_change (set_request p request ''completed''))
             else returns ()))
         else store_result lib env p event))))))"

definition remote_status :: "device_lib \<Rightarrow> string \<Rightarrow> string \<Rightarrow> json mail" where
  "remote_status lib p request =
     db_query (\<lambda>db. andThen (check_trusted p db) (\<lambda>_.
       andThen (open_all lib p (map rs_event (results_of p db))) (\<lambda>events.
         Inr (JObj [(''state'', JStr (case find_request p request db of Some row \<Rightarrow> rq_state row | None \<Rightarrow> ''unknown'')),
           (''request_id'', JStr request), (''events'', JList (filter (\<lambda>e. jget e ''request_id'' = Some (JStr request)) events))]))))"

fun open_rows :: "device_lib \<Rightarrow> (string \<times> string) list \<Rightarrow> registry_error + (string \<times> json) list" where
  "open_rows lib [] = Inr []"
| "open_rows lib ((p, blob) # rows) = andThen (open_value lib p blob) (\<lambda>v. andThen (open_rows lib rows) (\<lambda>vs. Inr ((p, v) # vs)))"

text \<open>At most four cancellations and four requests at a time.\<close>
definition queued_remote :: "device_lib \<Rightarrow> app_db \<Rightarrow> registry_error + (string \<times> json) list" where
  "queued_remote lib db =
     (let cancels = take 4 (filter (\<lambda>((p, r), blob). active_peer p db \<and>
            (case find_request p r db of None \<Rightarrow> False
             | Some row \<Rightarrow> rq_state row \<notin> {''completed'', ''cancelled'', ''failed'', ''rejected''})) (db_cancels db));
          requests = take 4 (filter (\<lambda>row. rq_state row = ''queued'' \<and> active_peer (rq_peer row) db) (db_requests db))
      in open_rows lib (map (\<lambda>((p, r), blob). (p, blob)) cancels @ map (\<lambda>row. (rq_peer row, rq_event row)) requests))"

section \<open>Events of a session\<close>

definition session_event :: "app_env \<Rightarrow> string \<Rightarrow> string \<Rightarrow> (string \<times> json) list \<Rightarrow> json \<Rightarrow> string option \<Rightarrow> json mail" where
  "session_event env p kind body thread request =
     run_then (transaction (
       run_then (db_query (check_trusted p)) (\<lambda>_.
       run_then (draw (ae_uuid env)) (\<lambda>i.
       run_then (case request of Some r \<Rightarrow> if r = [] then draw (ae_uuid env) else returns r | None \<Rightarrow> draw (ae_uuid env)) (\<lambda>r.
       run_then (next_outbound_sequence p) (\<lambda>n.
         returns (event_document i thread (JStr r) n kind body))))))) (\<lambda>event.
     run_then (validate_event env event) (\<lambda>_. returns event))"

definition acknowledgment :: "app_env \<Rightarrow> string \<Rightarrow> json mail" where
  "acknowledgment env p =
     run_then (db_query (\<lambda>db. Inr (dget (db_cursors db) p))) (\<lambda>cursor.
       session_event env p ''sync.request''
         [(''after_sequence'', case cursor of None \<Rightarrow> JNull | Some n \<Rightarrow> JInt n), (''limit'', JInt 100)] JNull None)"

definition fleet_probe :: "app_env \<Rightarrow> string \<Rightarrow> json mail" where
  "fleet_probe env p =
     run_then (db_query (\<lambda>db. andThen (role_of p db) (\<lambda>role. need (role = ''desktop'') (PairingError ''mobile_is_not_worker'')))) (\<lambda>_.
       session_event env p ''fleet.request'' [] JNull None)"

end
