(* ===== verification/Mailbox_Rules.thy ===== *)
theory Mailbox_Rules
  imports Device_Fleet
begin

text \<open>
  What every call of the mailbox keeps. A relation between the states before and after a step is kept by
  all calls as soon as it is kept by the few ways in which the code writes to the inbox, the outbox and the table
  of work; the locale below states these ways and proves the rest once.
\<close>

section \<open>Relations kept by actions\<close>

text \<open>From a state with \<open>P\<close> an action takes a step of \<open>R\<close>, and its result satisfies \<open>Q\<close>.\<close>
definition moves :: "('s \<Rightarrow> 's \<Rightarrow> bool) \<Rightarrow> ('s \<Rightarrow> bool) \<Rightarrow> ('s, 'a) action \<Rightarrow> ('a \<Rightarrow> 's \<Rightarrow> bool) \<Rightarrow> bool" where
  "moves R P m Q \<longleftrightarrow> (\<forall>s. P s \<longrightarrow> R s (snd (m s)) \<and> (\<forall>x. fst (m s) = Inr x \<longrightarrow> Q x (snd (m s))))"

lemma moves_run_then:
  assumes "\<And>s t u. R s t \<Longrightarrow> R t u \<Longrightarrow> R s u" and "moves R P m Q" and "\<And>x. moves R (Q x) (k x) Q'"
  shows "moves R P (run_then m k) Q'"
  unfolding moves_def
proof (intro allI impI)
  fix s assume "P s"
  obtain r s1 where r: "m s = (r, s1)" by fastforce
  have m: "R s s1" "\<And>x. r = Inr x \<Longrightarrow> Q x s1" using assms(2) \<open>P s\<close> r by (auto simp: moves_def)
  show "R s (snd (run_then m k s)) \<and> (\<forall>x. fst (run_then m k s) = Inr x \<longrightarrow> Q' x (snd (run_then m k s)))"
  proof (cases r)
    case (Inl e)
    then show ?thesis using m by (simp add: run_then_def r)
  next
    case (Inr x)
    then show ?thesis using m assms(1) assms(3) [of x] by (auto simp: run_then_def r moves_def)
  qed
qed

lemma moves_weaken: "moves R P m Q \<Longrightarrow> (\<And>s. P' s \<Longrightarrow> P s) \<Longrightarrow> (\<And>x s. Q x s \<Longrightarrow> Q' x s) \<Longrightarrow> moves R P' m Q'"
  by (simp add: moves_def)

lemma moves_if: "(c \<Longrightarrow> moves R P m Q) \<Longrightarrow> (\<not> c \<Longrightarrow> moves R P m' Q) \<Longrightarrow> moves R P (if c then m else m') Q"
  by simp

lemma moves_option:
  "(v = None \<Longrightarrow> moves R P m Q) \<Longrightarrow> (\<And>x. v = Some x \<Longrightarrow> moves R P (f x) Q) \<Longrightarrow> moves R P (case v of None \<Rightarrow> m | Some x \<Rightarrow> f x) Q"
  by (cases v) auto

lemma moves_use: "moves R P m Q \<Longrightarrow> P s \<Longrightarrow> R s (snd (m s))"
  by (simp add: moves_def)

section \<open>The life of work\<close>

inductive work_edge :: "work_state \<Rightarrow> work_state \<Rightarrow> bool" where
  start: "work_edge WorkAccepted WorkRunning"
| complete: "work_edge WorkRunning WorkCompleted"
| fail: "work_edge WorkRunning WorkFailed"
| lose: "work_edge WorkRunning WorkUnknown"
| cancel: "open_state st \<Longrightarrow> work_edge st WorkCancelled"

inductive_simps work_edge_simps: "work_edge st st'"

abbreviation work_path :: "work_state \<Rightarrow> work_state \<Rightarrow> bool" where
  "work_path \<equiv> work_edge\<^sup>*\<^sup>*"

text \<open>The states of a work row along the life cycle; nothing else of a row changes.\<close>
definition work_moves :: "work_row list \<Rightarrow> work_row list \<Rightarrow> bool" where
  "work_moves = list_all2 (\<lambda>w w'. work_path (wk_state w) (wk_state w') \<and> w' = w\<lparr>wk_state := wk_state w'\<rparr>)"

definition one_running :: "work_row list \<Rightarrow> bool" where
  "one_running ws \<longleftrightarrow> distinct (map wk_thread (filter (\<lambda>w. wk_state w = WorkRunning) ws))"

lemma work_moves_refl [simp]: "work_moves ws ws"
  by (simp add: work_moves_def list_all2_same)

lemma work_moves_trans: "work_moves a b \<Longrightarrow> work_moves b c \<Longrightarrow> work_moves a c"
proof -
  have step: "work_path (wk_state x) (wk_state z) \<and> z = x\<lparr>wk_state := wk_state z\<rparr>"
    if "work_path (wk_state x) (wk_state y) \<and> y = x\<lparr>wk_state := wk_state y\<rparr>"
      and "work_path (wk_state y) (wk_state z) \<and> z = y\<lparr>wk_state := wk_state z\<rparr>" for x y z :: work_row
    using that by (cases x; cases y; cases z) auto
  show "work_moves a b \<Longrightarrow> work_moves b c \<Longrightarrow> work_moves a c"
    unfolding work_moves_def by (rule list_all2_trans [of _ _ _ a b c]) (rule step)
qed

lemma work_moves_set:
  assumes "\<And>w. w \<in> set (db_work db) \<Longrightarrow> chosen w \<Longrightarrow> work_edge (wk_state w) st"
  shows "work_moves (db_work db) (db_work (set_works chosen st db))"
  using assms by (auto simp: work_moves_def set_works_def list_all2_conv_all_nth)

lemma one_running_stop:
  assumes "one_running ws" and "st \<noteq> WorkRunning"
  shows "one_running (map (\<lambda>w. if chosen w then w\<lparr>wk_state := st\<rparr> else w) ws)"
  using assms(1) unfolding one_running_def
proof (induction ws)
  case (Cons w ws)
  have "set (map wk_thread (filter (\<lambda>w. wk_state w = WorkRunning) (map (\<lambda>w. if chosen w then w\<lparr>wk_state := st\<rparr> else w) ws))) \<subseteq>
      set (map wk_thread (filter (\<lambda>w. wk_state w = WorkRunning) ws))"
    using assms(2) by auto
  then show ?case using Cons assms(2) by (auto split: if_splits)
qed simp

section \<open>The parts of the database\<close>

definition same_core :: "app_db \<Rightarrow> app_db \<Rightarrow> bool" where
  "same_core a b \<longleftrightarrow> db_inbox a = db_inbox b \<and> db_reads a = db_reads b \<and> db_outbox a = db_outbox b \<and>
     db_sequences a = db_sequences b \<and> db_work a = db_work b"

text \<open>The removal of answered events: rows disappear from the outbox and nothing is added.\<close>
definition outbox_shrinks :: "app_db \<Rightarrow> app_db \<Rightarrow> bool" where
  "outbox_shrinks a b \<longleftrightarrow> db_inbox a = db_inbox b \<and> db_reads a = db_reads b \<and> db_sequences a = db_sequences b \<and>
     db_work a = db_work b \<and> (\<exists>keep. db_outbox b = filter keep (db_outbox a))"

text \<open>A new request that has passed the checks of the inbox.\<close>
definition fresh_inbound :: "bool \<Rightarrow> inbox_row \<Rightarrow> app_db \<Rightarrow> bool" where
  "fresh_inbound reading row db \<longleftrightarrow> prior_digest (in_peer row) (in_id row) db = None \<and>
     \<not> numbered (in_peer row) (in_sequence row) (db_inbox db) \<and> \<not> numbered (in_peer row) (in_sequence row) (db_reads db) \<and>
     (reading \<or> length (filter (\<lambda>r. in_peer r = in_peer row) (db_inbox db)) < inbox_limit)"

abbreviation work_keys :: "work_row list \<Rightarrow> (string \<times> string) list" where
  "work_keys ws \<equiv> map (\<lambda>w. (wk_peer w, wk_request w)) ws"

lemma core_simps [simp]:
  "outbox_of p (db\<lparr>db_sequences := x\<rparr>) = outbox_of p db" "used_bytes p (db\<lparr>db_sequences := x\<rparr>) = used_bytes p db"
  by (simp_all add: outbox_of_def used_bytes_def)

section \<open>Emission\<close>

text \<open>A call of \<^verbatim>\<open>_emit\<close> that raises has at most taken a number; one that succeeds has added one event.\<close>
lemma emit_cases:
  assumes "emit lib env p source kind body s = (r, s1)"
  obtains (refused) e where "r = Inl e" "ap_db s1 = ap_db s" "ap_disk s1 = ap_disk s"
  | (stopped) e where "r = Inl e" "ap_disk s1 = ap_disk s"
      "ap_db s1 = (ap_db s)\<lparr>db_sequences := dset p (next_number p (ap_db s)) (db_sequences (ap_db s))\<rparr>"
  | (emitted) event blob where "r = Inr event" "ap_disk s1 = ap_disk s" "length (outbox_of p (ap_db s)) < outbox_events"
      "used_bytes p (ap_db s) + length blob \<le> outbox_bytes" "jget event ''sequence'' = Some (JInt (next_number p (ap_db s)))"
      "ap_db s1 = (ap_db s)\<lparr>db_sequences := dset p (next_number p (ap_db s)) (db_sequences (ap_db s)),
        db_outbox := db_outbox (ap_db s) @ [\<lparr>ob_sequence = next_number p (ap_db s), ob_peer = p, ob_event = blob\<rparr>]\<rparr>"
proof -
  note defs = emit_def run_then_def db_query_def query_def draw_def next_outbound_sequence_def db_change_def change_def
    validate_event_def seal_value_def returns_def Let_def
  show thesis
  proof (cases "length (outbox_of p (ap_db s)) < outbox_events")
    case False
    then have "r = Inl (PairingError ''outbox_quota'')" "s1 = s" using assms by (simp_all add: defs need_def)
    then show thesis using refused by simp
  next
    case room: True
    let ?n = "next_number p (ap_db s)"
    let ?event = "event_document (ae_uuid env (ap_draws s)) (jget_or JNull source ''thread_id'') (jget_or JNull source ''request_id'') ?n kind body"
    show thesis
    proof (cases "ae_valid env ?event")
      case False
      then show thesis using assms room stopped by (auto simp: defs need_def)
    next
      case valid: True
      have n: "jget ?event ''sequence'' = Some (JInt ?n)" by (simp add: event_document_def)
      let ?nonce = "ae_nonce env (Suc (ap_draws s))"
      let ?blob = "?nonce @ lib_encrypt lib ?nonce (dumps (lib_io lib) esc_ascii ?event) (app_aad p)"
      show thesis
      proof (cases "used_bytes p (ap_db s) + length ?blob \<le> outbox_bytes")
        case True
        then show thesis using assms room valid n by (intro emitted [of ?event ?blob]) (auto simp: defs need_def)
      next
        case False
        then show thesis using assms room valid by (intro stopped [of "PairingError ''outbox_byte_quota''"]) (auto simp: defs need_def)
      qed
    qed
  qed
qed

section \<open>Calls that only emit\<close>

definition keeps :: "('s \<Rightarrow> 's \<Rightarrow> bool) \<Rightarrow> ('s, 'a) action \<Rightarrow> bool" where
  "keeps R m \<longleftrightarrow> (\<forall>s. R s (snd (m s)))"

lemma keeps_if: "(c \<Longrightarrow> keeps R m) \<Longrightarrow> (\<not> c \<Longrightarrow> keeps R m') \<Longrightarrow> keeps R (if c then m else m')"
  by simp

lemma keeps_option: "(v = None \<Longrightarrow> keeps R m) \<Longrightarrow> (\<And>x. v = Some x \<Longrightarrow> keeps R (f x)) \<Longrightarrow> keeps R (case v of None \<Rightarrow> m | Some x \<Rightarrow> f x)"
  by (cases v) auto

lemma keeps_prod: "(\<And>a b. keeps R (f a b)) \<Longrightarrow> keeps R (case x of (a, b) \<Rightarrow> f a b)"
  by (cases x) auto

lemma same_core_fields [simp, intro]:
  "same_core db db"
  "same_core db (db\<lparr>db_registry := a1\<rparr>)" "same_core db (db\<lparr>db_files := a2\<rparr>)" "same_core db (db\<lparr>db_grants := a3\<rparr>)"
  "same_core db (db\<lparr>db_attachments := a4\<rparr>)" "same_core db (db\<lparr>db_transcript := a5\<rparr>)" "same_core db (db\<lparr>db_receipts := a6\<rparr>)"
  "same_core db (db\<lparr>db_jobs := a7\<rparr>)" "same_core db (db\<lparr>db_sends := a8\<rparr>)" "same_core db (db\<lparr>db_requests := a9\<rparr>)"
  "same_core db (db\<lparr>db_cancels := b1\<rparr>)" "same_core db (db\<lparr>db_results := b2\<rparr>)" "same_core db (db\<lparr>db_hosts := b3\<rparr>)"
  "same_core db (db\<lparr>db_threads := b4\<rparr>)" "same_core db (db\<lparr>db_cursors := b5\<rparr>)" "same_core db (db\<lparr>db_snapshots := b6\<rparr>)"
  by (simp_all add: same_core_def)

lemma same_core_functions [simp, intro]:
  "same_core db (seen now p db)" "same_core db (prune_transcript p thread db)" "same_core db (put_grant p thread blob db)"
  "same_core db (set_request p v state db)" "same_core db (seen now p (advance_cursor p n db))" "same_core db (put_snapshot row db)"
  "same_core db (trim_results p db)"
  by (simp_all add: same_core_def seen_def prune_transcript_def put_grant_def set_request_def advance_cursor_def put_snapshot_def
      trim_results_def Let_def)

text \<open>The calls that write to no table but the outbox.\<close>
locale outbox_relation =
  fixes R :: "app \<Rightarrow> app \<Rightarrow> bool"
  assumes R_refl: "R s s"
    and R_trans: "R s t \<Longrightarrow> R t u \<Longrightarrow> R s u"
    and R_aside: "same_core (ap_db s) (ap_db t) \<Longrightarrow> R s t"
    and R_shrink: "outbox_shrinks (ap_db s) db \<Longrightarrow> R s (s\<lparr>ap_db := db\<rparr>)"
    and R_number: "R s (s\<lparr>ap_db := (ap_db s)\<lparr>db_sequences := dset p (next_number p (ap_db s)) (db_sequences (ap_db s))\<rparr>\<rparr>)"
    and R_emit: "length (outbox_of p (ap_db s)) < outbox_events \<Longrightarrow> used_bytes p (ap_db s) + length blob \<le> outbox_bytes \<Longrightarrow>
      n = next_number p (ap_db s) \<Longrightarrow>
      R s (s\<lparr>ap_db := (ap_db s)\<lparr>db_sequences := dset p n (db_sequences (ap_db s)),
        db_outbox := db_outbox (ap_db s) @ [\<lparr>ob_sequence = n, ob_peer = p, ob_event = blob\<rparr>]\<rparr>\<rparr>)"
begin

lemma keeps_then: "keeps R m \<Longrightarrow> (\<And>x. keeps R (k x)) \<Longrightarrow> keeps R (run_then m k)"
  unfolding keeps_def run_then_def by (auto split: prod.split sum.split intro: R_trans) (metis R_trans snd_conv)+

lemma keeps_query: "keeps R (query f)"
  by (simp add: keeps_def query_def R_refl)

lemma keeps_db_query: "keeps R (db_query f)"
  by (simp add: db_query_def keeps_query)

lemma keeps_returns: "keeps R (returns x)"
  by (simp add: keeps_def returns_def R_refl)

lemma keeps_raise: "keeps R (raise_unless c code)"
  by (simp add: keeps_def raise_unless_def R_refl)

lemma keeps_draw: "keeps R (draw f)"
  by (auto simp: keeps_def draw_def intro!: R_aside)

lemma keeps_db_change: "(\<And>db. same_core db (f db)) \<Longrightarrow> keeps R (db_change f)"
  by (auto simp: keeps_def db_change_def change_def intro!: R_aside)

lemma keeps_shrink: "(\<And>db. outbox_shrinks db (f db)) \<Longrightarrow> keeps R (db_change f)"
  by (auto simp: keeps_def db_change_def change_def intro!: R_shrink)

lemma keeps_collect: "(\<And>x. keeps R (f x)) \<Longrightarrow> keeps R (collect f xs)"
  by (induction xs) (auto intro!: keeps_then keeps_returns)

lemma keeps_for_each: "(\<And>x. keeps R (f x)) \<Longrightarrow> keeps R (for_each f xs)"
proof (induction xs)
  case Nil
  then show ?case by (simp add: keeps_def R_refl)
qed (auto intro!: keeps_then)

lemma keeps_transaction: "keeps R m \<Longrightarrow> keeps R (transaction m)"
  unfolding keeps_def
proof
  fix s assume "\<forall>s. R s (snd (m s))"
  then have "R s (snd (m s))" by blast
  then show "R s (snd (transaction m s))"
    by (cases "m s"; cases "fst (m s)") (auto simp: transaction_def intro: R_aside)
qed

lemma keeps_file_call: "keeps R (file_call env op)"
  unfolding file_call_def
proof (rule keeps_then [OF keeps_draw])
  show "keeps R (\<lambda>s. case op fe \<lparr>fs_rows = db_files (ap_db s), fs_disk = ap_disk s\<rparr> of
      (res, st) \<Rightarrow> (res, s\<lparr>ap_db := (ap_db s)\<lparr>db_files := fs_rows st\<rparr>, ap_disk := fs_disk st\<rparr>))" for fe
    unfolding keeps_def by (auto split: prod.split intro!: R_aside)
qed

lemma keeps_seal: "keeps R (seal_value lib env p v)"
  unfolding seal_value_def by (intro keeps_then keeps_draw keeps_returns)

lemma keeps_number: "keeps R (next_outbound_sequence p)"
  using R_number by (simp add: keeps_def next_outbound_sequence_def run_then_def db_query_def query_def db_change_def change_def returns_def)

lemma keeps_emit: "keeps R (emit lib env p source kind body)"
  unfolding keeps_def
proof
  fix s
  obtain r s1 where e: "emit lib env p source kind body s = (r, s1)" by fastforce
  have s1: "s1 = (s\<lparr>ap_db := ap_db s1\<rparr>)\<lparr>ap_draws := ap_draws s1\<rparr>" if "ap_disk s1 = ap_disk s" using that by simp
  have aside: "R (s\<lparr>ap_db := ap_db s1\<rparr>) s1" if "ap_disk s1 = ap_disk s" by (rule R_aside) simp
  from e have "R s s1"
  proof (cases rule: emit_cases)
    case refused
    then show ?thesis by (intro R_aside) simp
  next
    case stopped
    then show ?thesis using R_trans [OF R_number [of s p] aside [unfolded stopped(3)]] by simp
  next
    case (emitted event blob)
    then show ?thesis using R_trans [OF R_emit [OF emitted(3,4) refl] aside [unfolded emitted(6)]] by simp
  qed
  then show "R s (snd (emit lib env p source kind body s))" by (simp add: e)
qed

lemma keeps_status: "keeps R (status lib env p source code detail)"
  unfolding status_def by (rule keeps_emit)

lemma keeps_pending: "keeps R (pending lib p after limit)"
  unfolding pending_def by (rule keeps_db_query)

lemma keeps_validate: "keeps R (validate_event env event)"
  unfolding validate_event_def by (rule keeps_query)

lemmas keeps_basic = keeps_then keeps_query keeps_db_query keeps_returns keeps_raise keeps_draw keeps_collect keeps_file_call keeps_seal
  keeps_number keeps_emit keeps_status keeps_pending keeps_validate keeps_if keeps_option keeps_prod

lemma keeps_prune: "keeps R (prune_acknowledged p cursor)"
  unfolding prune_acknowledged_def
  by (rule keeps_shrink) (auto simp: outbox_shrinks_def prune_receipts_def prune_outbox_def Let_def)

lemma shrinks_drop_chunks: "outbox_shrinks db (drop_chunks f p db)"
  by (auto simp: outbox_shrinks_def drop_chunks_def Let_def)

lemma keeps_finish_send: "keeps R (finish_file_send p thread i)"
  unfolding finish_file_send_def
  by (rule keeps_shrink) (auto simp: outbox_shrinks_def drop_chunks_def Let_def intro: exI [of _ "\<lambda>_. True"])

lemma keeps_sync: "keeps R (on_sync lib env p event body)"
  unfolding on_sync_def by (intro keeps_basic keeps_prune)

lemma keeps_send_chunk: "keeps R (send_chunk lib env p event thread i off)"
  unfolding send_chunk_def by (intro keeps_basic keeps_db_change same_core_fields)

lemma keeps_file: "keeps R (on_file lib env p event kind body)"
  unfolding on_file_def on_offer_def on_chunk_event_def on_file_cancel_def on_file_request_def on_file_status_def
  by (intro keeps_basic keeps_send_chunk keeps_finish_send keeps_shrink shrinks_drop_chunks keeps_db_change same_core_fields)

lemma keeps_job_submit: "keeps R (on_job_submit lib env p event body)"
  unfolding on_job_submit_def by (intro keeps_basic keeps_db_change same_core_fields)

lemma keeps_other_effect: "keeps R (other_effect lib env p a)"
proof -
  have "keeps R (change (\<lambda>s. s\<lparr>ap_db := (ap_db s)\<lparr>db_grants := oa_grants a, db_registry := oa_registry a, db_files := oa_files a\<rparr>,
      ap_disk := oa_disk a\<rparr>))"
    by (auto simp: keeps_def change_def same_core_def intro!: R_aside)
  then show ?thesis unfolding other_effect_def by (intro keeps_basic)
qed

lemma keeps_attachments: "keeps R (attachments lib env p thread body)"
  unfolding attachments_def by (intro keeps_basic)

lemma keeps_work_attachments: "keeps R (work_attachments lib env w event)"
  unfolding work_attachments_def attachment_def by (intro keeps_basic)

lemma keeps_save_attachments: "keeps R (save_attachments lib env p request files)"
  unfolding save_attachments_def by (intro keeps_basic keeps_db_change same_core_fields)

lemma keeps_store_answer: "keeps R (store_answer lib env p w event text)"
  unfolding store_answer_def share_result_def message_events_def by (intro keeps_basic keeps_db_change same_core_fields)

lemma keeps_job_result: "keeps R (job_result lib env p event state detail extra)"
  unfolding job_result_def by (intro keeps_basic)

lemma keeps_finish_cancelled: "keeps R (finish_cancelled lib env p event usage)"
  unfolding finish_cancelled_def by (intro keeps_basic keeps_job_result)

end

section \<open>All calls\<close>

lemma find_work_Some:
  "find_work p request db = Some w \<Longrightarrow> w \<in> set (db_work db) \<and> wk_peer w = p \<and> wk_request w = request"
  by (auto simp: find_work_def find_Some_iff)

lemma unique_work:
  assumes "distinct (work_keys ws)" and "w \<in> set ws" and "w' \<in> set ws" and "wk_peer w = wk_peer w'" and "wk_request w = wk_request w'"
  shows "w = w'"
  using assms by (auto simp: distinct_map inj_on_def)

lemma set_work_moves:
  assumes "find_work p request db = Some w" and "work_edge (wk_state w) st" and "distinct (work_keys (db_work db))"
  shows "work_moves (db_work db) (db_work (set_work p request st db))"
  unfolding set_work_def
proof (rule work_moves_set)
  fix x assume "x \<in> set (db_work db)" and "wk_peer x = p \<and> wk_request x = request"
  then have "x = w" using find_work_Some [OF assms(1)] by (intro unique_work [OF assms(3)]) simp_all
  with assms(2) show "work_edge (wk_state x) st" by simp
qed

lemma find_work_key: "find_work p request db = Some w \<Longrightarrow> find_work p (wk_request w) db = Some w"
  using find_work_Some by force

lemma job_work_found: "job_work p job thread db = Some w \<Longrightarrow> find_work p (wk_request w) db = Some w"
  by (auto simp: job_work_def intro: find_work_key split: option.splits if_splits)

text \<open>When a request is refused and the refusal is recorded, the checks of the inbox have been passed.\<close>
definition refusable :: "string \<Rightarrow> json \<Rightarrow> app_db \<Rightarrow> bool" where
  "refusable p event db \<longleftrightarrow>
     (\<forall>i n. check_trusted p db = Inr () \<longrightarrow> item_text event ''id'' = Inr i \<longrightarrow> item_int event ''sequence'' = Inr n \<longrightarrow>
        prior_digest p i db = None \<longrightarrow> inbox_room p event db = Inr () \<and> number_free p n db = Inr ())"

lemma transaction_Inl: "transaction m s = (Inl e, s1) \<Longrightarrow> ap_db s1 = ap_db s"
  by (auto simp: transaction_def split: prod.splits sum.splits)

lemma handle_event_refusable:
  assumes "handle_event lib env p event d s = (Inl e, s1)" and "e \<noteq> PairingError ''inbox_quota''" and "e \<noteq> PairingError ''sequence_conflict''"
  shows "refusable p event (ap_db s1)"
  unfolding refusable_def transaction_Inl [OF assms(1) [unfolded handle_event_def]]
proof (intro allI impI)
  fix i n
  assume ok: "check_trusted p (ap_db s) = Inr ()" "item_text event ''id'' = Inr i" "item_int event ''sequence'' = Inr n"
    "prior_digest p i (ap_db s) = None"
  have "\<exists>e. inbox_room p event (ap_db s) = Inr () \<or> inbox_room p event (ap_db s) = Inl (PairingError ''inbox_quota'')"
    by (auto simp: inbox_room_def need_def)
  moreover have "number_free p n (ap_db s) = Inr () \<or> number_free p n (ap_db s) = Inl (PairingError ''sequence_conflict'')"
    by (auto simp: number_free_def need_def)
  ultimately show "inbox_room p event (ap_db s) = Inr () \<and> number_free p n (ap_db s) = Inr ()"
    using assms ok by (auto simp: handle_event_def transaction_def run_then_def db_query_def query_def)
qed

text \<open>
  A relation that is kept by each way of writing to the tables. \<open>allowed\<close> are the devices that may be removed.
\<close>
locale mail_relation = outbox_relation R for R :: "app \<Rightarrow> app \<Rightarrow> bool" +
  fixes allowed :: "string \<Rightarrow> bool"
  assumes R_inbound: "fresh_inbound reading row (ap_db s) \<Longrightarrow> store_inbound reading row (ap_db s) = Inr db \<Longrightarrow> R s (s\<lparr>ap_db := db\<rparr>)"
    and R_accept: "find_work p request (ap_db s) = None \<Longrightarrow>
      length (filter (\<lambda>w. wk_peer w = p \<and> open_state (wk_state w)) (db_work (ap_db s))) < work_limit \<Longrightarrow>
      R s (s\<lparr>ap_db := (ap_db s)\<lparr>db_work := db_work (ap_db s) @
        [\<lparr>wk_peer = p, wk_request = request, wk_thread = thread, wk_event = blob, wk_state = WorkAccepted, wk_turn = turn\<rparr>]\<rparr>\<rparr>)"
    and R_work: "(distinct (work_keys (db_work (ap_db s))) \<Longrightarrow>
        work_moves (db_work (ap_db s)) ws \<and> (one_running (db_work (ap_db s)) \<longrightarrow> one_running ws)) \<Longrightarrow>
      R s (s\<lparr>ap_db := (ap_db s)\<lparr>db_work := ws\<rparr>\<rparr>)"
    and R_forget: "allowed p \<Longrightarrow> R s (s\<lparr>ap_db := forget_peer p (ap_db s)\<rparr>)"

text \<open>The calls that only emit leave the table of work alone.\<close>
sublocale mail_relation \<subseteq> quiet: outbox_relation "\<lambda>s t. R s t \<and> db_work (ap_db s) = db_work (ap_db t)"
proof unfold_locales
  fix s t u
  show "R s s \<and> db_work (ap_db s) = db_work (ap_db s)" by (simp add: R_refl)
  show "R s t \<and> db_work (ap_db s) = db_work (ap_db t) \<Longrightarrow> R t u \<and> db_work (ap_db t) = db_work (ap_db u) \<Longrightarrow>
      R s u \<and> db_work (ap_db s) = db_work (ap_db u)"
    using R_trans by metis
  show "same_core (ap_db s) (ap_db t) \<Longrightarrow> R s t \<and> db_work (ap_db s) = db_work (ap_db t)"
    using R_aside by (auto simp: same_core_def)
  show "outbox_shrinks (ap_db s) db \<Longrightarrow> R s (s\<lparr>ap_db := db\<rparr>) \<and> db_work (ap_db s) = db_work (ap_db (s\<lparr>ap_db := db\<rparr>))" for db
    using R_shrink by (simp add: outbox_shrinks_def)
qed (simp_all add: R_number R_emit)

context mail_relation
begin

lemma moves_then: "moves R P m Q \<Longrightarrow> (\<And>x. moves R (Q x) (k x) Q') \<Longrightarrow> moves R P (run_then m k) Q'"
  by (rule moves_run_then) (rule R_trans)

lemma quiet_moves:
  "keeps (\<lambda>s t. R s t \<and> db_work (ap_db s) = db_work (ap_db t)) m \<Longrightarrow> moves R (\<lambda>s. P (db_work (ap_db s))) m (\<lambda>_ s. P (db_work (ap_db s)))"
  by (auto simp: keeps_def moves_def)

lemma moves_query: "moves R P (query f) (\<lambda>x s. P s \<and> f s = Inr x)"
  by (simp add: moves_def query_def R_refl)

lemma moves_db_query: "moves R P (db_query f) (\<lambda>x s. P s \<and> f (ap_db s) = Inr x)"
  unfolding db_query_def by (rule moves_query)

lemma keeps_moves: "keeps R m \<Longrightarrow> moves R P m (\<lambda>_ _. True)"
  by (simp add: keeps_def moves_def)

lemma moves_keeps: "moves R (\<lambda>_. True) m Q \<Longrightarrow> keeps R m"
  by (simp add: keeps_def moves_def)

lemma moves_set_work:
  assumes "\<And>s. P s \<Longrightarrow> \<exists>w. find_work p request (ap_db s) = Some w \<and> work_edge (wk_state w) st" and "st \<noteq> WorkRunning"
  shows "moves R P (db_change (set_work p request st)) (\<lambda>_ _. True)"
  unfolding moves_def
proof (intro allI impI conjI TrueI)
  fix s assume "P s"
  then obtain w where w: "find_work p request (ap_db s) = Some w" "work_edge (wk_state w) st" using assms(1) by blast
  have "R s (s\<lparr>ap_db := (ap_db s)\<lparr>db_work := db_work (set_work p request st (ap_db s))\<rparr>\<rparr>)"
    using set_work_moves [OF w] assms(2) by (intro R_work) (simp add: set_work_def set_works_def one_running_stop)
  then show "R s (snd (db_change (set_work p request st) s))"
    by (simp add: db_change_def change_def set_work_def set_works_def)
qed

lemma keeps_set_works:
  assumes "\<And>w. chosen w \<Longrightarrow> work_edge (wk_state w) st" and "st \<noteq> WorkRunning"
  shows "R s (s\<lparr>ap_db := set_works chosen st (ap_db s)\<rparr>)"
proof -
  have "R s (s\<lparr>ap_db := (ap_db s)\<lparr>db_work := db_work (set_works chosen st (ap_db s))\<rparr>\<rparr>)"
    using work_moves_set [of "ap_db s" chosen st] assms by (intro R_work) (simp add: set_works_def one_running_stop)
  then show ?thesis by (simp add: set_works_def)
qed

lemma keeps_job: "keeps R (on_job lib env p event kind body)"
  unfolding on_job_def Let_def
proof (rule keeps_then [OF keeps_query keeps_then [OF keeps_query]])
  fix job thread
  let ?f = "\<lambda>db. case job_work p job thread db of
         None \<Rightarrow> Inl (PairingError ''job_unavailable'')
       | Some w \<Rightarrow> andThen (role_of p db) (\<lambda>role. if role = ''desktop'' then Inr w else Inl (PairingError ''job_unavailable''))"
  have found: "find_work p (wk_request w) db = Some w" if "?f db = Inr w" for db w
    using that job_work_found by (auto simp: andThen_eq_Inr split: option.splits if_splits)
  have step: "moves R (\<lambda>s. True \<and> ?f (ap_db s) = Inr w)
      (if kind = ''job.cancel'' \<and> open_state (wk_state w) then db_change (set_work p (wk_request w) WorkCancelled) else returns ()) (\<lambda>_ _. True)" for w
    by (rule moves_if [OF moves_set_work keeps_moves [OF keeps_returns]]) (use found [of _ w] work_edge.cancel in auto)
  show "keeps R (run_then (db_query ?f) (\<lambda>w.
     run_then (if kind = ''job.cancel'' \<and> open_state (wk_state w) then db_change (set_work p (wk_request w) WorkCancelled) else returns ()) (\<lambda>_.
     run_then (emit lib env p event ''job.status''
       (job_status job (if kind = ''job.cancel'' \<and> open_state (wk_state w) then ''cancel_requested'' else work_text (wk_state w)) 1
         ''Target desktop job state'' [])) (\<lambda>e. returns [e]))))"
    by (rule moves_keeps, rule moves_then [OF moves_db_query], rule moves_then [OF step], rule keeps_moves) (intro keeps_basic)
qed

lemma keeps_cancel: "keeps R (on_cancel lib env p event)"
  unfolding on_cancel_def
proof (rule keeps_then [OF keeps_query keeps_then [OF keeps_query]])
  fix request thread
  let ?f = "\<lambda>db. case (sql_text request, sql_text thread) of
         (Some r, Some t) \<Rightarrow>
           (case find_work p r db of
              Some w \<Rightarrow> if wk_thread w = t then Inr w else Inl (PairingError ''request_unavailable'')
            | None \<Rightarrow> Inl (PairingError ''request_unavailable''))
       | _ \<Rightarrow> Inl (PairingError ''request_unavailable'')"
  have found: "find_work p (wk_request w) db = Some w" if "?f db = Inr w" for db w
    using that by (auto intro: find_work_key split: option.splits if_splits)
  have step: "moves R (\<lambda>s. True \<and> ?f (ap_db s) = Inr w) (db_change (set_work p (wk_request w) WorkCancelled)) (\<lambda>_ _. True)"
    if "open_state (wk_state w)" for w
    using that found [of _ w] by (auto intro!: moves_set_work work_edge.cancel)
  have answer: "keeps R (run_then (status lib env p event ''cancel_requested'' ''Cancellation requested on desktop'') (\<lambda>e. returns [e]))"
    by (intro keeps_basic)
  have "moves R (\<lambda>s. True \<and> ?f (ap_db s) = Inr w) (if open_state (wk_state w) then
         run_then (db_change (set_work p (wk_request w) WorkCancelled)) (\<lambda>_.
         run_then (status lib env p event ''cancel_requested'' ''Cancellation requested on desktop'') (\<lambda>e. returns [e]))
       else pending lib p 0 100) (\<lambda>_ _. True)" for w
    by (rule moves_if [OF moves_then [OF step keeps_moves [OF answer]] keeps_moves [OF keeps_pending]])
  then show "keeps R (run_then (db_query ?f) (\<lambda>w.
       if open_state (wk_state w) then
         run_then (db_change (set_work p (wk_request w) WorkCancelled)) (\<lambda>_.
         run_then (status lib env p event ''cancel_requested'' ''Cancellation requested on desktop'') (\<lambda>e. returns [e]))
       else pending lib p 0 100))"
    by (rule moves_keeps [OF moves_then [OF moves_db_query]])
qed

lemma accept_moves:
  "moves R (\<lambda>s. find_work p request (ap_db s) = None) (accept_work lib env p event kind body thread request) (\<lambda>_ _. True)"
proof -
  let ?new = "\<lambda>s. find_work p request (ap_db s) = None"
  let ?room = "\<lambda>s. ?new s \<and> length (filter (\<lambda>w. wk_peer w = p \<and> open_state (wk_state w)) (db_work (ap_db s))) < work_limit"
  have quiet_new: "moves R ?new m (\<lambda>_. ?new)" if "keeps (\<lambda>s t. R s t \<and> db_work (ap_db s) = db_work (ap_db t)) m" for m :: "'x mail"
    using quiet_moves [OF that, of "\<lambda>ws. find (\<lambda>w. wk_peer w = p \<and> wk_request w = request) ws = None"] by (simp add: find_work_def)
  have quiet_room: "moves R ?room m (\<lambda>_. ?room)" if "keeps (\<lambda>s t. R s t \<and> db_work (ap_db s) = db_work (ap_db t)) m" for m :: "'x mail"
    using quiet_moves [OF that, of "\<lambda>ws. find (\<lambda>w. wk_peer w = p \<and> wk_request w = request) ws = None \<and>
      length (filter (\<lambda>w. wk_peer w = p \<and> open_state (wk_state w)) ws) < work_limit"] by (simp add: find_work_def)
  have check: "moves R ?new (db_query (\<lambda>db. need (length (filter (\<lambda>w. wk_peer w = p \<and> open_state (wk_state w)) (db_work db)) < work_limit)
      (PairingError ''work_quota''))) (\<lambda>_. ?room)"
    by (rule moves_weaken [OF moves_db_query]) auto
  have insert: "moves R ?room (db_change (\<lambda>db. db\<lparr>db_work := db_work db @
         [\<lparr>wk_peer = p, wk_request = request, wk_thread = thread, wk_event = blob, wk_state = WorkAccepted, wk_turn = turn\<rparr>]\<rparr>)) (\<lambda>_ _. True)" for blob turn
    using R_accept by (auto simp: moves_def db_change_def change_def)
  show ?thesis
    unfolding accept_work_def
    by (rule moves_then [OF quiet_new [OF quiet.keeps_attachments]], rule moves_then [OF check], rule moves_then [OF quiet_room [OF quiet.keeps_seal]],
        rule moves_then [OF quiet_room [OF quiet.keeps_draw]], rule moves_then [OF insert], rule keeps_moves)
      (intro keeps_basic keeps_save_attachments keeps_db_change same_core_fields)
qed

lemma keeps_submit: "keeps R (on_submit lib env p event kind body)"
proof -
  have old: "keeps R (run_then (query (\<lambda>_. same_submission lib p event body w)) (\<lambda>_. pending lib p 0 100))" for w
    by (intro keeps_basic)
  have found: "keeps R (run_then (db_query (\<lambda>db. Inr (find_work p request db))) (\<lambda>previous.
             case previous of
               Some w \<Rightarrow> run_then (query (\<lambda>_. same_submission lib p event body w)) (\<lambda>_. pending lib p 0 100)
             | None \<Rightarrow> accept_work lib env p event kind body t request))" for request t
    by (rule moves_keeps, rule moves_then [OF moves_db_query], rule moves_option [OF moves_weaken [OF accept_moves] keeps_moves [OF old]]) auto
  show ?thesis
    unfolding on_submit_def by (intro keeps_basic keeps_job_submit found)
qed

lemma keeps_dispatch: "keeps R (dispatch_event lib env p event)"
  unfolding dispatch_event_def
  by (intro keeps_basic keeps_other_effect keeps_sync keeps_file keeps_job keeps_cancel keeps_submit)

lemma record_moves:
  assumes "\<And>s i n. P s \<Longrightarrow> item_text event ''id'' = Inr i \<Longrightarrow> item_int event ''sequence'' = Inr n \<Longrightarrow>
    fresh_inbound (read_only event) \<lparr>in_peer = p, in_id = i, in_digest = d, in_sequence = n\<rparr> (ap_db s)"
  shows "moves R P (record_inbound env p event d) (\<lambda>_ _. True)"
proof -
  let ?row = "\<lambda>i n. \<lparr>in_peer = p, in_id = i, in_digest = d, in_sequence = n\<rparr>"
  have store: "moves R (\<lambda>s. fresh_inbound (read_only event) (?row i n) (ap_db s)) (db_update (store_inbound (read_only event) (?row i n))) (\<lambda>_ _. True)" for i n
    using R_inbound [of "read_only event" "?row i n"] R_refl
    by (auto simp: moves_def db_update_def run_then_def db_query_def query_def db_change_def change_def split: sum.split)
  show ?thesis
    unfolding record_inbound_def
    by (rule moves_then [OF moves_query], rule moves_then [OF moves_query], rule moves_then [OF moves_weaken [OF store]],
        use assms in blast, assumption, rule keeps_moves [OF keeps_db_change]) simp
qed

lemma keeps_handle_event: "keeps R (handle_event lib env p event d)"
proof -
  have "moves R (\<lambda>_. True)
     (run_then (db_query (check_trusted p)) (\<lambda>_.
       run_then (query (\<lambda>_. item_text event ''id'')) (\<lambda>i.
       run_then (query (\<lambda>_. item_int event ''sequence'')) (\<lambda>n.
       run_then (db_query (\<lambda>db. Inr (prior_digest p i db))) (\<lambda>prior.
       case prior of
         Some d' \<Rightarrow> if d' \<noteq> d then query (\<lambda>_. Inl (PairingError ''event_id_conflict'')) else pending lib p 0 100
       | None \<Rightarrow>
           run_then (db_query (inbox_room p event)) (\<lambda>_.
           run_then (db_query (number_free p n)) (\<lambda>_.
           run_then (record_inbound env p event d) (\<lambda>_. dispatch_event lib env p event)))))))) (\<lambda>_ _. True)"
    by (rule moves_then [OF moves_db_query], rule moves_then [OF moves_query], rule moves_then [OF moves_query],
        rule moves_then [OF moves_db_query], rule moves_option,
        rule moves_then [OF moves_db_query], rule moves_then [OF moves_db_query], rule moves_then [OF record_moves keeps_moves [OF keeps_dispatch]])
      (auto simp: fresh_inbound_def inbox_room_def number_free_def intro: keeps_moves keeps_query keeps_pending)
  then show ?thesis unfolding handle_event_def by (intro keeps_transaction moves_keeps)
qed

lemma keeps_answer_refusal: "keeps R (answer_refusal lib env p event reason)"
  unfolding keeps_def answer_refusal_def
proof
  fix s
  have "R s (snd (emit lib env p event ''error'' (error_payload (fst (refusal reason)) (snd (refusal reason))) s))"
    using keeps_emit by (simp add: keeps_def)
  then show "R s (snd (case emit lib env p event ''error'' (error_payload (fst (refusal reason)) (snd (refusal reason))) s of
        (Inl e, s1) \<Rightarrow> (Inl (if e = Uncaught ''ValidationError'' then PairingError reason else e), s1)
      | (Inr v, s1) \<Rightarrow> (Inr [v], s1)))"
    by (auto split: prod.splits sum.splits)
qed

lemma keeps_refuse_plain: "keeps R (refuse lib env p event None reason)"
  unfolding refuse_def option.case by (intro keeps_then [OF keeps_query] keeps_transaction keeps_basic keeps_answer_refusal)

lemma transaction_moves: "moves R P m Q \<Longrightarrow> moves R P (transaction m) (\<lambda>_ _. True)"
  unfolding moves_def
proof (intro allI impI conjI TrueI)
  fix s assume m: "\<forall>s. P s \<longrightarrow> R s (snd (m s)) \<and> (\<forall>x. fst (m s) = Inr x \<longrightarrow> Q x (snd (m s)))" and "P s"
  then have "R s (snd (m s))" by blast
  then show "R s (snd (transaction m s))"
    by (cases "m s"; cases "fst (m s)") (auto simp: transaction_def intro: R_aside)
qed

lemma refuse_moves: "moves R (\<lambda>s. refusable p event (ap_db s)) (refuse lib env p event (Some d) reason) (\<lambda>_ _. True)"
proof -
  let ?P = "\<lambda>s. refusable p event (ap_db s)"
  have recorded: "moves R (\<lambda>s. ((?P s \<and> check_trusted p (ap_db s) = Inr x) \<and> item_text event ''id'' = Inr i) \<and>
      Inr (prior_digest p i (ap_db s)) = (Inr None :: registry_error + _)) (record_inbound env p event d) (\<lambda>_ _. True)" for i x
    by (rule record_moves) (auto simp: refusable_def fresh_inbound_def inbox_room_def number_free_def)
  have stored: "moves R (\<lambda>s. ((?P s \<and> check_trusted p (ap_db s) = Inr x) \<and> item_text event ''id'' = Inr i) \<and>
      Inr (prior_digest p i (ap_db s)) = (Inr prior :: registry_error + _))
      (if prior \<noteq> None then pending lib p 0 100
       else run_then (record_inbound env p event d) (\<lambda>_. answer_refusal lib env p event reason)) (\<lambda>_ _. True)" for i x prior
    by (cases prior) (simp_all only: option.distinct option.simps simp_thms if_True if_False keeps_moves [OF keeps_pending]
        moves_then [OF recorded keeps_moves [OF keeps_answer_refusal]] not_None_eq not_not)
  show ?thesis
    unfolding refuse_def option.case
    by (rule moves_then [OF moves_weaken [OF moves_query]], assumption, erule conjunct1, rule transaction_moves, rule moves_then [OF moves_db_query],
        rule moves_if, rule keeps_moves [OF keeps_answer_refusal], rule moves_then [OF moves_query], rule moves_then [OF moves_db_query], rule stored)
qed

lemma keeps_handle: "keeps R (handle lib env p event)"
  unfolding keeps_def
proof
  fix s
  let ?d = "event_digest lib event"
  obtain r s1 where h: "handle_event lib env p event ?d s = (r, s1)" by fastforce
  have s1: "R s s1" using keeps_handle_event [of lib env p event ?d] h unfolding keeps_def by (metis snd_conv)
  have refused: "R s (snd (refuse lib env p event (Some ?d) reason s1))" if "r = Inl e"
    and "e \<noteq> PairingError ''inbox_quota''" and "e \<noteq> PairingError ''sequence_conflict''" for e reason
    using R_trans [OF s1 moves_use [OF refuse_moves handle_event_refusable]] h that by simp
  have unrecorded: "R s (snd (refuse lib env p event (Some ?d) reason s1))" if "reason \<in> {''inbox_quota'', ''sequence_conflict''}" for reason
  proof -
    have "keeps R (refuse lib env p event (Some ?d) reason)"
      unfolding refuse_def option.case using that
      by (intro keeps_then [OF keeps_query] keeps_transaction keeps_basic) (auto simp: unrecorded_def intro: keeps_answer_refusal)
    then show ?thesis using R_trans [OF s1] by (simp add: keeps_def)
  qed
  have plain: "R s (snd (refuse lib env p event None reason s))" for reason
    using keeps_refuse_plain by (simp add: keeps_def)
  have kinds: "R s (snd (refuse lib env p event (Some ?d) reason s1))" if "r = Inl (PairingError reason)" for reason
    using refused [OF that] unrecorded by (cases "reason \<in> {''inbox_quota'', ''sequence_conflict''}") auto
  show "R s (snd (handle lib env p event s))"
    unfolding handle_def Let_def h prod.case using plain s1 kinds refused
    by (auto split: sum.split registry_error.split)
qed

end

end
