(* ===== verification/Mailbox_Calls.thy ===== *)
theory Mailbox_Calls
  imports Mailbox_Rules
begin

text \<open>
  The calls of the mailbox one by one, and all sequences of them: a relation that the ways of writing keep
  is kept by every call.
\<close>

section \<open>Work that runs\<close>

lemma can_start_running:
  assumes "find (can_start db) (db_work db) = Some w" and "distinct (work_keys (db_work db))"
  shows "find_work (wk_peer w) (wk_request w) db = Some w" and "work_edge (wk_state w) WorkRunning"
    and "one_running (db_work db) \<Longrightarrow> one_running (db_work (set_work (wk_peer w) (wk_request w) WorkRunning db))"
proof -
  have w: "w \<in> set (db_work db)" "can_start db w" using assms(1) by (auto simp: find_Some_iff)
  then show "work_edge (wk_state w) WorkRunning" by (simp add: can_start_def work_edge.start)
  obtain x where x: "find_work (wk_peer w) (wk_request w) db = Some x"
    using w(1) by (cases "find_work (wk_peer w) (wk_request w) db") (auto simp: find_work_def find_None_iff)
  moreover have "x = w" using find_work_Some [OF x] w(1) by (intro unique_work [OF assms(2)]) simp_all
  ultimately show "find_work (wk_peer w) (wk_request w) db = Some w" by simp
  let ?f = "\<lambda>x. if wk_peer x = wk_peer w \<and> wk_request x = wk_request w then x\<lparr>wk_state := WorkRunning\<rparr> else x"
  have idle: "wk_thread y \<noteq> wk_thread w" if "y \<in> set (db_work db)" "wk_state y = WorkRunning" for y
    using w(2) that by (auto simp: can_start_def list_ex_iff)
  have "one_running ws \<Longrightarrow> set ws \<subseteq> set (db_work db) \<Longrightarrow> distinct (work_keys ws) \<Longrightarrow> one_running (map ?f ws)" for ws
  proof (induction ws)
    case (Cons y ws)
    have others: "map ?f ws = ws" if "wk_peer y = wk_peer w" "wk_request y = wk_request w"
    proof (rule map_idI)
      fix x assume "x \<in> set ws"
      then have "(wk_peer x, wk_request x) \<noteq> (wk_peer y, wk_request y)" using Cons.prems(3) by (metis (no_types, lifting) distinct.simps(2) image_eqI list.set_map list.simps(9))
      then show "?f x = x" using that by auto
    qed
    show ?case
    proof (cases "wk_peer y = wk_peer w \<and> wk_request y = wk_request w")
      case True
      then have "y = w" using Cons.prems(2) w(1) by (intro unique_work [OF assms(2)]) auto
      moreover have "wk_state w \<noteq> WorkRunning" using w(2) by (simp add: can_start_def)
      moreover have "wk_thread w \<notin> wk_thread ` set (filter (\<lambda>x. wk_state x = WorkRunning) ws)"
        using idle Cons.prems(2) by fastforce
      ultimately show ?thesis using Cons.prems(1) others True by (simp add: one_running_def)
    next
      case False
      have rest: "one_running (map ?f ws)" using Cons by (auto simp: one_running_def split: if_splits)
      have "wk_thread y \<noteq> wk_thread x" if y: "wk_state y = WorkRunning" and x: "x \<in> set (map ?f ws)" "wk_state x = WorkRunning" for x
      proof -
        obtain z where z: "z \<in> set ws" "x = ?f z" using x(1) by auto
        have "wk_thread y \<noteq> wk_thread w" using idle [of y] y Cons.prems(2) by simp
        moreover have "z = w" if "wk_peer z = wk_peer w" "wk_request z = wk_request w"
          using that z(1) w(1) Cons.prems(2) by (intro unique_work [OF assms(2)]) auto
        ultimately show ?thesis using z x(2) y Cons.prems(1) by (auto simp: one_running_def split: if_splits)
      qed
      then show ?thesis using rest False by (auto simp: one_running_def)
    qed
  qed (simp add: one_running_def)
  then show "one_running (db_work db) \<Longrightarrow> one_running (db_work (set_work (wk_peer w) (wk_request w) WorkRunning db))"
    using assms(2) by (simp add: set_work_def set_works_def)
qed

definition running :: "string \<Rightarrow> string \<Rightarrow> work_row list \<Rightarrow> bool" where
  "running p request ws \<longleftrightarrow> (\<exists>w. find (\<lambda>w. wk_peer w = p \<and> wk_request w = request) ws = Some w \<and> wk_state w = WorkRunning)"

lemma set_work_running:
  assumes "w \<in> set (db_work db)"
  shows "running (wk_peer w) (wk_request w) (db_work (set_work (wk_peer w) (wk_request w) WorkRunning db))"
proof -
  have "w \<in> set ws \<Longrightarrow> running (wk_peer w) (wk_request w)
      (map (\<lambda>x. if wk_peer x = wk_peer w \<and> wk_request x = wk_request w then x\<lparr>wk_state := WorkRunning\<rparr> else x) ws)" for ws
    by (induction ws) (auto simp: running_def)
  with assms show ?thesis by (simp add: set_work_def set_works_def)
qed

lemma find_running: "find_work p request db = Some w \<Longrightarrow> wk_state w = WorkRunning \<Longrightarrow> running p request (db_work db)"
  by (simp add: running_def find_work_def)

context mail_relation
begin

lemma moves_stop:
  assumes "work_edge WorkRunning st" and "st \<noteq> WorkRunning"
  shows "moves R (\<lambda>s. running p request (db_work (ap_db s))) (db_change (set_work p request st)) (\<lambda>_ _. True)"
  by (rule moves_set_work) (use assms in \<open>auto simp: running_def find_work_def\<close>)

lemma attachments_missing_moves:
  "moves R (\<lambda>s. running (wk_peer w) (wk_request w) (db_work (ap_db s))) (attachments_missing lib env w event) (\<lambda>_ _. True)"
  unfolding attachments_missing_def
  by (rule moves_then [OF moves_stop [OF work_edge.fail] keeps_moves]) (simp, intro keeps_basic)

lemma started_moves:
  "moves R (\<lambda>s. running (wk_peer w) (wk_request w) (db_work (ap_db s)))
     (\<lambda>s. case work_attachments lib env w event s of
         (Inl (PairingError _), s1) \<Rightarrow> attachments_missing lib env w event s1
       | (Inl e, s1) \<Rightarrow> (Inl e, s1)
       | (Inr files, s1) \<Rightarrow>
           run_then (status lib env (wk_peer w) (with_text event) ''running'' ''Rem dispatch started'') (\<lambda>_.
             returns (Some \<lparr>cl_peer = wk_peer w, cl_event = with_text event, cl_turn = wk_turn w, cl_context = context,
               cl_attachments = files\<rparr>)) s1) (\<lambda>_ _. True)"
  unfolding moves_def
proof (intro allI impI conjI TrueI)
  let ?run = "\<lambda>s :: app. running (wk_peer w) (wk_request w) (db_work (ap_db s))"
  fix s :: app assume s: "?run s"
  obtain r s1 where a: "work_attachments lib env w event s = (r, s1)" by fastforce
  have kept: "R s s1 \<and> db_work (ap_db s) = db_work (ap_db s1)"
    using quiet.keeps_work_attachments [of lib env w event] a unfolding keeps_def by (metis snd_conv)
  then have s1: "R s s1" "?run s1" using s by simp_all
  have missing: "R s (snd (attachments_missing lib env w event s1))"
    using R_trans [OF s1(1) moves_use [OF attachments_missing_moves s1(2)]] .
  have "keeps R (run_then (status lib env (wk_peer w) (with_text event) ''running'' ''Rem dispatch started'') (\<lambda>_. returns x))" for x :: "claimed option"
    by (intro keeps_basic)
  then have run: "R s (snd (run_then (status lib env (wk_peer w) (with_text event) ''running'' ''Rem dispatch started'') (\<lambda>_. returns x) s1))"
    for x :: "claimed option" using R_trans [OF s1(1)] by (simp add: keeps_def)
  show "R s (snd (case work_attachments lib env w event s of
         (Inl (PairingError _), s1) \<Rightarrow> attachments_missing lib env w event s1
       | (Inl e, s1) \<Rightarrow> (Inl e, s1)
       | (Inr files, s1) \<Rightarrow>
           run_then (status lib env (wk_peer w) (with_text event) ''running'' ''Rem dispatch started'') (\<lambda>_.
             returns (Some \<lparr>cl_peer = wk_peer w, cl_event = with_text event, cl_turn = wk_turn w, cl_context = context,
               cl_attachments = files\<rparr>)) s1))"
    unfolding a prod.case using missing run s1(1) by (auto split: sum.split registry_error.split)
qed

lemma mark_running_moves:
  "moves R (\<lambda>s. find (can_start (ap_db s)) (db_work (ap_db s)) = Some w) (db_change (set_work (wk_peer w) (wk_request w) WorkRunning))
     (\<lambda>_ s. running (wk_peer w) (wk_request w) (db_work (ap_db s)))"
  unfolding moves_def
proof (intro allI impI)
  fix s :: app assume w: "find (can_start (ap_db s)) (db_work (ap_db s)) = Some w"
  let ?db = "set_work (wk_peer w) (wk_request w) WorkRunning (ap_db s)"
  have "R s (s\<lparr>ap_db := (ap_db s)\<lparr>db_work := db_work ?db\<rparr>\<rparr>)"
  proof (rule R_work)
    assume "distinct (work_keys (db_work (ap_db s)))"
    with can_start_running [OF w this] set_work_moves
    show "work_moves (db_work (ap_db s)) (db_work ?db) \<and> (one_running (db_work (ap_db s)) \<longrightarrow> one_running (db_work ?db))" by blast
  qed
  then have "R s (s\<lparr>ap_db := ?db\<rparr>)" by (simp add: set_work_def set_works_def)
  moreover have "running (wk_peer w) (wk_request w) (db_work ?db)"
    using w by (intro set_work_running) (auto simp: find_Some_iff)
  ultimately show "R s (snd (db_change (set_work (wk_peer w) (wk_request w) WorkRunning) s)) \<and>
      (\<forall>x. fst (db_change (set_work (wk_peer w) (wk_request w) WorkRunning) s) = Inr x \<longrightarrow>
        running (wk_peer w) (wk_request w) (db_work (ap_db (snd (db_change (set_work (wk_peer w) (wk_request w) WorkRunning) s)))))"
    by (simp add: db_change_def change_def)
qed

lemma start_moves:
  "moves R (\<lambda>s. find (can_start (ap_db s)) (db_work (ap_db s)) = Some w) (start_work lib env w context) (\<lambda>_ _. True)"
  unfolding start_work_def
  by (rule moves_then [OF mark_running_moves], rule moves_then [OF quiet_moves [OF quiet.keeps_query]], rule started_moves)

lemma keeps_claim: "keeps R (claim_work lib env)"
proof -
  have "moves R (\<lambda>_. True) (run_then (db_query (\<lambda>db. Inr (find (can_start db) (db_work db)))) (\<lambda>found.
       case found of
         None \<Rightarrow> returns None
       | Some w \<Rightarrow>
           run_then (db_query (\<lambda>db. case find_grant (wk_peer w) (wk_thread w) db of
               None \<Rightarrow> Inl (Uncaught ''KeyError'') | Some g \<Rightarrow> open_value lib (wk_peer w) (gr_context g))) (\<lambda>context.
             if busy_locally env context then returns None else start_work lib env w context))) (\<lambda>_ _. True)"
    by (rule moves_then [OF moves_db_query], rule moves_option, rule keeps_moves [OF keeps_returns],
        rule moves_then [OF moves_db_query], rule moves_if, rule keeps_moves [OF keeps_returns], rule moves_weaken [OF start_moves]) auto
  then show ?thesis unfolding claim_work_def by (intro keeps_transaction moves_keeps)
qed

lemma finish_moves:
  "moves R (\<lambda>s. running p (wk_request w) (db_work (ap_db s))) (finish_running lib env p w event text error usage) (\<lambda>_ _. True)"
proof -
  have final: "work_edge WorkRunning (result_state e) \<and> result_state e \<noteq> WorkRunning" for e
    by (auto simp: result_state_def work_edge_simps open_state_def split: option.split)
  have stop: "moves R (\<lambda>s. running p (wk_request w) (db_work (ap_db s))) (db_change (set_work p (wk_request w) (result_state e))) (\<lambda>_ _. True)" for e
    by (rule moves_stop) (use final in auto)
  show ?thesis
    unfolding finish_running_def
    by (rule moves_then [OF quiet_moves], rule keeps_if [OF quiet.keeps_db_change quiet.keeps_returns], simp,
        rule moves_then [OF quiet_moves [OF quiet.keeps_db_query]],
        rule moves_then [OF quiet_moves [OF keeps_if [OF quiet.keeps_store_answer quiet.keeps_returns]]],
        rule moves_then [OF quiet_moves [OF keeps_if [OF quiet.keeps_job_result quiet.keeps_returns]]],
        rule moves_then [OF quiet_moves [OF quiet.keeps_status]], rule stop)
qed

lemma keeps_complete: "keeps R (complete_work lib env p request text error usage)"
proof -
  have opened: "moves R (\<lambda>s. find_work p request (ap_db s) = Some w)
      (if wk_state w \<notin> {WorkCancelled, WorkRunning} then query (\<lambda>_. Inl (PairingError ''work_not_running''))
       else run_then (query (\<lambda>_. open_value lib p (wk_event w))) (\<lambda>event.
         if wk_state w = WorkCancelled then finish_cancelled lib env p event usage
         else finish_running lib env p w event text error usage)) (\<lambda>_ _. True)" for w
    by (rule moves_if [OF keeps_moves [OF keeps_query]], rule moves_then [OF moves_query],
        rule moves_if [OF keeps_moves [OF keeps_finish_cancelled] moves_weaken [OF finish_moves]])
      (auto dest: find_work_Some intro!: find_running)
  have "moves R (\<lambda>_. True) (run_then (db_query (check_trusted p)) (\<lambda>_.
       run_then (db_query (\<lambda>db. Inr (find_work p request db))) (\<lambda>found.
       case found of
         None \<Rightarrow> query (\<lambda>_. Inl (PairingError ''work_not_running''))
       | Some w \<Rightarrow>
           if wk_state w \<notin> {WorkCancelled, WorkRunning} then query (\<lambda>_. Inl (PairingError ''work_not_running''))
           else run_then (query (\<lambda>_. open_value lib p (wk_event w))) (\<lambda>event.
               if wk_state w = WorkCancelled then finish_cancelled lib env p event usage
               else finish_running lib env p w event text error usage)))) (\<lambda>_ _. True)"
    by (rule moves_then [OF moves_db_query], rule moves_then [OF moves_db_query], rule moves_option [OF keeps_moves [OF keeps_query]])
      (rule moves_weaken [OF opened], auto)
  then show ?thesis unfolding complete_work_def by (intro keeps_transaction moves_keeps)
qed

lemma keeps_recover: "keeps R (recover_work lib env)"
proof -
  have "keeps R (db_change (set_works (\<lambda>w. wk_state w = WorkRunning) WorkUnknown))"
    using keeps_set_works [of "\<lambda>w. wk_state w = WorkRunning" WorkUnknown] work_edge.lose by (simp add: keeps_def db_change_def change_def)
  then show ?thesis unfolding recover_work_def by (intro keeps_transaction keeps_basic)
qed

lemma keeps_revoke: "keeps R (db_change (revoke_thread p thread))"
  unfolding keeps_def
proof
  fix s :: app
  have "R s (s\<lparr>ap_db := set_works (\<lambda>w. wk_peer w = p \<and> wk_thread w = thread \<and> open_state (wk_state w)) WorkCancelled (ap_db s)\<rparr>)"
    by (rule keeps_set_works) (simp_all add: work_edge.cancel)
  then show "R s (snd (db_change (revoke_thread p thread) s))"
    by (rule R_trans) (auto simp: db_change_def change_def revoke_thread_def set_works_def intro!: R_aside)
qed

lemma keeps_revoke_tree: "keeps R (revoke_thread_tree lib p thread)"
  unfolding revoke_thread_tree_def by (intro keeps_basic keeps_for_each keeps_revoke)

lemma keeps_local:
  "keeps R (authorize lib env p thread context)" "keeps R (enable_hosting lib env p enabled)" "keeps R (host_template lib env p ms)"
  "keeps R (save_remote_thread p here there)" "keeps R (record_attachments lib env p request files)"
  unfolding authorize_def enable_hosting_def host_template_def save_remote_thread_def record_attachments_def
  by (intro keeps_transaction keeps_basic keeps_revoke_tree keeps_db_change; simp)+

lemma keeps_remove: "allowed p \<Longrightarrow> keeps R (remove_peer p revoked_only)"
proof -
  assume "allowed p"
  then have "keeps R (db_change (forget_peer p))" by (simp add: keeps_def db_change_def change_def R_forget)
  then show ?thesis unfolding remove_peer_def by (intro keeps_transaction keeps_basic)
qed

lemma keeps_result_room: "keeps R (db_update (result_room p))"
proof -
  have "same_core (ap_db s) db" if "result_room p (ap_db s) = Inr db" for s :: app and db
    using that by (auto simp: result_room_def Let_def split: if_splits)
  then show ?thesis
    by (auto simp: keeps_def db_update_def run_then_def db_query_def query_def db_change_def change_def R_refl
        split: sum.split intro!: R_aside)
qed

lemma keeps_fleet:
  "keeps R (queue_remote lib env p body)" "keeps R (cancel_remote lib env p request)" "keeps R (remote_result lib env p event)"
  "keeps R (session_event env p kind ms thread wanted)"
  unfolding queue_remote_def new_request_def cancel_remote_def remote_result_def store_result_def session_event_def Let_def
  by (intro keeps_transaction keeps_basic keeps_result_room keeps_db_change; simp)+

lemma quiet_room:
  assumes "keeps (\<lambda>s t. R s t \<and> db_work (ap_db s) = db_work (ap_db t)) m"
  shows "moves R (\<lambda>s. length (filter (\<lambda>w. wk_peer w = p \<and> open_state (wk_state w)) (db_work (ap_db s))) < work_limit) m
    (\<lambda>_ s. length (filter (\<lambda>w. wk_peer w = p \<and> open_state (wk_state w)) (db_work (ap_db s))) < work_limit)"
  by (rule quiet_moves [OF assms])

lemma insert_child_moves:
  "moves R (\<lambda>s. length (filter (\<lambda>w. wk_peer w = p \<and> open_state (wk_state w)) (db_work (ap_db s))) < work_limit)
     (insert_child lib env p request thread child message) (\<lambda>_ _. True)"
proof -
  have new: "moves R (\<lambda>s. length (filter (\<lambda>w. wk_peer w = p \<and> open_state (wk_state w)) (db_work (ap_db s))) < work_limit)
     (run_then (db_query (\<lambda>db. need (find_work p request db = None) (Uncaught ''IntegrityError''))) (\<lambda>_.
       db_change (\<lambda>db. db\<lparr>db_work := db_work db @
         [\<lparr>wk_peer = p, wk_request = request, wk_thread = thread, wk_event = sealed, wk_state = WorkAccepted, wk_turn = turn\<rparr>]\<rparr>))) (\<lambda>_ _. True)" for sealed turn
    by (rule moves_then [OF moves_db_query]) (use R_accept [of p request] in \<open>auto simp: moves_def db_change_def change_def\<close>)
  show ?thesis
    unfolding insert_child_def
    by (rule moves_then [OF quiet_room [OF quiet.keeps_seal]], rule moves_then [OF quiet_room [OF quiet.keeps_db_query]],
        rule moves_then [OF quiet_room [OF quiet.keeps_db_change]], simp, rule moves_then [OF quiet_room [OF quiet.keeps_draw]],
        rule moves_then [OF quiet_room [OF quiet.keeps_seal]], rule moves_then [OF quiet_room [OF quiet.keeps_draw]], rule new)
qed

lemma keeps_spawn: "keeps R (spawn_thread lib env p origin message scoped placed)"
proof -
  have room: "moves R (\<lambda>_. True) (db_query (\<lambda>db. need (length (filter (\<lambda>w. wk_peer w = p \<and> open_state (wk_state w)) (db_work db)) < work_limit)
      (PairingError ''work_quota''))) (\<lambda>_ s. length (filter (\<lambda>w. wk_peer w = p \<and> open_state (wk_state w)) (db_work (ap_db s))) < work_limit)"
    by (rule moves_weaken [OF moves_db_query]) auto
  have placed: "moves R (\<lambda>s. length (filter (\<lambda>w. wk_peer w = p \<and> open_state (wk_state w)) (db_work (ap_db s))) < work_limit)
      (run_then (query (placed chosen)) (\<lambda>(thread, child). insert_child lib env p (child_request env origin) thread child message)) (\<lambda>_ _. True)" for chosen
    by (rule moves_then [OF quiet_room [OF quiet.keeps_query]]) (auto split: prod.split intro: insert_child_moves)
  have rest: "keeps R (run_then (db_query (\<lambda>db. need (length (filter (\<lambda>w. wk_peer w = p \<and> open_state (wk_state w)) (db_work db)) < work_limit)
             (PairingError ''work_quota''))) (\<lambda>_.
           run_then (db_query (\<lambda>db. need (length (filter (\<lambda>g. gr_peer g = p) (db_grants db)) < thread_limit) (PairingError ''thread_quota''))) (\<lambda>_.
           run_then (query (placed chosen)) (\<lambda>(thread, child). insert_child lib env p (child_request env origin) thread child message))))" for chosen
    by (rule moves_keeps [OF moves_then [OF room]], rule moves_then [OF quiet_room [OF quiet.keeps_db_query]], rule placed)
  show ?thesis
    unfolding spawn_thread_def
    by (rule keeps_transaction, rule keeps_then [OF keeps_db_query], rule keeps_then [OF keeps_db_query], rule keeps_then [OF keeps_db_query],
        rule keeps_then [OF keeps_raise], rule keeps_then [OF keeps_query], rule keeps_option [OF keeps_returns], rule rest)
qed

lemma keeps_offer_to: "keeps R (offer_to lib env p thread origin snapshot)"
proof -
  have "keeps R (change (\<lambda>s. s\<lparr>ap_db := (ap_db s)\<lparr>db_files := rows\<rparr>, ap_disk := disk\<rparr>))" for rows disk
    by (auto simp: keeps_def change_def intro!: R_aside)
  then show ?thesis unfolding offer_to_def by (intro keeps_transaction keeps_basic)
qed

lemma keeps_revoke_grant: "keeps R (revoke_grant lib p thread)"
  unfolding revoke_grant_def by (intro keeps_transaction keeps_revoke_tree)

lemma keeps_notice: "keeps R (transaction (emit lib env p source kind body))"
  by (intro keeps_transaction keeps_emit)

end

section \<open>Sequences of calls\<close>

datatype app_request =
  HandleEvent string json
| ClaimWork
| CompleteWork string string string "string option" "json option"
| RecoverWork
| Authorize string string json
| RemovePeer string bool
| EnableHosting string bool
| HostTemplate string "(string \<times> json) list"
| SaveRemoteThread string string "string option"
| RecordAttachments string string "json list"
| QueueRemote string json
| CancelRemote string string
| RemoteResult string json
| SessionEvent string string "(string \<times> json) list" json "string option"
| RevokeGrant string string
| OfferFile string string "string option" "json \<Rightarrow> app \<Rightarrow> registry_error + file_row list \<times> (string, string) dict \<times> (string \<times> json) list"
| SpawnThread string string json "json \<Rightarrow> app \<Rightarrow> registry_error + json option" "json \<Rightarrow> app \<Rightarrow> registry_error + string \<times> json"
| Notice string json string "(string \<times> json) list"

text \<open>
  What happens to the state; the results of the calls do not matter here. \<open>Notice\<close> is an event that the modules of the desktop send on
  their own.
\<close>
fun perform_app :: "device_lib \<Rightarrow> app_env \<Rightarrow> app_request \<Rightarrow> app \<Rightarrow> app" where
  "perform_app lib env (HandleEvent p event) s = snd (handle lib env p event s)"
| "perform_app lib env ClaimWork s = snd (claim_work lib env s)"
| "perform_app lib env (CompleteWork p request text error usage) s = snd (complete_work lib env p request text error usage s)"
| "perform_app lib env RecoverWork s = snd (recover_work lib env s)"
| "perform_app lib env (Authorize p thread context) s = snd (authorize lib env p thread context s)"
| "perform_app lib env (RemovePeer p revoked_only) s = snd (remove_peer p revoked_only s)"
| "perform_app lib env (EnableHosting p enabled) s = snd (enable_hosting lib env p enabled s)"
| "perform_app lib env (HostTemplate p context) s = snd (host_template lib env p context s)"
| "perform_app lib env (SaveRemoteThread p here there) s = snd (save_remote_thread p here there s)"
| "perform_app lib env (RecordAttachments p request files) s = snd (record_attachments lib env p request files s)"
| "perform_app lib env (QueueRemote p body) s = snd (queue_remote lib env p body s)"
| "perform_app lib env (CancelRemote p request) s = snd (cancel_remote lib env p request s)"
| "perform_app lib env (RemoteResult p event) s = snd (remote_result lib env p event s)"
| "perform_app lib env (SessionEvent p kind body thread wanted) s = snd (session_event env p kind body thread wanted s)"
| "perform_app lib env (RevokeGrant p thread) s = snd (revoke_grant lib p thread s)"
| "perform_app lib env (OfferFile p thread origin snapshot) s = snd (offer_to lib env p thread origin snapshot s)"
| "perform_app lib env (SpawnThread p origin message scoped placed) s = snd (spawn_thread lib env p origin message scoped placed s)"
| "perform_app lib env (Notice p source kind body) s = snd (transaction (emit lib env p source kind body) s)"

text \<open>
  A run: calls one after the other, each with its own readings from outside, and between them whatever
  pairing and the rest of the desktop do to devices, grants and files.
\<close>
inductive app_run :: "device_lib \<Rightarrow> (string \<Rightarrow> bool) \<Rightarrow> app \<Rightarrow> app \<Rightarrow> bool" for lib allowed where
  start: "app_run lib allowed s s"
| called: "app_run lib allowed s t \<Longrightarrow> \<forall>p b. q = RemovePeer p b \<longrightarrow> allowed p \<Longrightarrow> app_run lib allowed s (perform_app lib env q t)"
| elsewhere: "app_run lib allowed s t \<Longrightarrow> same_core (ap_db t) (ap_db u) \<Longrightarrow> app_run lib allowed s u"

context mail_relation
begin

lemma perform_keeps: "(\<And>p b. q = RemovePeer p b \<Longrightarrow> allowed p) \<Longrightarrow> R s (perform_app lib env q s)"
  using keeps_handle keeps_claim keeps_complete keeps_recover keeps_local keeps_remove keeps_fleet keeps_revoke_grant keeps_offer_to keeps_spawn
    keeps_notice
  by (cases q) (simp_all add: keeps_def)

lemma run_keeps: "app_run lib allowed s t \<Longrightarrow> R s t"
proof (induction rule: app_run.induct)
  case (called s t q env)
  then show ?case using R_trans perform_keeps by blast
next
  case (elsewhere s t u)
  then show ?case using R_trans R_aside by blast
qed (rule R_refl)

end

end
