(* ===== verification/Mailbox_Properties.thy ===== *)
theory Mailbox_Properties
  imports Mailbox_Calls
begin

text \<open>
  The mailbox over any sequence of calls: its invariant, the numbers of the events, requests that arrive
  again, the life of work, and the delivery of the outbox.
\<close>

section \<open>The inbox\<close>

definition inbox_ok :: "app_db \<Rightarrow> bool" where
  "inbox_ok db \<longleftrightarrow>
     distinct (map (\<lambda>row. (in_peer row, in_id row)) (db_inbox db @ db_reads db)) \<and>
     distinct (map (\<lambda>row. (in_peer row, in_sequence row)) (db_inbox db @ db_reads db)) \<and>
     (\<forall>p. length (filter (\<lambda>row. in_peer row = p) (db_inbox db)) \<le> inbox_limit) \<and>
     (\<forall>p. length (filter (\<lambda>row. in_peer row = p) (db_reads db)) \<le> recent_reads)"

lemma fresh_keys:
  assumes "fresh_inbound reading row db"
  shows "(in_peer row, in_id row) \<notin> set (map (\<lambda>row. (in_peer row, in_id row)) (db_inbox db @ db_reads db))"
    and "(in_peer row, in_sequence row) \<notin> set (map (\<lambda>row. (in_peer row, in_sequence row)) (db_inbox db @ db_reads db))"
proof -
  have none: "find_inbound (in_peer row) (in_id row) (db_inbox db) = None" "find_inbound (in_peer row) (in_id row) (db_reads db) = None"
    using assms(1) by (auto simp: fresh_inbound_def prior_digest_def split: option.splits)
  then show "(in_peer row, in_id row) \<notin> set (map (\<lambda>row. (in_peer row, in_id row)) (db_inbox db @ db_reads db))"
    by (auto simp: find_inbound_def find_None_iff)
  show "(in_peer row, in_sequence row) \<notin> set (map (\<lambda>row. (in_peer row, in_sequence row)) (db_inbox db @ db_reads db))"
    using assms by (auto simp: fresh_inbound_def numbered_def list_ex_iff)
qed

lemma trim_reads_bound:
  assumes "distinct (map (\<lambda>row. (in_peer row, in_sequence row)) rows)"
  shows "length (filter (\<lambda>row. in_peer row = p) (trim_reads p rows)) \<le> recent_reads"
proof -
  let ?mine = "filter (\<lambda>row. in_peer row = p) (trim_reads p rows)"
  let ?kept = "newest recent_reads (map in_sequence (filter (\<lambda>row. in_peer row = p) rows))"
  have sub: "set (map in_sequence ?mine) \<subseteq> set ?kept" by (auto simp: trim_reads_def Let_def)
  have "distinct (map (\<lambda>row. (in_peer row, in_sequence row)) ?mine)"
    using assms by (auto simp: trim_reads_def Let_def distinct_map inj_on_def)
  then have "distinct (map in_sequence ?mine)" by (auto simp: distinct_map inj_on_def)
  then have "length ?mine = card (set (map in_sequence ?mine))" using distinct_card by force
  also have "\<dots> \<le> card (set ?kept)" by (rule card_mono [OF _ sub]) simp
  also have "\<dots> \<le> length ?kept" by (rule card_length)
  also have "\<dots> \<le> recent_reads" by (simp add: newest_def)
  finally show ?thesis .
qed

lemma trim_reads_other: "q \<noteq> p \<Longrightarrow> filter (\<lambda>row. in_peer row = q) (trim_reads p rows) = filter (\<lambda>row. in_peer row = q) rows"
  by (auto simp: trim_reads_def Let_def intro: filter_cong)

lemma distinct_filter_part: "distinct (map f (xs @ ys)) \<Longrightarrow> distinct (map f (xs @ filter Q ys))"
  by (auto simp: distinct_map_filter)

lemma inbox_store:
  assumes fresh: "fresh_inbound reading row db" and ok: "inbox_ok db" and store: "store_inbound reading row db = Inr db'"
  shows "inbox_ok db'"
proof -
  note keys = fresh_keys [OF fresh]
  have ids: "distinct (map (\<lambda>row. (in_peer row, in_id row)) (row # db_inbox db @ db_reads db))"
    "distinct (map (\<lambda>row. (in_peer row, in_sequence row)) (row # db_inbox db @ db_reads db))"
    using ok keys unfolding inbox_ok_def list.map distinct.simps by blast+
  show ?thesis
  proof (cases reading)
    case True
    have db': "db' = db\<lparr>db_reads := trim_reads (in_peer row) (db_reads db @ [row])\<rparr>"
      using store True by (auto simp: store_inbound_def insert_row_def andThen_eq_Inr split: if_splits)
    have all: "distinct (map (\<lambda>row. (in_peer row, in_id row)) (db_inbox db @ db_reads db @ [row]))"
      "distinct (map (\<lambda>row. (in_peer row, in_sequence row)) (db_inbox db @ db_reads db @ [row]))"
      using ids by auto
    have reads: "distinct (map (\<lambda>row. (in_peer row, in_sequence row)) (db_reads db @ [row]))" using all(2) by simp
    have "length (filter (\<lambda>row. in_peer row = q) (trim_reads (in_peer row) (db_reads db @ [row]))) \<le> recent_reads" for q
      using trim_reads_bound [OF reads, of q] trim_reads_other [of q "in_peer row"] ok
      by (cases "q = in_peer row") (auto simp: inbox_ok_def)
    moreover obtain Q where "trim_reads (in_peer row) (db_reads db @ [row]) = filter Q (db_reads db @ [row])"
      by (auto simp only: trim_reads_def Let_def)
    moreover have tables: "db_inbox db' = db_inbox db" "db_reads db' = trim_reads (in_peer row) (db_reads db @ [row])" by (simp_all add: db')
    ultimately show ?thesis
      using ok distinct_filter_part [OF all(1), of Q] distinct_filter_part [OF all(2), of Q] unfolding inbox_ok_def tables by simp
  next
    case False
    then have "db' = db\<lparr>db_inbox := db_inbox db @ [row]\<rparr>"
      using store by (auto simp: store_inbound_def insert_row_def andThen_eq_Inr split: if_splits)
    then show ?thesis
      using ok ids fresh False by (auto simp: inbox_ok_def fresh_inbound_def)
  qed
qed

lemma inbox_forget: "inbox_ok db \<Longrightarrow> inbox_ok (forget_peer p db)"
proof -
  assume ok: "inbox_ok db"
  have len: "length (filter (\<lambda>row. in_peer row = q) (filter (\<lambda>row. in_peer row \<noteq> p) rows)) \<le> length (filter (\<lambda>row. in_peer row = q) rows)" for q and rows :: "inbox_row list"
    by (induction rows) auto
  have part: "distinct (map f (filter Q xs @ filter Q ys))" if "distinct (map f (xs @ ys))" for f :: "inbox_row \<Rightarrow> 'k" and Q xs ys
    using that distinct_map_filter [of f "xs @ ys" Q] by simp
  show ?thesis
    using ok len order_trans [OF len] by (auto simp: inbox_ok_def forget_peer_def intro: part simp del: map_append filter_filter)
qed

interpretation inbox_safe: mail_relation "\<lambda>s t. inbox_ok (ap_db s) \<longrightarrow> inbox_ok (ap_db t)" "\<lambda>_. True"
  by unfold_locales (auto simp: inbox_store inbox_forget, auto simp: inbox_ok_def same_core_def outbox_shrinks_def)

section \<open>The outbox\<close>

text \<open>The last number that a device has been given.\<close>
definition last_number :: "string \<Rightarrow> app_db \<Rightarrow> int" where
  "last_number p db = dget_or 0 (db_sequences db) p"

definition outbox_ok :: "app_db \<Rightarrow> bool" where
  "outbox_ok db \<longleftrightarrow>
     distinct (map (\<lambda>row. (ob_peer row, ob_sequence row)) (db_outbox db)) \<and>
     (\<forall>row \<in> set (db_outbox db). 0 < ob_sequence row \<and> ob_sequence row \<le> last_number (ob_peer row) db) \<and>
     (\<forall>p. length (outbox_of p db) \<le> outbox_events \<and> used_bytes p db \<le> outbox_bytes)"

lemma next_number_above: "last_number p db < next_number p db" "0 < next_number p db"
  by (simp_all add: next_number_def last_number_def)

lemma next_number_outbox:
  assumes "row \<in> set (db_outbox db)" and "ob_peer row = p"
  shows "ob_sequence row < next_number p db"
proof -
  have "x \<in> set xs \<Longrightarrow> x \<le> foldr max xs (0 :: int)" for x xs by (induction xs) auto
  moreover have "ob_sequence row \<in> set (map ob_sequence (outbox_of p db))" using assms by (simp add: outbox_of_def)
  ultimately have "ob_sequence row \<le> foldr max (map ob_sequence (outbox_of p db)) 0" by blast
  then show ?thesis unfolding next_number_def by linarith
qed

lemma dget_or_set: "dget_or d (dset k v m) k' = (if k' = k then v else dget_or d m k')"
  by (simp add: dget_or_def update_conv')

lemma last_number_bumped: "last_number q (db\<lparr>db_sequences := dset p n (db_sequences db)\<rparr>) = (if q = p then n else last_number q db)"
  by (simp add: last_number_def dget_or_set)

lemma outbox_okI:
  assumes "distinct (map (\<lambda>row. (ob_peer row, ob_sequence row)) (db_outbox db))"
    and "\<And>row. row \<in> set (db_outbox db) \<Longrightarrow> 0 < ob_sequence row \<and> ob_sequence row \<le> last_number (ob_peer row) db"
    and "\<And>p. length (outbox_of p db) \<le> outbox_events" and "\<And>p. used_bytes p db \<le> outbox_bytes"
  shows "outbox_ok db"
  using assms by (simp add: outbox_ok_def)

lemma outbox_okD:
  assumes "outbox_ok db"
  shows "distinct (map (\<lambda>row. (ob_peer row, ob_sequence row)) (db_outbox db))"
    and "row \<in> set (db_outbox db) \<Longrightarrow> 0 < ob_sequence row \<and> ob_sequence row \<le> last_number (ob_peer row) db"
    and "length (outbox_of p db) \<le> outbox_events" and "used_bytes p db \<le> outbox_bytes"
  using assms by (simp_all add: outbox_ok_def)

lemma outbox_filter:
  assumes ok: "outbox_ok db" and rows: "db_outbox db' = filter keep (db_outbox db)"
    and numbers: "\<And>row. row \<in> set (db_outbox db') \<Longrightarrow> last_number (ob_peer row) db \<le> last_number (ob_peer row) db'"
  shows "outbox_ok db'"
proof (rule outbox_okI)
  have len: "length (filter Q (filter keep xs)) \<le> length (filter Q xs)" for Q and xs :: "outbox_row list" by (induction xs) auto
  have sum: "sum_list (map f (filter Q (filter keep xs))) \<le> sum_list (map f (filter Q xs))" for Q xs and f :: "outbox_row \<Rightarrow> nat" by (induction xs) auto
  show "distinct (map (\<lambda>row. (ob_peer row, ob_sequence row)) (db_outbox db'))"
    using outbox_okD(1) [OF ok] by (simp add: rows distinct_map_filter)
  show "length (outbox_of p db') \<le> outbox_events" for p
    using order_trans [OF len outbox_okD(3) [OF ok, unfolded outbox_of_def]] unfolding outbox_of_def rows .
  show "used_bytes p db' \<le> outbox_bytes" for p
    using order_trans [OF sum outbox_okD(4) [OF ok, unfolded outbox_of_def used_bytes_def]] unfolding outbox_of_def used_bytes_def rows .
  show "0 < ob_sequence row \<and> ob_sequence row \<le> last_number (ob_peer row) db'" if "row \<in> set (db_outbox db')" for row
    using that outbox_okD(2) [OF ok, of row] numbers [OF that] by (simp add: rows)
qed

lemma outbox_same: "db_outbox db' = db_outbox db \<Longrightarrow> db_sequences db' = db_sequences db \<Longrightarrow> outbox_ok db' = outbox_ok db"
  by (simp add: outbox_ok_def last_number_def outbox_of_def used_bytes_def)

lemma outbox_bumped: "outbox_ok db \<Longrightarrow> outbox_ok (db\<lparr>db_sequences := dset p (next_number p db) (db_sequences db)\<rparr>)"
  by (rule outbox_filter [where keep = "\<lambda>_. True"]) (use next_number_above(1) [of p db] in \<open>auto simp: last_number_bumped less_imp_le\<close>)

lemma outbox_emitted:
  assumes "outbox_ok db" and "length (outbox_of p db) < outbox_events" and "used_bytes p db + length blob \<le> outbox_bytes" and "n = next_number p db"
  shows "outbox_ok (db\<lparr>db_sequences := dset p n (db_sequences db), db_outbox := db_outbox db @ [\<lparr>ob_sequence = n, ob_peer = p, ob_event = blob\<rparr>]\<rparr>)"
    (is "outbox_ok ?db")
proof (rule outbox_okI)
  let ?row = "\<lparr>ob_sequence = n, ob_peer = p, ob_event = blob\<rparr>"
  have num: "last_number q ?db = (if q = p then n else last_number q db)" for q by (simp add: last_number_def dget_or_set)
  have old: "(p, n) \<notin> (\<lambda>row. (ob_peer row, ob_sequence row)) ` set (db_outbox db)"
    using next_number_outbox [of _ db p] assms(4) by fastforce
  have of_p: "outbox_of q ?db = outbox_of q db @ (if q = p then [?row] else [])" for q
    by (simp add: outbox_of_def)
  show "length (outbox_of q ?db) \<le> outbox_events" for q
    using outbox_okD(3) [OF assms(1), of q] assms(2) unfolding of_p by auto
  show "used_bytes q ?db \<le> outbox_bytes" for q
    using outbox_okD(4) [OF assms(1), of q] assms(3) unfolding used_bytes_def of_p by auto
  have "db_outbox ?db = db_outbox db @ [?row]" by simp
  then show "0 < ob_sequence row \<and> ob_sequence row \<le> last_number (ob_peer row) ?db" if "row \<in> set (db_outbox ?db)" for row
    using that outbox_okD(2) [OF assms(1), of row] next_number_above [of p db] assms(4) unfolding num by auto
  show "distinct (map (\<lambda>row. (ob_peer row, ob_sequence row)) (db_outbox ?db))"
    using outbox_okD(1) [OF assms(1)] old by simp
qed

lemma outbox_forget: "outbox_ok db \<Longrightarrow> outbox_ok (forget_peer p db)"
  by (rule outbox_filter [where keep = "\<lambda>row. ob_peer row \<noteq> p"])
    (auto simp: forget_peer_def last_number_def dget_or_def delete_conv')

lemma store_inbound_tables:
  "store_inbound reading row db = Inr db' \<Longrightarrow> db_outbox db' = db_outbox db \<and> db_sequences db' = db_sequences db \<and> db_work db' = db_work db"
  by (auto simp: store_inbound_def andThen_eq_Inr split: if_splits)

interpretation outbox_safe: mail_relation "\<lambda>s t. outbox_ok (ap_db s) \<longrightarrow> outbox_ok (ap_db t)" "\<lambda>_. True"
proof unfold_locales
  fix s db
  show "outbox_shrinks (ap_db s) db \<Longrightarrow> outbox_ok (ap_db s) \<longrightarrow> outbox_ok (ap_db (s\<lparr>ap_db := db\<rparr>))"
    by (auto simp: outbox_shrinks_def last_number_def intro: outbox_filter)
  show "store_inbound reading row (ap_db s) = Inr db \<Longrightarrow> outbox_ok (ap_db s) \<longrightarrow> outbox_ok (ap_db (s\<lparr>ap_db := db\<rparr>))" for reading row
    by (simp add: outbox_same [of db "ap_db s"] store_inbound_tables)
next
  fix s t
  show "same_core (ap_db s) (ap_db t) \<Longrightarrow> outbox_ok (ap_db s) \<longrightarrow> outbox_ok (ap_db t)"
    by (simp add: same_core_def outbox_same [of "ap_db t" "ap_db s"])
qed (auto simp: outbox_bumped outbox_emitted outbox_forget intro: outbox_same [THEN iffD2, rotated 2])

section \<open>The table of work\<close>

definition work_ok :: "app_db \<Rightarrow> bool" where
  "work_ok db \<longleftrightarrow> distinct (work_keys (db_work db)) \<and> one_running (db_work db) \<and>
     (\<forall>p. length (filter (\<lambda>w. wk_peer w = p \<and> open_state (wk_state w)) (db_work db)) \<le> work_limit)"

lemma closed_path: "work_path st st' \<Longrightarrow> \<not> open_state st \<Longrightarrow> st' = st"
  by (induction rule: rtranclp_induct) (auto simp: work_edge_simps open_state_def)

lemma work_moves_fields:
  assumes "work_moves ws ws'"
  shows "list_all2 (\<lambda>w w'. work_path (wk_state w) (wk_state w') \<and> wk_peer w' = wk_peer w \<and> wk_request w' = wk_request w \<and>
    wk_thread w' = wk_thread w \<and> wk_event w' = wk_event w \<and> wk_turn w' = wk_turn w) ws ws'"
proof (rule list_all2_mono [OF assms [unfolded work_moves_def]])
  fix w w' :: work_row
  assume "work_path (wk_state w) (wk_state w') \<and> w' = w\<lparr>wk_state := wk_state w'\<rparr>"
  then show "work_path (wk_state w) (wk_state w') \<and> wk_peer w' = wk_peer w \<and> wk_request w' = wk_request w \<and>
      wk_thread w' = wk_thread w \<and> wk_event w' = wk_event w \<and> wk_turn w' = wk_turn w"
    by (cases w; cases w') simp
qed

lemma work_moves_keys: "work_moves ws ws' \<Longrightarrow> work_keys ws' = work_keys ws"
  by (drule work_moves_fields, induction rule: list_all2_induct) auto

lemma work_moves_open:
  "work_moves ws ws' \<Longrightarrow> length (filter (\<lambda>w. wk_peer w = p \<and> open_state (wk_state w)) ws') \<le>
    length (filter (\<lambda>w. wk_peer w = p \<and> open_state (wk_state w)) ws)"
proof (drule work_moves_fields, induction rule: list_all2_induct)
  case (Cons x xs y ys)
  then have "open_state (wk_state y) \<Longrightarrow> open_state (wk_state x)" using closed_path by metis
  then show ?case using Cons by auto
qed simp

lemma forget_work: "db_work (forget_peer p db) = db_work (set_works (\<lambda>w. wk_peer w = p \<and> open_state (wk_state w)) WorkCancelled db)"
  by (simp add: forget_peer_def)

lemma forget_work_moves: "work_moves (db_work db) (db_work (forget_peer p db))"
  unfolding forget_work by (rule work_moves_set) (simp add: work_edge.cancel)

lemma forget_one_running: "one_running (db_work db) \<Longrightarrow> one_running (db_work (forget_peer p db))"
  unfolding forget_work set_works_def by (simp add: one_running_stop)

lemma work_okI:
  assumes "distinct (work_keys ws)" and "one_running ws"
    and "\<And>p. length (filter (\<lambda>w. wk_peer w = p \<and> open_state (wk_state w)) ws) \<le> work_limit" and "db_work db = ws"
  shows "work_ok db"
  using assms by (simp add: work_ok_def)

lemma work_ok_moved:
  assumes "work_ok db" and "work_moves (db_work db) ws" and "one_running ws" and "db_work db' = ws"
  shows "work_ok db'"
proof (rule work_okI [OF _ assms(3) _ assms(4)])
  show "distinct (work_keys ws)" using assms(1) work_moves_keys [OF assms(2)] by (simp add: work_ok_def)
  show "length (filter (\<lambda>w. wk_peer w = p \<and> open_state (wk_state w)) ws) \<le> work_limit" for p
    using assms(1) work_moves_open [OF assms(2), of p] unfolding work_ok_def by (meson order_trans)
qed

lemma work_accepted:
  assumes ok: "work_ok db" and new: "find_work p request db = None"
    and room: "length (filter (\<lambda>w. wk_peer w = p \<and> open_state (wk_state w)) (db_work db)) < work_limit"
    and row: "wk_peer row = p" "wk_request row = request" "wk_state row = WorkAccepted"
  shows "work_ok (db\<lparr>db_work := db_work db @ [row]\<rparr>)"
proof (rule work_okI)
  have "(p, request) \<notin> set (work_keys (db_work db))" using new by (auto simp: find_work_def find_None_iff)
  then show "distinct (work_keys (db_work db @ [row]))" using ok row by (simp add: work_ok_def)
  show "one_running (db_work db @ [row])" using ok row by (simp add: work_ok_def one_running_def)
  show "length (filter (\<lambda>w. wk_peer w = q \<and> open_state (wk_state w)) (db_work db @ [row])) \<le> work_limit" for q
    using ok room row by (auto simp: work_ok_def)
qed simp

interpretation work_safe: mail_relation "\<lambda>s t. work_ok (ap_db s) \<longrightarrow> work_ok (ap_db t)" "\<lambda>_. True"
proof unfold_locales
  fix s :: app and p request thread blob turn ws
  show "work_ok (ap_db s) \<longrightarrow> work_ok (ap_db (s\<lparr>ap_db := (ap_db s)\<lparr>db_work := ws\<rparr>\<rparr>))"
    if "distinct (work_keys (db_work (ap_db s))) \<Longrightarrow> work_moves (db_work (ap_db s)) ws \<and> (one_running (db_work (ap_db s)) \<longrightarrow> one_running ws)"
    using that work_ok_moved [of "ap_db s" ws "(ap_db s)\<lparr>db_work := ws\<rparr>"] by (auto simp: work_ok_def)
  show "work_ok (ap_db s) \<longrightarrow> work_ok (ap_db (s\<lparr>ap_db := forget_peer p (ap_db s)\<rparr>))"
    using work_ok_moved [OF _ forget_work_moves] forget_one_running by (auto simp: work_ok_def)
qed (auto simp: work_accepted store_inbound_tables, auto simp: work_ok_def same_core_def outbox_shrinks_def store_inbound_tables)

text \<open>The table of work only grows, and the states of its rows follow the life cycle.\<close>
definition work_follows :: "app_db \<Rightarrow> app_db \<Rightarrow> bool" where
  "work_follows db db' \<longleftrightarrow> distinct (work_keys (db_work db)) \<longrightarrow>
     distinct (work_keys (db_work db')) \<and> (\<exists>ws new. db_work db' = ws @ new \<and> work_moves (db_work db) ws)"

lemma work_follows_moved:
  assumes "distinct (work_keys (db_work db)) \<Longrightarrow> work_moves (db_work db) (db_work db')"
  shows "work_follows db db'"
  using assms work_moves_keys unfolding work_follows_def by (metis append.right_neutral)

lemma work_follows_grown:
  "db_work db' = db_work db @ new \<Longrightarrow> (distinct (work_keys (db_work db)) \<Longrightarrow> distinct (work_keys (db_work db @ new))) \<Longrightarrow> work_follows db db'"
  unfolding work_follows_def by (metis work_moves_refl)

lemma work_moves_append:
  assumes "work_moves (a @ b) c"
  obtains c1 c2 where "c = c1 @ c2" "work_moves a c1"
  using assms unfolding work_moves_def by (auto simp: list_all2_append1)

lemma work_follows_trans: "work_follows a b \<Longrightarrow> work_follows b c \<Longrightarrow> work_follows a c"
  unfolding work_follows_def
proof
  assume ab: "distinct (work_keys (db_work a)) \<longrightarrow> distinct (work_keys (db_work b)) \<and> (\<exists>ws new. db_work b = ws @ new \<and> work_moves (db_work a) ws)"
    and bc: "distinct (work_keys (db_work b)) \<longrightarrow> distinct (work_keys (db_work c)) \<and> (\<exists>ws new. db_work c = ws @ new \<and> work_moves (db_work b) ws)"
    and d: "distinct (work_keys (db_work a))"
  obtain ws new where b: "db_work b = ws @ new" "work_moves (db_work a) ws" using ab d by blast
  obtain ws' new' where c: "db_work c = ws' @ new'" "work_moves (ws @ new) ws'" using ab bc d b(1) by auto
  obtain c1 c2 where "ws' = c1 @ c2" "work_moves ws c1" using work_moves_append [OF c(2)] .
  then have "db_work c = c1 @ (c2 @ new')" "work_moves (db_work a) c1" using c(1) work_moves_trans [OF b(2)] by simp_all
  then show "distinct (work_keys (db_work c)) \<and> (\<exists>ws new. db_work c = ws @ new \<and> work_moves (db_work a) ws)"
    using ab bc d by blast
qed

interpretation works: mail_relation "\<lambda>s t. work_follows (ap_db s) (ap_db t)" "\<lambda>_. True"
proof unfold_locales
  fix s :: app and p request thread blob turn ws
  show "work_follows (ap_db s) (ap_db (s\<lparr>ap_db := (ap_db s)\<lparr>db_work := ws\<rparr>\<rparr>))"
    if "distinct (work_keys (db_work (ap_db s))) \<Longrightarrow> work_moves (db_work (ap_db s)) ws \<and> (one_running (db_work (ap_db s)) \<longrightarrow> one_running ws)"
    using that by (intro work_follows_moved) simp
  show "work_follows (ap_db s) (ap_db (s\<lparr>ap_db := forget_peer p (ap_db s)\<rparr>))"
    using forget_work_moves by (intro work_follows_moved) simp
  show "work_follows (ap_db s) (ap_db (s\<lparr>ap_db := (ap_db s)\<lparr>db_work := db_work (ap_db s) @
      [\<lparr>wk_peer = p, wk_request = request, wk_thread = thread, wk_event = blob, wk_state = WorkAccepted, wk_turn = turn\<rparr>]\<rparr>\<rparr>))"
    if "find_work p request (ap_db s) = None"
    using that by (intro work_follows_grown) (auto simp: find_work_def find_None_iff)
next
  fix s t u :: app
  show "work_follows (ap_db s) (ap_db t) \<Longrightarrow> work_follows (ap_db t) (ap_db u) \<Longrightarrow> work_follows (ap_db s) (ap_db u)"
    by (rule work_follows_trans)
qed (auto intro!: work_follows_moved simp: same_core_def outbox_shrinks_def store_inbound_tables)

section \<open>The numbers and the inbox of one device\<close>

text \<open>Every event that was not there before has a number above all that had been given.\<close>
definition numbers_follow :: "string \<Rightarrow> app_db \<Rightarrow> app_db \<Rightarrow> bool" where
  "numbers_follow p db db' \<longleftrightarrow> last_number p db \<le> last_number p db' \<and>
     (\<forall>row \<in> set (outbox_of p db'). row \<in> set (outbox_of p db) \<or> last_number p db < ob_sequence row)"

lemma numbers_follow_same:
  "db_outbox db' = db_outbox db \<Longrightarrow> db_sequences db' = db_sequences db \<Longrightarrow> numbers_follow p db db'"
  by (simp add: numbers_follow_def last_number_def outbox_of_def)

lemma numbers_follow_number:
  "numbers_follow p db (db\<lparr>db_sequences := dset q (next_number q db) (db_sequences db)\<rparr>)"
  using next_number_above(1) [of q db] by (auto simp: numbers_follow_def last_number_bumped)

lemma numbers_follow_emitted:
  "numbers_follow p db (db\<lparr>db_sequences := dset q (next_number q db) (db_sequences db),
     db_outbox := db_outbox db @ [\<lparr>ob_sequence = next_number q db, ob_peer = q, ob_event = blob\<rparr>]\<rparr>)"
  using next_number_above(1) [of q db] by (auto simp: numbers_follow_def last_number_def outbox_of_def dget_or_set)

lemma numbers_follow_trans: "numbers_follow p a b \<Longrightarrow> numbers_follow p b c \<Longrightarrow> numbers_follow p a c"
  unfolding numbers_follow_def by (meson le_less_trans order_trans)

interpretation numbers: mail_relation "\<lambda>s t. numbers_follow p (ap_db s) (ap_db t)" "\<lambda>q. q \<noteq> p" for p
proof unfold_locales
  fix s t u :: app and q and db
  show "numbers_follow p (ap_db s) (ap_db t) \<Longrightarrow> numbers_follow p (ap_db t) (ap_db u) \<Longrightarrow> numbers_follow p (ap_db s) (ap_db u)"
    by (rule numbers_follow_trans)
  show "q \<noteq> p \<Longrightarrow> numbers_follow p (ap_db s) (ap_db (s\<lparr>ap_db := forget_peer q (ap_db s)\<rparr>))"
    by (auto simp: numbers_follow_def last_number_def outbox_of_def forget_peer_def dget_or_def delete_conv')
  show "outbox_shrinks (ap_db s) db \<Longrightarrow> numbers_follow p (ap_db s) (ap_db (s\<lparr>ap_db := db\<rparr>))"
    by (auto simp: outbox_shrinks_def numbers_follow_def last_number_def outbox_of_def)
qed (auto intro: numbers_follow_number numbers_follow_emitted, auto intro!: numbers_follow_same simp: same_core_def store_inbound_tables)

text \<open>The requests that a device has made, other than reads, are remembered.\<close>
definition inbox_kept :: "string \<Rightarrow> app_db \<Rightarrow> app_db \<Rightarrow> bool" where
  "inbox_kept p db db' \<longleftrightarrow> (\<forall>i row. find_inbound p i (db_inbox db) = Some row \<longrightarrow> find_inbound p i (db_inbox db') = Some row)"

lemma find_filter: "(\<And>x. Q x \<Longrightarrow> keep x) \<Longrightarrow> find Q (filter keep xs) = find Q xs"
  by (induction xs) auto

lemma find_append_Some: "find Q xs = Some x \<Longrightarrow> find Q (xs @ ys) = Some x"
  by (induction xs) auto

interpretation remembered: mail_relation "\<lambda>s t. inbox_kept p (ap_db s) (ap_db t)" "\<lambda>q. q \<noteq> p" for p
proof unfold_locales
  fix s :: app and q reading row db
  have others: "find (\<lambda>row. in_peer row = p \<and> in_id row = i) (filter (\<lambda>row. in_peer row \<noteq> q) rows) =
      find (\<lambda>row. in_peer row = p \<and> in_id row = i) rows" if "q \<noteq> p" for i rows
    by (rule find_filter) (use that in auto)
  show "q \<noteq> p \<Longrightarrow> inbox_kept p (ap_db s) (ap_db (s\<lparr>ap_db := forget_peer q (ap_db s)\<rparr>))"
    by (simp add: inbox_kept_def find_inbound_def forget_peer_def others)
  show "store_inbound reading row (ap_db s) = Inr db \<Longrightarrow> inbox_kept p (ap_db s) (ap_db (s\<lparr>ap_db := db\<rparr>))"
    by (auto simp: inbox_kept_def find_inbound_def store_inbound_def insert_row_def andThen_eq_Inr find_append_Some split: if_splits)
qed (auto simp: inbox_kept_def same_core_def outbox_shrinks_def)

end
