(* ===== verification/Mailbox_Behaviour.thy ===== *)
theory Mailbox_Behaviour
  imports Mailbox_Properties
begin

text \<open>
  What a paired device can rely on: the mailbox stays consistent over every sequence of calls, a request is
  carried out once however often it is sent, work is claimed once, numbers are not used again, and every event
  is delivered; and what happens when the outbox of one device is full.
\<close>

section \<open>Consistency\<close>

text \<open>
  C3. From empty tables, after any sequence of calls (and any changes of devices, grants and files in between), the
  inbox holds each event identifier and each number of a device at most once and stays within its limits, the
  outbox holds each number of a device at most once, none above the last number given, within the limits on events and
  bytes, and the table of work holds each request once, with at most one running request per thread and at most a hundred
  open requests per device.
\<close>
theorem mailbox_invariant:
  assumes "app_run lib (\<lambda>_. True) s t"
    and "db_inbox (ap_db s) = []" and "db_reads (ap_db s) = []" and "db_outbox (ap_db s) = []" and "db_work (ap_db s) = []"
  shows "inbox_ok (ap_db t) \<and> outbox_ok (ap_db t) \<and> work_ok (ap_db t)"
proof -
  have "inbox_ok (ap_db s)" "work_ok (ap_db s)" "outbox_ok (ap_db s)"
    using assms by (simp_all add: inbox_ok_def work_ok_def one_running_def outbox_ok_def outbox_of_def used_bytes_def)
  then show ?thesis
    using inbox_safe.run_keeps [OF assms(1)] outbox_safe.run_keeps [OF assms(1)] work_safe.run_keeps [OF assms(1)] by blast
qed

section \<open>Requests that arrive again\<close>

lemma find_last: "find Q xs = None \<Longrightarrow> Q x \<Longrightarrow> find Q (xs @ [x]) = Some x"
  by (induction xs) (auto split: if_splits)

lemma seen_inbox: "db_inbox (seen now p db) = db_inbox db"
  by (simp add: seen_def)

lemma record_inbound_found:
  assumes "record_inbound env p event d s = (Inr u, s1)" and "item_text event ''id'' = Inr i" and "\<not> read_only event"
    and "prior_digest p i (ap_db s) = None"
  shows "\<exists>row. find_inbound p i (db_inbox (ap_db s1)) = Some row \<and> in_digest row = d"
proof -
  obtain n where n: "item_int event ''sequence'' = Inr n"
    using assms(1,2) by (auto simp: record_inbound_def run_then_def query_def split: sum.splits)
  let ?row = "\<lparr>in_peer = p, in_id = i, in_digest = d, in_sequence = n\<rparr>"
  have none: "find_inbound p i (db_inbox (ap_db s)) = None"
    using assms(4) by (auto simp: prior_digest_def split: option.splits)
  have "db_inbox (ap_db s1) = db_inbox (ap_db s) @ [?row]"
    using assms(1-3) n
    by (auto simp: record_inbound_def run_then_def query_def db_update_def db_query_def db_change_def change_def
        store_inbound_def insert_row_def seen_inbox split: if_splits)
  then show ?thesis using none by (simp add: find_inbound_def find_last)
qed

lemma handled_found:
  assumes "handle_event lib env p event d s = (Inr out, s1)" and "item_text event ''id'' = Inr i" and "\<not> read_only event"
    and "prior_digest p i (ap_db s) = None"
  shows "\<exists>row. find_inbound p i (db_inbox (ap_db s1)) = Some row \<and> in_digest row = d"
proof -
  obtain u s2 where rec: "record_inbound env p event d s = (Inr u, s2)" and dis: "dispatch_event lib env p event s2 = (Inr out, s1)"
    using assms
    by (auto simp: handle_event_def transaction_def run_then_def db_query_def query_def split: sum.splits prod.splits)
  have "inbox_kept p (ap_db s2) (ap_db s1)"
    using remembered.keeps_dispatch [of p lib env p event] dis unfolding keeps_def by (metis snd_conv)
  then show ?thesis using record_inbound_found [OF rec assms(2-4)] unfolding inbox_kept_def by blast
qed

lemma open_all_errors:
  "open_all lib p bs \<noteq> Inl (PairingError reason)" "open_all lib p bs \<noteq> Inl (Uncaught ''KeyError'')"
  "open_all lib p bs \<noteq> Inl (Uncaught ''TypeError'')"
proof -
  have one: "open_value lib p b = Inl e \<Longrightarrow> e \<in> {Uncaught ''InvalidTag'', Uncaught ''JSONDecodeError''}" for b e
    by (auto simp: open_value_def split: option.splits)
  have "open_all lib p bs = Inl e \<Longrightarrow> e \<in> {Uncaught ''InvalidTag'', Uncaught ''JSONDecodeError''}" for e
    by (induction bs) (use one in \<open>auto simp: andThen_def split: sum.splits\<close>)
  then show "open_all lib p bs \<noteq> Inl (PairingError reason)" "open_all lib p bs \<noteq> Inl (Uncaught ''KeyError'')"
    "open_all lib p bs \<noteq> Inl (Uncaught ''TypeError'')" by fastforce+
qed

lemma handle_again:
  assumes "ae_valid env event" and "item_text event ''id'' = Inr i" and "item_int event ''sequence'' = Inr n"
    and "find_inbound p i (db_inbox (ap_db t)) = Some row" and "in_digest row = event_digest lib event" and "check_trusted p (ap_db t) = Inr ()"
  shows "handle lib env p event t = pending lib p 0 100 t"
proof -
  have prior: "prior_digest p i (ap_db t) = Some (event_digest lib event)" using assms by (simp add: prior_digest_def)
  have "handle_event lib env p event (event_digest lib event) t = pending lib p 0 100 t"
    using assms(2,3,6) prior
    by (auto simp: handle_event_def transaction_def run_then_def db_query_def query_def pending_def split: sum.splits)
  moreover have "fst (pending lib p 0 100 t) \<noteq> Inl (PairingError reason)" "fst (pending lib p 0 100 t) \<noteq> Inl (Uncaught ''KeyError'')"
    "fst (pending lib p 0 100 t) \<noteq> Inl (Uncaught ''TypeError'')" for reason
    using assms(6) open_all_errors [of lib p] by (auto simp: pending_def db_query_def query_def)
  ultimately show ?thesis
    using assms(1) by (cases "pending lib p 0 100 t") (auto simp: handle_def Let_def split: sum.split registry_error.split)
qed

text \<open>
  C1. Once a device's request (anything but a read) has been recorded and carried out, the same request
  sent again - after whatever other calls, as long as the device was not removed - changes nothing: it is
  answered with the events that wait for the device. This is what makes a request that the phone repeats after
  a lost connection safe.
\<close>
theorem redelivery_has_no_effect:
  assumes "handle_event lib env p event (event_digest lib event) s = (Inr out, s1)"
    and "item_text event ''id'' = Inr i" and "prior_digest p i (ap_db s) = None" and "\<not> read_only event"
    and "app_run lib (\<lambda>q. q \<noteq> p) s1 t"
    and "ae_valid env' event" and "check_trusted p (ap_db t) = Inr ()"
  shows "handle lib env' p event t = pending lib p 0 100 t \<and> snd (handle lib env' p event t) = t"
proof -
  obtain n where n: "item_int event ''sequence'' = Inr n"
    using assms(1,2) by (auto simp: handle_event_def transaction_def run_then_def db_query_def query_def split: sum.splits prod.splits)
  obtain row where "find_inbound p i (db_inbox (ap_db s1)) = Some row" "in_digest row = event_digest lib event"
    using handled_found [OF assms(1,2,4,3)] by blast
  moreover have "inbox_kept p (ap_db s1) (ap_db t)" by (rule remembered.run_keeps [OF assms(5)])
  ultimately have "find_inbound p i (db_inbox (ap_db t)) = Some row" "in_digest row = event_digest lib event"
    unfolding inbox_kept_def by blast+
  then have "handle lib env' p event t = pending lib p 0 100 t" using assms(2,6,7) n by (intro handle_again)
  then show ?thesis by (simp add: pending_def db_query_def query_def)
qed

section \<open>Numbers\<close>

text \<open>
  C6. As long as a device is not removed, no number is given to two of its events: an event of its outbox at any later
  time that carries the number of an earlier event is that event. This also holds when the earlier
  event has been delivered and deleted and others have been sent since, so a device may remember only
  the last number it has seen.
\<close>
theorem numbers_never_reused:
  assumes "app_run lib (\<lambda>_. True) s0 s" and "db_outbox (ap_db s0) = []" and "app_run lib (\<lambda>q. q \<noteq> p) s t"
    and "row \<in> set (outbox_of p (ap_db s))" and "row' \<in> set (outbox_of p (ap_db t))" and "ob_sequence row' = ob_sequence row"
  shows "row' = row"
proof -
  have "outbox_ok (ap_db s0)" using assms(2) by (simp add: outbox_ok_def outbox_of_def used_bytes_def)
  then have ok: "outbox_ok (ap_db s)" using outbox_safe.run_keeps [OF assms(1)] by blast
  have row: "row \<in> set (db_outbox (ap_db s))" "ob_peer row = p" using assms(4) by (auto simp: outbox_of_def)
  have "numbers_follow p (ap_db s) (ap_db t)" by (rule numbers.run_keeps [OF assms(3)])
  then consider "row' \<in> set (outbox_of p (ap_db s))" | "last_number p (ap_db s) < ob_sequence row'"
    using assms(5) unfolding numbers_follow_def by blast
  then show ?thesis
  proof cases
    case 1
    then have "row' \<in> set (db_outbox (ap_db s))" "ob_peer row' = p" by (auto simp: outbox_of_def)
    then show ?thesis using row assms(6) outbox_okD(1) [OF ok] by (auto simp: distinct_map inj_on_def)
  next
    case 2
    then show ?thesis using outbox_okD(2) [OF ok row(1)] row(2) assms(6) by simp
  qed
qed

section \<open>Work\<close>

lemma find_moved:
  assumes "work_moves ws ws'" and "find (\<lambda>w. wk_peer w = p \<and> wk_request w = request) ws = Some w"
  shows "\<exists>w'. find (\<lambda>w. wk_peer w = p \<and> wk_request w = request) ws' = Some w' \<and> work_path (wk_state w) (wk_state w') \<and>
    wk_thread w' = wk_thread w \<and> wk_event w' = wk_event w \<and> wk_turn w' = wk_turn w"
  using work_moves_fields [OF assms(1)] assms(2) by (induction rule: list_all2_induct) (auto split: if_splits)

lemma work_kept:
  assumes "app_run lib (\<lambda>_. True) s t" and "distinct (work_keys (db_work (ap_db s)))" and "find_work p request (ap_db s) = Some w"
  shows "\<exists>w'. find_work p request (ap_db t) = Some w' \<and> work_path (wk_state w) (wk_state w') \<and>
    wk_thread w' = wk_thread w \<and> wk_event w' = wk_event w \<and> wk_turn w' = wk_turn w"
proof -
  obtain ws new where t: "db_work (ap_db t) = ws @ new" "work_moves (db_work (ap_db s)) ws"
    using works.run_keeps [OF assms(1)] assms(2) unfolding work_follows_def by blast
  show ?thesis
    using find_moved [OF t(2) assms(3) [unfolded find_work_def]] unfolding find_work_def t(1) using find_append_Some by fast
qed

text \<open>
  C4. The table of work implements the life cycle of a request: over any sequence of calls, removal of the device and a new
  pairing included, a request stays on record with its content and its turn, its state only moves along the edges
  accepted - running - completed, failed or unknown (and from the open states to cancelled), and a request that has
  ended keeps its outcome.
\<close>
theorem work_life_cycle:
  assumes "app_run lib (\<lambda>_. True) s t" and "work_ok (ap_db s)" and "find_work p request (ap_db s) = Some w"
  shows "\<exists>w'. find_work p request (ap_db t) = Some w' \<and> work_path (wk_state w) (wk_state w') \<and>
    wk_thread w' = wk_thread w \<and> wk_event w' = wk_event w \<and> wk_turn w' = wk_turn w \<and>
    (\<not> open_state (wk_state w) \<longrightarrow> wk_state w' = wk_state w)"
  using work_kept [OF assms(1) _ assms(3)] assms(2) closed_path unfolding work_ok_def by blast

lemma after_change: "run_then (db_change f) k s = k () (s\<lparr>ap_db := f (ap_db s)\<rparr>)"
  by (simp add: run_then_def db_change_def change_def)

lemma after_query: "run_then (query f) k s = (case f s of Inl e \<Rightarrow> (Inl e, s) | Inr x \<Rightarrow> k x s)"
  by (simp add: run_then_def query_def)

lemma after_db_query: "run_then (db_query f) k s = (case f (ap_db s) of Inl e \<Rightarrow> (Inl e, s) | Inr x \<Rightarrow> k x s)"
  by (simp add: db_query_def after_query)

lemma attachments_missing_none: "attachments_missing lib env w event s = (Inr c, s1) \<Longrightarrow> c = None"
  by (auto simp: attachments_missing_def run_then_def returns_def split: prod.splits sum.splits)

lemma claim_starts:
  assumes "claim_work lib env s = (Inr (Some c), s1)"
  obtains w where "find (can_start (ap_db s)) (db_work (ap_db s)) = Some w"
    and "db_work (ap_db s1) = db_work (set_work (wk_peer w) (wk_request w) WorkRunning (ap_db s))" and "cl_peer c = wk_peer w" and "cl_turn c = wk_turn w"
proof -
  obtain w ctx where w: "find (can_start (ap_db s)) (db_work (ap_db s)) = Some w" and st: "start_work lib env w ctx s = (Inr (Some c), s1)"
    using assms
    by (auto simp: claim_work_def transaction_def run_then_def db_query_def query_def returns_def
        split: sum.splits prod.splits option.splits if_splits)
  let ?s0 = "s\<lparr>ap_db := set_work (wk_peer w) (wk_request w) WorkRunning (ap_db s)\<rparr>"
  obtain event files s2 where a: "work_attachments lib env w event ?s0 = (Inr files, s2)"
    and r: "run_then (status lib env (wk_peer w) (with_text event) ''running'' ''Rem dispatch started'') (\<lambda>_.
             returns (Some \<lparr>cl_peer = wk_peer w, cl_event = with_text event, cl_turn = wk_turn w, cl_context = ctx,
               cl_attachments = files\<rparr>)) s2 = (Inr (Some c), s1)"
    using st by (auto simp: start_work_def after_change after_query dest: attachments_missing_none split: sum.splits prod.splits registry_error.splits)
  obtain v where v: "status lib env (wk_peer w) (with_text event) ''running'' ''Rem dispatch started'' s2 = (Inr v, s1)"
    and c: "c = \<lparr>cl_peer = wk_peer w, cl_event = with_text event, cl_turn = wk_turn w, cl_context = ctx, cl_attachments = files\<rparr>"
    using r by (auto simp: run_then_def returns_def split: prod.splits sum.splits)
  have "db_work (ap_db s2) = db_work (ap_db ?s0)"
    using work_safe.quiet.keeps_work_attachments [of lib env w event] a unfolding keeps_def by (metis snd_conv)
  moreover have "db_work (ap_db s1) = db_work (ap_db s2)"
    using work_safe.quiet.keeps_status [of lib env "wk_peer w" "with_text event" "''running''" "''Rem dispatch started''"] v
    unfolding keeps_def by (metis snd_conv)
  ultimately have "db_work (ap_db s1) = db_work (set_work (wk_peer w) (wk_request w) WorkRunning (ap_db s))" by simp
  then show thesis using w that c by simp
qed

text \<open>
  C2. Work is claimed at most once: after a claim has returned a request, no sequence of calls - crashes with
  recovery at the next start, cancellation, removal of the device and a new pairing included - makes the same request
  startable again, so its turn is never run a second time.
\<close>
theorem claimed_once:
  assumes "claim_work lib env s = (Inr (Some c), s1)" and "work_ok (ap_db s)" and "app_run lib (\<lambda>_. True) s1 t"
    and "find (can_start (ap_db s)) (db_work (ap_db s)) = Some w" and "find (can_start (ap_db t)) (db_work (ap_db t)) = Some w'"
  shows "(wk_peer w', wk_request w') \<noteq> (wk_peer w, wk_request w)"
proof
  assume same: "(wk_peer w', wk_request w') = (wk_peer w, wk_request w)"
  have s1: "db_work (ap_db s1) = db_work (set_work (wk_peer w) (wk_request w) WorkRunning (ap_db s))"
    using claim_starts [OF assms(1)] assms(4) by (metis option.inject)
  have ok1: "work_ok (ap_db s1)" using work_safe.keeps_claim assms(1,2) unfolding keeps_def by (metis snd_conv)
  have "w \<in> set (db_work (ap_db s))" using assms(4) by (auto simp: find_Some_iff)
  then have "running (wk_peer w) (wk_request w) (db_work (ap_db s1))" unfolding s1 by (rule set_work_running)
  then obtain x where x: "find_work (wk_peer w) (wk_request w) (ap_db s1) = Some x" "wk_state x = WorkRunning"
    by (auto simp: running_def find_work_def)
  obtain y where y: "find_work (wk_peer w) (wk_request w) (ap_db t) = Some y" "work_path WorkRunning (wk_state y)"
    using work_kept [OF assms(3) _ x(1)] ok1 x(2) by (auto simp: work_ok_def)
  have okt: "work_ok (ap_db t)" using work_safe.run_keeps [OF assms(3)] ok1 by blast
  have "find_work (wk_peer w') (wk_request w') (ap_db t) = Some w'" "wk_state w' = WorkAccepted"
    using can_start_running(1) [OF assms(5)] okt assms(5) by (auto simp: work_ok_def find_Some_iff can_start_def)
  then have "work_path WorkRunning WorkAccepted" using y same by simp
  moreover have "work_path st st' \<Longrightarrow> st \<noteq> WorkAccepted \<Longrightarrow> st' \<noteq> WorkAccepted" for st st'
    by (induction rule: rtranclp_induct) (auto simp: work_edge_simps)
  ultimately show False by blast
qed

section \<open>A full outbox\<close>

lemma emit_full: "outbox_events \<le> length (outbox_of p (ap_db s)) \<Longrightarrow> emit lib env p source kind body s = (Inl (PairingError ''outbox_quota''), s)"
  by (simp add: emit_def after_db_query need_def)

lemma claim_full:
  assumes "find (can_start (ap_db s)) (db_work (ap_db s)) = Some w"
    and "find_grant (wk_peer w) (wk_thread w) (ap_db s) = Some g" and "open_value lib (wk_peer w) (gr_context g) = Inr ctx"
    and "\<not> busy_locally env ctx" and "open_value lib (wk_peer w) (wk_event w) = Inr event" and "jget event ''payload'' = Some body"
    and "elements (jget_or (JList []) body ''attachment_ids'') = []" and "outbox_events \<le> length (outbox_of (wk_peer w) (ap_db s))"
  shows "claim_work lib env s = (Inl (PairingError ''outbox_quota''), s)"
proof -
  let ?s0 = "s\<lparr>ap_db := set_work (wk_peer w) (wk_request w) WorkRunning (ap_db s)\<rparr>"
  have full: "outbox_events \<le> length (outbox_of (wk_peer w) (ap_db ?s0))"
    using assms(8) by (simp add: outbox_of_def set_work_def set_works_def)
  have "work_attachments lib env w event ?s0 = (Inr [], ?s0)"
    using assms(6,7) by (simp add: work_attachments_def after_query item_def returns_def)
  moreover have "run_then (status lib env (wk_peer w) (with_text event) ''running'' ''Rem dispatch started'') k ?s0 =
      (Inl (PairingError ''outbox_quota''), ?s0)" for k :: "json \<Rightarrow> claimed option mail"
    unfolding status_def by (subst run_then_def) (simp add: emit_full [OF full])
  ultimately have "start_work lib env w ctx s = (Inl (PairingError ''outbox_quota''), ?s0)"
    using assms(5) by (simp add: start_work_def after_change after_query)
  then show ?thesis
    using assms(1-4) by (simp add: claim_work_def transaction_def after_db_query)
qed

text \<open>
  C7. When the oldest startable request belongs to a device whose outbox is full, a claim raises \<^verbatim>\<open>outbox_quota\<close> and
  changes nothing, so the next claim meets the same request: as long as that device stays away, the requests of all the
  other devices are not claimed either.
\<close>
theorem full_outbox_blocks_claims:
  assumes "find (can_start (ap_db s)) (db_work (ap_db s)) = Some w"
    and "find_grant (wk_peer w) (wk_thread w) (ap_db s) = Some g" and "open_value lib (wk_peer w) (gr_context g) = Inr ctx"
    and "\<not> busy_locally env ctx" and "open_value lib (wk_peer w) (wk_event w) = Inr event" and "jget event ''payload'' = Some body"
    and "elements (jget_or (JList []) body ''attachment_ids'') = []" and "outbox_events \<le> length (outbox_of (wk_peer w) (ap_db s))"
  shows "((\<lambda>s. snd (claim_work lib env s)) ^^ n) s = s \<and> claim_work lib env s = (Inl (PairingError ''outbox_quota''), s)"
  using claim_full [OF assms] by (induction n) simp_all

text \<open>
  C8. If a request was running when the desktop stopped and the outbox of its device is full, the recovery at
  the next start raises \<^verbatim>\<open>outbox_quota\<close> and changes nothing; the request is still running, and every further start
  fails in the same way.
\<close>
theorem full_outbox_blocks_recovery:
  assumes "filter (\<lambda>w. wk_state w = WorkRunning) (db_work (ap_db s)) = w # ws"
    and "open_value lib (wk_peer w) (wk_event w) = Inr event" and "outbox_events \<le> length (outbox_of (wk_peer w) (ap_db s))"
  shows "((\<lambda>s. snd (recover_work lib env s)) ^^ n) s = s \<and> recover_work lib env s = (Inl (PairingError ''outbox_quota''), s)"
proof -
  have "status lib env (wk_peer w) event ''outcome_unknown'' ''Desktop stopped during dispatch; review locally before retrying'' s =
      (Inl (PairingError ''outbox_quota''), s)"
    unfolding status_def by (rule emit_full [OF assms(3)])
  then have "recover_work lib env s = (Inl (PairingError ''outbox_quota''), s)"
    using assms(1,2) by (simp add: recover_work_def transaction_def after_db_query after_query run_then_def [of "run_then _ _"] run_then_def [of "collect _ _"])
  then show ?thesis by (induction n) simp_all
qed

section \<open>Delivery\<close>

text \<open>The events after a cursor, in the order of their numbers.\<close>
definition rows_after :: "string \<Rightarrow> int \<Rightarrow> app_db \<Rightarrow> outbox_row list" where
  "rows_after p after db = sort_key ob_sequence (filter (\<lambda>row. after < ob_sequence row) (outbox_of p db))"

text \<open>
  What a device receives that asks again and again from the last number it has seen, as \<^verbatim>\<open>sync.request\<close> answers it: what it has
  seen is deleted first, then the next page is read.
\<close>
fun deliver_pages :: "nat \<Rightarrow> string \<Rightarrow> int \<Rightarrow> nat \<Rightarrow> app_db \<Rightarrow> outbox_row list" where
  "deliver_pages 0 p after limit db = []"
| "deliver_pages (Suc k) p after limit db =
     (let db1 = prune_outbox p after db; page = pending_rows p after limit db1
      in if page = [] then [] else page @ deliver_pages k p (ob_sequence (last page)) limit db1)"

lemma pending_rows_after: "pending_rows p after limit db = take (min limit 100) (rows_after p after db)"
  by (simp add: pending_rows_def rows_after_def)

lemma rows_after_prune: "cursor \<le> after \<Longrightarrow> rows_after p after (prune_outbox p cursor db) = rows_after p after db"
  unfolding rows_after_def prune_outbox_def outbox_of_def Let_def by (auto intro!: arg_cong [of _ _ "sort_key ob_sequence"] filter_cong)

lemma last_page_above:
  assumes "sorted_wrt (<) (map ob_sequence (page @ rest))" and "page \<noteq> []"
  shows "row \<in> set page \<Longrightarrow> ob_sequence row \<le> ob_sequence (last page)" and "row \<in> set rest \<Longrightarrow> ob_sequence (last page) < ob_sequence row"
proof -
  have "sorted_wrt (<) (map ob_sequence ((butlast page @ [last page]) @ rest))" using assms by simp
  then show "row \<in> set rest \<Longrightarrow> ob_sequence (last page) < ob_sequence row"
    by (simp only: map_append sorted_wrt_append) auto
  have "sorted_wrt (<) (map ob_sequence (butlast page @ [last page]))" using assms by (simp add: sorted_wrt_append)
  then have "row \<in> set (butlast page @ [last page]) \<Longrightarrow> ob_sequence row \<le> ob_sequence (last page)"
    by (simp only: map_append sorted_wrt_append) auto
  then show "row \<in> set page \<Longrightarrow> ob_sequence row \<le> ob_sequence (last page)" using assms(2) by simp
qed

lemma rows_after_split:
  assumes "outbox_ok db" and "rows_after p after db = page @ rest" and "page \<noteq> []"
  shows "rows_after p (ob_sequence (last page)) db = rest" and "after < ob_sequence (last page)"
proof -
  let ?n = "ob_sequence (last page)"
  have sorted: "sorted (map ob_sequence (page @ rest))" using assms(2) unfolding rows_after_def by (metis sorted_sort_key)
  have members: "set (page @ rest) = {row \<in> set (outbox_of p db). after < ob_sequence row}"
    using assms(2) unfolding rows_after_def by (metis set_filter set_sort)
  have "last page \<in> set (page @ rest)" using assms(3) by simp
  then show above: "after < ?n" using members by blast
  have "distinct (map (\<lambda>row. (ob_peer row, ob_sequence row)) (outbox_of p db))"
    using outbox_okD(1) [OF assms(1)] by (simp add: outbox_of_def distinct_map_filter)
  then have "distinct (map ob_sequence (outbox_of p db))" by (auto simp: distinct_map inj_on_def outbox_of_def)
  then have "distinct (map ob_sequence (rows_after p after db))"
    by (simp add: rows_after_def distinct_map inj_on_def)
  then have strict: "sorted_wrt (<) (map ob_sequence (page @ rest))" using sorted assms(2) by (simp add: strict_sorted_iff)
  have "filter (\<lambda>row. ?n < ob_sequence row) (page @ rest) = rest"
    using last_page_above [OF strict assms(3)] by (fastforce simp: filter_empty_conv filter_id_conv)
  moreover have "rows_after p ?n db = filter (\<lambda>row. ?n < ob_sequence row) (rows_after p after db)"
    unfolding rows_after_def filter_sort filter_filter using above by (auto intro!: arg_cong [of _ _ "sort_key ob_sequence"] filter_cong)
  ultimately show "rows_after p ?n db = rest" using assms(2) by simp
qed

lemma prune_outbox_ok: "outbox_ok db \<Longrightarrow> outbox_ok (prune_outbox p cursor db)"
  by (rule outbox_filter [of db]) (auto simp: prune_outbox_def Let_def last_number_def)

lemma deliver_rows:
  "outbox_ok db \<Longrightarrow> 0 < limit \<Longrightarrow> length (rows_after p after db) \<le> k \<Longrightarrow> deliver_pages k p after limit db = rows_after p after db"
proof (induction k arbitrary: after db)
  case (Suc k)
  let ?db = "prune_outbox p after db"
  let ?page = "pending_rows p after limit ?db"
  have rows: "rows_after p after ?db = rows_after p after db" by (simp add: rows_after_prune)
  show ?case
  proof (cases "?page = []")
    case True
    then show ?thesis using Suc.prems(2) rows by (auto simp: pending_rows_after Let_def)
  next
    case False
    obtain rest where rest: "rows_after p after ?db = ?page @ rest"
      unfolding pending_rows_after by (metis append_take_drop_id)
    note step = rows_after_split [OF prune_outbox_ok [OF Suc.prems(1)] rest False]
    have "length rest \<le> k" using Suc.prems(3) rest rows False by (cases ?page) auto
    then have "deliver_pages k p (ob_sequence (last ?page)) limit ?db = rest"
      using Suc.IH [OF prune_outbox_ok [OF Suc.prems(1)] Suc.prems(2)] step(1) by simp
    then show ?thesis using False rest rows by (simp add: Let_def)
  qed
qed simp


end
