(* ===== verification/Mailbox_Sample.thy ===== *)
theory Mailbox_Sample
  imports Mailbox_Behaviour Device_Sample
begin

text \<open>
  A phone that submits one message and a desktop that claims it: the hypotheses of the mailbox
  theorems can hold. The cipher and the digest of the sample are those of the enrolled desktops.
\<close>

definition phone :: peer where
  "phone = (new_peer 0 ''g'' id_b pin_b ''mobile'' 100 False)\<lparr>peer_state := Active\<rparr>"

definition empty_mail :: app where
  "empty_mail = \<lparr>ap_db = \<lparr>db_registry = registry_a\<lparr>reg_peers := [phone]\<rparr>, db_files = [], db_grants = [], db_inbox = [], db_reads = [],
     db_work = [], db_attachments = [], db_transcript = [], db_sequences = [], db_receipts = [], db_jobs = [], db_sends = [], db_requests = [],
     db_cancels = [], db_results = [], db_outbox = [], db_hosts = [], db_threads = [], db_cursors = [], db_snapshots = []\<rparr>,
     ap_disk = [], ap_draws = 0\<rparr>"

definition mail_env :: app_env where
  "mail_env = \<lparr>ae_clock = 1, ae_nonce = (\<lambda>_. nonce_0), ae_uuid = (\<lambda>_. id_a), ae_uuid5 = (\<lambda>_. id_a),
     ae_files = (\<lambda>_. \<lparr>fe_unlink = 1, fe_delete = 1, fe_clock = 1, fe_free = 1000000000, fe_nonce = (\<lambda>_. nonce_0)\<rparr>),
     ae_valid = (\<lambda>_. True), ae_local = None, ae_other = (\<lambda>_ _ _. Inr None),
     ae_branch = (\<lambda>_ _ _. Inl (PairingError ''thread_unavailable'')), ae_rem_files = (\<lambda>_ _ _. False), ae_details = (\<lambda>_ _ _ _ _. []),
     ae_connection = (\<lambda>_ _. []), ae_deleting = (\<lambda>_ _ _. False), ae_named = (\<lambda>_ _ _ s. Inr (db_grants (ap_db s))),
     ae_finished = (\<lambda>_ _ _. Inr None)\<rparr>"

definition sample_scope :: json where
  "sample_scope = JObj [(''provider'', JStr ''p''), (''model'', JStr ''m'')]"

definition message :: json where
  "message = JObj [(''id'', JStr ''e1''), (''thread_id'', JStr id_a), (''request_id'', JStr ''r1''), (''sequence'', JInt 1),
     (''type'', JStr ''chat.submit''), (''payload'', JObj [(''text'', JStr ''hi'')])]"

definition granted_mail :: app where "granted_mail = perform_app sample_lib mail_env (Authorize id_b id_a sample_scope) empty_mail"
definition accepted_mail :: app where "accepted_mail = perform_app sample_lib mail_env (HandleEvent id_b message) granted_mail"
definition claimed_mail :: app where "claimed_mail = perform_app sample_lib mail_env ClaimWork accepted_mail"

lemma one_call: "(\<And>p b. q = RemovePeer p b \<Longrightarrow> allowed p) \<Longrightarrow> app_run lib allowed s (perform_app lib env q s)"
  by (intro app_run.called app_run.start) simp

lemma sample_run: "app_run sample_lib (\<lambda>_. True) empty_mail claimed_mail"
  unfolding claimed_mail_def accepted_mail_def granted_mail_def by (intro app_run.called app_run.start) simp_all

lemma empty_mail_tables:
  "db_inbox (ap_db empty_mail) = []" "db_reads (ap_db empty_mail) = []" "db_outbox (ap_db empty_mail) = []" "db_work (ap_db empty_mail) = []"
  by (simp_all add: empty_mail_def)

theorem mailbox_invariant_witness: "inbox_ok (ap_db claimed_mail) \<and> outbox_ok (ap_db claimed_mail) \<and> work_ok (ap_db claimed_mail)"
  by (rule mailbox_invariant [OF sample_run empty_mail_tables])

section \<open>An event in the outbox\<close>

lemma emit_succeeds:
  assumes "length (outbox_of p (ap_db s)) < outbox_events"
    and "event = event_document (ae_uuid env (ap_draws s)) (jget_or JNull source ''thread_id'') (jget_or JNull source ''request_id'')
      (next_number p (ap_db s)) kind body"
    and "ae_valid env event" and "nonce = ae_nonce env (Suc (ap_draws s))"
    and "blob = nonce @ lib_encrypt lib nonce (dumps (lib_io lib) esc_ascii event) (app_aad p)"
    and "used_bytes p (ap_db s) + length blob \<le> outbox_bytes"
  shows "emit lib env p source kind body s = (Inr event, s\<lparr>ap_db := (ap_db s)\<lparr>
    db_sequences := dset p (next_number p (ap_db s)) (db_sequences (ap_db s)),
    db_outbox := db_outbox (ap_db s) @ [\<lparr>ob_sequence = next_number p (ap_db s), ob_peer = p, ob_event = blob\<rparr>]\<rparr>, ap_draws := ap_draws s + 2\<rparr>)"
  using assms(1,3,6) unfolding assms(2,4,5)
  by (simp add: emit_def after_db_query need_def run_then_def draw_def next_outbound_sequence_def db_query_def query_def db_change_def change_def
      returns_def validate_event_def seal_value_def Let_def)

definition unknown_event :: json where
  "unknown_event = JObj [(''id'', JStr ''e1''), (''sequence'', JInt 1), (''type'', JStr ''x''), (''payload'', JObj [])]"

definition recorded_mail :: app where
  "recorded_mail = snd (record_inbound mail_env id_b unknown_event ''c0'' empty_mail)"

definition answer_event :: json where
  "answer_event = event_document id_a JNull JNull 1 ''error'' (error_payload ''unsupported'' ''This application operation is not enabled'')"

definition answered_mail :: app where
  "answered_mail = recorded_mail\<lparr>ap_db := (ap_db recorded_mail)\<lparr>db_sequences := [(id_b, 1)],
     db_outbox := [\<lparr>ob_sequence = 1, ob_peer = id_b, ob_event = nonce_0 @ dumps no_floats esc_ascii answer_event\<rparr>]\<rparr>, ap_draws := 2\<rparr>"

lemma recorded_steps:
  "check_trusted id_b (ap_db empty_mail) = Inr ()" "item_text unknown_event ''id'' = Inr ''e1''" "item_int unknown_event ''sequence'' = Inr 1"
  "prior_digest id_b ''e1'' (ap_db empty_mail) = None" "number_free id_b 1 (ap_db empty_mail) = Inr ()"
  "fst (record_inbound mail_env id_b unknown_event ''c0'' empty_mail) = Inr ()"
  "outbox_of id_b (ap_db recorded_mail) = []" "used_bytes id_b (ap_db recorded_mail) = 0" "next_number id_b (ap_db recorded_mail) = 1"
  "ap_draws recorded_mail = 0" "db_sequences (ap_db recorded_mail) = []" "db_outbox (ap_db recorded_mail) = []"
  by code_simp+

lemma sample_limits: "inbox_room id_b unknown_event (ap_db empty_mail) = Inr ()"
  "length (nonce_0 @ dumps no_floats esc_ascii answer_event) < 1000"
   apply (simp add: inbox_room_def empty_mail_def inbox_limit_def)
  apply code_simp
  done

lemma sample_answered:
  "dispatch_event sample_lib mail_env id_b unknown_event recorded_mail = (Inr [answer_event], answered_mail)"
proof -
  have "emit sample_lib mail_env id_b unknown_event ''error'' (error_payload ''unsupported'' ''This application operation is not enabled'') recorded_mail =
      (Inr answer_event, answered_mail)"
    by (subst emit_succeeds [where event = answer_event and nonce = nonce_0 and blob = "nonce_0 @ dumps no_floats esc_ascii answer_event"])
      (use sample_limits(2) in \<open>simp_all add: recorded_steps answered_mail_def answer_event_def mail_env_def unknown_event_def
        outbox_events_def outbox_bytes_def sample_lib_def\<close>)
  then show ?thesis
    by (simp add: dispatch_event_def after_query run_then_def [of "emit _ _ _ _ _ _"] returns_def item_text_def item_def unknown_event_def mail_env_def file_kinds_def)
qed

lemma sample_handled:
  "handle_event sample_lib mail_env id_b unknown_event (event_digest sample_lib unknown_event) empty_mail = (Inr [answer_event], answered_mail)"
proof -
  have "record_inbound mail_env id_b unknown_event ''c0'' empty_mail = (Inr (), recorded_mail)"
    using recorded_steps(6) by (simp add: recorded_mail_def prod_eq_iff)
  then show ?thesis
    by (simp add: handle_event_def transaction_def after_db_query after_query recorded_steps sample_limits(1) event_digest_def sample_lib_parts
        run_then_def [of "record_inbound _ _ _ _"] sample_answered)
qed

lemma answered_run: "app_run sample_lib (\<lambda>_. True) empty_mail answered_mail"
proof -
  have "perform_app sample_lib mail_env (HandleEvent id_b unknown_event) empty_mail = answered_mail"
    using sample_handled by (simp add: handle_def mail_env_def [THEN arg_cong, of ae_valid])
  then show ?thesis using one_call [of "HandleEvent id_b unknown_event" "\<lambda>_. True" sample_lib empty_mail mail_env] by simp
qed

definition later_mail :: app where "later_mail = perform_app sample_lib mail_env ClaimWork answered_mail"

lemma later_run: "app_run sample_lib (\<lambda>q. q \<noteq> id_b) answered_mail later_mail"
  unfolding later_mail_def by (intro app_run.called app_run.start) simp

lemma answered_tables:
  "outbox_of id_b (ap_db answered_mail) = [\<lparr>ob_sequence = 1, ob_peer = id_b, ob_event = nonce_0 @ dumps no_floats esc_ascii answer_event\<rparr>]"
  "check_trusted id_b (ap_db answered_mail) = Inr ()" "db_work (ap_db answered_mail) = []"
proof -
  show "outbox_of id_b (ap_db answered_mail) = [\<lparr>ob_sequence = 1, ob_peer = id_b, ob_event = nonce_0 @ dumps no_floats esc_ascii answer_event\<rparr>]"
    by (simp add: outbox_of_def answered_mail_def)
  have "check_trusted id_b (ap_db recorded_mail) = Inr ()" "db_work (ap_db recorded_mail) = []" by code_simp+
  then show "check_trusted id_b (ap_db answered_mail) = Inr ()" "db_work (ap_db answered_mail) = []"
    by (simp_all add: answered_mail_def check_trusted_def)
qed

lemma later_same: "later_mail = answered_mail"
  by (simp add: later_mail_def claim_work_def transaction_def after_db_query answered_tables returns_def)

theorem redelivery_has_no_effect_witness:
  "handle sample_lib mail_env id_b unknown_event later_mail = pending sample_lib id_b 0 100 later_mail \<and>
    snd (handle sample_lib mail_env id_b unknown_event later_mail) = later_mail"
  by (rule redelivery_has_no_effect [OF sample_handled recorded_steps(2,4) _ later_run])
    (simp_all add: later_same answered_tables mail_env_def, code_simp)

theorem numbers_never_reused_witness:
  "hd (outbox_of id_b (ap_db later_mail)) = hd (outbox_of id_b (ap_db answered_mail))"
  by (rule numbers_never_reused [OF answered_run empty_mail_tables(3) later_run]) (simp_all add: later_same answered_tables)


section \<open>Two requests\<close>

definition request_text :: string where
  "request_text = nonce_0 @ dumps no_floats esc_ascii (JObj [(''thread_id'', JStr id_a), (''request_id'', JStr ''r1''), (''payload'', JObj [])])"

definition scope_text :: string where
  "scope_text = nonce_0 @ dumps no_floats esc_ascii sample_scope"

definition work_of :: "string \<Rightarrow> string \<Rightarrow> work_state \<Rightarrow> work_row" where
  "work_of request thread state = \<lparr>wk_peer = id_b, wk_request = request, wk_thread = thread, wk_event = request_text, wk_state = state, wk_turn = ''t''\<rparr>"

definition grant_of :: "string \<Rightarrow> grant_row" where
  "grant_of thread = \<lparr>gr_peer = id_b, gr_thread = thread, gr_context = scope_text\<rparr>"

definition waiting_mail :: app where
  "waiting_mail = empty_mail\<lparr>ap_db := (ap_db empty_mail)\<lparr>db_grants := [grant_of id_a, grant_of id_b],
     db_work := [work_of ''r1'' id_a WorkAccepted, work_of ''r2'' id_b WorkAccepted]\<rparr>\<rparr>"

lemma waiting_ok: "work_ok (ap_db waiting_mail)"
proof -
  have "length (filter (\<lambda>w. wk_peer w = p \<and> open_state (wk_state w)) ws) \<le> length ws" for p and ws :: "work_row list" by simp
  then show ?thesis
    by (auto simp: work_ok_def waiting_mail_def one_running_def work_of_def work_limit_def)
qed

lemma waiting_found: "find_work id_b ''r1'' (ap_db waiting_mail) = Some (work_of ''r1'' id_a WorkAccepted)"
  by code_simp

lemma waiting_first: "find (can_start (ap_db waiting_mail)) (db_work (ap_db waiting_mail)) = Some (work_of ''r1'' id_a WorkAccepted)"
  by code_simp

definition request_event :: json where
  "request_event = JObj [(''thread_id'', JStr id_a), (''request_id'', JStr ''r1''), (''payload'', JObj [])]"

lemma sample_open_sealed: "printable no_floats v \<Longrightarrow> open_value sample_lib p (nonce_0 @ dumps no_floats esc_ascii v) = Inr v"
  using ascii_escape.loads_dumps [of no_floats v False] by (simp add: open_value_def sample_lib_def nonce_0_def)

lemma sample_opened: "open_value sample_lib id_b scope_text = Inr sample_scope" "open_value sample_lib id_b request_text = Inr request_event"
  unfolding scope_text_def request_text_def request_event_def
  by (rule sample_open_sealed; simp add: sample_scope_def utf8_ok_ascii utf8_ok_plain [OF uuid_text [OF ids(1), THEN conjunct1]])+

lemma sample_grant: "find_grant id_b id_a (ap_db waiting_mail) = Some (grant_of id_a)" "\<not> busy_locally mail_env sample_scope"
  by code_simp+

definition started_mail :: app where
  "started_mail = waiting_mail\<lparr>ap_db := set_work id_b ''r1'' WorkRunning (ap_db waiting_mail)\<rparr>"

definition running_event :: json where
  "running_event = event_document id_a (JStr id_a) (JStr ''r1'') 1 ''request.status''
     [(''status'', JStr ''running''), (''detail'', JStr ''Rem dispatch started'')]"

definition running_mail :: app where
  "running_mail = started_mail\<lparr>ap_db := (ap_db started_mail)\<lparr>db_sequences := [(id_b, 1)],
     db_outbox := [\<lparr>ob_sequence = 1, ob_peer = id_b, ob_event = nonce_0 @ dumps no_floats esc_ascii running_event\<rparr>]\<rparr>, ap_draws := 2\<rparr>"

lemma started_tables: "db_outbox (ap_db started_mail) = []" "db_sequences (ap_db started_mail) = []" "db_requests (ap_db started_mail) = []"
  "ap_draws started_mail = 0" "db_grants (ap_db started_mail) = [grant_of id_a, grant_of id_b]"
  "db_registry (ap_db started_mail) = registry_a\<lparr>reg_peers := [phone]\<rparr>"
  "db_work (ap_db started_mail) = [work_of ''r1'' id_a WorkRunning, work_of ''r2'' id_b WorkAccepted]"
  by (simp_all add: started_mail_def waiting_mail_def empty_mail_def set_work_def set_works_def work_of_def)

lemma running_size: "length (nonce_0 @ dumps no_floats esc_ascii running_event) < 1000"
  by code_simp

lemma running_emitted:
  "status sample_lib mail_env id_b (with_text request_event) ''running'' ''Rem dispatch started'' started_mail = (Inr running_event, running_mail)"
  unfolding status_def
  by (subst emit_succeeds [where event = running_event and nonce = nonce_0 and blob = "nonce_0 @ dumps no_floats esc_ascii running_event"])
    (use running_size in \<open>simp_all add: started_tables running_event_def request_event_def with_text_def mail_env_def outbox_of_def used_bytes_def
      next_number_def dget_or_def outbox_events_def outbox_bytes_def sample_lib_def dsetdefault_def running_mail_def\<close>)

lemma sample_claim_result: "\<exists>c. claim_work sample_lib mail_env waiting_mail = (Inr (Some c), running_mail)"
proof -
  have "work_attachments sample_lib mail_env (work_of ''r1'' id_a WorkAccepted) request_event started_mail = (Inr [], started_mail)"
    by (simp add: work_attachments_def after_query item_def request_event_def returns_def)
  then have "\<exists>c. start_work sample_lib mail_env (work_of ''r1'' id_a WorkAccepted) sample_scope waiting_mail = (Inr (Some c), running_mail)"
    using running_emitted sample_opened(2)
    by (simp add: start_work_def after_change after_query work_of_def started_mail_def [symmetric] run_then_def [of "status _ _ _ _ _ _"] returns_def)
  then show ?thesis
    using sample_opened(1) sample_grant by (auto simp: claim_work_def transaction_def after_db_query waiting_first work_of_def grant_of_def)
qed

lemma running_next: "find (can_start (ap_db running_mail)) (db_work (ap_db running_mail)) = Some (work_of ''r2'' id_b WorkAccepted)"
proof -
  have "id_a \<noteq> id_b" by code_simp
  moreover have "peer_id phone = id_b" "peer_state phone = Active" by (simp_all add: phone_def new_peer_def)
  ultimately show ?thesis
    by (simp add: running_mail_def started_tables can_start_def active_peer_def has_grant_def work_of_def grant_of_def)
qed

theorem claimed_once_witness:
  "\<exists>c w. claim_work sample_lib mail_env waiting_mail = (Inr (Some c), running_mail) \<and>
    find (can_start (ap_db running_mail)) (db_work (ap_db running_mail)) = Some w \<and> (wk_peer w, wk_request w) \<noteq> (id_b, ''r1'')"
proof -
  obtain c where c: "claim_work sample_lib mail_env waiting_mail = (Inr (Some c), running_mail)" using sample_claim_result by blast
  from claimed_once [OF c waiting_ok app_run.start waiting_first running_next]
  have "(wk_peer (work_of ''r2'' id_b WorkAccepted), wk_request (work_of ''r2'' id_b WorkAccepted)) \<noteq> (id_b, ''r1'')" by (simp add: work_of_def)
  then show ?thesis using c running_next by blast
qed

theorem work_life_cycle_witness:
  "\<exists>w. find_work id_b ''r1'' (ap_db running_mail) = Some w \<and> work_path WorkAccepted (wk_state w) \<and> wk_turn w = ''t'' \<and> wk_thread w = id_a"
proof -
  have "app_run sample_lib (\<lambda>_. True) waiting_mail running_mail"
    using one_call [of ClaimWork "\<lambda>_. True" sample_lib waiting_mail mail_env] sample_claim_result by auto
  from work_life_cycle [OF this waiting_ok waiting_found] show ?thesis by (auto simp: work_of_def)
qed

definition full_mail :: app where
  "full_mail = waiting_mail\<lparr>ap_db := (ap_db waiting_mail)\<lparr>
     db_outbox := map (\<lambda>k. \<lparr>ob_sequence = int k + 1, ob_peer = id_b, ob_event = []\<rparr>) [0..<outbox_events]\<rparr>\<rparr>"

lemma full_tables:
  "find (can_start (ap_db full_mail)) (db_work (ap_db full_mail)) = Some (work_of ''r1'' id_a WorkAccepted)"
  "find_grant id_b id_a (ap_db full_mail) = Some (grant_of id_a)" "length (outbox_of id_b (ap_db full_mail)) = outbox_events"
proof -
  have "can_start (ap_db full_mail) = can_start (ap_db waiting_mail)" "db_work (ap_db full_mail) = db_work (ap_db waiting_mail)"
    by (simp_all add: fun_eq_iff can_start_def active_peer_def has_grant_def full_mail_def)
  then show "find (can_start (ap_db full_mail)) (db_work (ap_db full_mail)) = Some (work_of ''r1'' id_a WorkAccepted)"
    using waiting_first by simp
  show "find_grant id_b id_a (ap_db full_mail) = Some (grant_of id_a)"
    using sample_grant(1) by (simp add: find_grant_def full_mail_def)
  have "filter (\<lambda>row. ob_peer row = id_b) (map (\<lambda>k. \<lparr>ob_sequence = int k + 1, ob_peer = id_b, ob_event = []\<rparr>) ks) =
      map (\<lambda>k. \<lparr>ob_sequence = int k + 1, ob_peer = id_b, ob_event = []\<rparr>) ks" for ks :: "nat list"
    by (induction ks) simp_all
  then show "length (outbox_of id_b (ap_db full_mail)) = outbox_events" by (simp add: outbox_of_def full_mail_def)
qed

theorem full_outbox_blocks_claims_witness:
  "((\<lambda>s. snd (claim_work sample_lib mail_env s)) ^^ 3) full_mail = full_mail \<and>
    claim_work sample_lib mail_env full_mail = (Inl (PairingError ''outbox_quota''), full_mail)"
  using full_outbox_blocks_claims [OF full_tables(1), of "grant_of id_a" sample_lib sample_scope mail_env request_event "JObj []" 3]
    full_tables(2,3) sample_opened sample_grant(2) by (simp add: work_of_def grant_of_def request_event_def)

definition stopped_mail :: app where
  "stopped_mail = full_mail\<lparr>ap_db := (ap_db full_mail)\<lparr>db_work := [work_of ''r1'' id_a WorkRunning]\<rparr>\<rparr>"

theorem full_outbox_blocks_recovery_witness:
  "((\<lambda>s. snd (recover_work sample_lib mail_env s)) ^^ 3) stopped_mail = stopped_mail \<and>
    recover_work sample_lib mail_env stopped_mail = (Inl (PairingError ''outbox_quota''), stopped_mail)"
proof (rule full_outbox_blocks_recovery)
  show "filter (\<lambda>w. wk_state w = WorkRunning) (db_work (ap_db stopped_mail)) = work_of ''r1'' id_a WorkRunning # []"
    by (simp add: stopped_mail_def work_of_def)
  show "outbox_events \<le> length (outbox_of (wk_peer (work_of ''r1'' id_a WorkRunning)) (ap_db stopped_mail))"
    using full_tables(3) by (simp add: stopped_mail_def work_of_def outbox_of_def)
  show "open_value sample_lib (wk_peer (work_of ''r1'' id_a WorkRunning)) (wk_event (work_of ''r1'' id_a WorkRunning)) = Inr request_event"
    using sample_opened(2) by (simp add: work_of_def)
qed

end
